(* ===== verification/Prelude.thy ===== *)
theory Prelude
  imports Main "HOL-Library.AList" "HOL-Library.Sublist" "HOL-Library.Multiset"
begin

text \<open>
  Shared ground of the development: the parts of the Rust standard library that the
  modelled code uses (signed 64-bit integers, byte strings, hash maps, stable sorting,
  \<open>max_by_key\<close>), and the generic lemmas about them.

  \<^item> \<open>i64\<close> values are integers. The operations \<open>i64_add\<close>, \<open>i64_sub\<close> and \<open>i64_mul\<close> wrap
    at 64 bits, as the release profile of the workspace does (it does not switch
    \<open>overflow-checks\<close> on); the saturating operations clamp.
  \<^item> A \<open>String\<close> or \<open>&str\<close> is the list of its UTF-8 bytes.
  \<^item> A \<open>HashMap\<close> is an association list with distinct keys; where the code iterates
    over a map, the order of the list is the (unspecified) iteration order, so a
    theorem for every list holds for every order.
\<close>

named_theorems i64_simps "arithmetic on i64 values that stay in range"
named_theorems std_simps "characteristic equations of the standard-library model"

section \<open>Signed 64-bit integers\<close>

type_synonym i64 = int

definition i64_min :: int where "i64_min = - (2 ^ 63)"
definition i64_max :: int where "i64_max = 2 ^ 63 - 1"

definition in_i64 :: "int \<Rightarrow> bool" where
  "in_i64 x \<longleftrightarrow> i64_min \<le> x \<and> x \<le> i64_max"

definition i64_wrap :: "int \<Rightarrow> i64" where
  "i64_wrap x = signed_take_bit 63 x"

definition i64_add :: "i64 \<Rightarrow> i64 \<Rightarrow> i64" where "i64_add a b = i64_wrap (a + b)"
definition i64_sub :: "i64 \<Rightarrow> i64 \<Rightarrow> i64" where "i64_sub a b = i64_wrap (a - b)"
definition i64_mul :: "i64 \<Rightarrow> i64 \<Rightarrow> i64" where "i64_mul a b = i64_wrap (a * b)"
definition i64_abs :: "i64 \<Rightarrow> i64" where "i64_abs a = i64_wrap \<bar>a\<bar>"

definition i64_saturate :: "int \<Rightarrow> i64" where
  "i64_saturate x = max i64_min (min i64_max x)"

definition i64_saturating_mul :: "i64 \<Rightarrow> i64 \<Rightarrow> i64" where
  "i64_saturating_mul a b = i64_saturate (a * b)"

definition i64_saturating_sub :: "i64 \<Rightarrow> i64 \<Rightarrow> i64" where
  "i64_saturating_sub a b = i64_saturate (a - b)"

text \<open>Rust's integer division truncates towards zero.\<close>

definition i64_div :: "i64 \<Rightarrow> i64 \<Rightarrow> i64" where
  "i64_div a b = i64_wrap (sgn a * sgn b * (\<bar>a\<bar> div \<bar>b\<bar>))"

lemma i64_wrap_id [i64_simps]: "in_i64 x \<Longrightarrow> i64_wrap x = x"
  unfolding in_i64_def i64_min_def i64_max_def i64_wrap_def
  by (intro signed_take_bit_int_eq_self) auto

lemma in_i64_wrap [simp]: "in_i64 (i64_wrap x)"
proof -
  have "i64_wrap x < 2 ^ 63"
    unfolding i64_wrap_def by (rule signed_take_bit_int_less_exp)
  moreover have "- (2 ^ 63) \<le> i64_wrap x"
    unfolding i64_wrap_def by (rule signed_take_bit_int_greater_eq_minus_exp)
  ultimately show ?thesis by (simp add: in_i64_def i64_min_def i64_max_def)
qed

lemma in_i64_sub [simp]: "in_i64 (i64_sub a b)"
  and in_i64_add [simp]: "in_i64 (i64_add a b)"
  and in_i64_mul [simp]: "in_i64 (i64_mul a b)"
  by (simp_all add: i64_sub_def i64_add_def i64_mul_def)

lemma in_i64_saturate [simp]: "in_i64 (i64_saturate x)"
  by (auto simp: in_i64_def i64_saturate_def i64_min_def i64_max_def)

lemma i64_saturate_id [i64_simps]: "in_i64 x \<Longrightarrow> i64_saturate x = x"
  by (auto simp: in_i64_def i64_saturate_def)

text \<open>
  A time stamp or duration is \<^emph>\<open>moderate\<close> when its magnitude is at most \<open>2 ^ 61\<close>
  milliseconds (more than seventy million years): sums and differences of moderate values do
  not overflow.
\<close>

definition moderate :: "int \<Rightarrow> bool" where
  "moderate x \<longleftrightarrow> \<bar>x\<bar> \<le> 2 ^ 61"

lemma moderate_in_i64: "moderate x \<Longrightarrow> in_i64 x"
  by (auto simp: moderate_def in_i64_def i64_min_def i64_max_def)

lemma i64_sub_moderate [i64_simps]:
  "moderate a \<Longrightarrow> moderate b \<Longrightarrow> i64_sub a b = a - b"
  unfolding i64_sub_def
  by (intro i64_wrap_id) (auto simp: moderate_def in_i64_def i64_min_def i64_max_def)

lemma i64_add_moderate [i64_simps]:
  "moderate a \<Longrightarrow> moderate b \<Longrightarrow> i64_add a b = a + b"
  unfolding i64_add_def
  by (intro i64_wrap_id) (auto simp: moderate_def in_i64_def i64_min_def i64_max_def)

lemma i64_sub_self [simp]: "i64_sub a a = 0"
  by (simp add: i64_sub_def i64_wrap_def)

section \<open>Byte strings\<close>

definition starts_with :: "string \<Rightarrow> string \<Rightarrow> bool" where
  "starts_with s p = prefix p s"

definition ends_with :: "string \<Rightarrow> string \<Rightarrow> bool" where
  "ends_with s p = suffix p s"

fun contains_str :: "string \<Rightarrow> string \<Rightarrow> bool" where
  "contains_str [] p = (p = [])"
| "contains_str (c # cs) p = (prefix p (c # cs) \<or> contains_str cs p)"

definition strip_prefix :: "string \<Rightarrow> string \<Rightarrow> string option" where
  "strip_prefix s p = (if prefix p s then Some (drop (length p) s) else None)"

definition strip_suffix :: "string \<Rightarrow> string \<Rightarrow> string option" where
  "strip_suffix s p = (if suffix p s then Some (take (length s - length p) s) else None)"

lemma contains_str_iff_sublist: "contains_str s p \<longleftrightarrow> sublist p s"
proof (induction s)
  case Nil
  then show ?case by simp
next
  case (Cons c s)
  then show ?case by (simp add: sublist_Cons_right)
qed

lemma contains_str_trans:
  "contains_str s t \<Longrightarrow> contains_str t u \<Longrightarrow> contains_str s u"
  by (auto simp: contains_str_iff_sublist intro: sublist_order.order.trans)

definition is_ascii_upper :: "char \<Rightarrow> bool" where
  "is_ascii_upper c \<longleftrightarrow> 65 \<le> (of_char c :: nat) \<and> (of_char c :: nat) \<le> 90"

definition to_ascii_lower_char :: "char \<Rightarrow> char" where
  "to_ascii_lower_char c = (if is_ascii_upper c then char_of ((of_char c :: nat) + 32) else c)"

definition to_ascii_lowercase :: "string \<Rightarrow> string" where
  "to_ascii_lowercase s = map to_ascii_lower_char s"

lemma to_ascii_lower_char_idem [simp]:
  "to_ascii_lower_char (to_ascii_lower_char c) = to_ascii_lower_char c"
proof (cases "is_ascii_upper c")
  case True
  then have b: "65 \<le> (of_char c :: nat)" "(of_char c :: nat) \<le> 90"
    by (simp_all add: is_ascii_upper_def)
  then have "(of_char (char_of ((of_char c :: nat) + 32) :: char) :: nat) = of_char c + 32"
    by (simp add: of_char_of)
  with b show ?thesis
    by (simp add: to_ascii_lower_char_def is_ascii_upper_def)
next
  case False
  then show ?thesis by (simp add: to_ascii_lower_char_def)
qed

lemma to_ascii_lowercase_idem [simp]:
  "to_ascii_lowercase (to_ascii_lowercase s) = to_ascii_lowercase s"
  by (simp add: to_ascii_lowercase_def)

definition eq_ignore_ascii_case :: "string \<Rightarrow> string \<Rightarrow> bool" where
  "eq_ignore_ascii_case s t \<longleftrightarrow> to_ascii_lowercase s = to_ascii_lowercase t"

text \<open>
  \<open>str::trim\<close> removes the characters with the Unicode property \<open>White_Space\<close>; these are
  their UTF-8 encodings.
\<close>

definition ws_encodings :: "string list" where
  "ws_encodings =
     map (\<lambda>n. [char_of (n :: nat)]) [0x09, 0x0A, 0x0B, 0x0C, 0x0D, 0x20] @
     map (map (char_of :: nat \<Rightarrow> char))
       [[0xC2, 0x85], [0xC2, 0xA0], [0xE1, 0x9A, 0x80],
        [0xE2, 0x80, 0x80], [0xE2, 0x80, 0x81], [0xE2, 0x80, 0x82], [0xE2, 0x80, 0x83],
        [0xE2, 0x80, 0x84], [0xE2, 0x80, 0x85], [0xE2, 0x80, 0x86], [0xE2, 0x80, 0x87],
        [0xE2, 0x80, 0x88], [0xE2, 0x80, 0x89], [0xE2, 0x80, 0x8A], [0xE2, 0x80, 0xA8],
        [0xE2, 0x80, 0xA9], [0xE2, 0x80, 0xAF], [0xE2, 0x81, 0x9F], [0xE3, 0x80, 0x80]]"

function strip_front :: "string list \<Rightarrow> string \<Rightarrow> string" where
  "strip_front ws s =
     (case find (\<lambda>w. w \<noteq> [] \<and> prefix w s) ws of
        None \<Rightarrow> s
      | Some w \<Rightarrow> strip_front ws (drop (length w) s))"
  by pat_completeness auto
termination
proof (relation "measure (\<lambda>(ws, s). length s)", simp)
  fix ws :: "string list" and s w
  assume "find (\<lambda>w. w \<noteq> [] \<and> prefix w s) ws = Some w"
  then have "w \<noteq> []" "prefix w s"
    by (auto simp: find_Some_iff)
  then show "((ws, drop (length w) s), (ws, s)) \<in> measure (\<lambda>(ws, s). length s)"
    by (cases s) auto
qed

declare strip_front.simps [simp del]

definition trim_start :: "string \<Rightarrow> string" where
  "trim_start s = strip_front ws_encodings s"

definition trim_end :: "string \<Rightarrow> string" where
  "trim_end s = rev (strip_front (map rev ws_encodings) (rev s))"

definition trim :: "string \<Rightarrow> string" where
  "trim s = trim_end (trim_start s)"

fun split_on :: "char \<Rightarrow> string \<Rightarrow> string list" where
  "split_on d [] = [[]]"
| "split_on d (c # cs) =
     (if c = d then [] # split_on d cs
      else case split_on d cs of w # ws \<Rightarrow> (c # w) # ws | [] \<Rightarrow> [[c]])"

lemma split_on_neq_Nil [simp]: "split_on d s \<noteq> []"
  by (induction s) (auto split: list.split)

lemma split_on_no_sep: "d \<notin> set s \<Longrightarrow> split_on d s = [s]"
  by (induction s) auto

lemma split_on_append: "d \<notin> set s \<Longrightarrow> split_on d (s @ d # t) = s # split_on d t"
  by (induction s) auto

definition trim_start_matches :: "char \<Rightarrow> string \<Rightarrow> string" where
  "trim_start_matches c s = dropWhile (\<lambda>d. d = c) s"

definition trim_end_matches :: "char \<Rightarrow> string \<Rightarrow> string" where
  "trim_end_matches c s = rev (dropWhile (\<lambda>d. d = c) (rev s))"

lemma strip_front_suffix: "suffix (strip_front ws s) s"
proof (induction ws s rule: strip_front.induct)
  case (1 ws s)
  show ?case
  proof (cases "find (\<lambda>w. w \<noteq> [] \<and> prefix w s) ws")
    case None
    then show ?thesis by (simp add: strip_front.simps [of ws s])
  next
    case (Some w)
    with "1.IH" have "suffix (strip_front ws (drop (length w) s)) (drop (length w) s)" by blast
    also have "suffix (drop (length w) s) s" by (rule suffix_drop)
    finally show ?thesis by (simp add: strip_front.simps [of ws s] Some)
  qed
qed

lemma strip_front_idem: "strip_front ws (strip_front ws s) = strip_front ws s"
proof (induction ws s rule: strip_front.induct)
  case (1 ws s)
  show ?case
  proof (cases "find (\<lambda>w. w \<noteq> [] \<and> prefix w s) ws")
    case None
    then show ?thesis by (simp add: strip_front.simps [of ws s])
  next
    case (Some w)
    with "1.IH" show ?thesis by (simp add: strip_front.simps [of ws s])
  qed
qed

lemma length_trim: "length (trim s) \<le> length s"
  unfolding trim_def trim_end_def trim_start_def
  by (metis length_rev strip_front_suffix suffix_length_le order_trans)

lemma sublist_trim: "sublist (trim s) s"
proof -
  have "suffix (rev (trim s)) (rev (trim_start s))"
    unfolding trim_def trim_end_def by (simp add: strip_front_suffix)
  then have "prefix (trim s) (trim_start s)"
    by (simp add: suffix_to_prefix)
  moreover have "suffix (trim_start s) s"
    unfolding trim_start_def by (rule strip_front_suffix)
  ultimately show ?thesis
    by (meson prefix_imp_sublist suffix_imp_sublist sublist_order.order.trans)
qed

text \<open>Text between two printing ASCII characters has nothing to trim.\<close>

definition graphic :: "char \<Rightarrow> bool" where
  "graphic c \<longleftrightarrow> 33 \<le> (of_char c :: nat) \<and> (of_char c :: nat) < 127"

lemma strip_front_id:
  assumes "\<forall>w \<in> set ws. w = [] \<or> hd w \<noteq> hd s"
  shows "strip_front ws s = s"
proof -
  have "find (\<lambda>w. w \<noteq> [] \<and> prefix w s) ws = None"
    using assms by (fastforce simp: find_None_iff neq_Nil_conv prefix_def)
  then show ?thesis by (simp add: strip_front.simps [of ws s])
qed

lemma ws_encodings_graphic:
  "\<forall>w \<in> set ws_encodings. \<not> graphic (hd w) \<and> \<not> graphic (last w) \<and> w \<noteq> []"
  by (simp add: ws_encodings_def graphic_def)

lemma trim_graphic:
  assumes "graphic (hd s)" "graphic (last s)" "s \<noteq> []"
  shows "trim s = s"
proof -
  have "trim_start s = s"
    unfolding trim_start_def using ws_encodings_graphic assms(1)
    by (intro strip_front_id) auto
  moreover have "strip_front (map rev ws_encodings) (rev s) = rev s"
    using ws_encodings_graphic assms(2) by (intro strip_front_id) (auto simp: hd_rev)
  ultimately show ?thesis
    by (simp add: trim_def trim_end_def)
qed

section \<open>Hash maps\<close>

type_synonym ('k, 'v) hash_map = "('k \<times> 'v) list"

abbreviation hm_get :: "('k, 'v) hash_map \<Rightarrow> 'k \<Rightarrow> 'v option" where
  "hm_get m \<equiv> map_of m"

abbreviation hm_insert :: "'k \<Rightarrow> 'v \<Rightarrow> ('k, 'v) hash_map \<Rightarrow> ('k, 'v) hash_map" where
  "hm_insert k v m \<equiv> AList.update k v m"

abbreviation hm_remove :: "'k \<Rightarrow> ('k, 'v) hash_map \<Rightarrow> ('k, 'v) hash_map" where
  "hm_remove k m \<equiv> AList.delete k m"

definition hm_retain :: "('k \<Rightarrow> 'v \<Rightarrow> bool) \<Rightarrow> ('k, 'v) hash_map \<Rightarrow> ('k, 'v) hash_map" where
  "hm_retain p m = filter (\<lambda>(k, v). p k v) m"

definition hm_ok :: "('k, 'v) hash_map \<Rightarrow> bool" where
  "hm_ok m \<longleftrightarrow> distinct (map fst m)"

lemma hm_get_insert [simp, std_simps]:
  "hm_get (hm_insert k v m) k' = (if k' = k then Some v else hm_get m k')"
  by (simp add: update_conv')

lemma hm_get_remove [simp, std_simps]:
  "hm_get (hm_remove k m) k' = (if k' = k then None else hm_get m k')"
  by (simp add: delete_conv')

lemma hm_ok_Nil [simp]: "hm_ok []"
  by (simp add: hm_ok_def)

lemma hm_ok_insert [simp]: "hm_ok m \<Longrightarrow> hm_ok (hm_insert k v m)"
  by (simp add: hm_ok_def distinct_update)

lemma hm_ok_remove [simp]: "hm_ok m \<Longrightarrow> hm_ok (hm_remove k m)"
  by (simp add: hm_ok_def distinct_delete)

lemma hm_ok_retain [simp]: "hm_ok m \<Longrightarrow> hm_ok (hm_retain p m)"
  unfolding hm_ok_def hm_retain_def by (induction m) (auto simp: image_iff)

lemma hm_get_retain [std_simps]:
  "hm_ok m \<Longrightarrow> hm_get (hm_retain p m) k =
     (case hm_get m k of None \<Rightarrow> None | Some v \<Rightarrow> if p k v then Some v else None)"
proof (induction m)
  case Nil
  then show ?case by (simp add: hm_retain_def)
next
  case (Cons kv m)
  obtain k' v where kv: "kv = (k', v)" by (cases kv)
  have ok: "hm_ok m" and notin: "k' \<notin> fst ` set m"
    using Cons.prems by (auto simp: hm_ok_def kv)
  have none: "hm_get m k' = None"
    using notin by (simp add: map_of_eq_None_iff)
  show ?case
    using Cons.IH [OF ok] none
    by (auto simp: kv hm_retain_def split: option.splits)
qed

lemma hm_len_insert_new: "hm_get m k = None \<Longrightarrow> length (hm_insert k v m) = Suc (length m)"
  by (induction m) (auto split: if_splits)

lemma hm_len_insert_le: "length (hm_insert k v m) \<le> Suc (length m)"
  by (induction m) auto

section \<open>Comparators and stable sorting\<close>

text \<open>
  \<open>std::cmp::Ordering\<close>, and \<open>slice::sort_by\<close>: a stable sort. The result of the standard
  library's sort is determined by being a sorted permutation that keeps the order of
  equal elements, provided the comparator is a total preorder, which the locale
  \<open>comparator\<close> states and each comparator of the code is shown to be.
\<close>

datatype ordering = Less | Equal | Greater

definition cmp_of :: "'a::linorder \<Rightarrow> 'a \<Rightarrow> ordering" where
  "cmp_of a b = (if a < b then Less else if a = b then Equal else Greater)"

fun insert_by :: "('a \<Rightarrow> 'a \<Rightarrow> ordering) \<Rightarrow> 'a \<Rightarrow> 'a list \<Rightarrow> 'a list" where
  "insert_by cmp x [] = [x]"
| "insert_by cmp x (y # ys) =
     (if cmp x y = Greater then y # insert_by cmp x ys else x # y # ys)"

fun sort_by :: "('a \<Rightarrow> 'a \<Rightarrow> ordering) \<Rightarrow> 'a list \<Rightarrow> 'a list" where
  "sort_by cmp [] = []"
| "sort_by cmp (x # xs) = insert_by cmp x (sort_by cmp xs)"

lemma mset_insert_by [simp]: "mset (insert_by cmp x xs) = add_mset x (mset xs)"
  by (induction xs) auto

lemma mset_sort_by [simp]: "mset (sort_by cmp xs) = mset xs"
  by (induction xs) auto

lemma set_sort_by [simp]: "set (sort_by cmp xs) = set xs"
  by (metis mset_sort_by set_mset_mset)

lemma length_sort_by [simp]: "length (sort_by cmp xs) = length xs"
  by (metis mset_sort_by size_mset)

lemma distinct_map_sort_by: "distinct (map f (sort_by cmp xs)) \<longleftrightarrow> distinct (map f xs)"
  by (metis mset_sort_by mset_map mset_eq_imp_distinct_iff)

definition le_by :: "('a \<Rightarrow> 'a \<Rightarrow> ordering) \<Rightarrow> 'a \<Rightarrow> 'a \<Rightarrow> bool" where
  "le_by cmp x y \<longleftrightarrow> cmp x y \<noteq> Greater"

definition sorted_by :: "('a \<Rightarrow> 'a \<Rightarrow> ordering) \<Rightarrow> 'a list \<Rightarrow> bool" where
  "sorted_by cmp xs \<longleftrightarrow> sorted_wrt (le_by cmp) xs"

locale comparator =
  fixes cmp :: "'a \<Rightarrow> 'a \<Rightarrow> ordering"
  assumes cmp_flip: "cmp x y = Greater \<longleftrightarrow> cmp y x = Less"
    and cmp_trans: "cmp x y \<noteq> Greater \<Longrightarrow> cmp y z \<noteq> Greater \<Longrightarrow> cmp x z \<noteq> Greater"
begin

lemma cmp_self: "cmp x x = Equal"
  using cmp_flip [of x x] by (cases "cmp x x") auto

lemma cmp_total: "le_by cmp x y \<or> le_by cmp y x"
  using cmp_flip [of x y] cmp_flip [of y x] by (cases "cmp x y") (auto simp: le_by_def)

lemma le_trans: "le_by cmp x y \<Longrightarrow> le_by cmp y z \<Longrightarrow> le_by cmp x z"
  unfolding le_by_def by (rule cmp_trans)

lemma sorted_insert_by: "sorted_by cmp xs \<Longrightarrow> sorted_by cmp (insert_by cmp x xs)"
proof (induction xs)
  case Nil
  then show ?case by (simp add: sorted_by_def)
next
  case (Cons y ys)
  have tl: "sorted_by cmp ys" and hd: "\<forall>z \<in> set ys. le_by cmp y z"
    using Cons.prems by (auto simp: sorted_by_def)
  show ?case
  proof (cases "cmp x y = Greater")
    case True
    then have "le_by cmp y x"
      using cmp_total [of x y] by (simp add: le_by_def)
    moreover have "set (insert_by cmp x ys) = insert x (set ys)"
      by (metis mset_insert_by set_mset_add_mset_insert set_mset_mset)
    ultimately show ?thesis
      using True Cons.IH [OF tl] hd by (simp add: sorted_by_def)
  next
    case False
    then have "le_by cmp x y" by (simp add: le_by_def)
    with hd tl show ?thesis
      using False le_trans by (auto simp: sorted_by_def)
  qed
qed

lemma sorted_sort_by: "sorted_by cmp (sort_by cmp xs)"
  by (induction xs) (simp_all add: sorted_by_def [of cmp "[]"] sorted_insert_by)

lemma filter_insert_by:
  assumes "\<And>y. P y \<Longrightarrow> P x \<Longrightarrow> cmp x y \<noteq> Greater"
  shows "filter P (insert_by cmp x ys) = (if P x then x # filter P ys else filter P ys)"
  using assms by (induction ys) auto

text \<open>Stability: the elements equal to a given one keep their order.\<close>

lemma sort_by_stable:
  "filter (\<lambda>y. cmp a y = Equal) (sort_by cmp xs) = filter (\<lambda>y. cmp a y = Equal) xs"
proof (induction xs)
  case Nil
  then show ?case by simp
next
  case (Cons x xs)
  have "cmp x y \<noteq> Greater" if "cmp a y = Equal" and "cmp a x = Equal" for y
  proof -
    have "cmp x a \<noteq> Greater"
      using that(2) cmp_flip [of x a] by simp
    moreover have "cmp a y \<noteq> Greater"
      using that(1) by simp
    ultimately show ?thesis by (rule cmp_trans)
  qed
  then show ?case
    using Cons.IH by (simp add: filter_insert_by)
qed

lemma sort_by_id: "sorted_by cmp xs \<Longrightarrow> sort_by cmp xs = xs"
proof (induction xs)
  case Nil
  then show ?case by simp
next
  case (Cons x xs)
  then show ?case
    by (cases xs) (auto simp: sorted_by_def le_by_def)
qed

end

lemma comparator_cmp_of_key: "comparator (\<lambda>x y. cmp_of (f x) (f y :: 'b::linorder))"
  by unfold_locales (auto simp: cmp_of_def split: if_splits)

section \<open>\<open>Iterator::max_by_key\<close>: the last of the maximal elements\<close>

fun max_by_key :: "('a \<Rightarrow> 'k::linorder) \<Rightarrow> 'a list \<Rightarrow> 'a option" where
  "max_by_key f [] = None"
| "max_by_key f (x # xs) =
     (case max_by_key f xs of
        None \<Rightarrow> Some x
      | Some y \<Rightarrow> if f x \<le> f y then Some y else Some x)"

lemma max_by_key_None [simp]: "max_by_key f xs = None \<longleftrightarrow> xs = []"
  by (cases xs) (auto split: option.splits)

lemma max_by_key_Some:
  "max_by_key f xs = Some y \<Longrightarrow> y \<in> set xs \<and> (\<forall>x \<in> set xs. f x \<le> f y)"
proof (induction xs arbitrary: y)
  case Nil
  then show ?case by simp
next
  case (Cons x xs)
  show ?case
  proof (cases "max_by_key f xs")
    case None
    with Cons.prems show ?thesis by auto
  next
    case (Some z)
    with Cons show ?thesis by (fastforce split: if_splits)
  qed
qed

end
