(* ===== verification/F64.thy ===== *)
theory F64
  imports Complex_Main Prelude
begin

text \<open>
  The \<open>f64\<close> type of Rust: a binary64 value is a finite rational, an infinity or a NaN (the
  sign of a zero is not kept: no modelled comparison can see it, and no modelled division
  has a divisor that can be a negative zero). The operations compute the exact
  result and round it to the nearest value with a 53-bit significand, ties to even, with
  gradual underflow and overflow to infinity, as IEEE 754 and the Rust reference prescribe.
  \<open>ln\<close>, \<open>exp\<close> and \<open>sqrt\<close> have a platform-dependent precision in Rust; code that calls
  them takes them as a parameter of type \<open>libm\<close>.
\<close>

section \<open>Values and comparisons\<close>

datatype f64 = Fin rat | PInf | NInf | NaN

instantiation f64 :: ord
begin

fun less_eq_f64 :: "f64 \<Rightarrow> f64 \<Rightarrow> bool" where
  "less_eq_f64 NaN _ = False"
| "less_eq_f64 _ NaN = False"
| "less_eq_f64 (Fin x) (Fin y) = (x \<le> y)"
| "less_eq_f64 NInf _ = True"
| "less_eq_f64 _ PInf = True"
| "less_eq_f64 _ _ = False"

definition less_f64 :: "f64 \<Rightarrow> f64 \<Rightarrow> bool" where
  "less_f64 a b \<longleftrightarrow> a \<le> b \<and> \<not> b \<le> a"

instance ..

end

definition is_finite :: "f64 \<Rightarrow> bool" where
  "is_finite x = (case x of Fin _ \<Rightarrow> True | _ \<Rightarrow> False)"

lemma is_finite_simps [simp]:
  "is_finite (Fin r)" "\<not> is_finite PInf" "\<not> is_finite NInf" "\<not> is_finite NaN"
  by (simp_all add: is_finite_def)

lemma f64_less_simps [simp]:
  "Fin x < Fin y \<longleftrightarrow> x < y"
  "\<not> NaN < x'" "\<not> x' < NaN"
  "Fin x < PInf" "NInf < Fin x" "NInf < PInf" "\<not> PInf < x'" "\<not> x' < NInf"
  by (cases x'; auto simp: less_f64_def)+

lemma f64_le_simps [simp]:
  "x' \<le> NaN \<longleftrightarrow> False" "x' \<noteq> NaN \<Longrightarrow> x' \<le> PInf" "x' \<noteq> NaN \<Longrightarrow> NInf \<le> x'"
  by (cases x'; simp)+

lemma f64_le_refl_iff [simp]: "(x::f64) \<le> x \<longleftrightarrow> x \<noteq> NaN"
  by (cases x) auto

lemma f64_le_trans: "(x::f64) \<le> y \<Longrightarrow> y \<le> z \<Longrightarrow> x \<le> z"
  by (cases x; cases y; cases z) auto

lemma f64_not_less: "(x::f64) \<noteq> NaN \<Longrightarrow> y \<noteq> NaN \<Longrightarrow> \<not> x < y \<longleftrightarrow> y \<le> x"
  by (cases x; cases y) auto

lemma f64_le_NaN_D: "(x::f64) \<le> y \<Longrightarrow> x \<noteq> NaN \<and> y \<noteq> NaN"
  by (cases x; cases y) auto

definition f64_max :: "f64 \<Rightarrow> f64 \<Rightarrow> f64" where
  "f64_max a b = (if a = NaN then b else if b = NaN then a else if a \<le> b then b else a)"

definition f64_min :: "f64 \<Rightarrow> f64 \<Rightarrow> f64" where
  "f64_min a b = (if a = NaN then b else if b = NaN then a else if a \<le> b then a else b)"

definition f64_clamp :: "f64 \<Rightarrow> f64 \<Rightarrow> f64 \<Rightarrow> f64" where
  "f64_clamp lo hi x = (let y = (if x < lo then lo else x) in if hi < y then hi else y)"

lemma f64_max_ge: "b \<noteq> NaN \<Longrightarrow> b \<le> f64_max a b"
  by (cases a; cases b) (auto simp: f64_max_def)

lemma f64_max_ge1: "a \<noteq> NaN \<Longrightarrow> a \<le> f64_max a b"
  by (cases a; cases b) (auto simp: f64_max_def)

lemma f64_max_NaN [simp]: "f64_max a b = NaN \<longleftrightarrow> a = NaN \<and> b = NaN"
  by (auto simp: f64_max_def)

lemma f64_min_le: "b \<noteq> NaN \<Longrightarrow> f64_min a b \<le> b"
  by (cases a; cases b) (auto simp: f64_min_def)

lemma f64_min_NaN [simp]: "f64_min a b = NaN \<longleftrightarrow> a = NaN \<and> b = NaN"
  by (auto simp: f64_min_def)

lemma f64_min_ge: "c \<le> a \<Longrightarrow> c \<le> b \<Longrightarrow> c \<le> f64_min a b"
  by (auto simp: f64_min_def)

lemma f64_max_le: "a \<le> c \<Longrightarrow> b \<le> c \<Longrightarrow> f64_max a b \<le> c"
  by (auto simp: f64_max_def)

section \<open>Rounding\<close>

fun nbits :: "nat \<Rightarrow> nat" where
  "nbits n = (if n = 0 then 0 else Suc (nbits (n div 2)))"

declare nbits.simps [simp del]

abbreviation pow2 :: "int \<Rightarrow> rat" where
  "pow2 e \<equiv> 2 powi e"

text \<open>The exponent of a positive rational: the greatest \<open>e\<close> with \<open>2 powi e \<le> x\<close>.\<close>

definition ilog2 :: "rat \<Rightarrow> int" where
  "ilog2 x =
     (let (n, d) = quotient_of x;
          e = int (nbits (nat n)) - int (nbits (nat d))
      in if pow2 e \<le> x then e else e - 1)"

definition round_even :: "rat \<Rightarrow> int" where
  "round_even y =
     (let f = \<lfloor>y\<rfloor>; r = y - of_int f
      in if r < 1 / 2 then f else if r > 1 / 2 then f + 1 else if even f then f else f + 1)"

definition ulp_exp :: "rat \<Rightarrow> int" where
  "ulp_exp a = max (ilog2 a - 52) (-1074)"

definition rnd_pos :: "rat \<Rightarrow> rat" where
  "rnd_pos a = of_int (round_even (a / pow2 (ulp_exp a))) * pow2 (ulp_exp a)"

definition f64_overflow :: rat where "f64_overflow = pow2 1024"

definition rnd :: "rat \<Rightarrow> f64" where
  "rnd x =
     (if x = 0 then Fin 0
      else let r = rnd_pos \<bar>x\<bar>
           in if r \<ge> f64_overflow then (if x > 0 then PInf else NInf)
              else Fin (if x > 0 then r else - r))"

lemma nbits_bounds: "n > 0 \<Longrightarrow> 2 ^ (nbits n - 1) \<le> n \<and> n < 2 ^ nbits n \<and> nbits n > 0"
proof (induction n rule: nbits.induct)
  case (1 n)
  show ?case
  proof (cases "n div 2 = 0")
    case True
    with "1.prems" have "n = 1" by simp
    then show ?thesis by (simp add: nbits.simps)
  next
    case False
    with 1 have ih: "2 ^ (nbits (n div 2) - 1) \<le> n div 2" "n div 2 < 2 ^ nbits (n div 2)"
      "nbits (n div 2) > 0" by auto
    have b: "nbits n = Suc (nbits (n div 2))"
      using "1.prems" by (simp add: nbits.simps [of n])
    have "2 ^ nbits (n div 2) = 2 * 2 ^ (nbits (n div 2) - 1)"
      using ih(3) by (cases "nbits (n div 2)") auto
    also have "\<dots> \<le> 2 * (n div 2)" using ih(1) by simp
    also have "\<dots> \<le> n" by simp
    finally have lo: "2 ^ nbits (n div 2) \<le> n" .
    have "n < 2 * (n div 2 + 1)" by simp
    also have "\<dots> \<le> 2 * 2 ^ nbits (n div 2)" using ih(2) by simp
    finally show ?thesis using lo b by simp
  qed
qed

lemma quotient_of_pos:
  assumes "x > 0" and "quotient_of x = (n, d)"
  shows "n > 0" and "d > 0" and "x = of_int n / of_int d"
proof -
  show d: "d > 0" using quotient_of_denom_pos [OF assms(2)] .
  show eq: "x = of_int n / of_int d" by (rule quotient_of_div [OF assms(2)])
  show "n > 0"
    using assms(1) d unfolding eq by (simp add: zero_less_divide_iff)
qed

lemma ilog2_bounds:
  assumes "x > 0"
  shows "pow2 (ilog2 x) \<le> x \<and> x < pow2 (ilog2 x + 1)"
proof -
  obtain n d where q: "quotient_of x = (n, d)" by (cases "quotient_of x")
  note pos = quotient_of_pos [OF assms q]
  define N where "N = nat n"
  define D where "D = nat d"
  have ND: "N > 0" "D > 0" "x = of_nat N / of_nat D"
    using pos by (simp_all add: N_def D_def of_nat_nat)
  let ?e = "int (nbits N) - int (nbits D)"
  have nb: "2 ^ (nbits N - 1) \<le> N" "N < 2 ^ nbits N" "nbits N > 0"
    and db: "2 ^ (nbits D - 1) \<le> D" "D < 2 ^ nbits D" "nbits D > 0"
    using nbits_bounds ND by auto
  have pw: "pow2 (int k) = of_nat (2 ^ k)" for k by simp
  have N1: "pow2 (int (nbits N) - 1) \<le> of_nat N" and N2: "of_nat N < pow2 (int (nbits N))"
    using nb pw [of "nbits N - 1"] pw [of "nbits N"]
    by (metis of_nat_le_iff of_nat_diff less_eq_Suc_le One_nat_def of_nat_1, metis of_nat_less_iff)
  have D1: "pow2 (int (nbits D) - 1) \<le> of_nat D" and D2: "of_nat D < pow2 (int (nbits D))"
    using db pw [of "nbits D - 1"] pw [of "nbits D"]
    by (metis of_nat_le_iff of_nat_diff less_eq_Suc_le One_nat_def of_nat_1, metis of_nat_less_iff)
  have Dpos: "(0::rat) < of_nat D" using ND by simp
  have "x < pow2 (int (nbits N)) / pow2 (int (nbits D) - 1)"
    unfolding ND(3) by (rule frac_less) (use N2 D1 in auto)
  also have "\<dots> = pow2 (int (nbits N) - (int (nbits D) - 1))"
    by (rule power_int_diff [symmetric]) simp
  also have "\<dots> = pow2 (?e + 1)"
    by (simp add: algebra_simps)
  finally have up: "x < pow2 (?e + 1)" .
  have "pow2 (?e - 1) = pow2 ((int (nbits N) - 1) - int (nbits D))"
    by (simp add: algebra_simps)
  also have "\<dots> = pow2 (int (nbits N) - 1) / pow2 (int (nbits D))"
    by (rule power_int_diff) simp
  also have "\<dots> < x"
    unfolding ND(3) by (rule frac_less2) (use N1 D2 Dpos in auto)
  finally have lo: "pow2 (?e - 1) < x" .
  have "ilog2 x = (if pow2 ?e \<le> x then ?e else ?e - 1)"
    by (simp add: ilog2_def q N_def D_def Let_def)
  then show ?thesis using up lo by auto
qed

lemma ilog2_mono: "0 < x \<Longrightarrow> x \<le> y \<Longrightarrow> ilog2 x \<le> ilog2 y"
proof (rule ccontr)
  assume a: "0 < x" "x \<le> y" "\<not> ilog2 x \<le> ilog2 y"
  then have "pow2 (ilog2 y + 1) \<le> pow2 (ilog2 x)"
    by (intro power_int_increasing) auto
  with a ilog2_bounds [of x] ilog2_bounds [of y] show False by auto
qed

lemma ulp_exp_mono: "0 < x \<Longrightarrow> x \<le> y \<Longrightarrow> ulp_exp x \<le> ulp_exp y"
  using ilog2_mono [of x y] by (auto simp: ulp_exp_def)

lemma round_even_of_int [simp]: "round_even (of_int k) = k"
  by (simp add: round_even_def Let_def)

lemma round_even_near: "of_int (round_even y) \<le> y + 1 / 2 \<and> y - 1 / 2 \<le> of_int (round_even y)"
proof -
  have "of_int \<lfloor>y\<rfloor> \<le> y" "y < of_int \<lfloor>y\<rfloor> + 1" by linarith+
  then show ?thesis by (auto simp: round_even_def Let_def; linarith)
qed

lemma round_even_ge: "of_int k \<le> y \<Longrightarrow> k \<le> round_even y"
proof -
  assume "of_int k \<le> y"
  then have "k \<le> \<lfloor>y\<rfloor>" by (simp add: le_floor_iff)
  then show ?thesis by (auto simp: round_even_def Let_def)
qed

lemma round_even_le: "y \<le> of_int k \<Longrightarrow> round_even y \<le> k"
proof -
  assume y: "y \<le> of_int k"
  show ?thesis
  proof (cases "\<lfloor>y\<rfloor> = k")
    case True
    with y have "y = of_int k" by linarith
    then show ?thesis by simp
  next
    case False
    with y have "\<lfloor>y\<rfloor> + 1 \<le> k" by linarith
    then show ?thesis by (auto simp: round_even_def Let_def)
  qed
qed

lemma round_even_mono:
  assumes "x \<le> y" shows "round_even x \<le> round_even y"
proof (cases "\<lfloor>x\<rfloor> = \<lfloor>y\<rfloor>")
  case True
  with assms show ?thesis by (auto simp: round_even_def Let_def)
next
  case False
  then have "\<lfloor>x\<rfloor> + 1 \<le> \<lfloor>y\<rfloor>" using floor_mono [OF assms] by linarith
  then have "of_int (\<lfloor>x\<rfloor> + 1) \<le> y" by linarith
  then have "\<lfloor>x\<rfloor> + 1 \<le> round_even y" by (rule round_even_ge)
  moreover have "round_even x \<le> \<lfloor>x\<rfloor> + 1" by (rule round_even_le) linarith
  ultimately show ?thesis by simp
qed

text \<open>The rounded significand of a positive value lies between \<open>0\<close> and \<open>2 ^ 53\<close>.\<close>

lemma significand_lt: "0 < a \<Longrightarrow> a / pow2 (ulp_exp a) < 2 ^ 53"
proof -
  assume a: "0 < a"
  have "a < pow2 (ilog2 a + 1)" using ilog2_bounds [OF a] by simp
  also have "\<dots> \<le> pow2 (ulp_exp a + 53)"
    by (intro power_int_increasing) (auto simp: ulp_exp_def)
  also have "\<dots> = pow2 (ulp_exp a) * 2 ^ 53"
    by (simp add: power_int_add)
  finally show ?thesis by (simp add: field_simps)
qed

lemma significand_ge: "0 < a \<Longrightarrow> ulp_exp a > -1074 \<Longrightarrow> 2 ^ 52 \<le> a / pow2 (ulp_exp a)"
proof -
  assume a: "0 < a" "ulp_exp a > -1074"
  then have e: "ilog2 a = ulp_exp a + 52" by (auto simp: ulp_exp_def split: if_splits)
  have "pow2 (ulp_exp a) * 2 ^ 52 = pow2 (ulp_exp a + 52)"
    by (simp add: power_int_add)
  also have "\<dots> \<le> a" using ilog2_bounds [OF a(1)] e by simp
  finally show ?thesis by (simp add: field_simps)
qed

lemma rnd_pos_nonneg: "0 < a \<Longrightarrow> 0 \<le> rnd_pos a"
proof -
  assume "0 < a"
  then have "0 \<le> round_even (a / pow2 (ulp_exp a))"
    by (intro round_even_ge) simp
  then show ?thesis by (simp add: rnd_pos_def)
qed

lemma rnd_pos_mono:
  assumes "0 < a" "a \<le> b" shows "rnd_pos a \<le> rnd_pos b"
proof (cases "ulp_exp a = ulp_exp b")
  case True
  have "a / pow2 (ulp_exp b) \<le> b / pow2 (ulp_exp b)"
    using assms by (simp add: divide_right_mono)
  then have "round_even (a / pow2 (ulp_exp b)) \<le> round_even (b / pow2 (ulp_exp b))"
    by (rule round_even_mono)
  then show ?thesis by (simp add: rnd_pos_def True)
next
  case False
  with ulp_exp_mono [OF assms] have lt: "ulp_exp a + 1 \<le> ulp_exp b" by simp
  have b: "0 < b" using assms by simp
  have "-1074 \<le> ulp_exp a" by (simp add: ulp_exp_def)
  with lt have eb: "ulp_exp b > -1074" by simp
  have "round_even (a / pow2 (ulp_exp a)) \<le> 2 ^ 53"
    using significand_lt [OF assms(1)] by (intro round_even_le) simp
  then have "rnd_pos a \<le> of_int (2 ^ 53) * pow2 (ulp_exp a)"
    unfolding rnd_pos_def by (intro mult_right_mono) (simp_all only: of_int_le_iff, simp)
  also have "\<dots> = 2 ^ 52 * pow2 (ulp_exp a + 1)"
    by (simp add: power_int_add)
  also have "\<dots> \<le> 2 ^ 52 * pow2 (ulp_exp b)"
    using lt by (intro mult_left_mono power_int_increasing) auto
  also have "2 ^ 52 \<le> round_even (b / pow2 (ulp_exp b))"
    using significand_ge [OF b eb] by (intro round_even_ge) simp
  then have "2 ^ 52 * pow2 (ulp_exp b) \<le> rnd_pos b"
    unfolding rnd_pos_def
    by (intro mult_right_mono) (metis of_int_le_iff of_int_numeral of_int_power, simp)
  finally show ?thesis .
qed

lemma rnd_0 [simp]: "rnd 0 = Fin 0"
  by (simp add: rnd_def)

lemma rnd_not_NaN [simp]: "rnd x \<noteq> NaN"
  by (simp add: rnd_def Let_def)

lemma rnd_nonneg: "0 \<le> x \<Longrightarrow> Fin 0 \<le> rnd x"
  using rnd_pos_nonneg [of x] by (simp add: rnd_def Let_def)

lemma rnd_mono: "x \<le> y \<Longrightarrow> rnd x \<le> rnd y"
proof -
  assume xy: "x \<le> y"
  consider "x = 0" | "y = 0" | "0 < x" | "x < 0" "0 < y" | "y < 0"
    by linarith
  then show ?thesis
  proof cases
    case 1
    then show ?thesis using rnd_nonneg xy by simp
  next
    case 2
    then show ?thesis
      using xy rnd_pos_nonneg [of "- x"] by (simp add: rnd_def Let_def)
  next
    case 3
    then show ?thesis
      using xy rnd_pos_mono [of x y] by (auto simp: rnd_def Let_def)
  next
    case 4
    then show ?thesis
      using rnd_pos_nonneg [of "- x"] rnd_pos_nonneg [of y] by (simp add: rnd_def Let_def)
  next
    case 5
    then show ?thesis
      using xy rnd_pos_mono [of "- y" "- x"] by (auto simp: rnd_def Let_def)
  qed
qed

text \<open>
  Rounding is exact on the values that a 53-bit significand represents, and a rounded value
  is such a value.
\<close>

definition representable :: "rat \<Rightarrow> bool" where
  "representable x \<longleftrightarrow> rnd x = Fin x"

lemma representable_0 [simp]: "representable 0"
  by (simp add: representable_def)

lemma rnd_pos_dyadic:
  assumes k: "0 < k" "k < 2 ^ 53" and e: "-1074 \<le> e"
  shows "rnd_pos (of_int k * pow2 e) = of_int k * pow2 e"
proof -
  let ?r = "of_int k * pow2 e"
  have pos: "0 < ?r" using k by simp
  have k': "(of_int k :: rat) < 2 ^ 53"
    using k(2) by (metis of_int_less_iff of_int_numeral of_int_power)
  have "pow2 (ilog2 ?r) \<le> ?r" using ilog2_bounds [OF pos] by simp
  also have "?r < 2 ^ 53 * pow2 e" using k' by (intro mult_strict_right_mono) auto
  also have "\<dots> = pow2 (e + 53)" by (simp add: power_int_add)
  finally have lt: "pow2 (ilog2 ?r) < pow2 (e + 53)" .
  have "ilog2 ?r < e + 53"
  proof (rule ccontr)
    assume "\<not> ilog2 ?r < e + 53"
    then have "pow2 (e + 53) \<le> pow2 (ilog2 ?r)" by (intro power_int_increasing) auto
    with lt show False by simp
  qed
  with e have u: "ulp_exp ?r \<le> e" by (simp add: ulp_exp_def)
  define q where "q = ulp_exp ?r"
  define d where "d = nat (e - q)"
  have "pow2 e = pow2 (int d + q)" using u by (simp add: d_def q_def)
  then have r: "?r = of_int (k * 2 ^ d) * pow2 q" by (simp add: power_int_add)
  have "?r / pow2 q = of_int (k * 2 ^ d) * pow2 q / pow2 q" by (simp only: r)
  then have "?r / pow2 q = of_int (k * 2 ^ d)" by simp
  then have re: "round_even (?r / pow2 q) = k * 2 ^ d"
    by (simp only: round_even_of_int)
  have "rnd_pos ?r = of_int (round_even (?r / pow2 q)) * pow2 q"
    by (simp only: rnd_pos_def q_def)
  also have "\<dots> = of_int (k * 2 ^ d) * pow2 q" by (simp only: re)
  also have "\<dots> = ?r" by (rule r [symmetric])
  finally show ?thesis .
qed

lemma rnd_dyadic:
  assumes "\<bar>k\<bar> < 2 ^ 53" and e: "-1074 \<le> e" "e \<le> 971"
  shows "rnd (of_int k * pow2 e) = Fin (of_int k * pow2 e)"
proof (cases "k = 0")
  case True
  then show ?thesis by simp
next
  case False
  have k': "(of_int \<bar>k\<bar> :: rat) < 2 ^ 53"
    using assms(1) by (metis of_int_less_iff of_int_numeral of_int_power)
  have abs: "\<bar>of_int k * pow2 e\<bar> = of_int \<bar>k\<bar> * pow2 e" by (simp add: abs_mult)
  have "of_int \<bar>k\<bar> * pow2 e < 2 ^ 53 * pow2 e"
    using k' by (intro mult_strict_right_mono) auto
  also have "\<dots> = pow2 (e + 53)" by (simp add: power_int_add)
  also have "\<dots> \<le> f64_overflow"
    unfolding f64_overflow_def using e by (intro power_int_increasing) auto
  finally have "\<not> f64_overflow \<le> of_int \<bar>k\<bar> * pow2 e" by simp
  moreover have "rnd_pos (of_int \<bar>k\<bar> * pow2 e) = of_int \<bar>k\<bar> * pow2 e"
    using False assms by (intro rnd_pos_dyadic) auto
  moreover have pe: "\<not> pow2 e < 0" by (simp add: not_less)
  moreover have "of_int k * pow2 e \<noteq> 0" using False by simp
  moreover have "of_int k * pow2 e > 0 \<longleftrightarrow> k > 0"
    using pe by (auto simp: zero_less_mult_iff)
  ultimately show ?thesis
    using False unfolding rnd_def abs by (auto simp: Let_def)
qed

lemma rnd_of_int: "\<bar>k\<bar> < 2 ^ 53 \<Longrightarrow> rnd (of_int k) = Fin (of_int k)"
  using rnd_dyadic [of k 0] by simp

lemma rnd_pos_idem:
  assumes "0 < a" shows "rnd_pos a = 0 \<or> rnd_pos (rnd_pos a) = rnd_pos a"
proof -
  let ?e = "ulp_exp a"
  let ?k = "round_even (a / pow2 ?e)"
  have e: "-1074 \<le> ?e" by (simp add: ulp_exp_def)
  have k0: "0 \<le> ?k" using assms by (intro round_even_ge) simp
  have k1: "?k \<le> 2 ^ 53" using significand_lt [OF assms] by (intro round_even_le) simp
  consider "?k = 0" | "0 < ?k" "?k < 2 ^ 53" | "?k = 2 ^ 53" using k0 k1 by linarith
  then show ?thesis
  proof cases
    case 1
    then show ?thesis by (simp add: rnd_pos_def)
  next
    case 2
    from rnd_pos_dyadic [OF this e] show ?thesis by (simp add: rnd_pos_def [of a])
  next
    case 3
    then have "rnd_pos a = 2 ^ 53 * pow2 ?e" by (simp add: rnd_pos_def)
    also have "\<dots> = of_int 1 * pow2 (?e + 53)" by (simp add: power_int_add)
    finally have "rnd_pos a = of_int 1 * pow2 (?e + 53)" .
    with rnd_pos_dyadic [of 1 "?e + 53"] e show ?thesis by simp
  qed
qed

lemma rnd_representable: "rnd x = Fin y \<Longrightarrow> representable y"
proof -
  assume r: "rnd x = Fin y"
  show ?thesis
  proof (cases "x = 0")
    case True
    with r show ?thesis by simp
  next
    case False
    let ?p = "rnd_pos \<bar>x\<bar>"
    have p: "0 \<le> ?p" "\<not> f64_overflow \<le> ?p" "y = (if x > 0 then ?p else - ?p)"
      using False r rnd_pos_nonneg [of "\<bar>x\<bar>"] by (auto simp: rnd_def Let_def split: if_splits)
    have "?p = 0 \<or> rnd_pos ?p = ?p" using False by (intro rnd_pos_idem) simp
    with p show ?thesis
      by (auto simp: representable_def rnd_def Let_def)
  qed
qed

lemma rnd_le_representable:
  "representable y \<Longrightarrow> x \<le> y \<Longrightarrow> rnd x \<le> Fin y"
  using rnd_mono [of x y] by (simp add: representable_def)

lemma rnd_ge_representable:
  "representable y \<Longrightarrow> y \<le> x \<Longrightarrow> Fin y \<le> rnd x"
  using rnd_mono [of y x] by (simp add: representable_def)

section \<open>Arithmetic\<close>

text \<open>A value is \<^emph>\<open>well-formed\<close> when its finite part is a binary64 number.\<close>

definition f64_ok :: "f64 \<Rightarrow> bool" where
  "f64_ok x = (case x of Fin r \<Rightarrow> representable r | _ \<Rightarrow> True)"

instantiation f64 :: "{zero, one, plus, minus, uminus, times, inverse}"
begin

definition zero_f64 :: f64 where "zero_f64 = Fin 0"

definition one_f64 :: f64 where "one_f64 = Fin 1"

fun uminus_f64 :: "f64 \<Rightarrow> f64" where
  "uminus_f64 (Fin x) = Fin (- x)"
| "uminus_f64 PInf = NInf"
| "uminus_f64 NInf = PInf"
| "uminus_f64 NaN = NaN"

fun plus_f64 :: "f64 \<Rightarrow> f64 \<Rightarrow> f64" where
  "plus_f64 (Fin x) (Fin y) = rnd (x + y)"
| "plus_f64 NaN _ = NaN"
| "plus_f64 _ NaN = NaN"
| "plus_f64 PInf NInf = NaN"
| "plus_f64 NInf PInf = NaN"
| "plus_f64 PInf _ = PInf"
| "plus_f64 _ PInf = PInf"
| "plus_f64 NInf _ = NInf"
| "plus_f64 _ NInf = NInf"

definition minus_f64 :: "f64 \<Rightarrow> f64 \<Rightarrow> f64" where
  "minus_f64 a b = a + (- b)"

definition signed_inf :: "bool \<Rightarrow> f64" where
  "signed_inf positive = (if positive then PInf else NInf)"

fun times_f64 :: "f64 \<Rightarrow> f64 \<Rightarrow> f64" where
  "times_f64 (Fin x) (Fin y) = rnd (x * y)"
| "times_f64 NaN _ = NaN"
| "times_f64 _ NaN = NaN"
| "times_f64 (Fin x) PInf = (if x = 0 then NaN else signed_inf (x > 0))"
| "times_f64 (Fin x) NInf = (if x = 0 then NaN else signed_inf (x < 0))"
| "times_f64 PInf (Fin y) = (if y = 0 then NaN else signed_inf (y > 0))"
| "times_f64 NInf (Fin y) = (if y = 0 then NaN else signed_inf (y < 0))"
| "times_f64 PInf PInf = PInf"
| "times_f64 NInf NInf = PInf"
| "times_f64 _ _ = NInf"

fun divide_f64 :: "f64 \<Rightarrow> f64 \<Rightarrow> f64" where
  "divide_f64 (Fin x) (Fin y) =
     (if y = 0 then (if x = 0 then NaN else signed_inf (x > 0)) else rnd (x / y))"
| "divide_f64 NaN _ = NaN"
| "divide_f64 _ NaN = NaN"
| "divide_f64 (Fin x) _ = Fin 0"
| "divide_f64 PInf (Fin y) = signed_inf (y \<ge> 0)"
| "divide_f64 NInf (Fin y) = signed_inf (y < 0)"
| "divide_f64 _ _ = NaN"

definition inverse_f64 :: "f64 \<Rightarrow> f64" where
  "inverse_f64 a = divide 1 a"

instance ..

end

text \<open>A decimal literal, \<open>x as f64\<close>, \<open>f64::ceil\<close> and \<open>x as i64\<close>.\<close>

definition lit :: "rat \<Rightarrow> f64" where "lit q = rnd q"

definition f64_of_int :: "int \<Rightarrow> f64" where "f64_of_int n = rnd (of_int n)"

fun f64_ceil :: "f64 \<Rightarrow> f64" where
  "f64_ceil (Fin x) = Fin (of_int \<lceil>x\<rceil>)"
| "f64_ceil x = x"

fun f64_to_i64 :: "f64 \<Rightarrow> i64" where
  "f64_to_i64 (Fin x) = i64_saturate (if x < 0 then \<lceil>x\<rceil> else \<lfloor>x\<rfloor>)"
| "f64_to_i64 PInf = i64_max"
| "f64_to_i64 NInf = i64_min"
| "f64_to_i64 NaN = 0"

text \<open>The parameters for the functions whose precision the language leaves open.\<close>

record libm =
  f_ln :: "f64 \<Rightarrow> f64"
  f_exp :: "f64 \<Rightarrow> f64"
  f_sqrt :: "f64 \<Rightarrow> f64"

lemma f64_ok_simps [simp]: "f64_ok PInf" "f64_ok NInf" "f64_ok NaN" "f64_ok (Fin x) = representable x"
  by (simp_all add: f64_ok_def)

lemma f64_ok_rnd [simp]: "f64_ok (rnd x)"
  by (cases "rnd x") (auto dest: rnd_representable)

lemma f64_ok_add [simp]: "f64_ok ((a::f64) + b)"
  by (cases a; cases b) auto

lemma f64_ok_max: "f64_ok a \<Longrightarrow> f64_ok b \<Longrightarrow> f64_ok (f64_max a b)"
  by (simp add: f64_max_def)

lemma f64_ok_min: "f64_ok a \<Longrightarrow> f64_ok b \<Longrightarrow> f64_ok (f64_min a b)"
  by (simp add: f64_min_def)

lemma f64_zero_le_iff: "(0::f64) \<le> x \<longleftrightarrow> (case x of Fin r \<Rightarrow> 0 \<le> r | PInf \<Rightarrow> True | _ \<Rightarrow> False)"
  by (cases x) (auto simp: zero_f64_def)

lemma f64_zero_less_iff: "(0::f64) < x \<longleftrightarrow> (case x of Fin r \<Rightarrow> 0 < r | PInf \<Rightarrow> True | _ \<Rightarrow> False)"
  by (cases x) (auto simp: zero_f64_def)

lemma rnd_nonneg0: "0 \<le> x \<Longrightarrow> (0::f64) \<le> rnd x"
  using rnd_nonneg by (simp add: zero_f64_def)

lemma f64_add_nonneg: "(0::f64) \<le> a \<Longrightarrow> 0 \<le> b \<Longrightarrow> 0 \<le> a + b"
  by (cases a; cases b) (auto simp: f64_zero_le_iff [of "Fin _"] f64_zero_le_iff [of PInf]
      f64_zero_le_iff [of NInf] f64_zero_le_iff [of NaN] intro: rnd_nonneg0)

lemma f64_add_ge_left: "f64_ok a \<Longrightarrow> a \<noteq> NaN \<Longrightarrow> a \<noteq> NInf \<Longrightarrow> (0::f64) \<le> b \<Longrightarrow> a \<le> a + b"
  by (cases a; cases b) (auto simp: zero_f64_def intro: rnd_ge_representable)

lemma f64_mult_nonneg: "(0::f64) \<le> a \<Longrightarrow> 0 \<le> b \<Longrightarrow> a * b = NaN \<or> 0 \<le> a * b"
  by (cases a; cases b) (auto simp: f64_zero_le_iff [of "Fin _"] f64_zero_le_iff [of PInf]
      f64_zero_le_iff [of NInf] f64_zero_le_iff [of NaN] signed_inf_def intro!: rnd_nonneg0)

lemma f64_of_int_nonneg: "0 \<le> n \<Longrightarrow> (0::f64) \<le> f64_of_int n"
  by (simp add: f64_of_int_def rnd_nonneg0)

lemma f64_of_int_exact: "\<bar>n\<bar> < 2 ^ 53 \<Longrightarrow> f64_of_int n = Fin (of_int n)"
  by (simp add: f64_of_int_def rnd_of_int)

end
