(* ===== verification/Text_Json.thy ===== *)
theory Text_Json
  imports F64
begin

text \<open>
  Text and JSON as the handlers see them: decimal output, the search of \<open>str::find\<close>, UTF-8
  validity and \<open>String::from_utf8_lossy\<close>, and the value type of \<open>serde_json\<close> with its
  accessors. Parsing and printing JSON text is \<open>serde_json\<close>'s own and stays a parameter of
  the definitions that need it.
\<close>

text \<open>A call either returns or panics; no Rust value is returned by a panic.\<close>

datatype 'a outcome = Returns 'a | Panics

section \<open>Decimal output and search\<close>

definition digit_char :: "nat \<Rightarrow> char" where
  "digit_char d = char_of (48 + d)"

fun show_nat :: "nat \<Rightarrow> string" where
  "show_nat n = (if n < 10 then [digit_char n] else show_nat (n div 10) @ [digit_char (n mod 10)])"

declare show_nat.simps [simp del]

definition show_int :: "int \<Rightarrow> string" where
  "show_int i = (if i < 0 then ''-'' @ show_nat (nat (- i)) else show_nat (nat i))"

fun str_find :: "string \<Rightarrow> string \<Rightarrow> nat option" where
  "str_find [] p = (if p = [] then Some 0 else None)"
| "str_find (c # cs) p =
     (if prefix p (c # cs) then Some 0 else map_option Suc (str_find cs p))"

lemma str_find_None [simp]: "str_find s p = None \<longleftrightarrow> \<not> contains_str s p"
  by (induction s) (auto simp: prefix_def)

lemma str_find_Some:
  "str_find s p = Some i \<Longrightarrow> s = take i s @ p @ drop (i + length p) s"
proof (induction s arbitrary: i)
  case Nil
  then show ?case by (auto split: if_splits)
next
  case (Cons c cs)
  show ?case
  proof (cases "prefix p (c # cs)")
    case True
    with Cons.prems have "i = 0" by simp
    with True show ?thesis by (auto simp: prefix_def)
  next
    case False
    with Cons.prems obtain j where "str_find cs p = Some j" "i = Suc j"
      by auto
    with Cons.IH [of j] show ?thesis by simp
  qed
qed

section \<open>UTF-8\<close>

definition byte :: "char \<Rightarrow> nat" where "byte c = of_char c"

definition in_range :: "nat \<Rightarrow> nat \<Rightarrow> char \<Rightarrow> bool" where
  "in_range lo hi c \<longleftrightarrow> lo \<le> byte c \<and> byte c \<le> hi"

text \<open>
  The ranges that the bytes after a lead byte must lie in; \<open>None\<close> for a byte that leads
  nothing. A sequence is cut at the first byte out of range.
\<close>

definition utf8_tail :: "char \<Rightarrow> (nat \<times> nat) list option" where
  "utf8_tail c =
     (let b = byte c; cont = (0x80, 0xBF)
      in if b < 0x80 then Some []
         else if 0xC2 \<le> b \<and> b \<le> 0xDF then Some [cont]
         else if b = 0xE0 then Some [(0xA0, 0xBF), cont]
         else if b = 0xED then Some [(0x80, 0x9F), cont]
         else if 0xE1 \<le> b \<and> b \<le> 0xEF then Some [cont, cont]
         else if b = 0xF0 then Some [(0x90, 0xBF), cont, cont]
         else if 0xF1 \<le> b \<and> b \<le> 0xF3 then Some [cont, cont, cont]
         else if b = 0xF4 then Some [(0x80, 0x8F), cont, cont]
         else None)"

fun match_tail :: "(nat \<times> nat) list \<Rightarrow> string \<Rightarrow> nat \<times> bool" where
  "match_tail [] s = (0, True)"
| "match_tail (r # rs) [] = (0, False)"
| "match_tail ((lo, hi) # rs) (c # cs) =
     (if in_range lo hi c then (case match_tail rs cs of (n, ok) \<Rightarrow> (Suc n, ok)) else (0, False))"

definition utf8_step :: "char \<Rightarrow> string \<Rightarrow> nat \<times> bool" where
  "utf8_step c cs = (case utf8_tail c of None \<Rightarrow> (0, False) | Some rs \<Rightarrow> match_tail rs cs)"

definition replacement_char :: string where
  "replacement_char = map (char_of :: nat \<Rightarrow> char) [0xEF, 0xBF, 0xBD]"

function from_utf8_lossy :: "string \<Rightarrow> string" where
  "from_utf8_lossy [] = []"
| "from_utf8_lossy (c # cs) =
     (case utf8_step c cs of (n, ok) \<Rightarrow>
        (if ok then c # take n cs else replacement_char) @ from_utf8_lossy (drop n cs))"
  by pat_completeness auto
termination by (relation "measure length") simp_all

function utf8_valid :: "string \<Rightarrow> bool" where
  "utf8_valid [] = True"
| "utf8_valid (c # cs) = (case utf8_step c cs of (n, ok) \<Rightarrow> ok \<and> utf8_valid (drop n cs))"
  by pat_completeness auto
termination by (relation "measure length") simp_all

lemma from_utf8_lossy_valid: "utf8_valid s \<Longrightarrow> from_utf8_lossy s = s"
  by (induction s rule: utf8_valid.induct) (auto split: prod.splits)

text \<open>A byte that continues a character; a string slice may not start at one.\<close>

definition is_continuation :: "char \<Rightarrow> bool" where
  "is_continuation c \<longleftrightarrow> in_range 0x80 0xBF c"

definition is_ascii :: "string \<Rightarrow> bool" where
  "is_ascii s \<longleftrightarrow> list_all (\<lambda>c. byte c < 128) s"

lemma utf8_step_ascii [simp]: "byte c < 128 \<Longrightarrow> utf8_step c cs = (0, True)"
  by (simp add: utf8_step_def utf8_tail_def)

lemma utf8_valid_ascii: "is_ascii s \<Longrightarrow> utf8_valid s"
  by (induction s) (simp_all add: is_ascii_def)

lemma from_utf8_lossy_ascii [simp]: "is_ascii s \<Longrightarrow> from_utf8_lossy s = s"
  by (simp add: from_utf8_lossy_valid utf8_valid_ascii)

section \<open>JSON values\<close>

datatype json_number = PosInt nat | NegInt int | JFloat f64

datatype json =
    JNull
  | JBool bool
  | JNumber json_number
  | JString string
  | JArray "json list"
  | JObject "(string \<times> json) list"

definition json_get :: "json \<Rightarrow> string \<Rightarrow> json option" where
  "json_get j k = (case j of JObject kvs \<Rightarrow> map_of kvs k | _ \<Rightarrow> None)"

definition as_str :: "json \<Rightarrow> string option" where
  "as_str j = (case j of JString s \<Rightarrow> Some s | _ \<Rightarrow> None)"

definition as_array :: "json \<Rightarrow> json list option" where
  "as_array j = (case j of JArray xs \<Rightarrow> Some xs | _ \<Rightarrow> None)"

definition as_object :: "json \<Rightarrow> (string \<times> json) list option" where
  "as_object j = (case j of JObject kvs \<Rightarrow> Some kvs | _ \<Rightarrow> None)"

definition as_bool :: "json \<Rightarrow> bool option" where
  "as_bool j = (case j of JBool b \<Rightarrow> Some b | _ \<Rightarrow> None)"

definition as_i64 :: "json \<Rightarrow> i64 option" where
  "as_i64 j =
     (case j of
        JNumber (PosInt n) \<Rightarrow> if int n \<le> i64_max then Some (int n) else None
      | JNumber (NegInt i) \<Rightarrow> Some i
      | _ \<Rightarrow> None)"

definition as_f64 :: "json \<Rightarrow> f64 option" where
  "as_f64 j =
     (case j of
        JNumber (PosInt n) \<Rightarrow> Some (f64_of_int (int n))
      | JNumber (NegInt i) \<Rightarrow> Some (f64_of_int i)
      | JNumber (JFloat x) \<Rightarrow> Some x
      | _ \<Rightarrow> None)"

definition get_str :: "json \<Rightarrow> string \<Rightarrow> string option" where
  "get_str j k = Option.bind (json_get j k) as_str"

lemma json_get_update [simp]:
  "json_get (JObject (AList.update k v kvs)) k' =
     (if k' = k then Some v else json_get (JObject kvs) k')"
  by (simp add: json_get_def update_conv')

lemma json_get_delete [simp]:
  "json_get (JObject (AList.delete k kvs)) k' =
     (if k' = k then None else json_get (JObject kvs) k')"
  by (simp add: json_get_def delete_conv')

lemma get_str_update [simp]:
  "get_str (JObject (AList.update k v kvs)) k' =
     (if k' = k then as_str v else get_str (JObject kvs) k')"
  by (simp add: get_str_def)

end
