(* ===== verification/Core_Types.thy ===== *)
theory Core_Types
  imports F64
begin

text \<open>
  The domain types of \<open>crates/core/src/types.rs\<close> that the routing, authentication and
  token code share: accounts and their debug form, usage windows, API keys and their
  scopes, strategy names.
\<close>

section \<open>Accounts\<close>

record account =
  acct_id :: string
  acct_name :: string
  provider :: string
  api_key :: "string option"
  refresh_token :: string
  access_token :: "string option"
  expires_at :: "i64 option"
  request_count :: i64
  total_requests :: i64
  last_used :: "i64 option"
  created_at :: i64
  rate_limited_until :: "i64 option"
  session_start :: "i64 option"
  session_request_count :: i64
  paused :: bool
  rate_limit_reset :: "i64 option"
  rate_limit_status :: "string option"
  rate_limit_remaining :: "i64 option"
  priority :: i64
  auto_fallback_enabled :: bool
  auto_refresh_enabled :: bool
  custom_endpoint :: "string option"
  model_mappings :: "string option"
  reserve_5h :: i64
  reserve_weekly :: i64
  reserve_hard :: bool
  subscription_tier :: "string option"
  email :: "string option"
  refresh_token_updated_at :: "i64 option"
  is_shared :: bool
  overage_protection :: bool

text \<open>An account as it is created: nothing used, nothing limited, no session.\<close>

definition fresh_account :: "string \<Rightarrow> string \<Rightarrow> account" where
  "fresh_account i p =
     \<lparr>acct_id = i, acct_name = i, provider = p, api_key = None, refresh_token = [],
      access_token = None, expires_at = None, request_count = 0, total_requests = 0,
      last_used = None, created_at = 0, rate_limited_until = None, session_start = None,
      session_request_count = 0, paused = False, rate_limit_reset = None,
      rate_limit_status = None, rate_limit_remaining = None, priority = 0,
      auto_fallback_enabled = False, auto_refresh_enabled = False, custom_endpoint = None,
      model_mappings = None, reserve_5h = 0, reserve_weekly = 0, reserve_hard = False,
      subscription_tier = None, email = None, refresh_token_updated_at = None,
      is_shared = False, overage_protection = False\<rparr>"

lemma fresh_account_sel [simp]:
  "acct_id (fresh_account i p) = i" "acct_name (fresh_account i p) = i"
  "provider (fresh_account i p) = p" "api_key (fresh_account i p) = None"
  "refresh_token (fresh_account i p) = []" "access_token (fresh_account i p) = None"
  "expires_at (fresh_account i p) = None" "rate_limited_until (fresh_account i p) = None"
  "session_start (fresh_account i p) = None" "\<not> paused (fresh_account i p)"
  "rate_limit_reset (fresh_account i p) = None" "rate_limit_status (fresh_account i p) = None"
  "priority (fresh_account i p) = 0" "\<not> auto_fallback_enabled (fresh_account i p)"
  "reserve_5h (fresh_account i p) = 0" "reserve_weekly (fresh_account i p) = 0"
  "refresh_token_updated_at (fresh_account i p) = None" "created_at (fresh_account i p) = 0"
  "custom_endpoint (fresh_account i p) = None" "model_mappings (fresh_account i p) = None"
  "subscription_tier (fresh_account i p) = None" "email (fresh_account i p) = None"
  "\<not> reserve_hard (fresh_account i p)" "\<not> overage_protection (fresh_account i p)"
  by (simp_all add: fresh_account_def)

text \<open>
  The hand-written \<open>Debug\<close> instance: the fields in order, each with the value that is
  printed. The three credentials are masked.
\<close>

datatype debug_value =
    DStr string | DOptStr "string option" | DInt i64 | DOptInt "i64 option" | DBool bool

definition redacted :: string where "redacted = ''[REDACTED]''"

definition account_debug :: "account \<Rightarrow> (string \<times> debug_value) list" where
  "account_debug a =
    [(''id'', DStr (acct_id a)),
     (''name'', DStr (acct_name a)),
     (''provider'', DStr (provider a)),
     (''api_key'', DOptStr (map_option (\<lambda>_. redacted) (api_key a))),
     (''refresh_token'', DStr redacted),
     (''access_token'', DOptStr (map_option (\<lambda>_. redacted) (access_token a))),
     (''expires_at'', DOptInt (expires_at a)),
     (''request_count'', DInt (request_count a)),
     (''total_requests'', DInt (total_requests a)),
     (''last_used'', DOptInt (last_used a)),
     (''created_at'', DInt (created_at a)),
     (''rate_limited_until'', DOptInt (rate_limited_until a)),
     (''session_start'', DOptInt (session_start a)),
     (''session_request_count'', DInt (session_request_count a)),
     (''paused'', DBool (paused a)),
     (''rate_limit_reset'', DOptInt (rate_limit_reset a)),
     (''rate_limit_status'', DOptStr (rate_limit_status a)),
     (''rate_limit_remaining'', DOptInt (rate_limit_remaining a)),
     (''priority'', DInt (priority a)),
     (''auto_fallback_enabled'', DBool (auto_fallback_enabled a)),
     (''auto_refresh_enabled'', DBool (auto_refresh_enabled a)),
     (''custom_endpoint'', DOptStr (custom_endpoint a)),
     (''model_mappings'', DOptStr (model_mappings a)),
     (''reserve_5h'', DInt (reserve_5h a)),
     (''reserve_weekly'', DInt (reserve_weekly a)),
     (''reserve_hard'', DBool (reserve_hard a)),
     (''subscription_tier'', DOptStr (subscription_tier a)),
     (''email'', DOptStr (email a)),
     (''refresh_token_updated_at'', DOptInt (refresh_token_updated_at a)),
     (''is_shared'', DBool (is_shared a)),
     (''overage_protection'', DBool (overage_protection a))]"

text \<open>
  Two accounts that differ in their credentials only (each optional credential present in
  both or in neither) are indistinguishable.
\<close>

definition same_but_credentials :: "account \<Rightarrow> account \<Rightarrow> bool" where
  "same_but_credentials a b \<longleftrightarrow>
     b = a\<lparr>api_key := api_key b, refresh_token := refresh_token b,
           access_token := access_token b\<rparr> \<and>
     (api_key b = None \<longleftrightarrow> api_key a = None) \<and>
     (access_token b = None \<longleftrightarrow> access_token a = None)"

lemma map_option_const: "k = None \<longleftrightarrow> k' = None \<Longrightarrow> map_option (\<lambda>_. c) k = map_option (\<lambda>_. c) k'"
  by (cases k; cases k') auto

lemma account_debug_credentials:
  assumes "same_but_credentials a b"
  shows "account_debug b = account_debug a"
proof -
  define k r t where krt: "k = api_key b" "r = refresh_token b" "t = access_token b"
  have b: "b = a\<lparr>api_key := k, refresh_token := r, access_token := t\<rparr>"
    and k: "k = None \<longleftrightarrow> api_key a = None" and t: "t = None \<longleftrightarrow> access_token a = None"
    using assms unfolding same_but_credentials_def krt by - (elim conjE, assumption)+
  from map_option_const [OF k, of redacted] map_option_const [OF t, of redacted]
  show ?thesis unfolding b account_debug_def by simp
qed

section \<open>Usage windows\<close>

datatype window_kind = FiveHour | Weekly | Other

record window_usage =
  w_kind :: window_kind
  w_utilization_pct :: f64
  w_resets_at_ms :: "i64 option"

record routing_usage_info =
  utilization_pct :: f64
  resets_at_ms :: "i64 option"
  windows :: "window_usage list"

section \<open>API keys\<close>

datatype key_scope = Admin | Proxy

definition key_scope_from_db :: "string \<Rightarrow> key_scope" where
  "key_scope_from_db s = (if s = ''proxy'' then Proxy else Admin)"

fun key_scope_as_db :: "key_scope \<Rightarrow> string" where
  "key_scope_as_db Admin = ''admin''"
| "key_scope_as_db Proxy = ''proxy''"

lemma key_scope_roundtrip [simp]: "key_scope_from_db (key_scope_as_db s) = s"
  by (cases s) (auto simp: key_scope_from_db_def)

record api_key_rec =
  ak_id :: string
  ak_name :: string
  ak_hashed_key :: string
  ak_prefix_last_8 :: string
  ak_created_at :: i64
  ak_last_used :: "i64 option"
  ak_usage_count :: i64
  ak_is_active :: bool
  ak_scope :: key_scope

section \<open>Strategy names\<close>

datatype strategy_name = Session

fun strategy_as_str :: "strategy_name \<Rightarrow> string" where
  "strategy_as_str Session = ''session''"

definition default_strategy :: strategy_name where "default_strategy = Session"

definition is_valid_strategy :: "string \<Rightarrow> bool" where
  "is_valid_strategy s \<longleftrightarrow> s = ''session''"

lemma strategy_as_str_valid [simp]: "is_valid_strategy (strategy_as_str s)"
  by (cases s) (simp add: is_valid_strategy_def)

end
