(* ===== verification/Eligibility.thy ===== *)
theory Eligibility
  imports Core_Types
begin

text \<open>
  The routing eligibility of an account, \<open>crates/core/src/account_eligibility.rs\<close>: the parsed
  upstream status, the normalisation of epoch time stamps, the overage and reserve rules over
  usage windows, and the decision \<open>evaluate_account_eligibility\<close> that the load balancer and
  the dashboard share. The usage map is read by key only, so it is a partial function.
\<close>

section \<open>Upstream status\<close>

datatype upstream_status =
    Missing | StatusOk | AllowedWarning | AuthFailedStatus | ReauthRequired | Unauthorized
  | Forbidden | RefreshTokenRevoked | OtherStatus string

definition upstream_from_raw :: "string option \<Rightarrow> upstream_status" where
  "upstream_from_raw status =
     (case status of
        None \<Rightarrow> Missing
      | Some raw \<Rightarrow>
          (let lowered = to_ascii_lowercase (trim raw) in
           if lowered = [] then Missing
           else if lowered = ''ok'' \<or> lowered = ''allowed'' then StatusOk
           else if contains_str lowered ''allowed_warning'' then AllowedWarning
           else if starts_with lowered ''auth failed''
                \<or> starts_with lowered ''authentication failed'' then AuthFailedStatus
           else if contains_str lowered ''re-authentication''
                \<or> contains_str lowered ''reauth'' then ReauthRequired
           else if contains_str lowered ''unauthorized'' then Unauthorized
           else if contains_str lowered ''forbidden'' then Forbidden
           else if contains_str lowered ''refresh token revoked'' then RefreshTokenRevoked
           else OtherStatus raw))"

definition is_auth_failure :: "upstream_status \<Rightarrow> bool" where
  "is_auth_failure s =
     (case s of
        AuthFailedStatus \<Rightarrow> True | ReauthRequired \<Rightarrow> True | Unauthorized \<Rightarrow> True
      | Forbidden \<Rightarrow> True | RefreshTokenRevoked \<Rightarrow> True | _ \<Rightarrow> False)"

section \<open>Epoch normalisation\<close>

definition normalize_epoch_millis :: "i64 \<Rightarrow> i64" where
  "normalize_epoch_millis ts =
     (if i64_abs ts < 1000000000000 then i64_saturating_mul ts 1000 else ts)"

definition provider_supports_usage :: "string \<Rightarrow> bool" where
  "provider_supports_usage p \<longleftrightarrow>
     p = ''claude-oauth'' \<or> p = ''anthropic'' \<or> p = ''nanogpt'' \<or> p = ''zai''"

text \<open>
  A time stamp in seconds and the same instant in milliseconds have one normal form, and the
  multiplication does not saturate there.
\<close>

lemma i64_abs_small: "\<bar>ts\<bar> \<le> i64_max \<Longrightarrow> i64_abs ts = \<bar>ts\<bar>"
  unfolding i64_abs_def by (intro i64_wrap_id) (auto simp: in_i64_def i64_min_def i64_max_def)

lemma normalize_seconds: "\<bar>ts\<bar> < 1000000000000 \<Longrightarrow> normalize_epoch_millis ts = 1000 * ts"
proof -
  assume ts: "\<bar>ts\<bar> < 1000000000000"
  then have "i64_abs ts = \<bar>ts\<bar>"
    by (intro i64_abs_small) (simp add: i64_max_def)
  moreover have "in_i64 (ts * 1000)"
    using ts unfolding in_i64_def i64_min_def i64_max_def abs_less_iff by simp
  then have "i64_saturate (ts * 1000) = ts * 1000"
    by (rule i64_saturate_id)
  ultimately show ?thesis
    using ts by (simp add: normalize_epoch_millis_def i64_saturating_mul_def)
qed

lemma normalize_millis:
  "\<bar>ts\<bar> \<le> i64_max \<Longrightarrow> 1000000000000 \<le> \<bar>ts\<bar> \<Longrightarrow> normalize_epoch_millis ts = ts"
  by (simp add: normalize_epoch_millis_def i64_abs_small)

section \<open>Overage\<close>

definition is_anthropic_family :: "account \<Rightarrow> bool" where
  "is_anthropic_family a \<longleftrightarrow> provider a = ''anthropic'' \<or> provider a = ''claude-oauth''"

definition saturated :: "f64 \<Rightarrow> bool" where
  "saturated u \<longleftrightarrow> \<not> is_finite u \<or> u \<ge> Fin 100"

definition five_hour_windows :: "routing_usage_info \<Rightarrow> window_usage list" where
  "five_hour_windows info = filter (\<lambda>w. w_kind w = FiveHour) (windows info)"

definition is_at_overage :: "account \<Rightarrow> routing_usage_info \<Rightarrow> bool" where
  "is_at_overage a info =
     (if windows info = [] then
        (if is_anthropic_family a then True else saturated (utilization_pct info))
      else
        (let five_hour_known = five_hour_windows info \<noteq> [];
             five_hour_exhausted =
               list_ex (\<lambda>w. saturated (w_utilization_pct w)) (five_hour_windows info)
         in list_ex
              (\<lambda>w. if \<not> saturated (w_utilization_pct w) then False
                   else if is_anthropic_family a \<and> w_kind w = Other then
                     (if \<not> five_hour_known then True else five_hour_exhausted)
                   else True)
              (windows info)))"

section \<open>Reserve\<close>

definition reserve_window_hit :: "account \<Rightarrow> bool \<Rightarrow> window_usage \<Rightarrow> bool" where
  "reserve_window_hit a five_hour_at_100 w =
     (let hit = (\<lambda>threshold.
            let trigger_at = f64_of_int (max (i64_saturating_sub 100 threshold) 0)
            in threshold > 0 \<and>
               (\<not> is_finite (w_utilization_pct w) \<or> w_utilization_pct w \<ge> trigger_at))
      in case w_kind w of
           FiveHour \<Rightarrow> hit (reserve_5h a)
         | Weekly \<Rightarrow> hit (reserve_weekly a)
         | Other \<Rightarrow>
             if is_anthropic_family a \<and> \<not> five_hour_at_100 then False
             else hit (reserve_5h a))"

definition is_at_reserve :: "account \<Rightarrow> (string \<rightharpoonup> routing_usage_info) \<Rightarrow> bool" where
  "is_at_reserve a usage =
     (if reserve_5h a = 0 \<and> reserve_weekly a = 0 then False
      else case usage (acct_id a) of
        None \<Rightarrow> False
      | Some info \<Rightarrow>
          (let five_hour_at_100 =
                 list_ex (\<lambda>w. saturated (w_utilization_pct w)) (five_hour_windows info)
           in if windows info \<noteq> [] then
                list_ex (reserve_window_hit a five_hour_at_100) (windows info)
              else
                (let threshold = max (reserve_5h a) (reserve_weekly a)
                 in threshold > 0 \<and>
                    (\<not> is_finite (utilization_pct info) \<or>
                     utilization_pct info \<ge> f64_of_int (i64_sub 100 threshold)))))"

section \<open>The decision\<close>

datatype block_reason = Paused | AuthFailed | ActiveRateLimit | OverageProtection | HardReserve

record account_eligibility =
  routable :: bool
  blocked_by :: "block_reason list"
  upstream_status :: upstream_status
  overage_blocked :: bool
  hard_reserve_blocked :: bool
  soft_reserve_hit :: bool
  usage_missing :: bool
  usage_missing_overage_fail_open :: bool
  usage_missing_hard_reserve_fail_closed :: bool
  active_rate_limit :: bool

definition evaluate_account_eligibility ::
  "account \<Rightarrow> (string \<rightharpoonup> routing_usage_info) \<Rightarrow> i64 \<Rightarrow> account_eligibility" where
  "evaluate_account_eligibility a usage now =
     (let usage_info = usage (acct_id a);
          missing = (provider_supports_usage (provider a) \<and> usage_info = None);
          has_reserves = (reserve_5h a > 0 \<or> reserve_weekly a > 0);
          status = upstream_from_raw (rate_limit_status a);
          active_limit = (case rate_limited_until a of
              None \<Rightarrow> False
            | Some until \<Rightarrow> normalize_epoch_millis until \<ge> now);
          over = (if overage_protection a then
              (case usage_info of None \<Rightarrow> False | Some info \<Rightarrow> is_at_overage a info)
            else False);
          fail_open = (overage_protection a \<and> usage_info = None);
          fail_closed = (reserve_hard a \<and> has_reserves \<and> usage_info = None);
          hard = (fail_closed \<or> (reserve_hard a \<and> is_at_reserve a usage));
          soft = (\<not> reserve_hard a \<and> is_at_reserve a usage);
          blocked = (if paused a then [Paused] else [])
            @ (if is_auth_failure status then [AuthFailed] else [])
            @ (if active_limit then [ActiveRateLimit] else [])
            @ (if over then [OverageProtection] else [])
            @ (if hard then [HardReserve] else [])
      in \<lparr>routable = (blocked = []), blocked_by = blocked, upstream_status = status,
          overage_blocked = over, hard_reserve_blocked = hard, soft_reserve_hit = soft,
          usage_missing = missing, usage_missing_overage_fail_open = fail_open,
          usage_missing_hard_reserve_fail_closed = fail_closed,
          active_rate_limit = active_limit\<rparr>)"

section \<open>What the decision depends on\<close>

text \<open>The five reasons, each as a condition on the account, its usage and the time.\<close>

fun reason_holds ::
  "account \<Rightarrow> (string \<rightharpoonup> routing_usage_info) \<Rightarrow> i64 \<Rightarrow> block_reason \<Rightarrow> bool" where
  "reason_holds a usage now Paused = paused a"
| "reason_holds a usage now AuthFailed =
     is_auth_failure (upstream_from_raw (rate_limit_status a))"
| "reason_holds a usage now ActiveRateLimit =
     (\<exists>until. rate_limited_until a = Some until \<and> now \<le> normalize_epoch_millis until)"
| "reason_holds a usage now OverageProtection =
     (overage_protection a \<and>
      (\<exists>info. usage (acct_id a) = Some info \<and> is_at_overage a info))"
| "reason_holds a usage now HardReserve =
     (reserve_hard a \<and>
      (if usage (acct_id a) = None then reserve_5h a > 0 \<or> reserve_weekly a > 0
       else is_at_reserve a usage))"

definition block_order :: "block_reason list" where
  "block_order = [Paused, AuthFailed, ActiveRateLimit, OverageProtection, HardReserve]"

lemma is_at_reserve_missing [simp]: "usage (acct_id a) = None \<Longrightarrow> \<not> is_at_reserve a usage"
  by (simp add: is_at_reserve_def)

lemma blocked_by_filter:
  "blocked_by (evaluate_account_eligibility a usage now) =
     filter (reason_holds a usage now) block_order"
proof -
  have limit: "(case rate_limited_until a of None \<Rightarrow> False
      | Some until \<Rightarrow> now \<le> normalize_epoch_millis until) =
      reason_holds a usage now ActiveRateLimit"
    by (auto split: option.splits)
  have over: "(if overage_protection a then
        (case usage (acct_id a) of None \<Rightarrow> False | Some info \<Rightarrow> is_at_overage a info) else False) =
      reason_holds a usage now OverageProtection"
    by (auto split: option.splits)
  have hard: "(reserve_hard a \<and> (reserve_5h a > 0 \<or> reserve_weekly a > 0) \<and>
        usage (acct_id a) = None \<or> reserve_hard a \<and> is_at_reserve a usage) =
      reason_holds a usage now HardReserve"
    by auto
  show ?thesis
    unfolding evaluate_account_eligibility_def Let_def account_eligibility.simps
      limit over hard block_order_def
    by simp
qed

lemma routable_iff_no_reason:
  "routable (evaluate_account_eligibility a usage now) \<longleftrightarrow>
     (\<forall>r. \<not> reason_holds a usage now r)"
proof -
  have "routable (evaluate_account_eligibility a usage now) \<longleftrightarrow>
      blocked_by (evaluate_account_eligibility a usage now) = []"
    by (simp add: evaluate_account_eligibility_def Let_def)
  also have "\<dots> \<longleftrightarrow> (\<forall>r \<in> set block_order. \<not> reason_holds a usage now r)"
    by (simp add: blocked_by_filter filter_empty_conv)
  also have "set block_order = UNIV"
  proof -
    have "r \<in> set block_order" for r
      by (cases r) (simp_all add: block_order_def)
    then show ?thesis by blast
  qed
  finally show ?thesis by simp
qed

text \<open>An account with no limit and no protection configured is routable at any time.\<close>

lemma routable_plain:
  assumes "\<not> paused a" "rate_limit_status a = None" "rate_limited_until a = None"
    "\<not> overage_protection a" "\<not> reserve_hard a"
  shows "routable (evaluate_account_eligibility a usage now)"
proof -
  have "\<not> reason_holds a usage now r" for r
    using assms by (cases r) (simp_all add: upstream_from_raw_def is_auth_failure_def)
  then show ?thesis by (simp add: routable_iff_no_reason)
qed

text \<open>
  Overage with per-window telemetry. For the Anthropic family the monthly \<open>Other\<close> budget
  counts only while no five-hour window is reported: a saturated five-hour window blocks by
  itself.
\<close>

lemma is_at_overage_windows:
  assumes "windows info \<noteq> []"
  shows "is_at_overage a info \<longleftrightarrow>
    (\<exists>w \<in> set (windows info). saturated (w_utilization_pct w) \<and>
       \<not> (is_anthropic_family a \<and> w_kind w = Other \<and>
          (\<exists>v \<in> set (windows info). w_kind v = FiveHour)))"
proof -
  have known: "five_hour_windows info \<noteq> [] \<longleftrightarrow> (\<exists>v \<in> set (windows info). w_kind v = FiveHour)"
    by (auto simp: five_hour_windows_def filter_empty_conv)
  have exh: "list_ex (\<lambda>w. saturated (w_utilization_pct w)) (five_hour_windows info) \<longleftrightarrow>
      (\<exists>v \<in> set (windows info). w_kind v = FiveHour \<and> saturated (w_utilization_pct v))"
    by (auto simp: five_hour_windows_def list_ex_iff)
  have eq: "is_at_overage a info \<longleftrightarrow> (\<exists>w \<in> set (windows info).
      saturated (w_utilization_pct w) \<and>
      (is_anthropic_family a \<and> w_kind w = Other \<longrightarrow>
        (\<exists>v \<in> set (windows info). w_kind v = FiveHour) \<longrightarrow>
        (\<exists>v \<in> set (windows info). w_kind v = FiveHour \<and> saturated (w_utilization_pct v))))"
    using assms unfolding is_at_overage_def Let_def known exh
    unfolding list_ex_iff by (simp only: if_False simp_thms) (rule bex_cong [OF refl], auto)
  show ?thesis
    unfolding eq by (metis window_kind.distinct(3))
qed

text \<open>Raising utilisations never takes an account off its reserve.\<close>

definition worse :: "f64 \<Rightarrow> f64 \<Rightarrow> bool" where
  "worse u v \<longleftrightarrow> \<not> is_finite v \<or> (is_finite u \<and> u \<le> v)"

definition worse_window :: "window_usage \<Rightarrow> window_usage \<Rightarrow> bool" where
  "worse_window v w \<longleftrightarrow>
     w_kind v = w_kind w \<and> worse (w_utilization_pct v) (w_utilization_pct w)"

definition worse_info :: "routing_usage_info \<Rightarrow> routing_usage_info \<Rightarrow> bool" where
  "worse_info i j \<longleftrightarrow>
     worse (utilization_pct i) (utilization_pct j) \<and>
     list_all2 worse_window (windows i) (windows j)"

lemma worse_threshold:
  "worse u v \<Longrightarrow> \<not> is_finite u \<or> t \<le> u \<Longrightarrow> \<not> is_finite v \<or> t \<le> v"
  by (auto simp: worse_def intro: f64_le_trans)

lemma worse_saturated: "worse u v \<Longrightarrow> saturated u \<Longrightarrow> saturated v"
  unfolding saturated_def by (rule worse_threshold)

lemma list_ex_all2:
  "list_all2 R xs ys \<Longrightarrow> (\<And>x y. R x y \<Longrightarrow> P x \<Longrightarrow> Q y) \<Longrightarrow> list_ex P xs \<Longrightarrow> list_ex Q ys"
  by (induction rule: list_all2_induct) auto

lemma worse_five_hour:
  "list_all2 worse_window xs ys \<Longrightarrow>
     list_all2 worse_window (filter (\<lambda>w. w_kind w = FiveHour) xs)
       (filter (\<lambda>w. w_kind w = FiveHour) ys)"
  by (induction rule: list_all2_induct) (auto simp: worse_window_def)

lemma worse_reserve_window:
  assumes "worse_window v w" and "b \<longrightarrow> c" and "reserve_window_hit a b v"
  shows "reserve_window_hit a c w"
proof -
  have k: "w_kind w = w_kind v" and u: "worse (w_utilization_pct v) (w_utilization_pct w)"
    using assms(1) by (auto simp: worse_window_def)
  have hit: "(\<not> is_finite (w_utilization_pct v) \<or> t \<le> w_utilization_pct v) \<Longrightarrow>
      (\<not> is_finite (w_utilization_pct w) \<or> t \<le> w_utilization_pct w)" for t
    by (rule worse_threshold [OF u])
  show ?thesis
  proof (cases "w_kind v")
    case FiveHour
    with assms(3) hit show ?thesis by (simp add: reserve_window_hit_def k)
  next
    case Weekly
    with assms(3) hit show ?thesis by (simp add: reserve_window_hit_def k)
  next
    case Other
    with assms(2,3) hit show ?thesis
      by (cases "is_anthropic_family a"; cases b) (simp_all add: reserve_window_hit_def k)
  qed
qed

lemma is_at_reserve_mono:
  assumes le: "usage (acct_id a) = Some i" "usage' (acct_id a) = Some j" "worse_info i j"
    and res: "is_at_reserve a usage"
  shows "is_at_reserve a usage'"
proof -
  have u: "worse (utilization_pct i) (utilization_pct j)"
    and ws: "list_all2 worse_window (windows i) (windows j)"
    using le(3) by (auto simp: worse_info_def)
  have nil: "windows i = [] \<longleftrightarrow> windows j = []"
    using ws by auto
  let ?full = "\<lambda>info. list_ex (\<lambda>w. saturated (w_utilization_pct w)) (five_hour_windows info)"
  have "saturated (w_utilization_pct w)"
    if "worse_window v w" "saturated (w_utilization_pct v)" for v w
    using that worse_saturated unfolding worse_window_def by blast
  then have full: "?full i \<longrightarrow> ?full j"
    unfolding five_hour_windows_def
    by (intro impI) (rule list_ex_all2 [OF worse_five_hour [OF ws]])
  have hits: "list_ex (reserve_window_hit a (?full i)) (windows i) \<Longrightarrow>
      list_ex (reserve_window_hit a (?full j)) (windows j)"
    by (rule list_ex_all2 [OF ws]) (rule worse_reserve_window [OF _ full])
  show ?thesis
    using res hits worse_threshold [OF u]
    unfolding is_at_reserve_def le Let_def
    by (auto simp: nil split: if_splits)
qed

end
