(* ===== verification/Providers.thy ===== *)
theory Providers
  imports Prelude
begin

text \<open>
  The provider table of \<open>crates/core/src/providers.rs\<close>: provider names, the modes in which
  accounts are created, and the configuration of each provider.
\<close>

datatype provider_kind =
    Anthropic | ClaudeConsoleApi | Zai | Minimax | AnthropicCompatible | OpenaiCompatible
  | Nanogpt | VertexAi

fun provider_to_string :: "provider_kind \<Rightarrow> string" where
  "provider_to_string Anthropic = ''anthropic''"
| "provider_to_string ClaudeConsoleApi = ''claude-console-api''"
| "provider_to_string Zai = ''zai''"
| "provider_to_string Minimax = ''minimax''"
| "provider_to_string AnthropicCompatible = ''anthropic-compatible''"
| "provider_to_string OpenaiCompatible = ''openai-compatible''"
| "provider_to_string Nanogpt = ''nanogpt''"
| "provider_to_string VertexAi = ''vertex-ai''"

definition provider_from_str_loose :: "string \<Rightarrow> provider_kind option" where
  "provider_from_str_loose s =
     (if s = ''anthropic'' then Some Anthropic
      else if s = ''claude-console-api'' then Some ClaudeConsoleApi
      else if s = ''zai'' then Some Zai
      else if s = ''minimax'' then Some Minimax
      else if s = ''anthropic-compatible'' then Some AnthropicCompatible
      else if s = ''openai-compatible'' then Some OpenaiCompatible
      else if s = ''nanogpt'' then Some Nanogpt
      else if s = ''vertex-ai'' then Some VertexAi
      else None)"

definition provider_all :: "provider_kind list" where
  "provider_all =
     [Anthropic, ClaudeConsoleApi, Zai, Minimax, AnthropicCompatible, OpenaiCompatible,
      Nanogpt, VertexAi]"

datatype account_mode =
    ClaudeOauthMode | ConsoleMode | ZaiMode | MinimaxMode | AnthropicCompatibleMode
  | OpenaiCompatibleMode | NanogptMode | VertexAiMode

fun account_mode_to_string :: "account_mode \<Rightarrow> string" where
  "account_mode_to_string ClaudeOauthMode = ''claude-oauth''"
| "account_mode_to_string ConsoleMode = ''console''"
| "account_mode_to_string ZaiMode = ''zai''"
| "account_mode_to_string MinimaxMode = ''minimax''"
| "account_mode_to_string AnthropicCompatibleMode = ''anthropic-compatible''"
| "account_mode_to_string OpenaiCompatibleMode = ''openai-compatible''"
| "account_mode_to_string NanogptMode = ''nanogpt''"
| "account_mode_to_string VertexAiMode = ''vertex-ai''"

fun account_mode_to_provider :: "account_mode \<Rightarrow> provider_kind" where
  "account_mode_to_provider ClaudeOauthMode = Anthropic"
| "account_mode_to_provider ConsoleMode = ClaudeConsoleApi"
| "account_mode_to_provider ZaiMode = Zai"
| "account_mode_to_provider MinimaxMode = Minimax"
| "account_mode_to_provider AnthropicCompatibleMode = AnthropicCompatible"
| "account_mode_to_provider OpenaiCompatibleMode = OpenaiCompatible"
| "account_mode_to_provider NanogptMode = Nanogpt"
| "account_mode_to_provider VertexAiMode = VertexAi"

record provider_config =
  cfg_requires_session_tracking :: bool
  cfg_supports_usage_tracking :: bool
  cfg_supports_oauth :: bool
  cfg_default_endpoint :: string

fun config_of :: "provider_kind \<Rightarrow> provider_config" where
  "config_of Anthropic =
     \<lparr>cfg_requires_session_tracking = True, cfg_supports_usage_tracking = True,
      cfg_supports_oauth = True, cfg_default_endpoint = ''https://api.anthropic.com''\<rparr>"
| "config_of ClaudeConsoleApi =
     \<lparr>cfg_requires_session_tracking = False, cfg_supports_usage_tracking = False,
      cfg_supports_oauth = False, cfg_default_endpoint = ''https://api.anthropic.com''\<rparr>"
| "config_of Zai =
     \<lparr>cfg_requires_session_tracking = False, cfg_supports_usage_tracking = True,
      cfg_supports_oauth = False, cfg_default_endpoint = ''https://api.z.ai/api/anthropic''\<rparr>"
| "config_of Minimax =
     \<lparr>cfg_requires_session_tracking = False, cfg_supports_usage_tracking = False,
      cfg_supports_oauth = False, cfg_default_endpoint = ''https://api.minimax.io/anthropic''\<rparr>"
| "config_of AnthropicCompatible =
     \<lparr>cfg_requires_session_tracking = False, cfg_supports_usage_tracking = False,
      cfg_supports_oauth = False, cfg_default_endpoint = ''https://api.anthropic.com''\<rparr>"
| "config_of OpenaiCompatible =
     \<lparr>cfg_requires_session_tracking = False, cfg_supports_usage_tracking = False,
      cfg_supports_oauth = False, cfg_default_endpoint = ''https://api.anthropic.com''\<rparr>"
| "config_of Nanogpt =
     \<lparr>cfg_requires_session_tracking = False, cfg_supports_usage_tracking = True,
      cfg_supports_oauth = False, cfg_default_endpoint = ''https://nano-gpt.com/api''\<rparr>"
| "config_of VertexAi =
     \<lparr>cfg_requires_session_tracking = False, cfg_supports_usage_tracking = False,
      cfg_supports_oauth = False, cfg_default_endpoint = ''https://aiplatform.googleapis.com''\<rparr>"

definition provider_requires_session_tracking :: "provider_kind \<Rightarrow> bool" where
  "provider_requires_session_tracking p = cfg_requires_session_tracking (config_of p)"

definition provider_supports_usage_tracking :: "provider_kind \<Rightarrow> bool" where
  "provider_supports_usage_tracking p = cfg_supports_usage_tracking (config_of p)"

definition provider_supports_oauth :: "provider_kind \<Rightarrow> bool" where
  "provider_supports_oauth p = cfg_supports_oauth (config_of p)"

definition provider_default_endpoint :: "provider_kind \<Rightarrow> string" where
  "provider_default_endpoint p = cfg_default_endpoint (config_of p)"

definition provider_uses_api_key :: "provider_kind \<Rightarrow> bool" where
  "provider_uses_api_key p \<longleftrightarrow> p \<noteq> Anthropic"

definition get_default_endpoint :: "string \<Rightarrow> string" where
  "get_default_endpoint s =
     (case provider_from_str_loose s of
        Some p \<Rightarrow> provider_default_endpoint p
      | None \<Rightarrow> ''https://api.anthropic.com'')"

section \<open>Facts about the table\<close>

lemma provider_roundtrip [simp]: "provider_from_str_loose (provider_to_string p) = Some p"
  by (cases p) (simp_all add: provider_from_str_loose_def)

lemma provider_from_str_loose_Some:
  "provider_from_str_loose s = Some p \<Longrightarrow> s = provider_to_string p"
  by (auto simp: provider_from_str_loose_def split: if_splits)

lemma provider_from_str_loose_iff:
  "provider_from_str_loose s = Some p \<longleftrightarrow> s = provider_to_string p"
  using provider_from_str_loose_Some by auto

lemma inj_provider_to_string: "inj provider_to_string"
  by (rule injI) (metis option.inject provider_roundtrip)

lemma set_provider_all: "set provider_all = UNIV"
proof -
  have "p \<in> set provider_all" for p
    by (cases p) (simp_all add: provider_all_def)
  then show ?thesis by blast
qed

lemma requires_session_tracking_iff [simp]:
  "provider_requires_session_tracking p \<longleftrightarrow> p = Anthropic"
  by (cases p) (simp_all add: provider_requires_session_tracking_def)

lemma account_mode_to_provider_bij: "bij account_mode_to_provider"
proof (rule bijI)
  show "inj account_mode_to_provider"
  proof (rule injI)
    fix m n
    assume "account_mode_to_provider m = account_mode_to_provider n"
    then show "m = n" by (cases m; cases n) auto
  qed
  show "surj account_mode_to_provider"
    unfolding surj_def
  proof
    fix p
    show "\<exists>m. p = account_mode_to_provider m"
      by (cases p) (metis account_mode_to_provider.simps)+
  qed
qed

end
