(* ===== verification/Load_Balancer.thy ===== *)
theory Load_Balancer
  imports Eligibility Providers "HOL-Library.Word"
begin

text \<open>
  The session strategy of \<open>crates/load-balancer/src/lib.rs\<close>: forced accounts, auto-fallback,
  session affinity, the usage-aware order and round-robin. The atomic counter is a 64-bit
  word of the strategy's state, returned updated; usage is read by account id only.
\<close>

section \<open>State and requests\<close>

definition RESET_DEBOUNCE_MS :: i64 where "RESET_DEBOUNCE_MS = 15000"

record selection_meta =
  force_account_id :: "string option"
  force_account_strict :: bool
  bypass_session :: bool

record session_reset =
  reset_account_id :: string
  new_session_start :: i64

record session_strategy =
  session_duration_ms :: i64
  round_robin_counter :: "64 word"

type_synonym usage_map = "string \<rightharpoonup> routing_usage_info"

definition session_strategy_new :: "i64 \<Rightarrow> session_strategy" where
  "session_strategy_new d = \<lparr>session_duration_ms = d, round_robin_counter = 0\<rparr>"

section \<open>Operations\<close>

definition requires_session_tracking :: "string \<Rightarrow> bool" where
  "requires_session_tracking p =
     (case provider_from_str_loose p of
        None \<Rightarrow> False
      | Some k \<Rightarrow> provider_requires_session_tracking k)"

definition is_account_available :: "account \<Rightarrow> usage_map \<Rightarrow> i64 \<Rightarrow> bool" where
  "is_account_available a usage now = routable (evaluate_account_eligibility a usage now)"

definition window_reset :: "account \<Rightarrow> i64 \<Rightarrow> bool" where
  "window_reset a now =
     (case rate_limit_reset a of
        None \<Rightarrow> False
      | Some r \<Rightarrow> normalize_epoch_millis r < i64_sub now RESET_DEBOUNCE_MS)"

definition maybe_reset_session ::
  "session_strategy \<Rightarrow> account \<Rightarrow> i64 \<Rightarrow> account \<times> session_reset option" where
  "maybe_reset_session st a now =
     (let fixed_duration_expired =
            (requires_session_tracking (provider a) \<and>
             (case session_start a of
                Some start \<Rightarrow> i64_sub now start \<ge> session_duration_ms st
              | None \<Rightarrow> True));
          rate_limit_window_reset =
            (provider a = provider_to_string Anthropic \<and> window_reset a now)
      in if fixed_duration_expired \<or> rate_limit_window_reset then
           (let a1 = a\<lparr>session_start := Some now, session_request_count := 0\<rparr>;
                a2 = (if rate_limit_window_reset then a1\<lparr>rate_limit_reset := None\<rparr> else a1)
            in (a2, Some \<lparr>reset_account_id = acct_id a, new_session_start = now\<rparr>))
         else (a, None))"

definition has_active_session :: "session_strategy \<Rightarrow> account \<Rightarrow> i64 \<Rightarrow> bool" where
  "has_active_session st a now =
     (if \<not> requires_session_tracking (provider a) then False
      else case session_start a of
        Some start \<Rightarrow> start \<le> now \<and> i64_sub now start < session_duration_ms st
      | None \<Rightarrow> False)"

definition account_cmp :: "usage_map \<Rightarrow> account \<Rightarrow> account \<Rightarrow> ordering" where
  "account_cmp usage a b =
     (let pri = cmp_of (priority a) (priority b)
      in if pri \<noteq> Equal then pri
         else case (is_at_reserve a usage, is_at_reserve b usage) of
           (False, True) \<Rightarrow> Less
         | (True, False) \<Rightarrow> Greater
         | _ \<Rightarrow>
            (case (Option.bind (usage (acct_id a)) resets_at_ms,
                   Option.bind (usage (acct_id b)) resets_at_ms) of
               (Some ar, Some br) \<Rightarrow> cmp_of ar br
             | (Some _, None) \<Rightarrow> Less
             | (None, Some _) \<Rightarrow> Greater
             | (None, None) \<Rightarrow> Equal))"

definition sort_accounts_usage_aware :: "usage_map \<Rightarrow> account list \<Rightarrow> account list" where
  "sort_accounts_usage_aware usage accounts = sort_by (account_cmp usage) accounts"

definition priority_cmp :: "account \<Rightarrow> account \<Rightarrow> ordering" where
  "priority_cmp a b = cmp_of (priority a) (priority b)"

definition check_auto_fallback_accounts ::
  "account list \<Rightarrow> usage_map \<Rightarrow> i64 \<Rightarrow> account list" where
  "check_auto_fallback_accounts accounts usage now =
     sort_by priority_cmp
       (filter (\<lambda>a. if \<not> auto_fallback_enabled a then False
                    else window_reset a now \<and> is_account_available a usage now) accounts)"

text \<open>
  The three affinity branches of \<open>select\<close> end in the same code: the chosen account, its
  session brought up to date, before the other available accounts in order.
\<close>

definition take_session ::
  "session_strategy \<Rightarrow> selection_meta \<Rightarrow> account \<Rightarrow> i64 \<Rightarrow> account \<times> session_reset list" where
  "take_session st meta a now =
     (if \<not> bypass_session meta then
        (case maybe_reset_session st a now of
           (a', Some r) \<Rightarrow> (a', [r])
         | (a', None) \<Rightarrow> (a', []))
      else (a, []))"

definition others_sorted ::
  "account list \<Rightarrow> usage_map \<Rightarrow> i64 \<Rightarrow> string \<Rightarrow> account list" where
  "others_sorted accounts usage now chosen_id =
     sort_accounts_usage_aware usage
       (filter (\<lambda>a. acct_id a \<noteq> chosen_id \<and> is_account_available a usage now) accounts)"

definition choose_first ::
  "session_strategy \<Rightarrow> selection_meta \<Rightarrow> account list \<Rightarrow> usage_map \<Rightarrow> i64 \<Rightarrow> account \<Rightarrow>
     account list \<times> session_reset list" where
  "choose_first st meta accounts usage now a =
     (let (chosen, resets) = take_session st meta a now
      in (chosen # others_sorted accounts usage now (acct_id chosen), resets))"

text \<open>The last branch: no forced account, no fallback candidate, no usable session.\<close>

definition select_by_priority ::
  "session_strategy \<Rightarrow> selection_meta \<Rightarrow> account list \<Rightarrow> usage_map \<Rightarrow> i64 \<Rightarrow>
     (account list \<times> session_reset list) \<times> session_strategy" where
  "select_by_priority st meta accounts usage now =
     (let available = sort_accounts_usage_aware usage
            (filter (\<lambda>a. is_account_available a usage now) accounts)
      in case available of
           [] \<Rightarrow> (([], []), st)
         | best # _ \<Rightarrow>
            (let same_tier = filter (\<lambda>a. priority a = priority best) available;
                 (chosen_idx, st') =
                   (if length same_tier > 1 then
                      (if list_all (\<lambda>a. \<not> requires_session_tracking (provider a)) same_tier then
                         (unat (round_robin_counter st) mod length same_tier,
                          st\<lparr>round_robin_counter := round_robin_counter st + 1\<rparr>)
                       else (0, st))
                    else (0, st));
                 (chosen, resets) = take_session st meta (same_tier ! chosen_idx) now
             in ((chosen # filter (\<lambda>a. acct_id a \<noteq> acct_id chosen) available, resets), st')))"

definition select_unforced ::
  "session_strategy \<Rightarrow> selection_meta \<Rightarrow> account list \<Rightarrow> usage_map \<Rightarrow> i64 \<Rightarrow>
     (account list \<times> session_reset list) \<times> session_strategy" where
  "select_unforced st meta accounts usage now =
     (case check_auto_fallback_accounts accounts usage now of
        candidate # _ \<Rightarrow> (choose_first st meta accounts usage now candidate, st)
      | [] \<Rightarrow>
         (case max_by_key (\<lambda>a. case session_start a of None \<Rightarrow> 0 | Some s \<Rightarrow> s)
                 (filter (\<lambda>a. has_active_session st a now) accounts) of
            Some active \<Rightarrow>
              (if is_account_available active usage now
               then (choose_first st meta accounts usage now active, st)
               else select_by_priority st meta accounts usage now)
          | None \<Rightarrow> select_by_priority st meta accounts usage now))"

definition select ::
  "session_strategy \<Rightarrow> account list \<Rightarrow> usage_map \<Rightarrow> selection_meta \<Rightarrow> i64 \<Rightarrow>
     (account list \<times> session_reset list) \<times> session_strategy" where
  "select st accounts usage meta now =
     (case force_account_id meta of
        Some forced_id \<Rightarrow>
          (case find (\<lambda>a. acct_id a = forced_id) accounts of
             Some a \<Rightarrow>
               (if \<not> is_account_available a usage now then
                  (if force_account_strict meta then (([], []), st)
                   else select_unforced st meta accounts usage now)
                else if force_account_strict meta then
                  (let (chosen, resets) = take_session st meta a now in (([chosen], resets), st))
                else (choose_first st meta accounts usage now a, st))
           | None \<Rightarrow> select_unforced st meta accounts usage now)
      | None \<Rightarrow> select_unforced st meta accounts usage now)"

section \<open>The two orders of the code\<close>

text \<open>
  \<open>slice::sort_by\<close> asks for a total order; both comparators are total preorders, so every
  law of a stable sort holds of them.
\<close>

definition account_rank :: "usage_map \<Rightarrow> account \<Rightarrow> int \<times> bool \<times> bool \<times> int" where
  "account_rank usage a =
     (let reset = Option.bind (usage (acct_id a)) resets_at_ms
      in (priority a, is_at_reserve a usage, reset = None,
          case reset of None \<Rightarrow> 0 | Some r \<Rightarrow> r))"

definition rank_le :: "int \<times> bool \<times> bool \<times> int \<Rightarrow> int \<times> bool \<times> bool \<times> int \<Rightarrow> bool" where
  "rank_le r s =
     (case (r, s) of ((p, b, n, t), (p', b', n', t')) \<Rightarrow>
        p < p' \<or> p = p' \<and> (b < b' \<or> b = b' \<and> (n < n' \<or> n = n' \<and> t \<le> t')))"

lemma account_cmp_rank:
  "account_cmp usage a b =
     (if account_rank usage a = account_rank usage b then Equal
      else if rank_le (account_rank usage a) (account_rank usage b) then Less else Greater)"
proof (cases "Option.bind (usage (acct_id a)) resets_at_ms";
       cases "Option.bind (usage (acct_id b)) resets_at_ms")
qed (cases "is_at_reserve a usage"; cases "is_at_reserve b usage";
     auto simp: account_cmp_def account_rank_def rank_le_def cmp_of_def Let_def)+

lemma rank_le_antisym: "rank_le r s \<Longrightarrow> rank_le s r \<Longrightarrow> r = s"
  by (auto simp: rank_le_def split: prod.splits)

lemma rank_le_total: "rank_le r s \<or> rank_le s r"
  by (auto simp: rank_le_def split: prod.splits)

lemma rank_le_trans: "rank_le r s \<Longrightarrow> rank_le s t \<Longrightarrow> rank_le r t"
  by (auto simp: rank_le_def split: prod.splits)

interpretation usage_order: comparator "account_cmp usage" for usage
proof
  show "account_cmp usage x y = Greater \<longleftrightarrow> account_cmp usage y x = Less" for x y
    unfolding account_cmp_rank by (metis ordering.distinct rank_le_total rank_le_antisym)
  show "account_cmp usage x y \<noteq> Greater \<Longrightarrow> account_cmp usage y z \<noteq> Greater \<Longrightarrow>
      account_cmp usage x z \<noteq> Greater" for x y z
    using rank_le_trans by (auto simp: account_cmp_rank split: if_splits)
qed

interpretation priority_order: comparator priority_cmp
  unfolding priority_cmp_def by (rule comparator_cmp_of_key)

section \<open>Lemmas on the parts of a selection\<close>

lemma take_session_id [simp]: "acct_id (fst (take_session st meta a now)) = acct_id a"
  by (simp add: take_session_def maybe_reset_session_def Let_def)

lemma available_plain [simp]:
  "\<not> paused a \<Longrightarrow> rate_limit_status a = None \<Longrightarrow> rate_limited_until a = None \<Longrightarrow>
     \<not> overage_protection a \<Longrightarrow> \<not> reserve_hard a \<Longrightarrow> is_account_available a usage now"
  by (simp add: is_account_available_def routable_plain)

text \<open>The copies that \<open>select\<close> returns differ from the stored accounts in session fields only.\<close>

definition session_variant :: "account \<Rightarrow> account \<Rightarrow> bool" where
  "session_variant a b \<longleftrightarrow>
     b = a\<lparr>session_start := session_start b, session_request_count := session_request_count b,
           rate_limit_reset := rate_limit_reset b\<rparr>"

lemma session_variant_refl [simp]: "session_variant a a"
  by (simp add: session_variant_def)

lemma session_variant_take_session [simp]:
  "session_variant a (fst (take_session st meta a now))"
  by (simp add: take_session_def maybe_reset_session_def Let_def session_variant_def)

lemma set_others_sorted [simp]:
  "set (others_sorted accounts usage now i) =
     {a \<in> set accounts. acct_id a \<noteq> i \<and> is_account_available a usage now}"
  by (auto simp: others_sorted_def sort_accounts_usage_aware_def)

lemma sorted_others_sorted [simp]:
  "sorted_by (account_cmp usage) (others_sorted accounts usage now i)"
  unfolding others_sorted_def sort_accounts_usage_aware_def
  by (rule usage_order.sorted_sort_by)

lemma sorted_by_filter: "sorted_by cmp xs \<Longrightarrow> sorted_by cmp (filter P xs)"
  by (simp add: sorted_by_def sorted_wrt_filter)

lemma mset_split_key:
  "distinct (map f ys) \<Longrightarrow> a \<in> set ys \<Longrightarrow>
     add_mset (f a) (mset (map f (filter (\<lambda>x. f x \<noteq> f a) ys))) = mset (map f ys)"
proof (induction ys)
  case Nil
  then show ?case by simp
next
  case (Cons y ys)
  show ?case
  proof (cases "f y = f a")
    case True
    with Cons.prems have "filter (\<lambda>x. f x \<noteq> f a) ys = ys"
      by (intro filter_True) (auto simp: image_iff)
    with True show ?thesis by simp
  next
    case False
    with Cons.prems have "a \<in> set ys" by auto
    with False Cons show ?thesis by (simp add: add_mset_commute)
  qed
qed

lemma fst_choose_first:
  "fst (choose_first st meta accounts usage now a) =
     fst (take_session st meta a now) # others_sorted accounts usage now (acct_id a)"
  by (simp add: choose_first_def split_beta)

lemma mset_choose_first:
  assumes "distinct (map acct_id accounts)" "a \<in> set accounts" "is_account_available a usage now"
  shows "mset (map acct_id (fst (choose_first st meta accounts usage now a))) =
    mset (map acct_id (filter (\<lambda>a. is_account_available a usage now) accounts))"
proof -
  let ?av = "filter (\<lambda>a. is_account_available a usage now) accounts"
  have "distinct (map acct_id ?av)" "a \<in> set ?av"
    using assms by (auto simp: distinct_map_filter)
  note split = mset_split_key [OF this]
  have eq: "others_sorted accounts usage now (acct_id a) =
      sort_accounts_usage_aware usage (filter (\<lambda>x. acct_id x \<noteq> acct_id a) ?av)"
    by (simp add: others_sorted_def conj_commute)
  have "mset (map acct_id (others_sorted accounts usage now (acct_id a))) =
      mset (map acct_id (filter (\<lambda>x. acct_id x \<noteq> acct_id a) ?av))"
    unfolding eq sort_accounts_usage_aware_def mset_map mset_sort_by ..
  with split show ?thesis
    by (simp only: fst_choose_first list.map mset.simps take_session_id)
qed

lemma select_by_priority_result:
  fixes accounts usage now
  defines "available \<equiv> sort_accounts_usage_aware usage
    (filter (\<lambda>a. is_account_available a usage now) accounts)"
  obtains (none) "available = []" "select_by_priority st meta accounts usage now = (([], []), st)"
  | (one) a where "a \<in> set available" "priority a = priority (hd available)"
      "fst (fst (select_by_priority st meta accounts usage now)) =
        fst (take_session st meta a now) # filter (\<lambda>x. acct_id x \<noteq> acct_id a) available"
proof (cases available)
  case Nil
  with none show thesis
    by (simp add: select_by_priority_def available_def [symmetric])
next
  case (Cons best rest)
  define tier where "tier = filter (\<lambda>a. priority a = priority best) available"
  define i where "i = (if length tier > 1 \<and>
      list_all (\<lambda>a. \<not> requires_session_tracking (provider a)) tier
    then unat (round_robin_counter st) mod length tier else 0)"
  have ne: "tier \<noteq> []"
    using Cons by (simp add: tier_def)
  then have "i < length tier"
    by (simp add: i_def)
  then have "tier ! i \<in> set tier"
    by (rule nth_mem)
  then have mem: "tier ! i \<in> set available" and "priority (tier ! i) = priority best"
    by (simp_all add: tier_def)
  moreover from this have "priority (tier ! i) = priority (hd available)"
    by (simp add: Cons)
  moreover have "select_by_priority st meta accounts usage now =
      (let (chosen_idx, st') =
             (if length tier > 1 then
                (if list_all (\<lambda>a. \<not> requires_session_tracking (provider a)) tier then
                   (unat (round_robin_counter st) mod length tier,
                    st\<lparr>round_robin_counter := round_robin_counter st + 1\<rparr>)
                 else (0, st))
              else (0, st));
           (chosen, resets) = take_session st meta (tier ! chosen_idx) now
       in ((chosen # filter (\<lambda>a. acct_id a \<noteq> acct_id chosen) available, resets), st'))"
    unfolding select_by_priority_def available_def [symmetric] Let_def tier_def
    by (subst Cons, subst list.case) (rule refl)
  then have "fst (fst (select_by_priority st meta accounts usage now)) =
      fst (take_session st meta (tier ! i) now) #
        filter (\<lambda>x. acct_id x \<noteq> acct_id (tier ! i)) available"
    by (simp add: split_beta i_def)
  ultimately show thesis by (intro one)
qed

text \<open>
  The four outcomes of a selection: a strict forced account that is unavailable, a strict
  forced account alone, an account chosen for itself, or the choice by priority.
\<close>

definition strictly_forced :: "account list \<Rightarrow> selection_meta \<Rightarrow> bool" where
  "strictly_forced accounts meta \<longleftrightarrow>
     force_account_strict meta \<and>
     (\<exists>a \<in> set accounts. force_account_id meta = Some (acct_id a))"

lemma select_unforced_cases:
  obtains (first) a where "a \<in> set accounts" "is_account_available a usage now"
      "select_unforced st meta accounts usage now =
        (choose_first st meta accounts usage now a, st)"
  | (priority) "select_unforced st meta accounts usage now =
        select_by_priority st meta accounts usage now"
proof (cases "check_auto_fallback_accounts accounts usage now")
  case (Cons c cs)
  have "c \<in> set (check_auto_fallback_accounts accounts usage now)"
    by (simp add: Cons)
  then have "c \<in> set accounts" "is_account_available c usage now"
    by (auto simp: check_auto_fallback_accounts_def split: if_splits)
  with first [of c] Cons show thesis by (simp add: select_unforced_def)
next
  case Nil
  let ?active = "max_by_key (\<lambda>a. case session_start a of None \<Rightarrow> 0 | Some s \<Rightarrow> s)
    (filter (\<lambda>a. has_active_session st a now) accounts)"
  show thesis
  proof (cases ?active)
    case None
    with Nil priority show thesis by (simp add: select_unforced_def)
  next
    case (Some a)
    then have "a \<in> set accounts"
      using max_by_key_Some [of _ "filter (\<lambda>a. has_active_session st a now) accounts"] by auto
    with Some Nil first [of a] priority show thesis
      by (cases "is_account_available a usage now") (simp_all add: select_unforced_def)
  qed
qed

lemma select_cases:
  obtains (strict_empty) "strictly_forced accounts meta"
      "select st accounts usage meta now = (([], []), st)"
  | (strict_one) a where "strictly_forced accounts meta" "a \<in> set accounts"
      "force_account_id meta = Some (acct_id a)" "is_account_available a usage now"
      "select st accounts usage meta now =
        (([fst (take_session st meta a now)], snd (take_session st meta a now)), st)"
  | (first) a where "a \<in> set accounts" "is_account_available a usage now"
      "select st accounts usage meta now = (choose_first st meta accounts usage now a, st)"
  | (priority) "\<not> strictly_forced accounts meta"
      "select st accounts usage meta now = select_by_priority st meta accounts usage now"
proof -
  have unforced: thesis
    if "select st accounts usage meta now = select_unforced st meta accounts usage now"
      "\<not> strictly_forced accounts meta"
    by (rule select_unforced_cases [of accounts usage now st meta])
       (use that first priority in auto)
  show thesis
  proof (cases "force_account_id meta")
    case None
    then show thesis
      by (intro unforced) (simp_all add: select_def strictly_forced_def)
  next
    case (Some i)
    show thesis
    proof (cases "find (\<lambda>a. acct_id a = i) accounts")
      case None
      have "\<forall>a \<in> set accounts. acct_id a \<noteq> i"
        using None by (auto simp: find_None_iff)
      with Some None show thesis
        by (intro unforced) (simp add: select_def, force simp: strictly_forced_def)
    next
      case (Some a)
      then have a: "a \<in> set accounts" "acct_id a = i"
        by (auto simp: find_Some_iff)
      note f = \<open>force_account_id meta = Some i\<close> Some
      show thesis
      proof (cases "is_account_available a usage now"; cases "force_account_strict meta")
        assume av: "is_account_available a usage now" and strict: "force_account_strict meta"
        show thesis
          by (rule strict_one [of a])
             (use a f av strict in \<open>auto simp: select_def strictly_forced_def split_beta\<close>)
      next
        assume "is_account_available a usage now" "\<not> force_account_strict meta"
        with a f show thesis by (intro first [of a]) (simp_all add: select_def)
      next
        assume "\<not> is_account_available a usage now" "force_account_strict meta"
        with a f show thesis
          by (intro strict_empty) (auto simp: select_def strictly_forced_def)
      next
        assume "\<not> is_account_available a usage now" "\<not> force_account_strict meta"
        with a f show thesis
          by (intro unforced) (simp_all add: select_def strictly_forced_def)
      qed
    qed
  qed
qed

section \<open>Properties of \<open>select\<close>\<close>

text \<open>
  C4. No account is lost and none is offered twice: unless a forced account is strict, the
  ids of a selection are exactly the ids of the available accounts, whichever of the branches
  of \<open>select\<close> is taken. So a selection is empty only when no account is available.
\<close>

theorem select_complete:
  assumes distinct: "distinct (map acct_id accounts)"
    and not_strict: "\<not> strictly_forced accounts meta"
  shows "mset (map acct_id (fst (fst (select st accounts usage meta now)))) =
    mset (map acct_id (filter (\<lambda>a. is_account_available a usage now) accounts))"
proof (cases rule: select_cases [of accounts meta st usage now])
  case priority
  let ?av = "filter (\<lambda>a. is_account_available a usage now) accounts"
  have d: "distinct (map acct_id (sort_accounts_usage_aware usage ?av))"
    using distinct
    by (simp add: sort_accounts_usage_aware_def distinct_map_sort_by distinct_map_filter)
  have m: "mset (map acct_id (sort_accounts_usage_aware usage ?av)) = mset (map acct_id ?av)"
    by (simp add: sort_accounts_usage_aware_def mset_map)
  show ?thesis
    unfolding priority(2)
    by (rule select_by_priority_result [of usage now accounts st meta])
       (simp_all only: mset_split_key [OF d] m [symmetric] fst_conv list.map mset.simps
          take_session_id)
qed (use not_strict mset_choose_first [OF distinct] in simp_all)

theorem select_complete_witness:
  "mset (map acct_id (fst (fst (select (session_strategy_new 18000000)
       [fresh_account ''a'' ''zai'', (fresh_account ''b'' ''anthropic'')\<lparr>paused := True\<rparr>,
        fresh_account ''c'' ''anthropic''] Map.empty
       \<lparr>force_account_id = None, force_account_strict = False, bypass_session = False\<rparr> 0)))) =
   {#''a'', ''c''#}"
proof -
  have "\<not> is_account_available ((fresh_account ''b'' ''anthropic'')\<lparr>paused := True\<rparr>) Map.empty 0"
    by (simp add: is_account_available_def routable_iff_no_reason exI [of _ Paused])
  then show ?thesis
    by (subst select_complete) (simp_all add: strictly_forced_def)
qed

text \<open>
  C5. Whatever is selected comes from the stored accounts, was free of every reason against it
  when it was selected (not paused, not refused by its provider, not rate-limited, neither over
  its quota nor under a hard reserve), and is returned as stored up to the three session fields.
\<close>

theorem select_sound:
  "list_all (\<lambda>b. list_ex (\<lambda>a. (\<forall>r. \<not> reason_holds a usage now r) \<and> session_variant a b) accounts)
     (fst (fst (select st accounts usage meta now)))"
proof -
  let ?ok = "\<lambda>b. \<exists>a \<in> set accounts. is_account_available a usage now \<and> session_variant a b"
  have ok: "?ok a" "?ok (fst (take_session st meta a now))"
    if "a \<in> set accounts" "is_account_available a usage now" for a
    using that session_variant_refl session_variant_take_session by blast+
  have "\<forall>b \<in> set (fst (fst (select st accounts usage meta now))). ?ok b"
  proof (cases rule: select_cases [of accounts meta st usage now])
    case (first a)
    with ok show ?thesis by (simp add: fst_choose_first)
  next
    case priority
    show ?thesis
      unfolding priority(2)
      by (rule select_by_priority_result [of usage now accounts st meta])
         (use ok in \<open>simp_all add: sort_accounts_usage_aware_def\<close>)
  qed (use ok in simp_all)
  then show ?thesis
    by (simp add: list_all_iff list_ex_iff is_account_available_def routable_iff_no_reason)
qed

text \<open>
  The fallbacks are in the routing order: after the chosen account come the accounts by
  priority, then those under their reserve, then those whose window resets soonest.
\<close>

theorem select_fallbacks_sorted:
  "sorted_by (account_cmp usage) (tl (fst (fst (select st accounts usage meta now))))"
proof (cases rule: select_cases [of accounts meta st usage now])
  case priority
  show ?thesis
    unfolding priority(2)
    by (rule select_by_priority_result [of usage now accounts st meta])
       (simp_all add: sorted_by_filter sort_accounts_usage_aware_def usage_order.sorted_sort_by,
        simp add: sorted_by_def)
qed (simp_all add: fst_choose_first sorted_by_def [of _ "[]"])

section \<open>Sessions\<close>

text \<open>The caller (\<open>handle_proxy_request\<close>) writes the resets to the accounts table.\<close>

definition persist_session_resets :: "session_reset list \<Rightarrow> account list \<Rightarrow> account list" where
  "persist_session_resets resets accounts =
     fold (\<lambda>r. map (\<lambda>a. if acct_id a = reset_account_id r
                        then a\<lparr>session_start := Some (new_session_start r),
                               session_request_count := 0\<rparr> else a)) resets accounts"

lemma max_by_key_unique:
  assumes "a \<in> set xs" "\<And>b. b \<in> set xs \<Longrightarrow> b \<noteq> a \<Longrightarrow> f b < f a"
  shows "max_by_key f xs = Some a"
proof (cases "max_by_key f xs")
  case None
  with assms(1) show ?thesis by simp
next
  case (Some b)
  from max_by_key_Some [OF this] assms(1) have "b \<in> set xs" "f a \<le> f b" by auto
  with assms(2) [of b] Some show ?thesis by force
qed

text \<open>
  Session affinity: with no forced account and no fallback candidate, the available
  account with the most recent running session is chosen, whatever the priorities are, and
  the round-robin counter does not move.
\<close>

theorem select_affinity:
  assumes "a \<in> set accounts" "has_active_session st a now" "is_account_available a usage now"
    and latest: "\<And>b. b \<in> set accounts \<Longrightarrow> has_active_session st b now \<Longrightarrow> b \<noteq> a \<Longrightarrow>
      the (session_start b) < the (session_start a)"
    and "force_account_id meta = None" "check_auto_fallback_accounts accounts usage now = []"
  shows "map acct_id (take 1 (fst (fst (select st accounts usage meta now)))) = [acct_id a] \<and>
    snd (select st accounts usage meta now) = st"
proof -
  let ?key = "\<lambda>a. case session_start a of None \<Rightarrow> 0 | Some s \<Rightarrow> s"
  have key: "?key b = the (session_start b)" if "has_active_session st b now" for b
    using that by (auto simp: has_active_session_def split: if_splits option.splits)
  have "max_by_key ?key (filter (\<lambda>a. has_active_session st a now) accounts) = Some a"
    using assms by (intro max_by_key_unique) (auto simp: key)
  then have "select st accounts usage meta now = (choose_first st meta accounts usage now a, st)"
    using assms by (simp add: select_def select_unforced_def)
  then show ?thesis
    by (simp add: fst_choose_first)
qed

lemma tracks_anthropic [simp]: "requires_session_tracking ''anthropic''"
  by (simp add: requires_session_tracking_def provider_from_str_loose_def
      provider_requires_session_tracking_def)

theorem select_affinity_witness:
  "map acct_id (take 1 (fst (fst (select (session_strategy_new 18000000)
     [fresh_account ''top'' ''anthropic'',
      (fresh_account ''live'' ''anthropic'')\<lparr>priority := 9, session_start := Some 5\<rparr>] Map.empty
     \<lparr>force_account_id = None, force_account_strict = False, bypass_session = False\<rparr> 8)))) =
   [''live'']"
proof -
  have "i64_sub 8 5 = 3"
    by (subst i64_sub_moderate) (simp_all add: moderate_def)
  then have live: "has_active_session (session_strategy_new 18000000)
      ((fresh_account ''live'' ''anthropic'')\<lparr>priority := 9, session_start := Some 5\<rparr>) 8"
    by (simp add: has_active_session_def session_strategy_new_def)
  have idle: "\<not> has_active_session (session_strategy_new 18000000)
      (fresh_account ''top'' ''anthropic'') 8"
    by (simp add: has_active_session_def)
  show ?thesis
    using select_affinity [OF _ live, of "[fresh_account ''top'' ''anthropic'',
        (fresh_account ''live'' ''anthropic'')\<lparr>priority := 9, session_start := Some 5\<rparr>]"
        Map.empty "\<lparr>force_account_id = None, force_account_strict = False,
        bypass_session = False\<rparr>"] idle
    by (auto simp: check_auto_fallback_accounts_def)
qed

text \<open>
  A reset is done once: right after a session has been reset, nothing is left to reset at
  the same instant, also when the reset came from a rate-limit window.
\<close>

theorem maybe_reset_session_once:
  assumes "0 < session_duration_ms st"
  shows "maybe_reset_session st (fst (maybe_reset_session st a now)) now =
    (fst (maybe_reset_session st a now), None)"
  using assms
  by (auto simp: maybe_reset_session_def window_reset_def Let_def split: option.splits)

theorem maybe_reset_session_once_witness:
  "maybe_reset_session (session_strategy_new 18000000)
     (fst (maybe_reset_session (session_strategy_new 18000000)
        (fresh_account ''a'' ''anthropic'') 7)) 7 =
   ((fresh_account ''a'' ''anthropic'')\<lparr>session_start := Some 7, session_request_count := 0\<rparr>,
    None)"
proof -
  have "fst (maybe_reset_session (session_strategy_new 18000000)
      (fresh_account ''a'' ''anthropic'') 7) =
    (fresh_account ''a'' ''anthropic'')\<lparr>session_start := Some 7, session_request_count := 0\<rparr>"
    by (simp add: maybe_reset_session_def window_reset_def)
  then show ?thesis
    by (subst maybe_reset_session_once) (simp_all add: session_strategy_new_def)
qed

text \<open>
  What reaches the database is less than what was reset: a passed rate-limit window is
  cleared in the returned copy only, so the stored account, with the reset written back,
  starts a new session again at every later request until a response replaces its
  \<open>rate_limit_reset\<close>.
\<close>

theorem window_reset_recurs:
  assumes "provider a = ''anthropic''" "window_reset a now"
    and "moderate now" "moderate later" "now \<le> later"
  shows "\<exists>r. snd (maybe_reset_session st a now) = Some r \<and>
    list_all (\<lambda>b. snd (maybe_reset_session st b later) =
        Some \<lparr>reset_account_id = acct_id a, new_session_start = later\<rparr>)
      (persist_session_resets [r] [a])"
proof -
  have m: "moderate RESET_DEBOUNCE_MS"
    by (simp add: moderate_def RESET_DEBOUNCE_MS_def)
  have "i64_sub now RESET_DEBOUNCE_MS \<le> i64_sub later RESET_DEBOUNCE_MS"
    using assms(3-5) by (simp add: i64_sub_moderate m)
  then have "window_reset a later"
    using assms(2) by (auto simp: window_reset_def split: option.splits)
  then have "window_reset (a\<lparr>session_start := s, session_request_count := c\<rparr>) later" for s c
    by (simp add: window_reset_def)
  with assms(1,2) show ?thesis
    by (simp add: maybe_reset_session_def persist_session_resets_def Let_def)
qed

theorem window_reset_recurs_witness:
  "\<exists>r. snd (maybe_reset_session (session_strategy_new 18000000)
       ((fresh_account ''a'' ''anthropic'')\<lparr>rate_limit_reset := Some 1500000000000\<rparr>)
       2000000000000) = Some r \<and>
    list_all (\<lambda>b. snd (maybe_reset_session (session_strategy_new 18000000) b 2000000000001) =
        Some \<lparr>reset_account_id = ''a'', new_session_start = 2000000000001\<rparr>)
      (persist_session_resets [r]
        [(fresh_account ''a'' ''anthropic'')\<lparr>rate_limit_reset := Some 1500000000000\<rparr>])"
proof -
  have "i64_sub 2000000000000 RESET_DEBOUNCE_MS = 1999999985000"
    by (subst i64_sub_moderate) (simp_all add: moderate_def RESET_DEBOUNCE_MS_def)
  moreover have "normalize_epoch_millis 1500000000000 = 1500000000000"
    by (rule normalize_millis) (simp_all add: i64_max_def)
  ultimately have "window_reset
      ((fresh_account ''a'' ''anthropic'')\<lparr>rate_limit_reset := Some 1500000000000\<rparr>)
      2000000000000"
    by (simp add: window_reset_def)
  from window_reset_recurs [OF _ this, of 2000000000001 "session_strategy_new 18000000"]
  show ?thesis by (simp add: moderate_def)
qed

text \<open>
  An account whose limit window has passed is preferred when it opted into auto-fallback,
  and the preference does not look at the current account: here a request leaves the running
  session of a priority 0 account for a recovered account of priority 5.
\<close>

theorem fallback_ignores_priority:
  "map acct_id (fst (fst (select (session_strategy_new 18000000)
     [(fresh_account ''main'' ''anthropic'')\<lparr>session_start := Some 1999999000000\<rparr>,
      (fresh_account ''spare'' ''anthropic'')\<lparr>priority := 5, auto_fallback_enabled := True,
          rate_limit_reset := Some 1500000000000\<rparr>] Map.empty
     \<lparr>force_account_id = None, force_account_strict = False, bypass_session = True\<rparr>
     2000000000000))) = [''spare'', ''main'']"
proof -
  have "i64_sub 2000000000000 RESET_DEBOUNCE_MS = 1999999985000"
    by (subst i64_sub_moderate) (simp_all add: moderate_def RESET_DEBOUNCE_MS_def)
  moreover have "normalize_epoch_millis 1500000000000 = 1500000000000"
    by (rule normalize_millis) (simp_all add: i64_max_def)
  ultimately show ?thesis
    by (simp add: select_def select_unforced_def check_auto_fallback_accounts_def window_reset_def
        fst_choose_first take_session_def others_sorted_def sort_accounts_usage_aware_def)
qed

section \<open>Round-robin\<close>

text \<open>
  While the same accounts stay available, no session runs and no fallback is due, a series of
  requests is served by the accounts of the best tier in turn.
\<close>

fun select_many ::
  "session_strategy \<Rightarrow> account list \<Rightarrow> usage_map \<Rightarrow> selection_meta \<Rightarrow> i64 list \<Rightarrow>
     (account list \<times> session_reset list) list" where
  "select_many st accounts usage meta [] = []"
| "select_many st accounts usage meta (now # nows) =
     (let (r, st') = select st accounts usage meta now
      in r # select_many st' accounts usage meta nows)"

definition steady ::
  "session_strategy \<Rightarrow> account list \<Rightarrow> usage_map \<Rightarrow> account list \<Rightarrow> i64 \<Rightarrow> bool" where
  "steady st accounts usage available now \<longleftrightarrow>
     check_auto_fallback_accounts accounts usage now = [] \<and>
     list_all (\<lambda>a. \<not> has_active_session st a now) accounts \<and>
     sort_accounts_usage_aware usage
       (filter (\<lambda>a. is_account_available a usage now) accounts) = available"

definition payg_tier :: "account list \<Rightarrow> account list" where
  "payg_tier available = filter (\<lambda>a. priority a = priority (hd available)) available"

lemma has_active_session_counter [simp]:
  "has_active_session (st\<lparr>round_robin_counter := c\<rparr>) a now = has_active_session st a now"
  by (simp add: has_active_session_def split: option.split)

lemma steady_counter [simp]:
  "steady (st\<lparr>round_robin_counter := c\<rparr>) accounts usage available now \<longleftrightarrow>
     steady st accounts usage available now"
  by (simp add: steady_def)

lemma select_steady:
  assumes "steady st accounts usage available now" "force_account_id meta = None"
    and "1 < length (payg_tier available)"
    and "list_all (\<lambda>a. \<not> requires_session_tracking (provider a)) (payg_tier available)"
  defines "i \<equiv> unat (round_robin_counter st) mod length (payg_tier available)"
  shows "acct_id (hd (fst (fst (select st accounts usage meta now)))) =
      acct_id (payg_tier available ! i)"
    and "snd (select st accounts usage meta now) =
      st\<lparr>round_robin_counter := round_robin_counter st + 1\<rparr>"
proof -
  obtain best rest where av: "available = best # rest"
    using assms(3) by (cases available) (auto simp: payg_tier_def)
  have tier: "filter (\<lambda>a. priority a = priority best) available = payg_tier available"
    by (simp add: payg_tier_def av)
  have none: "filter (\<lambda>a. has_active_session st a now) accounts = []"
    using assms(1) by (simp add: steady_def list_all_iff filter_empty_conv)
  have fb: "check_auto_fallback_accounts accounts usage now = []"
    and sorted: "sort_accounts_usage_aware usage
      (filter (\<lambda>a. is_account_available a usage now) accounts) = available"
    using assms(1) by (simp_all add: steady_def)
  have "select st accounts usage meta now = select_by_priority st meta accounts usage now"
    using assms(2) by (simp add: select_def select_unforced_def fb none)
  also have "\<dots> =
      (let (chosen, resets) = take_session st meta (payg_tier available ! i) now
       in ((chosen # filter (\<lambda>a. acct_id a \<noteq> acct_id chosen) available, resets),
           st\<lparr>round_robin_counter := round_robin_counter st + 1\<rparr>))"
    unfolding select_by_priority_def sorted Let_def
    using assms(3) by (subst av, subst list.case) (simp add: tier assms(4) i_def)
  finally have "select st accounts usage meta now = \<dots>" .
  then show "acct_id (hd (fst (fst (select st accounts usage meta now)))) =
      acct_id (payg_tier available ! i)"
    and "snd (select st accounts usage meta now) =
      st\<lparr>round_robin_counter := round_robin_counter st + 1\<rparr>"
    by (simp_all add: split_beta)
qed

lemma unat_Suc: "Suc (unat (c :: 64 word)) < 2 ^ 64 \<Longrightarrow> unat (c + 1) = Suc (unat c)"
  by (simp add: unat_word_ariths)

lemma select_many_heads:
  assumes "force_account_id meta = None" "1 < length (payg_tier available)"
    and "list_all (\<lambda>a. \<not> requires_session_tracking (provider a)) (payg_tier available)"
  shows "list_all (steady st accounts usage available) nows \<Longrightarrow>
    unat (round_robin_counter st) + length nows < 2 ^ 64 \<Longrightarrow>
    map (\<lambda>r. acct_id (hd (fst r))) (select_many st accounts usage meta nows) =
    map (\<lambda>i. acct_id (payg_tier available !
          ((unat (round_robin_counter st) + i) mod length (payg_tier available))))
      [0..<length nows]"
proof (induction nows arbitrary: st)
  case Nil
  then show ?case by simp
next
  case (Cons now nows)
  let ?st = "st\<lparr>round_robin_counter := round_robin_counter st + 1\<rparr>"
  have "unat (round_robin_counter st + 1) = Suc (unat (round_robin_counter st))"
    using Cons.prems(2) by (intro unat_Suc) simp
  then have c: "unat (round_robin_counter ?st) = Suc (unat (round_robin_counter st))"
    by simp
  have now: "steady st accounts usage available now"
    and nows: "list_all (steady ?st accounts usage available) nows"
    using Cons.prems(1) by (simp_all add: list_all_iff)
  note step = select_steady [OF now assms]
  have "unat (round_robin_counter ?st) + length nows < 2 ^ 64"
    using Cons.prems(2) unfolding c by simp
  note IH = Cons.IH [OF nows this, unfolded c]
  have "[0..<length (now # nows)] = 0 # map Suc [0..<length nows]"
    by (simp add: upt_conv_Cons map_Suc_upt del: upt_Suc)
  moreover have "select_many st accounts usage meta (now # nows) =
      fst (select st accounts usage meta now) # select_many ?st accounts usage meta nows"
    by (simp add: split_beta step(2))
  ultimately show ?case
    using step(1) IH by simp
qed

lemma rotation_counts:
  assumes "xs \<noteq> []"
  shows "mset (map (\<lambda>i. xs ! ((c + i) mod length xs)) [0..<k * length xs]) =
    repeat_mset k (mset xs)"
proof (induction k)
  case 0
  then show ?case by simp
next
  case (Suc k)
  let ?n = "length xs"
  have "map (\<lambda>i. xs ! ((c + i) mod ?n)) [0..<?n] = rotate c xs"
    by (rule nth_equalityI) (auto simp: nth_rotate)
  moreover have "mset (rotate c xs) = mset (take (c mod ?n) xs @ drop (c mod ?n) xs)"
    unfolding rotate_drop_take mset_append by (rule add.commute)
  ultimately have first: "mset (map (\<lambda>i. xs ! ((c + i) mod ?n)) [0..<?n]) = mset xs"
    by (simp only: append_take_drop_id)
  have "[0..<Suc k * ?n] = [0..<?n] @ map (\<lambda>i. i + ?n) [0..<k * ?n]"
    using upt_add_eq_append [of 0 ?n "k * ?n"]
    by (simp only: map_add_upt mult_Suc add.commute [of "k * ?n"] le0)
  moreover have "xs ! ((c + (i + ?n)) mod ?n) = xs ! ((c + i) mod ?n)" for i
    by (metis add.assoc mod_add_self2)
  ultimately show ?case
    using first Suc.IH by (simp add: comp_def del: mset_map)
qed

text \<open>
  Round-robin is fair: as long as the same accounts are available and the 64-bit counter
  does not wrap, any series of requests whose length is a multiple of the size of the best
  tier gives every account of that tier the same number of requests.
\<close>

theorem round_robin_fair:
  assumes "force_account_id meta = None" "1 < length (payg_tier available)"
    and "list_all (\<lambda>a. \<not> requires_session_tracking (provider a)) (payg_tier available)"
    and "list_all (steady st accounts usage available) nows"
    and "length nows = k * length (payg_tier available)"
    and "unat (round_robin_counter st) + length nows < 2 ^ 64"
  shows "mset (map (\<lambda>r. acct_id (hd (fst r))) (select_many st accounts usage meta nows)) =
    repeat_mset k (mset (map acct_id (payg_tier available)))"
proof -
  let ?ids = "map acct_id (payg_tier available)"
  let ?i = "\<lambda>i. (unat (round_robin_counter st) + i) mod length (payg_tier available)"
  have ne: "payg_tier available \<noteq> []"
    using assms(2) by auto
  have "map (\<lambda>r. acct_id (hd (fst r))) (select_many st accounts usage meta nows) =
      map (\<lambda>i. acct_id (payg_tier available ! ?i i)) [0..<length nows]"
    by (rule select_many_heads [OF assms(1-4,6)])
  also have "\<dots> = map (\<lambda>i. ?ids ! ?i i) [0..<k * length ?ids]"
    using ne by (simp add: assms(5))
  finally show ?thesis
    using rotation_counts [of ?ids "unat (round_robin_counter st)" k] ne
    by (simp only: length_map map_is_Nil_conv not_False_eq_True)
qed

theorem round_robin_fair_witness:
  "mset (map (\<lambda>r. acct_id (hd (fst r)))
     (select_many (session_strategy_new 18000000)
        [fresh_account ''a'' ''zai'', fresh_account ''b'' ''zai''] Map.empty
        \<lparr>force_account_id = None, force_account_strict = False, bypass_session = False\<rparr>
        [1, 2, 3, 4])) = replicate_mset 2 ''a'' + replicate_mset 2 ''b''"
proof -
  let ?ab = "[fresh_account ''a'' ''zai'', fresh_account ''b'' ''zai'']"
  have zai: "\<not> requires_session_tracking ''zai''"
    by (simp add: requires_session_tracking_def provider_from_str_loose_def
        provider_requires_session_tracking_def)
  have steady: "steady (session_strategy_new 18000000) ?ab Map.empty ?ab now" for now
    by (simp add: steady_def check_auto_fallback_accounts_def has_active_session_def zai
        sort_accounts_usage_aware_def account_cmp_def cmp_of_def Let_def)
  have tier: "payg_tier ?ab = ?ab"
    by (simp add: payg_tier_def)
  have counter: "round_robin_counter (session_strategy_new 18000000) = 0"
    by (simp add: session_strategy_new_def)
  show ?thesis
    by (subst round_robin_fair [where k = 2 and available = ?ab])
       (simp_all only: tier, simp_all add: steady zai counter)
qed

end
