(* ===== verification/Handler.thy ===== *)
theory Handler
  imports Text_Json Load_Balancer
begin

text \<open>
  The proxy handler's toolbox, \<open>crates/proxy/src/handler.rs\<close>: request identifiers, the
  thinking-block filter, agent detection, model replacement, error bodies, and the failover
  loop \<open>try_accounts_in_order\<close>. The loop's asynchronous closure is a function that threads a
  state of any type, so what the attempts do to the outside is the caller's to say.
\<close>

section \<open>Request metadata\<close>

record request_meta =
  req_id :: string
  req_method :: string
  req_path :: string
  req_query :: string
  req_timestamp :: i64
  agent_used :: "string option"
  project :: "string option"

definition generate_request_id :: "i64 \<Rightarrow> 64 word \<Rightarrow> string \<times> 64 word" where
  "generate_request_id now counter =
     (''req-'' @ show_int now @ ''-'' @ show_nat (unat counter), counter + 1)"

definition request_meta_new ::
  "string \<Rightarrow> string \<Rightarrow> string \<Rightarrow> i64 \<Rightarrow> 64 word \<Rightarrow> request_meta \<times> 64 word" where
  "request_meta_new method path query now counter =
     (let (i, counter') = generate_request_id now counter
      in (\<lparr>req_id = i, req_method = method, req_path = path, req_query = query,
           req_timestamp = now, agent_used = None, project = None\<rparr>, counter'))"

section \<open>Thinking blocks\<close>

definition INVALID_THINKING_SIGNATURE :: string where
  "INVALID_THINKING_SIGNATURE = ''Invalid `signature` in `thinking` block''"

definition THINKING_BLOCK_REQUIRED :: string where
  "THINKING_BLOCK_REQUIRED = ''final `assistant` message must start with a thinking block''"

definition is_thinking_block :: "json \<Rightarrow> bool" where
  "is_thinking_block b \<longleftrightarrow> get_str b ''type'' = Some ''thinking''"

definition is_empty_content :: "json list \<Rightarrow> bool" where
  "is_empty_content content \<longleftrightarrow>
     content = [] \<or>
     (length content = 1 \<and>
      get_str (hd content) ''type'' = Some ''text'' \<and>
      (case get_str (hd content) ''text'' of None \<Rightarrow> True | Some t \<Rightarrow> t = []))"

definition set_field :: "string \<Rightarrow> json \<Rightarrow> json \<Rightarrow> json" where
  "set_field k v j = (case j of JObject kvs \<Rightarrow> JObject (AList.update k v kvs) | _ \<Rightarrow> j)"

definition remove_field :: "string \<Rightarrow> json \<Rightarrow> json" where
  "remove_field k j = (case j of JObject kvs \<Rightarrow> JObject (AList.delete k kvs) | _ \<Rightarrow> j)"

text \<open>One turn of the loop over the messages: the message, whether it changed, whether to drop it.\<close>

definition filter_message :: "json \<Rightarrow> json \<times> bool \<times> bool" where
  "filter_message msg =
     (case get_str msg ''role'' of
        None \<Rightarrow> (msg, False, False)
      | Some role \<Rightarrow>
          if role \<noteq> ''assistant'' then (msg, False, False)
          else (case Option.bind (json_get msg ''content'') as_array of
              None \<Rightarrow> (msg, False, False)
            | Some content \<Rightarrow>
                (let kept = filter (\<lambda>b. \<not> is_thinking_block b) content
                 in (set_field ''content'' (JArray kept) msg,
                     length kept \<noteq> length content,
                     is_empty_content kept))))"

definition filter_thinking_json :: "json \<Rightarrow> json option" where
  "filter_thinking_json j =
     (case Option.bind (json_get j ''messages'') as_array of
        None \<Rightarrow> None
      | Some messages \<Rightarrow>
          (let results = map filter_message messages;
               has_changes = list_ex (\<lambda>(_, changed, _). changed) results;
               messages' = map fst (filter (\<lambda>(_, _, drop). \<not> drop) results)
           in if \<not> has_changes then None
              else Some (remove_field ''thinking''
                     (set_field ''messages'' (JArray messages') j))))"

definition filter_thinking_blocks ::
  "(string \<Rightarrow> json option) \<Rightarrow> (json \<Rightarrow> string option) \<Rightarrow> string \<Rightarrow> string option" where
  "filter_thinking_blocks from_slice to_vec body =
     (if \<not> contains_str body ''thinking'' then None
      else Option.bind (from_slice body)
             (\<lambda>j. Option.bind (filter_thinking_json j) to_vec))"

definition is_thinking_block_error ::
  "(string \<Rightarrow> json option) \<Rightarrow> nat \<Rightarrow> string \<Rightarrow> bool" where
  "is_thinking_block_error from_slice status body =
     (if status \<noteq> 400 then False
      else case from_slice body of
        None \<Rightarrow> False
      | Some j \<Rightarrow>
          (case Option.bind (json_get j ''error'') (\<lambda>e. get_str e ''message'') of
             None \<Rightarrow> False
           | Some msg \<Rightarrow> contains_str msg INVALID_THINKING_SIGNATURE \<or>
                        contains_str msg THINKING_BLOCK_REQUIRED))"

section \<open>Agents and models\<close>

definition detect_agent_from_user_agent :: "string \<Rightarrow> string option" where
  "detect_agent_from_user_agent ua =
     (if contains_str ua ''claude-code'' \<or> contains_str ua ''ClaudeCode'' then Some ''claude-code''
      else if contains_str ua ''cursor'' \<or> contains_str ua ''Cursor'' then Some ''cursor''
      else if contains_str ua ''windsurf'' \<or> contains_str ua ''Windsurf'' then Some ''windsurf''
      else if contains_str ua ''cline'' \<or> contains_str ua ''Cline'' then Some ''cline''
      else None)"

text \<open>
  The parameter is the derived deserializer of a struct with the one optional field \<open>model\<close>:
  \<open>None\<close> when the body is not such a struct.
\<close>

definition extract_model_from_body ::
  "(string \<Rightarrow> string option option) \<Rightarrow> string \<Rightarrow> string option" where
  "extract_model_from_body model_field body =
     (case model_field body of None \<Rightarrow> None | Some model \<Rightarrow> model)"

definition dquote :: string where "dquote = [CHR 0x22]"

definition model_key :: string where
  "model_key = dquote @ ''model'' @ dquote"

definition splice :: "string \<Rightarrow> nat \<Rightarrow> string \<Rightarrow> string \<Rightarrow> string" where
  "splice body pos needle new = take pos body @ new @ drop (pos + length needle) body"

text \<open>
  Assigning to \<open>json["model"]\<close> inserts into an object, turns \<open>null\<close> into one, and panics on any
  other value.
\<close>

definition index_assign :: "string \<Rightarrow> json \<Rightarrow> json \<Rightarrow> json outcome" where
  "index_assign k v j =
     (case j of
        JObject kvs \<Rightarrow> Returns (JObject (AList.update k v kvs))
      | JNull \<Rightarrow> Returns (JObject [(k, v)])
      | _ \<Rightarrow> Panics)"

definition replace_model_in_body ::
  "(string \<Rightarrow> json option) \<Rightarrow> (json \<Rightarrow> string option) \<Rightarrow>
     string \<Rightarrow> string \<Rightarrow> string \<Rightarrow> string option outcome" where
  "replace_model_in_body from_slice to_vec body old_model new_model =
     (if \<not> utf8_valid body then Returns None
      else
        (let needle = model_key @ '':'' @ dquote @ old_model @ dquote
         in case str_find body needle of
              Some pos \<Rightarrow>
                Returns (Some (splice body pos needle
                  (model_key @ '':'' @ dquote @ new_model @ dquote)))
            | None \<Rightarrow>
                (let needle = model_key @ '': '' @ dquote @ old_model @ dquote
                 in case str_find body needle of
                      Some pos \<Rightarrow>
                        Returns (Some (splice body pos needle
                          (model_key @ '': '' @ dquote @ new_model @ dquote)))
                    | None \<Rightarrow>
                        (case from_slice body of
                           None \<Rightarrow> Returns None
                         | Some j \<Rightarrow>
                             (case index_assign ''model'' (JString new_model) j of
                                Panics \<Rightarrow> Panics
                              | Returns j' \<Rightarrow> Returns (to_vec j'))))))"

section \<open>Headers and bodies\<close>

type_synonym header_map = "(string \<times> string) list"

text \<open>
  A header's text when it is readable as text (visible ASCII and tabs), for the first value
  under a name. Names are kept in lower case, as \<open>http::HeaderName\<close> does.
\<close>

definition visible_ascii :: "char \<Rightarrow> bool" where
  "visible_ascii c \<longleftrightarrow> 32 \<le> byte c \<and> byte c < 127 \<or> byte c = 9"

definition header_str :: "header_map \<Rightarrow> string \<Rightarrow> string option" where
  "header_str h name =
     (case map_of h name of
        None \<Rightarrow> None
      | Some v \<Rightarrow> if list_all visible_ascii v then Some v else None)"

definition get_force_account_id :: "header_map \<Rightarrow> string option" where
  "get_force_account_id h = header_str h ''x-better-ccflare-account-id''"

definition is_session_bypass :: "header_map \<Rightarrow> bool" where
  "is_session_bypass h \<longleftrightarrow> header_str h ''x-better-ccflare-bypass-session'' = Some ''true''"

definition ANALYTICS_BODY_CAP :: nat where "ANALYTICS_BODY_CAP = 256 * 1024"

definition cap_body_for_analytics :: "string \<Rightarrow> string" where
  "cap_body_for_analytics body =
     (if length body \<le> ANALYTICS_BODY_CAP then
        (if utf8_valid body then body else from_utf8_lossy body)
      else from_utf8_lossy (take ANALYTICS_BODY_CAP body) @ ''... [truncated, '' @
             show_nat (length body) @ '' bytes total]'')"

definition anthropic_error_type :: "nat \<Rightarrow> string" where
  "anthropic_error_type status =
     (if status = 400 then ''invalid_request_error''
      else if status = 401 then ''authentication_error''
      else if status = 403 then ''permission_error''
      else if status = 404 then ''not_found_error''
      else if status = 413 then ''request_too_large''
      else if status = 429 then ''rate_limit_error''
      else if status = 529 then ''overloaded_error''
      else if 500 \<le> status \<and> status \<le> 599 then ''api_error''
      else ''invalid_request_error'')"

datatype response_body = JsonBody json | RawBody string | StreamBody "string list"

record response =
  resp_status :: nat
  resp_headers :: header_map
  resp_body :: response_body

definition error_response :: "nat \<Rightarrow> string \<Rightarrow> response" where
  "error_response status message =
     \<lparr>resp_status = status, resp_headers = [(''content-type'', ''application/json'')],
      resp_body = JsonBody (JObject
        [(''type'', JString ''error''),
         (''error'', JObject [(''type'', JString (anthropic_error_type status)),
                              (''message'', JString message)])])\<rparr>"

section \<open>Failover\<close>

record rate_limit_info =
  is_rate_limited :: bool
  reset_time :: "i64 option"
  status_header :: "string option"
  remaining :: "i64 option"

datatype 'r account_result =
  Success 'r | RateLimited rate_limit_info | AuthFailure nat | Error string

definition MAX_FAILOVER_ATTEMPTS :: nat where "MAX_FAILOVER_ATTEMPTS = 5"

fun failover_loop ::
  "(account \<Rightarrow> nat \<Rightarrow> 's \<Rightarrow> 'r account_result \<times> 's) \<Rightarrow>
     string list \<Rightarrow> nat \<Rightarrow> account list \<Rightarrow> 's \<Rightarrow> ('r \<times> string) option \<times> 's" where
  "failover_loop try_account rate_limited_providers attempt [] s = (None, s)"
| "failover_loop try_account rate_limited_providers attempt (a # rest) s =
     (if provider a \<in> set rate_limited_providers
      then failover_loop try_account rate_limited_providers (Suc attempt) rest s
      else case try_account a attempt s of
          (Success response, s') \<Rightarrow> (Some (response, acct_id a), s')
        | (RateLimited _, s') \<Rightarrow>
            failover_loop try_account (rate_limited_providers @ [provider a]) (Suc attempt) rest s'
        | (AuthFailure _, s') \<Rightarrow>
            failover_loop try_account rate_limited_providers (Suc attempt) rest s'
        | (Error _, s') \<Rightarrow>
            failover_loop try_account rate_limited_providers (Suc attempt) rest s')"

definition try_accounts_in_order ::
  "(account \<Rightarrow> nat \<Rightarrow> 's \<Rightarrow> 'r account_result \<times> 's) \<Rightarrow>
     account list \<Rightarrow> 's \<Rightarrow> ('r \<times> string) option \<times> 's" where
  "try_accounts_in_order try_account accounts s =
     (let max_attempts = min (length accounts) MAX_FAILOVER_ATTEMPTS
      in failover_loop try_account [] 0 (take max_attempts accounts) s)"

section \<open>What the failover loop does\<close>

text \<open>
  The same loop with every attempt written down: the account, the attempt number, the answer.
\<close>

type_synonym 'r attempt_log = "(account \<times> nat \<times> 'r account_result) list"

definition logged ::
  "(account \<Rightarrow> nat \<Rightarrow> 's \<Rightarrow> 'r account_result \<times> 's) \<Rightarrow>
     account \<Rightarrow> nat \<Rightarrow> 's \<times> 'r attempt_log \<Rightarrow> 'r account_result \<times> ('s \<times> 'r attempt_log)" where
  "logged try_account a n sl = (let (r, s') = try_account a n (fst sl) in (r, (s', snd sl @ [(a, n, r)])))"

fun is_success :: "'r account_result \<Rightarrow> bool" where
  "is_success (Success _) = True" | "is_success _ = False"

fun is_limited :: "'r account_result \<Rightarrow> bool" where
  "is_limited (RateLimited _) = True" | "is_limited _ = False"

text \<open>No account is called after an account of its provider was rate-limited.\<close>

definition spares_limited :: "'r attempt_log \<Rightarrow> bool" where
  "spares_limited lg \<longleftrightarrow>
     sorted_wrt (\<lambda>(a, _, r) (b, _, _). is_limited r \<longrightarrow> provider b \<noteq> provider a) lg"

text \<open>The answer is the one of the last call, the only call that succeeded, or there is none.\<close>

definition answers :: "('r \<times> string) option \<Rightarrow> 'r attempt_log \<Rightarrow> bool" where
  "answers res lg \<longleftrightarrow>
     (case res of
        None \<Rightarrow> list_all (\<lambda>(_, _, r). \<not> is_success r) lg
      | Some (r, i) \<Rightarrow>
          lg \<noteq> [] \<and> list_all (\<lambda>(_, _, r). \<not> is_success r) (butlast lg) \<and>
          (case last lg of (a, _, r') \<Rightarrow> r' = Success r \<and> i = acct_id a))"

text \<open>Every account was called or shares its provider with a rate-limited one.\<close>

definition exhausts :: "string list \<Rightarrow> account list \<Rightarrow> 'r attempt_log \<Rightarrow> bool" where
  "exhausts limited accounts lg \<longleftrightarrow>
     list_all (\<lambda>a. list_ex (\<lambda>(b, _, _). b = a) lg \<or> provider a \<in> set limited \<or>
       list_ex (\<lambda>(b, _, r). is_limited r \<and> provider b = provider a) lg) accounts"

definition loop_log ::
  "string list \<Rightarrow> account list \<Rightarrow> ('r \<times> string) option \<Rightarrow> 'r attempt_log \<Rightarrow> bool" where
  "loop_log limited accounts res lg \<longleftrightarrow>
     subseq (map fst lg) accounts \<and>
     (\<forall>(a, _, _) \<in> set lg. provider a \<notin> set limited) \<and>
     spares_limited lg \<and> answers res lg \<and>
     (res = None \<longrightarrow> exhausts limited accounts lg)"

lemma loop_log_skip:
  "loop_log limited rest res lg \<Longrightarrow> provider a \<in> set limited \<Longrightarrow>
     loop_log limited (a # rest) res lg"
  by (auto simp: loop_log_def exhausts_def)

lemma loop_log_success:
  "provider a \<notin> set limited \<Longrightarrow>
     loop_log limited (a # rest) (Some (x, acct_id a)) [(a, k, Success x)]"
  by (simp add: loop_log_def spares_limited_def answers_def)

lemma loop_log_failed:
  assumes lg: "loop_log limited' rest res lg" and "provider a \<notin> set limited" "\<not> is_success r"
    and limited': "limited' = (if is_limited r then limited @ [provider a] else limited)"
  shows "loop_log limited (a # rest) res ((a, k, r) # lg)"
proof -
  have "spares_limited ((a, k, r) # lg)"
    using lg by (auto simp: loop_log_def spares_limited_def limited')
  moreover have "answers res ((a, k, r) # lg)"
    using assms(1,3) by (auto simp: loop_log_def answers_def split: option.splits)
  moreover have "exhausts limited (a # rest) ((a, k, r) # lg)" if "exhausts limited' rest lg"
    using that unfolding exhausts_def limited'
    by (cases "is_limited r") (fastforce simp: list_all_iff list_ex_iff)+
  moreover have "set limited \<subseteq> set limited'"
    by (auto simp: limited')
  ultimately show ?thesis
    using lg assms(2) unfolding loop_log_def by (auto simp del: limited')
qed

lemma failover_loop_log:
  "\<exists>lg. failover_loop (logged try_account) limited k accounts (s, lg0) =
      (fst (failover_loop try_account limited k accounts s),
       (snd (failover_loop try_account limited k accounts s), lg0 @ lg)) \<and>
    loop_log limited accounts (fst (failover_loop try_account limited k accounts s)) lg"
proof (induction accounts arbitrary: limited k s lg0)
  case Nil
  then show ?case by (simp add: loop_log_def spares_limited_def answers_def exhausts_def)
next
  case (Cons a rest)
  show ?case
  proof (cases "provider a \<in> set limited")
    case True
    with Cons.IH [of limited "Suc k" s lg0] loop_log_skip show ?thesis
      by fastforce
  next
    case False
    obtain r s' where t: "try_account a k s = (r, s')" by (cases "try_account a k s")
    show ?thesis
    proof (cases "is_success r")
      case True
      then obtain x where "r = Success x" by (cases r) auto
      with False t loop_log_success [OF False] show ?thesis
        by (intro exI [of _ "[(a, k, r)]"]) (simp add: logged_def)
    next
      case failed: False
      define limited' where "limited' = (if is_limited r then limited @ [provider a] else limited)"
      have step: "failover_loop try_account limited k (a # rest) s =
          failover_loop try_account limited' (Suc k) rest s'"
        "failover_loop (logged try_account) limited k (a # rest) (s, lg0) =
          failover_loop (logged try_account) limited' (Suc k) rest (s', lg0 @ [(a, k, r)])"
        using False t failed by (cases r; simp add: logged_def limited'_def)+
      from Cons.IH [of limited' "Suc k" s' "lg0 @ [(a, k, r)]"] obtain lg where
        "failover_loop (logged try_account) limited' (Suc k) rest (s', lg0 @ [(a, k, r)]) =
          (fst (failover_loop try_account limited' (Suc k) rest s'),
           (snd (failover_loop try_account limited' (Suc k) rest s'), lg0 @ (a, k, r) # lg))"
        "loop_log limited' rest (fst (failover_loop try_account limited' (Suc k) rest s')) lg"
        by auto
      with loop_log_failed [OF _ False failed limited'_def] show ?thesis
        unfolding step by blast
    qed
  qed
qed

text \<open>
  C3. Failover is bounded and spares what is already limited: a request makes at most five
  attempts, on accounts of the selection in their order; after an account is rate-limited no
  account of its provider is called; and the answer given back is the one of the last call,
  the only one that succeeded.
\<close>

theorem failover_attempts:
  "\<exists>lg. try_accounts_in_order (logged try_account) accounts (s, []) =
      (fst (try_accounts_in_order try_account accounts s),
       (snd (try_accounts_in_order try_account accounts s), lg)) \<and>
    length lg \<le> 5 \<and> subseq (map fst lg) accounts \<and>
    spares_limited lg \<and> answers (fst (try_accounts_in_order try_account accounts s)) lg"
proof -
  let ?as = "take (min (length accounts) MAX_FAILOVER_ATTEMPTS) accounts"
  from failover_loop_log [of try_account "[]" 0 ?as s "[]"] obtain lg where lg:
    "try_accounts_in_order (logged try_account) accounts (s, []) =
      (fst (try_accounts_in_order try_account accounts s),
       (snd (try_accounts_in_order try_account accounts s), lg))"
    "subseq (map fst lg) ?as" "spares_limited lg"
    "answers (fst (try_accounts_in_order try_account accounts s)) lg"
    unfolding try_accounts_in_order_def Let_def loop_log_def append_Nil by blast
  have "length lg \<le> 5"
    using list_emb_length [OF lg(2)] by (simp add: MAX_FAILOVER_ATTEMPTS_def)
  moreover have "subseq (map fst lg) accounts"
    using lg(2) by (meson prefix_imp_subseq subseq_order.order_trans take_is_prefix)
  ultimately show ?thesis
    using lg by blast
qed

text \<open>
  Giving up is justified: when the loop returns nothing, each of the first five accounts
  of the selection was called, or an account of the same provider was rate-limited during
  this request.
\<close>

theorem failover_exhausts:
  assumes "fst (try_accounts_in_order try_account accounts s) = None"
  shows "exhausts [] (take 5 accounts)
    (snd (snd (try_accounts_in_order (logged try_account) accounts (s, []))))"
proof -
  have eq: "take (min (length accounts) MAX_FAILOVER_ATTEMPTS) accounts = take 5 accounts"
    by (simp add: MAX_FAILOVER_ATTEMPTS_def min_def)
  from failover_loop_log [of try_account "[]" 0 "take 5 accounts" s "[]"] obtain lg where
    "snd (snd (try_accounts_in_order (logged try_account) accounts (s, []))) = lg"
    "loop_log [] (take 5 accounts) (fst (try_accounts_in_order try_account accounts s)) lg"
    unfolding try_accounts_in_order_def Let_def eq append_Nil by auto
  with assms show ?thesis
    by (simp add: loop_log_def)
qed

theorem failover_exhausts_witness:
  "exhausts [] [fresh_account ''1'' ''zai'']
    (snd (snd (try_accounts_in_order
      (logged (\<lambda>a n (u :: unit). (AuthFailure 401 :: unit account_result, u)))
      [fresh_account ''1'' ''zai''] ((), []))))"
  using failover_exhausts [of "\<lambda>a n (u :: unit). (AuthFailure 401 :: unit account_result, u)"
      "[fresh_account ''1'' ''zai'']" "()"]
  by (simp add: try_accounts_in_order_def MAX_FAILOVER_ATTEMPTS_def)

text \<open>
  The bound of five counts accounts, not attempts: skipped accounts use it up. Here five
  accounts of one provider stand before an account of another; the first is rate-limited, the
  next four are skipped without a call, and the sixth, which would answer, is not reached.
\<close>

theorem failover_counts_skips:
  "try_accounts_in_order
     (\<lambda>a n calls. (if provider a = ''zai'' then Success () else
        RateLimited \<lparr>is_rate_limited = True, reset_time = None, status_header = None,
          remaining = None\<rparr>, Suc calls))
     [fresh_account ''1'' ''anthropic'', fresh_account ''2'' ''anthropic'',
      fresh_account ''3'' ''anthropic'', fresh_account ''4'' ''anthropic'',
      fresh_account ''5'' ''anthropic'', fresh_account ''6'' ''zai''] (0 :: nat) =
   (None, 1)"
  by (simp add: try_accounts_in_order_def MAX_FAILOVER_ATTEMPTS_def eval_nat_numeral)

text \<open>
  What the loop asks of an attempt, as contracts: an attempt that costs at most \<open>k\<close> makes a
  request that costs at most five times that; one that keeps an invariant makes a request that
  keeps it; and a property of every successful answer is one of the final answer.
\<close>

locale attempt_cost =
  fixes try_account :: "account \<Rightarrow> nat \<Rightarrow> 's \<Rightarrow> 'r account_result \<times> 's"
    and cost :: "'s \<Rightarrow> nat"
    and k :: nat
  assumes cost_step: "cost (snd (try_account a n s)) \<le> cost s + k"
begin

lemma cost_loop:
  "cost (snd (failover_loop try_account limited n accounts s)) \<le> cost s + k * length accounts"
proof (induction accounts arbitrary: limited n s)
  case Nil
  then show ?case by simp
next
  case (Cons a rest)
  obtain r s' where t: "try_account a n s = (r, s')" by (cases "try_account a n s")
  have "cost s' \<le> cost s + k"
    using cost_step [of a n s] by (simp add: t)
  then have later: "cost (snd (failover_loop try_account l (Suc n) rest s')) \<le>
      cost s + (k + k * length rest)" for l
    using Cons.IH [of l "Suc n" s'] by linarith
  have skip: "cost (snd (failover_loop try_account limited (Suc n) rest s)) \<le>
      cost s + (k + k * length rest)"
    using Cons.IH [of limited "Suc n" s] by linarith
  show ?case
    using later skip \<open>cost s' \<le> cost s + k\<close>
    by (cases r) (simp_all only: failover_loop.simps t prod.case account_result.case snd_conv
        length_Cons mult_Suc_right split: if_split, simp_all)
qed

lemma cost_bounded: "cost (snd (try_accounts_in_order try_account accounts s)) \<le> cost s + k * 5"
proof -
  let ?as = "take (min (length accounts) MAX_FAILOVER_ATTEMPTS) accounts"
  have "length ?as \<le> 5"
    by (simp add: MAX_FAILOVER_ATTEMPTS_def)
  then have "k * length ?as \<le> k * 5"
    by (rule mult_le_mono2)
  with cost_loop [of "[]" 0 ?as s]
  have "cost (snd (failover_loop try_account [] 0 ?as s)) \<le> cost s + k * 5"
    by linarith
  then show ?thesis
    by (simp add: try_accounts_in_order_def)
qed

end

locale attempt_invariant =
  fixes try_account :: "account \<Rightarrow> nat \<Rightarrow> 's \<Rightarrow> 'r account_result \<times> 's"
    and inv :: "'s \<Rightarrow> bool"
  assumes inv_step: "inv s \<Longrightarrow> inv (snd (try_account a n s))"
begin

lemma inv_loop: "inv s \<Longrightarrow> inv (snd (failover_loop try_account limited n accounts s))"
proof (induction accounts arbitrary: limited n s)
  case Nil
  then show ?case by simp
next
  case (Cons a rest)
  obtain r s' where t: "try_account a n s = (r, s')" by (cases "try_account a n s")
  with inv_step [OF Cons.prems, of a n] have "inv s'" by simp
  with Cons.IH Cons.prems show ?case
    by (cases r) (simp_all add: t)
qed

lemma inv_kept: "inv s \<Longrightarrow> inv (snd (try_accounts_in_order try_account accounts s))"
  by (simp add: try_accounts_in_order_def inv_loop)

end

locale attempt_answer =
  fixes try_account :: "account \<Rightarrow> nat \<Rightarrow> 's \<Rightarrow> 'r account_result \<times> 's"
    and good :: "'r \<Rightarrow> bool"
  assumes answer_good: "fst (try_account a n s) = Success r \<Longrightarrow> good r"
begin

lemma loop_good: "fst (failover_loop try_account limited n accounts s) = Some (r, i) \<Longrightarrow> good r"
proof (induction accounts arbitrary: limited n s)
  case Nil
  then show ?case by simp
next
  case (Cons a rest)
  obtain x s' where t: "try_account a n s = (x, s')" by (cases "try_account a n s")
  with Cons show ?case
    using answer_good [of a n s]
    by (cases x) (auto simp: t split: if_splits)
qed

lemma final_good: "fst (try_accounts_in_order try_account accounts s) = Some (r, i) \<Longrightarrow> good r"
  by (auto simp: try_accounts_in_order_def intro: loop_good)

end

section \<open>What the thinking-block filter leaves\<close>

definition is_assistant :: "json \<Rightarrow> bool" where
  "is_assistant msg \<longleftrightarrow> get_str msg ''role'' = Some ''assistant''"

text \<open>An assistant message whose content, if it is an array, holds no thinking block.\<close>

definition thinking_free :: "json \<Rightarrow> bool" where
  "thinking_free msg \<longleftrightarrow>
     (case Option.bind (json_get msg ''content'') as_array of
        None \<Rightarrow> True
      | Some content \<Rightarrow> \<not> is_assistant msg \<or> list_all (\<lambda>b. \<not> is_thinking_block b) content)"

lemma filter_message_other: "\<not> is_assistant msg \<Longrightarrow> filter_message msg = (msg, False, False)"
  by (auto simp: filter_message_def is_assistant_def split: option.splits)

lemma filter_message_same:
  assumes "\<not> (is_assistant msg \<and> Option.bind (json_get msg ''content'') as_array \<noteq> None)"
  shows "filter_message msg = (msg, False, False)"
proof (cases "is_assistant msg")
  case True
  with assms show ?thesis by (simp add: filter_message_def is_assistant_def)
next
  case False
  then show ?thesis by (rule filter_message_other)
qed

lemma json_get_Some: "json_get j k = Some v \<Longrightarrow> \<exists>kvs. j = JObject kvs"
  by (cases j) (simp_all add: json_get_def)

lemma filter_message_assistant:
  assumes "is_assistant msg" "Option.bind (json_get msg ''content'') as_array = Some content"
  shows "filter_message msg =
    (let kept = filter (\<lambda>b. \<not> is_thinking_block b) content
     in (set_field ''content'' (JArray kept) msg, length kept \<noteq> length content,
         is_empty_content kept))"
  using assms by (simp add: filter_message_def is_assistant_def)

lemma filter_message_fst:
  "is_assistant (fst (filter_message msg)) = is_assistant msg"
  "thinking_free (fst (filter_message msg))"
proof -
  show "is_assistant (fst (filter_message msg)) = is_assistant msg"
  proof (cases "is_assistant msg \<and> Option.bind (json_get msg ''content'') as_array \<noteq> None")
    case True
    then obtain content where c: "Option.bind (json_get msg ''content'') as_array = Some content"
      by auto
    then obtain kvs where "msg = JObject kvs"
      using json_get_Some [of msg "''content''"] by (cases "json_get msg ''content''") auto
    with True c show ?thesis
      by (simp add: filter_message_assistant Let_def set_field_def is_assistant_def)
  next
    case False
    then show ?thesis by (simp add: filter_message_same)
  qed
  show "thinking_free (fst (filter_message msg))"
  proof (cases "is_assistant msg")
    case True
    show ?thesis
    proof (cases "Option.bind (json_get msg ''content'') as_array")
      case None
      with True show ?thesis by (simp add: filter_message_def thinking_free_def is_assistant_def)
    next
      case (Some content)
      then obtain kvs where "msg = JObject kvs"
        using json_get_Some [of msg "''content''"] by (cases "json_get msg ''content''") auto
      with True Some show ?thesis
        by (simp add: filter_message_assistant Let_def set_field_def thinking_free_def
            as_array_def list_all_iff)
    qed
  next
    case False
    then show ?thesis
      by (simp add: filter_message_other thinking_free_def split: option.split)
  qed
qed

text \<open>A message without thinking blocks is not changed, so a second pass finds nothing to do.\<close>

lemma filter_message_free: "thinking_free msg \<Longrightarrow> \<not> fst (snd (filter_message msg))"
proof (cases "is_assistant msg \<and> Option.bind (json_get msg ''content'') as_array \<noteq> None")
  case True
  then obtain content where c: "Option.bind (json_get msg ''content'') as_array = Some content"
    by auto
  assume "thinking_free msg"
  with True c have "filter (\<lambda>b. \<not> is_thinking_block b) content = content"
    by (simp add: thinking_free_def list_all_iff)
  with True c show ?thesis
    by (simp add: filter_message_assistant)
next
  case False
  then show ?thesis by (simp add: filter_message_same)
qed

text \<open>The messages of a request, and what the filter makes of them.\<close>

definition messages_of :: "json \<Rightarrow> json list" where
  "messages_of j =
     (case Option.bind (json_get j ''messages'') as_array of None \<Rightarrow> [] | Some ms \<Rightarrow> ms)"

lemma filter_thinking_json_Some:
  assumes "filter_thinking_json j = Some j'"
  shows "messages_of j' = map fst (filter (\<lambda>(_, _, drop). \<not> drop) (map filter_message (messages_of j)))"
    and "json_get j' ''thinking'' = None"
    and "k \<noteq> ''messages'' \<Longrightarrow> k \<noteq> ''thinking'' \<Longrightarrow> json_get j' k = json_get j k"
proof -
  obtain ms where ms: "Option.bind (json_get j ''messages'') as_array = Some ms"
    using assms by (auto simp: filter_thinking_json_def split: option.splits)
  then obtain kvs where j: "j = JObject kvs"
    using json_get_Some [of j "''messages''"] by (cases "json_get j ''messages''") auto
  let ?ms' = "map fst (filter (\<lambda>(_, _, drop). \<not> drop) (map filter_message ms))"
  have j': "j' = JObject (AList.delete ''thinking'' (AList.update ''messages'' (JArray ?ms') kvs))"
    using assms ms
    by (simp add: filter_thinking_json_def j set_field_def remove_field_def Let_def
        split: if_splits)
  have "json_get j' ''messages'' = Some (JArray ?ms')"
    by (simp add: j')
  then show "messages_of j' =
      map fst (filter (\<lambda>(_, _, drop). \<not> drop) (map filter_message (messages_of j)))"
    by (simp add: messages_of_def ms as_array_def)
  show "json_get j' ''thinking'' = None"
    by (simp add: j')
  show "json_get j' k = json_get j k" if "k \<noteq> ''messages''" "k \<noteq> ''thinking''"
    using that by (simp add: j' j)
qed


definition text_block :: "string \<Rightarrow> json" where
  "text_block t = JObject [(''type'', JString ''text''), (''text'', JString t)]"

definition thinking_request :: json where
  "thinking_request = JObject
     [(''model'', JString ''m''), (''thinking'', JObject []),
      (''messages'', JArray
        [JObject [(''role'', JString ''user''), (''content'', JString ''Hello'')],
         JObject [(''role'', JString ''assistant''), (''content'', JArray
           [JObject [(''type'', JString ''thinking'')], text_block ''Hi''])]])]"


section \<open>Replacing the model\<close>

lemma str_find_first:
  "str_find (c # cs) p = (if prefix p (c # cs) then Some 0 else map_option Suc (str_find cs p))"
  by simp

text \<open>
  The fast path of \<open>replace_model_in_body\<close> replaces the first place where the text
  \<open>"model":"old"\<close> stands, without looking at the nesting: with a nested object before the
  top-level field, the nested model is replaced and the requested one is sent unchanged.
\<close>

theorem replace_model_hits_nested:
  "replace_model_in_body from_slice to_vec
     (''{'' @ dquote @ ''metadata'' @ dquote @ '':{'' @ dquote @ ''model'' @ dquote @ '':'' @ dquote
       @ ''a'' @ dquote @ ''},'' @ dquote @ ''model'' @ dquote @ '':'' @ dquote @ ''a'' @ dquote @ ''}'')
     ''a'' ''b'' =
   Returns (Some
     (''{'' @ dquote @ ''metadata'' @ dquote @ '':{'' @ dquote @ ''model'' @ dquote @ '':'' @ dquote
       @ ''b'' @ dquote @ ''},'' @ dquote @ ''model'' @ dquote @ '':'' @ dquote @ ''a'' @ dquote @ ''}''))"
proof -
  let ?body = "''{'' @ dquote @ ''metadata'' @ dquote @ '':{'' @ dquote @ ''model'' @ dquote @ '':''
       @ dquote @ ''a'' @ dquote @ ''},'' @ dquote @ ''model'' @ dquote @ '':'' @ dquote @ ''a''
       @ dquote @ ''}''"
  have "utf8_valid ?body"
    by (rule utf8_valid_ascii) (simp add: is_ascii_def dquote_def byte_def)
  moreover have "str_find ?body (model_key @ '':'' @ dquote @ ''a'' @ dquote) = Some 13"
    by (simp add: dquote_def model_key_def)
  ultimately show ?thesis
    by (simp add: replace_model_in_body_def splice_def dquote_def model_key_def)
qed

text \<open>
  A body that is a JSON array of one string passes \<open>extract_model_from_body\<close>, whose
  derived deserializer accepts a struct written as a sequence; if the fast paths do not match
  it, the assignment to \<open>json["model"]\<close> panics instead of returning the body unchanged.
\<close>

theorem replace_model_panics_on_array:
  assumes "utf8_valid body" "from_slice body = Some (JArray xs)"
    and "\<not> contains_str body (model_key @ '':'' @ dquote @ old_model @ dquote)"
    and "\<not> contains_str body (model_key @ '': '' @ dquote @ old_model @ dquote)"
  shows "replace_model_in_body from_slice to_vec body old_model new_model = Panics"
  using assms by (simp add: replace_model_in_body_def index_assign_def
      flip: str_find_None)

theorem replace_model_panics_on_array_witness:
  "replace_model_in_body (\<lambda>_. Some (JArray [JString ''m''])) (\<lambda>_. None)
     (''['' @ dquote @ ''m'' @ dquote @ '']'') ''m'' ''n'' = Panics"
  by (rule replace_model_panics_on_array [where xs = "[JString ''m'']"])
     (simp_all add: utf8_valid_ascii is_ascii_def dquote_def byte_def model_key_def)

end
