(* ===== verification/Rate_Limit.thy ===== *)
theory Rate_Limit
  imports Prelude "HOL-Library.Word"
begin

text \<open>
  The requests-per-minute tracker, \<open>crates/core/src/rate_limit.rs\<close>. An \<open>Instant\<close> is its
  distance from an origin in nanoseconds; \<open>duration_since\<close> is zero for a later instant. The
  mutex makes every call atomic, so a run is a sequence of calls.
\<close>

section \<open>The tracker\<close>

type_synonym instant = int

definition duration_since :: "instant \<Rightarrow> instant \<Rightarrow> int" where
  "duration_since now t = max 0 (now - t)"

type_synonym rpm_tracker = "(string, instant list) hash_map"

definition rpm_window :: int where "rpm_window = 60 * 10 ^ 9"

definition rpm_tracker_new :: rpm_tracker where "rpm_tracker_new = []"

definition check_and_record ::
  "rpm_tracker \<Rightarrow> string \<Rightarrow> 32 word \<Rightarrow> instant \<Rightarrow> bool \<times> rpm_tracker" where
  "check_and_record m key_id rpm_limit now =
     (let queue = (case hm_get m key_id of None \<Rightarrow> [] | Some q \<Rightarrow> q);
          queue = dropWhile (\<lambda>t. duration_since now t > rpm_window) queue
      in if length queue \<ge> unat rpm_limit then (False, hm_insert key_id queue m)
         else (True, hm_insert key_id (queue @ [now]) m))"

record rpm_call =
  call_key :: string
  call_limit :: "32 word"
  call_at :: instant

fun rpm_run :: "rpm_tracker \<Rightarrow> rpm_call list \<Rightarrow> bool list" where
  "rpm_run m [] = []"
| "rpm_run m (c # cs) =
     (let (ok, m') = check_and_record m (call_key c) (call_limit c) (call_at c)
      in ok # rpm_run m' cs)"

section \<open>The promise\<close>

text \<open>
  The abstract limiter remembers every request it has granted and grants another one when
  fewer than the limit lie in the minute before it. It forgets nothing and prunes nothing.
\<close>

type_synonym grant_log = "(string \<times> instant) list"

definition granted_in_window :: "grant_log \<Rightarrow> string \<Rightarrow> instant \<Rightarrow> nat" where
  "granted_in_window log k now =
     length (filter (\<lambda>(k', t). k' = k \<and> now - t \<le> rpm_window) log)"

fun log_run :: "grant_log \<Rightarrow> rpm_call list \<Rightarrow> bool list" where
  "log_run log [] = []"
| "log_run log (c # cs) =
     (let ok = granted_in_window log (call_key c) (call_at c) < unat (call_limit c)
      in ok # log_run (if ok then log @ [(call_key c, call_at c)] else log) cs)"

definition key_queue :: "rpm_tracker \<Rightarrow> string \<Rightarrow> instant list" where
  "key_queue m k = (case hm_get m k of None \<Rightarrow> [] | Some q \<Rightarrow> q)"

definition key_log :: "grant_log \<Rightarrow> string \<Rightarrow> instant list" where
  "key_log log k = map snd (filter (\<lambda>(k', t). k' = k) log)"

definition tracks :: "rpm_tracker \<Rightarrow> grant_log \<Rightarrow> instant \<Rightarrow> bool" where
  "tracks m log now \<longleftrightarrow>
     (\<forall>k. sorted (key_queue m k) \<and>
        (\<forall>t \<in> set (key_queue m k). t \<le> now) \<and>
        (\<forall>later \<ge> now. filter (\<lambda>t. later - t \<le> rpm_window) (key_queue m k) =
           filter (\<lambda>t. later - t \<le> rpm_window) (key_log log k)))"

lemma dropWhile_sorted:
  "sorted xs \<Longrightarrow> (\<And>x y. x \<le> y \<Longrightarrow> P y \<Longrightarrow> P x) \<Longrightarrow> dropWhile P xs = filter (\<lambda>x. \<not> P x) xs"
proof (induction xs)
  case Nil
  then show ?case by simp
next
  case (Cons x xs)
  show ?case
  proof (cases "P x")
    case True
    with Cons show ?thesis by simp
  next
    case False
    with Cons.prems have "\<forall>y \<in> set xs. \<not> P y" by auto
    with False show ?thesis by simp
  qed
qed

lemma pruned_queue:
  assumes "tracks m log now" "now \<le> later"
  shows "dropWhile (\<lambda>t. duration_since later t > rpm_window) (key_queue m k) =
    filter (\<lambda>t. later - t \<le> rpm_window) (key_log log k)"
proof -
  have "(duration_since later t > rpm_window) = (\<not> later - t \<le> rpm_window)" for t
    by (auto simp: duration_since_def rpm_window_def)
  then have "dropWhile (\<lambda>t. duration_since later t > rpm_window) (key_queue m k) =
      filter (\<lambda>t. later - t \<le> rpm_window) (key_queue m k)"
    using assms by (subst dropWhile_sorted) (auto simp: tracks_def)
  with assms show ?thesis by (simp add: tracks_def)
qed

lemma granted_in_window_key:
  "granted_in_window log k now = length (filter (\<lambda>t. now - t \<le> rpm_window) (key_log log k))"
proof (induction log)
  case Nil
  then show ?case by (simp add: granted_in_window_def key_log_def)
next
  case (Cons g log)
  then show ?case by (cases g) (simp add: granted_in_window_def key_log_def)
qed

lemma key_queue_insert [simp]:
  "key_queue (hm_insert k q m) k' = (if k' = k then q else key_queue m k')"
  by (simp add: key_queue_def)

lemma key_log_snoc [simp]:
  "key_log (log @ [(k, t)]) k' = key_log log k' @ (if k' = k then [t] else [])"
  by (auto simp: key_log_def)

lemma check_and_record_step:
  fixes k :: string and limit :: "32 word"
  assumes "tracks m log now" "now \<le> later"
  defines "ok \<equiv> granted_in_window log k later < unat limit"
  shows "fst (check_and_record m k limit later) = ok"
    and "tracks (snd (check_and_record m k limit later))
      (if ok then log @ [(k, later)] else log) later"
proof -
  let ?q = "filter (\<lambda>t. later - t \<le> rpm_window) (key_log log k)"
  have q: "dropWhile (\<lambda>t. duration_since later t > rpm_window)
      (case hm_get m k of None \<Rightarrow> [] | Some q \<Rightarrow> q) = ?q"
    using pruned_queue [OF assms(1,2), of k] by (simp add: key_queue_def)
  have run: "check_and_record m k limit later =
      (ok, hm_insert k (if ok then ?q @ [later] else ?q) m)"
    unfolding check_and_record_def Let_def q ok_def granted_in_window_key by simp
  then show "fst (check_and_record m k limit later) = ok" by simp
  have old: "filter (\<lambda>t. later - t \<le> rpm_window) (key_queue m k) = ?q"
    using assms by (simp add: tracks_def)
  have q_sorted: "sorted (key_queue m k')" and le': "\<forall>t \<in> set (key_queue m k'). t \<le> later" for k'
    using assms(1,2) unfolding tracks_def by (blast, meson order_trans)
  have sorted: "sorted ?q" and le: "\<forall>t \<in> set ?q. t \<le> later"
    unfolding old [symmetric] using q_sorted [of k] le' [of k] by (auto simp: sorted_wrt_filter)
  have filt: "filter (\<lambda>t. x - t \<le> rpm_window) ?q =
      filter (\<lambda>t. x - t \<le> rpm_window) (key_log log k)" if "later \<le> x" for x
    using that by (auto intro!: filter_cong)
  show "tracks (snd (check_and_record m k limit later))
      (if ok then log @ [(k, later)] else log) later"
    unfolding tracks_def run snd_conv key_queue_insert
  proof (intro allI conjI impI)
    fix k'
    let ?r = "if k' = k then if ok then ?q @ [later] else ?q else key_queue m k'"
    show "sorted ?r"
      using sorted le q_sorted by (auto simp: sorted_append)
    show "\<forall>t \<in> set ?r. t \<le> later"
      using le le' by auto
    fix x assume "later \<le> x"
    then show "filter (\<lambda>t. x - t \<le> rpm_window) ?r =
        filter (\<lambda>t. x - t \<le> rpm_window) (key_log (if ok then log @ [(k, later)] else log) k')"
      using filt assms(1,2) by (auto simp: tracks_def)
  qed
qed

lemma rpm_run_log_run:
  "tracks m log now \<Longrightarrow> sorted (now # map call_at cs) \<Longrightarrow> rpm_run m cs = log_run log cs"
proof (induction cs arbitrary: m log now)
  case Nil
  then show ?case by simp
next
  case (Cons c cs)
  have le: "now \<le> call_at c" and sorted: "sorted (call_at c # map call_at cs)"
    using Cons.prems(2) by auto
  note step = check_and_record_step [OF Cons.prems(1) le, of "call_key c" "call_limit c"]
  show ?case
    using Cons.IH [OF step(2) sorted] step(1) by (simp add: split_beta Let_def)
qed

lemma rpm_run_new:
  assumes "sorted (map call_at cs)"
  shows "rpm_run rpm_tracker_new cs = log_run [] cs"
proof (cases cs)
  case Nil
  then show ?thesis by simp
next
  case (Cons c cs')
  have "tracks rpm_tracker_new [] (call_at c)"
    by (simp add: tracks_def rpm_tracker_new_def key_queue_def key_log_def)
  moreover have "sorted (call_at c # map call_at cs)"
    using assms by (simp add: Cons)
  ultimately show ?thesis by (rule rpm_run_log_run)
qed

text \<open>
  C13. The tracker is the abstract limiter: on any sequence of requests in the order of the
  clock, of any keys and with any limits, it answers as if it kept every granted request for
  ever. A request is refused exactly when the minute before it, both ends included, already
  holds as many granted requests of its key as the limit allows.
\<close>

theorem rpm_refines_log:
  assumes "sorted (map call_at cs)"
  shows "rpm_run rpm_tracker_new cs = log_run [] cs"
  using assms by (rule rpm_run_new)

theorem rpm_refines_log_witness:
  "rpm_run rpm_tracker_new
     [\<lparr>call_key = ''k'', call_limit = 1, call_at = 0\<rparr>,
      \<lparr>call_key = ''k'', call_limit = 1, call_at = 60000000000\<rparr>,
      \<lparr>call_key = ''l'', call_limit = 1, call_at = 60000000000\<rparr>,
      \<lparr>call_key = ''k'', call_limit = 1, call_at = 60000000001\<rparr>] = [True, False, True, True]"
  by (subst rpm_refines_log) (simp_all add: granted_in_window_def rpm_window_def)

text \<open>The requests that a run granted, as the log of the abstract limiter.\<close>

definition granted :: "rpm_call list \<Rightarrow> bool list \<Rightarrow> grant_log" where
  "granted cs oks = map (\<lambda>(c, ok). (call_key c, call_at c)) (filter snd (zip cs oks))"

lemma length_log_run [simp]: "length (log_run log cs) = length cs"
  by (induction log cs rule: log_run.induct) (simp_all add: Let_def)

lemma log_run_append:
  "log_run log (xs @ ys) =
     log_run log xs @ log_run (log @ granted xs (log_run log xs)) ys"
  by (induction log xs rule: log_run.induct) (simp_all add: granted_def Let_def)

text \<open>
  The bound itself: when a request is granted, the requests of its key granted in the
  minute up to it, this one counted, are at most its limit. What other keys send does not
  enter.
\<close>

theorem rpm_bound:
  assumes "sorted (map call_at (before @ [c]))"
    and "last (rpm_run rpm_tracker_new (before @ [c]))"
  shows "granted_in_window (granted (before @ [c]) (rpm_run rpm_tracker_new (before @ [c])))
      (call_key c) (call_at c) \<le> unat (call_limit c)"
proof -
  let ?log = "granted before (log_run [] before)"
  have run: "rpm_run rpm_tracker_new (before @ [c]) =
      log_run [] before @
        [granted_in_window ?log (call_key c) (call_at c) < unat (call_limit c)]"
    by (simp only: rpm_run_new [OF assms(1)] log_run_append log_run.simps Let_def append_Nil)
  with assms(2) have ok: "granted_in_window ?log (call_key c) (call_at c) < unat (call_limit c)"
    by simp
  then have "granted (before @ [c]) (rpm_run rpm_tracker_new (before @ [c])) =
      ?log @ [(call_key c, call_at c)]"
    unfolding run by (simp add: granted_def)
  with ok show ?thesis
    by (simp add: granted_in_window_def)
qed

theorem rpm_bound_witness:
  "granted_in_window (granted
       [\<lparr>call_key = ''k'', call_limit = 2, call_at = 0\<rparr>,
        \<lparr>call_key = ''k'', call_limit = 2, call_at = 9\<rparr>]
       (rpm_run rpm_tracker_new
         [\<lparr>call_key = ''k'', call_limit = 2, call_at = 0\<rparr>,
          \<lparr>call_key = ''k'', call_limit = 2, call_at = 9\<rparr>])) ''k'' 9 \<le> 2"
  using rpm_bound [of "[\<lparr>call_key = ''k'', call_limit = 2, call_at = 0\<rparr>]"
      "\<lparr>call_key = ''k'', call_limit = 2, call_at = 9\<rparr>"]
  by (simp add: check_and_record_def rpm_tracker_new_def duration_since_def rpm_window_def)

end
