(* ===== verification/Ttl_Cache.thy ===== *)
theory Ttl_Cache
  imports Rate_Limit
begin

text \<open>
  What a cache with a time to live promises. Three caches of the proxy have this shape: the
  verified API keys, the answer whether authentication is on, and the list of accounts. Each
  is looked up first and filled from a query when the lookup fails; a query that fails is not
  stored. The locale states the laws of \<open>lookup\<close> and \<open>store\<close>; the lemma proved from them is that
  every answer is one that a query gave less than the time to live ago.
\<close>

definition as_secs :: "int \<Rightarrow> int" where
  "as_secs d = d div 10 ^ 9"

definition elapsed_secs :: "instant \<Rightarrow> instant \<Rightarrow> int" where
  "elapsed_secs now t = as_secs (duration_since now t)"

text \<open>
  One use of a cache: the key, the instant of the lookup, what the query answers if it is
  asked, and the instant at which that answer is stored.
\<close>

record ('k, 'v) cache_use =
  use_key :: 'k
  use_now :: instant
  use_query :: "'v option"
  use_done :: instant

definition cached_step ::
  "('c \<Rightarrow> 'k \<Rightarrow> instant \<Rightarrow> 'v option) \<Rightarrow> ('c \<Rightarrow> 'k \<Rightarrow> 'v \<Rightarrow> instant \<Rightarrow> 'c) \<Rightarrow>
     'c \<Rightarrow> ('k, 'v) cache_use \<Rightarrow> 'v option \<times> 'c" where
  "cached_step lookup store c e =
     (case lookup c (use_key e) (use_now e) of
        Some v \<Rightarrow> (Some v, c)
      | None \<Rightarrow>
          (case use_query e of
             None \<Rightarrow> (None, c)
           | Some v \<Rightarrow> (Some v, store c (use_key e) v (use_done e))))"

fun cached_run ::
  "('c \<Rightarrow> 'k \<Rightarrow> instant \<Rightarrow> 'v option) \<Rightarrow> ('c \<Rightarrow> 'k \<Rightarrow> 'v \<Rightarrow> instant \<Rightarrow> 'c) \<Rightarrow>
     'c \<Rightarrow> ('k, 'v) cache_use list \<Rightarrow> 'c" where
  "cached_run lookup store c [] = c"
| "cached_run lookup store c (e # es) =
     cached_run lookup store (snd (cached_step lookup store c e)) es"

locale ttl_cache =
  fixes empty :: 'c
    and lookup :: "'c \<Rightarrow> 'k \<Rightarrow> instant \<Rightarrow> 'v option"
    and store :: "'c \<Rightarrow> 'k \<Rightarrow> 'v \<Rightarrow> instant \<Rightarrow> 'c"
    and ttl :: "'v \<Rightarrow> int"
  assumes lookup_empty: "lookup empty k now = None"
    and lookup_store: "lookup (store c k v t) k now =
      (if elapsed_secs now t < ttl v then Some v else None)"
    and lookup_store_other: "k' \<noteq> k \<Longrightarrow> lookup (store c k v t) k' now = Some w \<Longrightarrow>
      lookup c k' now = Some w"
begin

definition explained :: "'c \<Rightarrow> ('k, 'v) cache_use list \<Rightarrow> bool" where
  "explained c es \<longleftrightarrow>
     (\<forall>k v now. lookup c k now = Some v \<longrightarrow>
        (\<exists>e \<in> set es. use_key e = k \<and> use_query e = Some v \<and>
           elapsed_secs now (use_done e) < ttl v))"

lemma explained_empty: "explained empty []"
  by (simp add: explained_def lookup_empty)

lemma explained_store:
  assumes "explained c es" "use_query e = Some v"
  shows "explained (store c (use_key e) v (use_done e)) (es @ [e])"
  unfolding explained_def
proof (intro allI impI)
  fix k w now
  assume hit: "lookup (store c (use_key e) v (use_done e)) k now = Some w"
  show "\<exists>e' \<in> set (es @ [e]). use_key e' = k \<and> use_query e' = Some w \<and>
      elapsed_secs now (use_done e') < ttl w"
  proof (cases "k = use_key e")
    case True
    with hit assms(2) show ?thesis
      by (auto simp: lookup_store split: if_splits)
  next
    case False
    with hit lookup_store_other have "lookup c k now = Some w" by blast
    with assms(1) show ?thesis by (auto simp: explained_def)
  qed
qed

lemma explained_more: "explained c es \<Longrightarrow> explained c (es @ es')"
  by (fastforce simp: explained_def)

lemma explained_step: "explained c es \<Longrightarrow> explained (snd (cached_step lookup store c e)) (es @ [e])"
  by (auto simp: cached_step_def explained_more explained_store split: option.split)

lemma explained_run: "explained c es \<Longrightarrow> explained (cached_run lookup store c es') (es @ es')"
proof (induction es' arbitrary: c es)
  case Nil
  then show ?case by simp
next
  case (Cons e es')
  from Cons.IH [OF explained_step [OF Cons.prems]] show ?case by simp
qed

lemma cached_answer:
  assumes "fst (cached_step lookup store (cached_run lookup store empty es) e) = Some v"
  shows "use_query e = Some v \<or>
    (\<exists>e' \<in> set es. use_key e' = use_key e \<and> use_query e' = Some v \<and>
       elapsed_secs (use_now e) (use_done e') < ttl v)"
proof -
  have "explained (cached_run lookup store empty es) es"
    using explained_run [OF explained_empty] by simp
  with assms show ?thesis
    by (auto simp: cached_step_def explained_def split: option.splits)
qed

end

text \<open>A cache of one slot: the value and the instant it was fetched.\<close>

type_synonym 'v slot = "('v \<times> instant) option"

definition slot_lookup :: "int \<Rightarrow> 'v slot \<Rightarrow> unit \<Rightarrow> instant \<Rightarrow> 'v option" where
  "slot_lookup ttl slot u now =
     (case slot of
        None \<Rightarrow> None
      | Some (v, t) \<Rightarrow> if elapsed_secs now t < ttl then Some v else None)"

definition slot_store :: "'v slot \<Rightarrow> unit \<Rightarrow> 'v \<Rightarrow> instant \<Rightarrow> 'v slot" where
  "slot_store slot u v t = Some (v, t)"

lemma slot_is_ttl_cache: "ttl_cache None (slot_lookup ttl) slot_store (\<lambda>_. ttl)"
  by unfold_locales (auto simp: slot_lookup_def slot_store_def)

end
