(* ===== verification/Crypto.thy ===== *)
theory Crypto
  imports Text_Json
begin

text \<open>
  The hashed API keys, \<open>crates/proxy/src/crypto.rs\<close>: hexadecimal text, the format
  \<open><salt>:<hash>\<close>, verification with the fall-back to unsalted SHA-256. The hash functions are
  parameters: \<open>scrypt key salt\<close> at the fixed cost parameters (\<open>None\<close> for its error) and
  \<open>sha256\<close>. The comparison in constant time is equality.
\<close>

section \<open>Hexadecimal text\<close>

definition hex_char :: "nat \<Rightarrow> char" where
  "hex_char n = (if n < 10 then char_of (48 + n) else char_of (87 + n))"

definition hex_encode :: "string \<Rightarrow> string" where
  "hex_encode bytes = concat (map (\<lambda>b. [hex_char (byte b div 16), hex_char (byte b mod 16)]) bytes)"

definition to_digit16 :: "char \<Rightarrow> nat option" where
  "to_digit16 c =
     (let b = byte c
      in if 48 \<le> b \<and> b \<le> 57 then Some (b - 48)
         else if 97 \<le> b \<and> b \<le> 102 then Some (b - 87)
         else if 65 \<le> b \<and> b \<le> 70 then Some (b - 55)
         else None)"

text \<open>\<open>u8::from_str_radix\<close> on two characters: a leading plus sign is accepted.\<close>

definition from_hex2 :: "char \<Rightarrow> char \<Rightarrow> char option" where
  "from_hex2 a b =
     (if a = CHR ''+'' then map_option char_of (to_digit16 b)
      else case (to_digit16 a, to_digit16 b) of
          (Some x, Some y) \<Rightarrow> Some (char_of (16 * x + y))
        | _ \<Rightarrow> None)"

text \<open>
  Slicing two bytes at a time panics inside a multi-byte character; the collection stops at
  the first pair that is no number.
\<close>

fun hex_pairs :: "string \<Rightarrow> string option outcome" where
  "hex_pairs (a # b # rest) =
     (if rest \<noteq> [] \<and> is_continuation (hd rest) then Panics
      else case from_hex2 a b of
          None \<Rightarrow> Returns None
        | Some v \<Rightarrow>
            (case hex_pairs rest of
               Returns (Some vs) \<Rightarrow> Returns (Some (v # vs))
             | r \<Rightarrow> r))"
| "hex_pairs _ = Returns (Some [])"

definition hex_decode :: "string \<Rightarrow> string option outcome" where
  "hex_decode s = (if odd (length s) then Returns None else hex_pairs s)"

section \<open>Hashing and verification\<close>

definition SCRYPT_KEY_LEN :: nat where "SCRYPT_KEY_LEN = 64"
definition SALT_LEN :: nat where "SALT_LEN = 16"

datatype scrypt_error = InvalidParams string | HashFailed string | InvalidFormat string

definition generate_api_key :: "string \<Rightarrow> string" where
  "generate_api_key random_bytes = hex_encode (take 32 random_bytes)"

definition hash_api_key_with_salt ::
  "(string \<Rightarrow> string \<Rightarrow> string option) \<Rightarrow> string \<Rightarrow> string \<Rightarrow> scrypt_error + string" where
  "hash_api_key_with_salt scrypt api_key salt =
     (case scrypt api_key salt of
        None \<Rightarrow> Inl (HashFailed ''scrypt hash failed'')
      | Some out \<Rightarrow> Inr (hex_encode salt @ '':'' @ hex_encode out))"

definition verify_sha256_legacy ::
  "(string \<Rightarrow> string) \<Rightarrow> string \<Rightarrow> string \<Rightarrow> scrypt_error + bool" where
  "verify_sha256_legacy sha256 api_key stored_hash =
     (let hash = hex_encode (sha256 api_key)
      in if length hash \<noteq> length stored_hash then Inr False else Inr (hash = stored_hash))"

definition colon :: char where "colon = CHR 0x3A"

definition verify_api_key ::
  "(string \<Rightarrow> string \<Rightarrow> string option) \<Rightarrow> (string \<Rightarrow> string) \<Rightarrow>
     string \<Rightarrow> string \<Rightarrow> (scrypt_error + bool) outcome" where
  "verify_api_key scrypt sha256 api_key stored_hash =
     (if colon \<notin> set stored_hash then Returns (verify_sha256_legacy sha256 api_key stored_hash)
      else
        (let salt_hex = takeWhile (\<lambda>c. c \<noteq> colon) stored_hash;
             hash_hex = drop (Suc (length salt_hex)) stored_hash
         in case hex_decode salt_hex of
              Panics \<Rightarrow> Panics
            | Returns None \<Rightarrow> Returns (Inl (InvalidFormat ''Invalid salt hex''))
            | Returns (Some salt) \<Rightarrow>
                (case hex_decode hash_hex of
                   Panics \<Rightarrow> Panics
                 | Returns None \<Rightarrow> Returns (Inl (InvalidFormat ''Invalid hash hex''))
                 | Returns (Some stored) \<Rightarrow>
                     if length stored \<noteq> SCRYPT_KEY_LEN then Returns (Inr False)
                     else (case scrypt api_key salt of
                         None \<Rightarrow> Returns (Inl (HashFailed ''scrypt verification failed''))
                       | Some candidate \<Rightarrow> Returns (Inr (candidate = stored))))))"

definition key_suffix :: "string \<Rightarrow> string outcome" where
  "key_suffix api_key =
     (if length api_key \<ge> 8 then
        (if is_continuation (api_key ! (length api_key - 8)) then Panics
         else Returns (drop (length api_key - 8) api_key))
      else Returns api_key)"

section \<open>Round trips\<close>

lemma hex_char_props:
  assumes "n < 16"
  shows "to_digit16 (hex_char n) = Some n" and "byte (hex_char n) < 128"
    and "hex_char n \<noteq> CHR ''+''" and "hex_char n \<noteq> colon"
proof -
  have "\<forall>n \<in> set [0..<16]. to_digit16 (hex_char n) = Some n \<and> byte (hex_char n) < 128 \<and>
      hex_char n \<noteq> CHR ''+'' \<and> hex_char n \<noteq> colon"
    by (simp add: upt_rec hex_char_def to_digit16_def byte_def colon_def char_of_def bit_0)
  with assms show "to_digit16 (hex_char n) = Some n" "byte (hex_char n) < 128"
    "hex_char n \<noteq> CHR ''+''" "hex_char n \<noteq> colon"
    by auto
qed

lemma byte_less: "byte c < 256"
  unfolding byte_def by (metis of_char_mod_256 mod_less_divisor zero_less_numeral)

lemma hex_pair_back:
  "from_hex2 (hex_char (byte b div 16)) (hex_char (byte b mod 16)) = Some b"
proof -
  have "byte b div 16 < 16"
    using byte_less [of b] by (simp add: less_mult_imp_div_less)
  moreover have "char_of (16 * (byte b div 16) + byte b mod 16) = b"
    by (simp add: byte_def)
  ultimately show ?thesis
    by (simp add: from_hex2_def hex_char_props)
qed

lemma hex_encode_Cons:
  "hex_encode (b # bs) = hex_char (byte b div 16) # hex_char (byte b mod 16) # hex_encode bs"
  by (simp add: hex_encode_def)

lemma hex_encode_head: "hex_encode bs \<noteq> [] \<Longrightarrow> byte (hd (hex_encode bs)) < 128"
proof (cases bs)
  case (Cons b bs')
  have "byte b div 16 < 16"
    using byte_less [of b] by (simp add: less_mult_imp_div_less)
  then show ?thesis
    by (simp add: Cons hex_encode_Cons hex_char_props)
qed (simp add: hex_encode_def)

lemma hex_pairs_encode: "hex_pairs (hex_encode bs) = Returns (Some bs)"
proof (induction bs)
  case Nil
  then show ?case by (simp add: hex_encode_def)
next
  case (Cons b bs)
  have "\<not> (hex_encode bs \<noteq> [] \<and> is_continuation (hd (hex_encode bs)))"
    using hex_encode_head [of bs] by (auto simp: is_continuation_def in_range_def)
  then show ?case
    using Cons.IH by (simp only: hex_encode_Cons hex_pairs.simps if_False hex_pair_back option.case outcome.case)
qed

lemma length_hex_encode: "length (hex_encode bs) = 2 * length bs"
  by (induction bs) (simp_all add: hex_encode_def)

lemma hex_decode_encode [simp]: "hex_decode (hex_encode bs) = Returns (Some bs)"
  by (simp add: hex_decode_def hex_pairs_encode length_hex_encode)

lemma colon_hex_encode: "colon \<notin> set (hex_encode bs)"
proof (induction bs)
  case Nil
  then show ?case by (simp add: hex_encode_def)
next
  case (Cons b bs)
  have "byte b div 16 < 16"
    using byte_less [of b] by (simp add: less_mult_imp_div_less)
  with Cons.IH show ?case
    using hex_char_props(4) [of "byte b div 16"] hex_char_props(4) [of "byte b mod 16"]
    by (auto simp: hex_encode_Cons)
qed

text \<open>
  A stored key verifies exactly the keys with its hash: whatever was stored by
  \<open>hash_api_key_with_salt\<close> is read back without error or panic, accepts the key it was made
  from, and accepts another key only when scrypt gives both the same 64 bytes under the salt.
\<close>

theorem verify_hashed_key:
  assumes "hash_api_key_with_salt scrypt key salt = Inr stored"
    and "\<And>k s out. scrypt k s = Some out \<Longrightarrow> length out = SCRYPT_KEY_LEN"
    and "scrypt key' salt \<noteq> None"
  shows "verify_api_key scrypt sha256 key' stored =
    Returns (Inr (scrypt key' salt = scrypt key salt))"
proof -
  obtain out where out: "scrypt key salt = Some out"
    and stored: "stored = hex_encode salt @ colon # hex_encode out"
    using assms(1) by (auto simp: hash_api_key_with_salt_def colon_def split: option.splits)
  have salt: "takeWhile (\<lambda>c. c \<noteq> colon) stored = hex_encode salt"
    using colon_hex_encode [of salt] unfolding stored by (subst takeWhile_append2) auto
  have hash: "drop (Suc (length (hex_encode salt))) stored = hex_encode out"
    by (simp add: stored)
  have "colon \<in> set stored"
    by (simp add: stored)
  then show ?thesis
    using assms(2) [OF out] assms(3) out
    by (auto simp: verify_api_key_def salt hash Let_def)
qed

theorem verify_hashed_key_witness:
  "verify_api_key (\<lambda>k s. Some (replicate 64 (hd k))) id ''b''
     (projr (hash_api_key_with_salt (\<lambda>k s. Some (replicate 64 (hd k))) ''a'' ''salt'')) =
   Returns (Inr False)"
  by (subst verify_hashed_key [where key = "''a''" and salt = "''salt''"])
     (auto simp: hash_api_key_with_salt_def SCRYPT_KEY_LEN_def numeral_eq_Suc)

end
