(* ===== verification/Auth.thy ===== *)
theory Auth
  imports Handler Ttl_Cache Crypto
begin

text \<open>
  The authentication middleware, \<open>crates/proxy/src/auth.rs\<close>: key extraction, path exemptions,
  verification against the stored keys, the two caches and \<open>auth_middleware\<close>. The process-wide
  caches and the rate tracker are the state, returned updated; the database, the environment
  variables and the instants at which the code reads the clock are inputs. Base64 decoding,
  SHA-256 and scrypt are parameters.
\<close>

section \<open>Requests and their credentials\<close>

record auth_info =
  is_authenticated :: bool
  api_key_id :: "string option"
  api_key_name :: "string option"
  info_scope :: "key_scope option"

definition auth_info_default :: auth_info where
  "auth_info_default =
     \<lparr>is_authenticated = False, api_key_id = None, api_key_name = None, info_scope = None\<rparr>"

record http_request =
  rq_method :: string
  rq_path :: string
  rq_headers :: header_map

definition extract_api_key :: "http_request \<Rightarrow> string option" where
  "extract_api_key req =
     (let from_authorization =
            (case Option.bind (header_str (rq_headers req) ''authorization'')
                    (\<lambda>s. strip_prefix s ''Bearer '') of
               None \<Rightarrow> None
             | Some token \<Rightarrow> if trim token \<noteq> [] then Some (trim token) else None)
      in case header_str (rq_headers req) ''x-api-key'' of
           None \<Rightarrow> from_authorization
         | Some s \<Rightarrow> if trim s \<noteq> [] then Some (trim s) else from_authorization)"

definition get_dashboard_password :: "string option \<Rightarrow> string option" where
  "get_dashboard_password var =
     (case var of None \<Rightarrow> None | Some s \<Rightarrow> if s \<noteq> [] then Some s else None)"

definition after_colon :: "string \<Rightarrow> string option" where
  "after_colon s =
     (if colon \<in> set s then Some (tl (dropWhile (\<lambda>c. c \<noteq> colon) s)) else None)"

definition extract_basic_auth_password ::
  "(string \<Rightarrow> string option) \<Rightarrow> http_request \<Rightarrow> string option" where
  "extract_basic_auth_password b64_decode req =
     (case Option.bind (header_str (rq_headers req) ''authorization'')
             (\<lambda>s. strip_prefix s ''Basic '') of
        None \<Rightarrow> None
      | Some encoded \<Rightarrow>
          (case b64_decode (trim encoded) of
             None \<Rightarrow> None
           | Some decoded \<Rightarrow>
               if \<not> utf8_valid decoded then None
               else (case after_colon decoded of
                   None \<Rightarrow> None
                 | Some password \<Rightarrow> if password = [] then None else Some password)))"

definition verify_password_constant_time :: "string \<Rightarrow> string \<Rightarrow> bool" where
  "verify_password_constant_time provided expected \<longleftrightarrow> provided = expected"

section \<open>Paths\<close>

definition normalize_path :: "string \<Rightarrow> string" where
  "normalize_path path = CHR ''/'' # trim_start_matches (CHR ''/'') path"

definition is_path_exempt :: "string \<Rightarrow> bool" where
  "is_path_exempt path =
     (let path = normalize_path path
      in path = ''/health'' \<or> path = ''/api/oauth/callback'' \<or>
         starts_with path ''/dashboard/assets/'')"

definition auth_failed_response :: "string \<Rightarrow> bool \<Rightarrow> response" where
  "auth_failed_response path has_dashboard_password =
     (let normalized = normalize_path path;
          is_browser_path = (\<not> starts_with normalized ''/api/'' \<and>
            \<not> starts_with normalized ''/v1/'' \<and> \<not> starts_with normalized ''/messages/'');
          resp = error_response 401
            (''API key required. Include it in the '' @ [CHR 0x27] @ ''x-api-key'' @ [CHR 0x27] @
             '' header or Authorization: Bearer <key>'')
      in if is_browser_path \<and> has_dashboard_password
         then resp\<lparr>resp_headers := resp_headers resp @
           [(''www-authenticate'', ''Basic realm='' @ dquote @ ''dashboard'' @ dquote)]\<rparr>
         else resp)"

section \<open>Verification against the stored keys\<close>

record key_row =
  row_id :: string
  row_name :: string
  row_hash :: string
  row_scope :: "string option"
  row_active :: bool

type_synonym verified = "string \<times> string \<times> key_scope"

text \<open>
  What the database answers: \<open>None\<close> when no connection or query succeeds. A panic of the
  verification ends the blocking task, which the caller takes for \<open>None\<close>.
\<close>

type_synonym key_table = "key_row list option"

fun verify_rows :: "(string \<Rightarrow> bool option) \<Rightarrow> key_row list \<Rightarrow> verified option" where
  "verify_rows check [] = None"
| "verify_rows check (r # rs) =
     (case check (row_hash r) of
        None \<Rightarrow> None
      | Some ok \<Rightarrow>
          if ok then Some (row_id r, row_name r,
                 key_scope_from_db (case row_scope r of None \<Rightarrow> [] | Some s \<Rightarrow> s))
          else verify_rows check rs)"

text \<open>\<open>Some True\<close> for \<open>Ok(true)\<close>, \<open>Some False\<close> for any other result, \<open>None\<close> for a panic.\<close>

definition check_hash ::
  "(string \<Rightarrow> string \<Rightarrow> string option) \<Rightarrow> (string \<Rightarrow> string) \<Rightarrow> string \<Rightarrow> string \<Rightarrow> bool option" where
  "check_hash scrypt sha256 key stored =
     (case verify_api_key scrypt sha256 key stored of
        Panics \<Rightarrow> None
      | Returns (Inr b) \<Rightarrow> Some b
      | Returns (Inl _) \<Rightarrow> Some False)"

definition verify_api_key_sync ::
  "(string \<Rightarrow> string \<Rightarrow> string option) \<Rightarrow> (string \<Rightarrow> string) \<Rightarrow> key_table \<Rightarrow> string \<Rightarrow>
     verified option" where
  "verify_api_key_sync scrypt sha256 table key =
     (case table of
        None \<Rightarrow> None
      | Some rows \<Rightarrow> verify_rows (check_hash scrypt sha256 key) (filter row_active rows))"

definition count_active_api_keys :: "key_table \<Rightarrow> nat option" where
  "count_active_api_keys table =
     (case table of None \<Rightarrow> None | Some rows \<Rightarrow> Some (length (filter row_active rows)))"

section \<open>Caches\<close>

definition API_KEY_CACHE_TTL_SECS :: int where "API_KEY_CACHE_TTL_SECS = 300"
definition API_KEY_NEGATIVE_CACHE_TTL_SECS :: int where "API_KEY_NEGATIVE_CACHE_TTL_SECS = 30"
definition AUTH_ENABLED_CACHE_TTL_SECS :: int where "AUTH_ENABLED_CACHE_TTL_SECS = 10"
definition API_KEY_CACHE_MAX_SIZE :: nat where "API_KEY_CACHE_MAX_SIZE = 1000"

type_synonym key_cache = "(string, verified option \<times> instant) hash_map"

definition key_ttl :: "verified option \<Rightarrow> int" where
  "key_ttl result =
     (if result \<noteq> None then API_KEY_CACHE_TTL_SECS else API_KEY_NEGATIVE_CACHE_TTL_SECS)"

definition key_lookup :: "key_cache \<Rightarrow> string \<Rightarrow> instant \<Rightarrow> verified option option" where
  "key_lookup cache cache_key now =
     (case hm_get cache cache_key of
        None \<Rightarrow> None
      | Some (result, verified_at) \<Rightarrow>
          if elapsed_secs now verified_at < key_ttl result then Some result else None)"

definition key_store :: "key_cache \<Rightarrow> string \<Rightarrow> verified option \<Rightarrow> instant \<Rightarrow> key_cache" where
  "key_store cache cache_key result now =
     hm_insert cache_key (result, now)
       (if length cache \<ge> API_KEY_CACHE_MAX_SIZE then [] else cache)"

definition hash_for_cache :: "(string \<Rightarrow> string) \<Rightarrow> string \<Rightarrow> string" where
  "hash_for_cache sha256 key = hex_encode (sha256 key)"

text \<open>
  The query is asked on a miss only; \<open>checked\<close> and \<open>stored\<close> are the instants of the lookup and
  of the insertion.
\<close>

definition verify_api_key_cached ::
  "(string \<Rightarrow> string) \<Rightarrow> key_cache \<Rightarrow> string \<Rightarrow> verified option \<Rightarrow> instant \<Rightarrow> instant \<Rightarrow>
     verified option \<times> key_cache" where
  "verify_api_key_cached sha256 cache key query checked stored =
     (let cache_key = hash_for_cache sha256 key
      in case key_lookup cache cache_key checked of
           Some result \<Rightarrow> (result, cache)
         | None \<Rightarrow> (query, key_store cache cache_key query stored))"

type_synonym enabled_cache = "bool slot"

text \<open>\<open>None\<close> is the error of a database that cannot be queried; it is not cached.\<close>

definition is_auth_enabled ::
  "enabled_cache \<Rightarrow> key_table \<Rightarrow> instant \<Rightarrow> instant \<Rightarrow> bool option \<times> enabled_cache" where
  "is_auth_enabled cache table checked stored =
     (case slot_lookup AUTH_ENABLED_CACHE_TTL_SECS cache () checked of
        Some enabled \<Rightarrow> (Some enabled, cache)
      | None \<Rightarrow>
          (case count_active_api_keys table of
             None \<Rightarrow> (None, cache)
           | Some n \<Rightarrow> (Some (n > 0), slot_store cache () (n > 0) stored)))"

section \<open>The middleware\<close>

record auth_state =
  key_cache :: key_cache
  enabled_cache :: enabled_cache
  rpm :: rpm_tracker

record auth_env =
  db_pool :: "key_table option"
  dashboard_password_var :: "string option"
  allow_unauthenticated :: bool
  rpm_per_key :: "32 word option"

text \<open>The instants at which a request's authentication reads the clock, in their order.\<close>

record auth_clock =
  t_enabled :: instant
  t_enabled_stored :: instant
  t_key :: instant
  t_key_stored :: instant
  t_rpm :: instant

datatype auth_decision = Pass auth_info | Reject response

record hashes =
  h_scrypt :: "string \<Rightarrow> string \<Rightarrow> string option"
  h_sha256 :: "string \<Rightarrow> string"
  h_b64_decode :: "string \<Rightarrow> string option"

definition anonymous_pass :: auth_decision where
  "anonymous_pass = Pass (auth_info_default\<lparr>is_authenticated := True\<rparr>)"

definition csrf_violation :: "http_request \<Rightarrow> bool" where
  "csrf_violation req =
     (let normalized = normalize_path (rq_path req);
          is_mutating_method =
            (rq_method req \<in> {''POST'', ''PUT'', ''DELETE'', ''PATCH''});
          is_api_path = starts_with normalized ''/api/'';
          has_bearer = (extract_api_key req \<noteq> None);
          has_x_requested_with = (map_of (rq_headers req) ''x-requested-with'' \<noteq> None);
          has_json_content_type =
            (case header_str (rq_headers req) ''content-type'' of
               None \<Rightarrow> False
             | Some ct \<Rightarrow> starts_with ct ''application/json'')
      in is_mutating_method \<and> is_api_path \<and> \<not> has_bearer \<and>
         \<not> has_x_requested_with \<and> \<not> has_json_content_type)"

definition is_dashboard_get :: "http_request \<Rightarrow> bool" where
  "is_dashboard_get req =
     (let normalized = normalize_path (rq_path req)
      in rq_method req = ''GET'' \<and>
         (normalized = ''/dashboard'' \<or> starts_with normalized ''/dashboard/''))"

text \<open>The last part of the middleware: the key against the database, its scope, its rate.\<close>

definition authenticate_key ::
  "hashes \<Rightarrow> key_table \<Rightarrow> 32 word option \<Rightarrow> auth_clock \<Rightarrow> http_request \<Rightarrow> string \<Rightarrow>
     auth_decision \<Rightarrow> auth_state \<Rightarrow> auth_decision \<times> auth_state" where
  "authenticate_key h table limit clock req key failed st =
     (let (result, cache) = verify_api_key_cached (h_sha256 h) (key_cache st) key
            (verify_api_key_sync (h_scrypt h) (h_sha256 h) table key) (t_key clock) (t_key_stored clock);
          st = st\<lparr>key_cache := cache\<rparr>
      in case result of
           None \<Rightarrow> (failed, st)
         | Some (i, name, scope) \<Rightarrow>
             if scope = Proxy \<and> starts_with (normalize_path (rq_path req)) ''/api/'' then
               (Reject (error_response 403
                  ''This API key does not have permission to access management endpoints''), st)
             else
               (let info = \<lparr>is_authenticated = True, api_key_id = Some i,
                       api_key_name = Some name, info_scope = Some scope\<rparr>
                in case limit of
                     None \<Rightarrow> (Pass info, st)
                   | Some rpm_limit \<Rightarrow>
                       (let (ok, tracker) = check_and_record (rpm st) i rpm_limit (t_rpm clock);
                            st = st\<lparr>rpm := tracker\<rparr>;
                            resp = error_response 429 ''API key rate limit exceeded''
                        in if \<not> ok then
                             (Reject (resp\<lparr>resp_headers := resp_headers resp @
                                [(''retry-after'', ''60'')]\<rparr>), st)
                           else (Pass info, st))))"

definition password_matches :: "string option \<Rightarrow> string option \<Rightarrow> bool" where
  "password_matches given password =
     (case (given, password) of
        (Some p, Some expected) \<Rightarrow> verify_password_constant_time p expected
      | _ \<Rightarrow> False)"

text \<open>Whether authentication is on; \<open>None\<close> when the database cannot say.\<close>

definition query_enabled :: "auth_env \<Rightarrow> auth_clock \<Rightarrow> auth_state \<Rightarrow> bool option \<times> auth_state" where
  "query_enabled env clock st =
     (case db_pool env of
        None \<Rightarrow> (Some False, st)
      | Some table \<Rightarrow>
          (let (e, c) = is_auth_enabled (enabled_cache st) table
                 (t_enabled clock) (t_enabled_stored clock)
           in (e, st\<lparr>enabled_cache := c\<rparr>)))"

definition auth_middleware ::
  "hashes \<Rightarrow> auth_env \<Rightarrow> auth_clock \<Rightarrow> http_request \<Rightarrow> auth_state \<Rightarrow>
     auth_decision \<times> auth_state" where
  "auth_middleware h env clock req st =
     (if is_path_exempt (rq_path req) then (anonymous_pass, st)
      else if allow_unauthenticated env then (anonymous_pass, st)
      else
        (let password = get_dashboard_password (dashboard_password_var env);
             (enabled, st) = query_enabled env clock st
         in if enabled = None \<and> password = None then
              (Reject (error_response 500
                 ''Authentication check failed due to a database error''), st)
            else
              (let auth_enabled = (enabled = Some True)
               in if \<not> auth_enabled \<and> password = None then
                    (if is_dashboard_get req then (anonymous_pass, st)
                     else (Reject (auth_failed_response (rq_path req) False), st))
                  else if csrf_violation req then
                    (Reject (error_response 403
                       ''CSRF check failed: missing X-Requested-With or application/json content type''), st)
                  else
                    (let key = extract_api_key req;
                         basic = extract_basic_auth_password (h_b64_decode h) req;
                         failed = Reject (auth_failed_response (rq_path req) (password \<noteq> None))
                     in if password_matches basic password then (anonymous_pass, st)
                        else if password_matches key password then (anonymous_pass, st)
                        else case (auth_enabled, key, db_pool env) of
                            (True, Some k, Some table) \<Rightarrow>
                              authenticate_key h table (rpm_per_key env) clock req k failed st
                          | _ \<Rightarrow> (failed, st)))))"

section \<open>The caches keep their promise\<close>

interpretation verified_keys: ttl_cache "[]" key_lookup key_store key_ttl
  by unfold_locales
     (auto simp: key_lookup_def key_store_def split: if_splits option.splits)

interpretation enabled_slot:
  ttl_cache None "slot_lookup AUTH_ENABLED_CACHE_TTL_SECS" slot_store
    "\<lambda>_. AUTH_ENABLED_CACHE_TTL_SECS"
  by (rule slot_is_ttl_cache)

text \<open>A verification: the key, the table as the query would find it, the two instants.\<close>

record key_check =
  kc_key :: string
  kc_table :: key_table
  kc_now :: instant
  kc_done :: instant

definition checked_now :: "hashes \<Rightarrow> key_check \<Rightarrow> verified option" where
  "checked_now h c = verify_api_key_sync (h_scrypt h) (h_sha256 h) (kc_table c) (kc_key c)"

definition check_key :: "hashes \<Rightarrow> key_cache \<Rightarrow> key_check \<Rightarrow> verified option \<times> key_cache" where
  "check_key h cache c =
     verify_api_key_cached (h_sha256 h) cache (kc_key c) (checked_now h c) (kc_now c) (kc_done c)"

fun run_checks :: "hashes \<Rightarrow> key_cache \<Rightarrow> key_check list \<Rightarrow> key_cache" where
  "run_checks h cache [] = cache"
| "run_checks h cache (c # cs) = run_checks h (snd (check_key h cache c)) cs"

definition key_use :: "hashes \<Rightarrow> key_check \<Rightarrow> (string, verified option) cache_use" where
  "key_use h c = \<lparr>use_key = hash_for_cache (h_sha256 h) (kc_key c), use_now = kc_now c,
     use_query = Some (checked_now h c), use_done = kc_done c\<rparr>"

lemma check_key_step:
  "Some (fst (check_key h cache c)) = fst (cached_step key_lookup key_store cache (key_use h c))"
  "snd (check_key h cache c) = snd (cached_step key_lookup key_store cache (key_use h c))"
  by (auto simp: check_key_def verify_api_key_cached_def cached_step_def key_use_def Let_def
      split: option.splits)

lemma run_checks_run:
  "run_checks h cache cs = cached_run key_lookup key_store cache (map (key_use h) cs)"
  by (induction cs arbitrary: cache) (simp_all add: check_key_step)

text \<open>
  A cached verdict is a recent one. After any series of verifications, the answer for a key
  is what the database gives now, or what it gave at an earlier verification of a key with the
  same SHA-256, less than 300 seconds ago for an accepted key and less than 30 seconds ago for
  a refused one. So a revoked key is refused after five minutes at the latest, and a new key
  accepted after half a minute.
\<close>

theorem key_cache_sound:
  "let answer = fst (check_key h (run_checks h [] cs) c)
   in answer = checked_now h c \<or>
      list_ex (\<lambda>c'. hash_for_cache (h_sha256 h) (kc_key c') = hash_for_cache (h_sha256 h) (kc_key c) \<and>
          checked_now h c' = answer \<and>
          elapsed_secs (kc_now c) (kc_done c') < (if answer = None then 30 else 300)) cs"
proof -
  let ?a = "fst (check_key h (run_checks h [] cs) c)"
  have "fst (cached_step key_lookup key_store
      (cached_run key_lookup key_store [] (map (key_use h) cs)) (key_use h c)) = Some ?a"
    by (simp add: check_key_step run_checks_run)
  from verified_keys.cached_answer [OF this] show ?thesis
    by (auto simp: key_use_def list_ex_iff key_ttl_def API_KEY_CACHE_TTL_SECS_def
        API_KEY_NEGATIVE_CACHE_TTL_SECS_def Let_def)
qed

lemma length_key_store:
  "length cache \<le> API_KEY_CACHE_MAX_SIZE \<Longrightarrow>
     length (key_store cache k v t) \<le> API_KEY_CACHE_MAX_SIZE"
  using hm_len_insert_le [of k "(v, t)" cache]
  by (auto simp: key_store_def API_KEY_CACHE_MAX_SIZE_def)

text \<open>The cache of verified keys never holds more than a thousand entries.\<close>

theorem key_cache_bounded: "length (run_checks h [] cs) \<le> 1000"
proof -
  have "length cache \<le> API_KEY_CACHE_MAX_SIZE \<Longrightarrow>
      length (run_checks h cache cs) \<le> API_KEY_CACHE_MAX_SIZE" for cache
  proof (induction cs arbitrary: cache)
    case (Cons c cs)
    then have "length (snd (check_key h cache c)) \<le> API_KEY_CACHE_MAX_SIZE"
      by (auto simp: check_key_def verify_api_key_cached_def length_key_store Let_def
          split: option.split)
    from Cons.IH [OF this] show ?case by simp
  qed simp
  from this [of "[]"] show ?thesis by (simp add: API_KEY_CACHE_MAX_SIZE_def)
qed

section \<open>What passes\<close>

definition enabled_answer :: "auth_env \<Rightarrow> auth_clock \<Rightarrow> auth_state \<Rightarrow> bool option" where
  "enabled_answer env clock st = fst (query_enabled env clock st)"

definition password_given :: "hashes \<Rightarrow> auth_env \<Rightarrow> http_request \<Rightarrow> bool" where
  "password_given h env req \<longleftrightarrow>
     get_dashboard_password (dashboard_password_var env) \<noteq> None \<and>
     get_dashboard_password (dashboard_password_var env) \<in>
       {extract_basic_auth_password (h_b64_decode h) req, extract_api_key req}"

text \<open>The answer of the cached verification of the request's key, when keys are in use.\<close>

definition key_answer :: "hashes \<Rightarrow> auth_env \<Rightarrow> auth_clock \<Rightarrow> http_request \<Rightarrow> auth_state \<Rightarrow>
    verified option" where
  "key_answer h env clock req st =
     (case (extract_api_key req, db_pool env) of
        (Some k, Some table) \<Rightarrow>
          if enabled_answer env clock st = Some True then
            fst (verify_api_key_cached (h_sha256 h) (key_cache st) k
              (verify_api_key_sync (h_scrypt h) (h_sha256 h) table k)
              (t_key clock) (t_key_stored clock))
          else None
      | _ \<Rightarrow> None)"

lemma authenticate_key_Pass:
  assumes "fst (authenticate_key h table limit clock req k (Reject r) st) = Pass info"
  obtains i name scope where
    "fst (verify_api_key_cached (h_sha256 h) (key_cache st) k
      (verify_api_key_sync (h_scrypt h) (h_sha256 h) table k) (t_key clock) (t_key_stored clock)) =
      Some (i, name, scope)"
    "\<not> (scope = Proxy \<and> starts_with (normalize_path (rq_path req)) ''/api/'')"
    "info = \<lparr>is_authenticated = True, api_key_id = Some i, api_key_name = Some name,
        info_scope = Some scope\<rparr>"
  using assms
  by (auto simp: authenticate_key_def Let_def split: prod.splits option.splits if_splits)

lemma auth_middleware_Pass:
  assumes pass: "fst (auth_middleware h env clock req st) = Pass info"
    and closed: "\<not> is_path_exempt (rq_path req)" "\<not> allow_unauthenticated env"
  obtains (first_run) "get_dashboard_password (dashboard_password_var env) = None"
      "enabled_answer env clock st = Some False" "is_dashboard_get req"
      "info = auth_info_default\<lparr>is_authenticated := True\<rparr>"
  | (password) "password_given h env req" "\<not> csrf_violation req"
      "info = auth_info_default\<lparr>is_authenticated := True\<rparr>"
  | (key) i name scope where "key_answer h env clock req st = Some (i, name, scope)"
      "\<not> csrf_violation req"
      "\<not> (scope = Proxy \<and> starts_with (normalize_path (rq_path req)) ''/api/'')"
      "info = \<lparr>is_authenticated = True, api_key_id = Some i, api_key_name = Some name,
          info_scope = Some scope\<rparr>"
proof -
  let ?pw = "get_dashboard_password (dashboard_password_var env)"
  obtain e st' where q: "query_enabled env clock st = (e, st')"
    by (cases "query_enabled env clock st")
  then have e: "e = enabled_answer env clock st"
    by (simp add: enabled_answer_def)
  have st': "key_cache st' = key_cache st"
    using q by (auto simp: query_enabled_def split: option.splits prod.splits)
  let ?failed = "Reject (auth_failed_response (rq_path req) (?pw \<noteq> None))"
  let ?basic = "extract_basic_auth_password (h_b64_decode h) req"
  let ?key = "extract_api_key req"
  have matches: "password_matches g ?pw \<longleftrightarrow> ?pw \<noteq> None \<and> ?pw = g" for g
    by (auto simp: password_matches_def verify_password_constant_time_def split: option.split)
  note run = pass [unfolded auth_middleware_def Let_def q prod.case]
  have not_error: "e = None \<Longrightarrow> ?pw \<noteq> None"
    using run closed by (auto split: if_splits)
  show thesis
  proof (cases "e \<noteq> Some True \<and> ?pw = None")
    case True
    with run closed not_error have "is_dashboard_get req" "fst (anonymous_pass, st') = Pass info"
      by (auto split: if_splits)
    with True not_error show thesis
      by (intro first_run) (auto simp: anonymous_pass_def e [symmetric])
  next
    case False
    with run closed have csrf: "\<not> csrf_violation req"
      by (auto split: if_splits)
    show thesis
    proof (cases "?pw \<noteq> None \<and> ?pw \<in> {?basic, ?key}")
      case True
      then have "password_matches ?basic ?pw \<or> password_matches ?key ?pw"
        using matches by auto
      with run closed False csrf have "anonymous_pass = Pass info"
        by (auto split: if_splits)
      with True csrf show thesis
        by (intro password) (simp_all add: password_given_def anonymous_pass_def)
    next
      case nomatch: False
      then have m: "\<not> password_matches ?basic ?pw" "\<not> password_matches ?key ?pw"
        using matches by auto
      with run closed False csrf have auth: "fst (case (e = Some True, ?key, db_pool env) of
          (True, Some k, Some table) \<Rightarrow>
            authenticate_key h table (rpm_per_key env) clock req k ?failed st'
        | _ \<Rightarrow> (?failed, st')) = Pass info"
        by (auto split: if_splits)
      then obtain k table where k: "e = Some True" "?key = Some k" "db_pool env = Some table"
        by (auto split: bool.splits option.splits)
      with auth have "fst (authenticate_key h table (rpm_per_key env) clock req k ?failed st') =
          Pass info"
        by simp
      then obtain i name scope where
        "fst (verify_api_key_cached (h_sha256 h) (key_cache st') k
          (verify_api_key_sync (h_scrypt h) (h_sha256 h) table k) (t_key clock)
          (t_key_stored clock)) = Some (i, name, scope)"
        "\<not> (scope = Proxy \<and> starts_with (normalize_path (rq_path req)) ''/api/'')"
        "info = \<lparr>is_authenticated = True, api_key_id = Some i, api_key_name = Some name,
            info_scope = Some scope\<rparr>"
        by (rule authenticate_key_Pass) simp
      with k csrf show thesis
        by (intro key) (simp_all add: key_answer_def e [symmetric] st')
    qed
  qed
qed


text \<open>
  C11. A proxy-scoped key never reaches the management interface: no request that passes with
  such a key has a path under \<open>/api/\<close>, however many slashes precede it.
\<close>

theorem proxy_scope_no_api:
  assumes pass: "fst (auth_middleware h env clock req st) = Pass info"
    and scope: "info_scope info = Some Proxy"
  shows "\<not> starts_with (normalize_path (replicate n CHR ''/'' @ rq_path req)) ''/api/''"
proof -
  have "normalize_path (replicate n CHR ''/'' @ rq_path req) = normalize_path (rq_path req)"
    by (induction n) (simp_all add: normalize_path_def trim_start_matches_def)
  moreover have "\<not> is_path_exempt (rq_path req) \<and> \<not> allow_unauthenticated env"
  proof (rule ccontr)
    assume "\<not> ?thesis"
    with pass have "anonymous_pass = Pass info"
      by (auto simp: auth_middleware_def split: if_splits)
    with scope show False
      by (auto simp: anonymous_pass_def auth_info_default_def)
  qed
  then have closed: "\<not> is_path_exempt (rq_path req)" "\<not> allow_unauthenticated env"
    by simp_all
  have "\<not> starts_with (normalize_path (rq_path req)) ''/api/''"
    by (rule auth_middleware_Pass [OF pass closed])
       (use scope in \<open>simp_all add: auth_info_default_def\<close>)
  ultimately show ?thesis by simp
qed

text \<open>
  A request that can be forged across sites does not pass: once authentication is set up,
  a writing request under \<open>/api/\<close> without a key needs a header that a browser form cannot send.
\<close>

theorem csrf_checked:
  assumes "fst (auth_middleware h env clock req st) = Pass info"
    and "\<not> is_path_exempt (rq_path req)" "\<not> allow_unauthenticated env"
    and "rq_method req \<in> {''POST'', ''PUT'', ''DELETE'', ''PATCH''}"
    and "starts_with (normalize_path (rq_path req)) ''/api/''"
    and "extract_api_key req = None"
  shows "map_of (rq_headers req) ''x-requested-with'' \<noteq> None \<or>
    (\<exists>ct. header_str (rq_headers req) ''content-type'' = Some ct \<and>
       starts_with ct ''application/json'')"
proof (rule auth_middleware_Pass [OF assms(1-3)])
  assume "is_dashboard_get req"
  with assms(4) show ?thesis by (auto simp: is_dashboard_get_def)
next
  assume "\<not> csrf_violation req"
  with assms(4-6) show ?thesis
    by (auto simp: csrf_violation_def Let_def split: option.splits)
next
  assume "\<not> csrf_violation req"
  with assms(4-6) show ?thesis
    by (auto simp: csrf_violation_def Let_def split: option.splits)
qed

text \<open>
  C12. A database that cannot be asked closes the door: when the count of keys fails and is not
  cached, no key is accepted, and without a dashboard password every request outside the exempt
  paths is answered with an error 500.
\<close>

theorem auth_fails_closed:
  assumes "db_pool env = Some None" "slot_lookup 10 (enabled_cache st) () (t_enabled clock) = None"
    and "\<not> is_path_exempt (rq_path req)" "\<not> allow_unauthenticated env"
  shows "if get_dashboard_password (dashboard_password_var env) = None
    then \<exists>r. auth_middleware h env clock req st = (Reject r, st) \<and> resp_status r = 500
    else \<forall>info. fst (auth_middleware h env clock req st) = Pass info \<longrightarrow>
      password_given h env req \<and> api_key_id info = None"
proof -
  have "query_enabled env clock st = (None, st\<lparr>enabled_cache := enabled_cache st\<rparr>)"
    using assms(1,2)
    by (simp add: query_enabled_def is_auth_enabled_def AUTH_ENABLED_CACHE_TTL_SECS_def
        count_active_api_keys_def)
  then have q: "query_enabled env clock st = (None, st)"
    by simp
  show ?thesis
  proof (cases "get_dashboard_password (dashboard_password_var env) = None")
    case True
    with q assms(3,4) show ?thesis
      by (simp add: auth_middleware_def error_response_def)
  next
    case False
    have "password_given h env req \<and> api_key_id info = None"
      if "fst (auth_middleware h env clock req st) = Pass info" for info
      by (rule auth_middleware_Pass [OF that assms(3,4)])
         (use q False in \<open>simp_all add: enabled_answer_def key_answer_def auth_info_default_def
            split: option.splits\<close>)
    with False show ?thesis by auto
  qed
qed

text \<open>
  First run: with no key stored and no dashboard password, the dashboard pages are open to
  \<open>GET\<close> and everything else outside the exempt paths is refused with 401.
\<close>

theorem first_run_decision:
  assumes "db_pool env = Some (Some rows)" "filter row_active rows = []"
    and "slot_lookup 10 (enabled_cache st) () (t_enabled clock) = None"
    and "get_dashboard_password (dashboard_password_var env) = None"
    and "\<not> is_path_exempt (rq_path req)" "\<not> allow_unauthenticated env"
  shows "fst (auth_middleware h env clock req st) =
    (if is_dashboard_get req then anonymous_pass
     else Reject (auth_failed_response (rq_path req) False))"
proof -
  have "fst (query_enabled env clock st) = Some False"
    using assms(1-3)
    by (simp add: query_enabled_def is_auth_enabled_def AUTH_ENABLED_CACHE_TTL_SECS_def
        count_active_api_keys_def)
  with assms(4-6) show ?thesis
    by (simp add: auth_middleware_def split_beta Let_def)
qed

section \<open>Concrete requests\<close>

text \<open>
  One proxy-scoped key \<open>k\<close> stored by its legacy hash, with the identity for SHA-256; no
  password; nothing cached.
\<close>

definition demo_hashes :: hashes where
  "demo_hashes = \<lparr>h_scrypt = \<lambda>k s. None, h_sha256 = \<lambda>k. k, h_b64_decode = \<lambda>s. None\<rparr>"

definition demo_env :: "key_row list option \<Rightarrow> auth_env" where
  "demo_env table = \<lparr>db_pool = Some table, dashboard_password_var = None,
     allow_unauthenticated = False, rpm_per_key = None\<rparr>"

definition demo_key :: key_row where
  "demo_key = \<lparr>row_id = ''1'', row_name = ''agent'', row_hash = ''6b'',
     row_scope = Some ''proxy'', row_active = True\<rparr>"

definition demo_clock :: auth_clock where
  "demo_clock = \<lparr>t_enabled = 0, t_enabled_stored = 0, t_key = 0, t_key_stored = 0, t_rpm = 0\<rparr>"

definition demo_state :: auth_state where
  "demo_state = \<lparr>key_cache = [], enabled_cache = None, rpm = []\<rparr>"

definition demo_request :: "string \<Rightarrow> string \<Rightarrow> http_request" where
  "demo_request method path =
     \<lparr>rq_method = method, rq_path = path, rq_headers = [(''x-api-key'', ''k'')]\<rparr>"

definition demo_info :: auth_info where
  "demo_info = \<lparr>is_authenticated = True, api_key_id = Some ''1'', api_key_name = Some ''agent'',
     info_scope = Some Proxy\<rparr>"

lemma trim_k: "trim ''k'' = ''k''"
  by (rule trim_graphic) (simp_all add: graphic_def)

lemma password_matches_None [simp]: "\<not> password_matches given None"
  by (simp add: password_matches_def split: option.split)

lemma demo_api_key: "extract_api_key (demo_request m p) = Some ''k''"
  by (simp add: extract_api_key_def demo_request_def header_str_def visible_ascii_def byte_def trim_k)

lemma demo_verified:
  "fst (verify_api_key_cached (h_sha256 demo_hashes) [] ''k''
     (verify_api_key_sync (h_scrypt demo_hashes) (h_sha256 demo_hashes) (Some [demo_key]) ''k'') t t') =
   Some (''1'', ''agent'', Proxy)"
  by (simp add: verify_api_key_cached_def key_lookup_def verify_api_key_sync_def demo_key_def
      check_hash_def verify_api_key_def verify_sha256_legacy_def demo_hashes_def hex_encode_def
      byte_def hex_char_def colon_def key_scope_from_db_def char_of_def bit_0)

text \<open>A path outside the exempt ones and outside \<open>/api/\<close> passes with the key.\<close>

lemma demo_pass:
  assumes "\<not> is_path_exempt p" "\<not> starts_with (normalize_path p) ''/api/''"
  shows "fst (auth_middleware demo_hashes (demo_env (Some [demo_key])) demo_clock
      (demo_request m p) demo_state) = Pass demo_info"
proof -
  have q: "query_enabled (demo_env (Some [demo_key])) demo_clock demo_state =
      (Some True, demo_state\<lparr>enabled_cache := Some (True, 0)\<rparr>)"
    by (simp add: query_enabled_def demo_env_def is_auth_enabled_def demo_state_def
        slot_lookup_def count_active_api_keys_def demo_key_def slot_store_def demo_clock_def)
  have csrf: "\<not> csrf_violation (demo_request m p)"
    by (simp add: csrf_violation_def demo_api_key)
  have pw: "get_dashboard_password (dashboard_password_var (demo_env t)) = None" for t
    by (simp add: demo_env_def get_dashboard_password_def)
  have "fst (authenticate_key demo_hashes (Some [demo_key]) None demo_clock (demo_request m p) ''k''
      failed (demo_state\<lparr>enabled_cache := Some (True, 0)\<rparr>)) = Pass demo_info" for failed
    using demo_verified [of "t_key demo_clock" "t_key_stored demo_clock"] assms(2)
    by (simp add: authenticate_key_def split_beta demo_state_def demo_request_def demo_info_def)
  with assms(1) show ?thesis
    unfolding auth_middleware_def Let_def q prod.case pw demo_api_key
    by (simp add: demo_request_def [of m p] demo_env_def csrf [unfolded demo_request_def])
qed

text \<open>
  The scope \<open>proxy\<close> is wider than its documentation: it is described as access to the
  endpoints under \<open>/v1/\<close> only, while the check refuses it under \<open>/api/\<close> only, so the dashboard
  and the metrics are served to a proxy-scoped key.
\<close>

theorem proxy_key_reaches_dashboard:
  "list_all (\<lambda>p. fst (auth_middleware demo_hashes (demo_env (Some [demo_key])) demo_clock
       (demo_request ''GET'' p) demo_state) = Pass demo_info)
     [''/dashboard'', ''/dashboard/partials/accounts'', ''/metrics'', ''/v1/messages'']"
  by (simp add: demo_pass is_path_exempt_def normalize_path_def trim_start_matches_def starts_with_def)

theorem proxy_scope_no_api_witness:
  "\<not> starts_with (normalize_path (replicate 1 CHR ''/'' @ ''/v1/messages'')) ''/api/''"
proof -
  have "fst (auth_middleware demo_hashes (demo_env (Some [demo_key])) demo_clock
      (demo_request ''POST'' ''/v1/messages'') demo_state) = Pass demo_info"
    by (rule demo_pass)
       (simp_all add: is_path_exempt_def normalize_path_def trim_start_matches_def starts_with_def)
  from proxy_scope_no_api [OF this, of 1] show ?thesis
    by (simp add: demo_info_def demo_request_def)
qed


theorem csrf_checked_witness:
  "(\<exists>v. map_of [(''x-requested-with'', ''x'')] ''x-requested-with'' = Some v) \<or>
   (\<exists>ct. header_str [(''x-requested-with'', ''x'')] ''content-type'' = Some ct \<and>
      starts_with ct ''application/json'')"
proof -
  let ?req = "\<lparr>rq_method = ''POST'', rq_path = ''/api/accounts'',
    rq_headers = [(''x-requested-with'', ''x''), (''authorization'', ''Basic p'')]\<rparr>"
  let ?h = "demo_hashes\<lparr>h_b64_decode := \<lambda>s. Some '':p''\<rparr>"
  let ?env = "(demo_env (Some []))\<lparr>dashboard_password_var := Some ''p''\<rparr>"
  have ascii: "utf8_valid '':p''"
    by (rule utf8_valid_ascii) (simp add: is_ascii_def byte_def)
  have key: "extract_api_key ?req = None"
    by (simp add: extract_api_key_def header_str_def visible_ascii_def byte_def strip_prefix_def)
  have basic: "extract_basic_auth_password (h_b64_decode ?h) ?req = Some ''p''"
    using ascii by (simp add: extract_basic_auth_password_def header_str_def visible_ascii_def
        byte_def strip_prefix_def after_colon_def colon_def)
  have "fst (auth_middleware ?h ?env demo_clock ?req demo_state) = anonymous_pass"
    using basic
    by (simp add: auth_middleware_def is_path_exempt_def normalize_path_def trim_start_matches_def
        starts_with_def demo_env_def query_enabled_def is_auth_enabled_def slot_lookup_def
        demo_state_def count_active_api_keys_def get_dashboard_password_def csrf_violation_def
        password_matches_def verify_password_constant_time_def Let_def)
  from csrf_checked [OF this [unfolded anonymous_pass_def]] key show ?thesis
    by (simp add: is_path_exempt_def normalize_path_def trim_start_matches_def starts_with_def
        demo_env_def)
qed

theorem auth_fails_closed_witness:
  "\<exists>r. auth_middleware demo_hashes (demo_env None) demo_clock
     (demo_request ''GET'' ''/dashboard'') demo_state = (Reject r, demo_state) \<and> resp_status r = 500"
  using auth_fails_closed [of "demo_env None" demo_state demo_clock
      "demo_request ''GET'' ''/dashboard''" demo_hashes]
  by (simp add: demo_env_def demo_state_def slot_lookup_def demo_request_def is_path_exempt_def
      normalize_path_def trim_start_matches_def starts_with_def get_dashboard_password_def)

theorem first_run_decision_witness:
  "fst (auth_middleware demo_hashes (demo_env (Some [])) demo_clock
     (demo_request ''POST'' ''/v1/messages'') demo_state) =
   Reject (auth_failed_response ''/v1/messages'' False)"
  using first_run_decision [of "demo_env (Some [])" "[]" demo_state demo_clock
      "demo_request ''POST'' ''/v1/messages''" demo_hashes]
  by (simp add: demo_env_def demo_state_def slot_lookup_def demo_request_def is_path_exempt_def
      normalize_path_def trim_start_matches_def starts_with_def get_dashboard_password_def
      is_dashboard_get_def)

end
