(* ===== verification/Token_Health.thy ===== *)
theory Token_Health
  imports Text_Json Core_Types
begin

text \<open>
  The health of refresh tokens, \<open>crates/proxy/src/token_health.rs\<close>: the report on one account,
  the error message made from it, and the report on all accounts. The number of days left is
  computed in floating point, as the code does.
\<close>

section \<open>Definitions\<close>

definition REFRESH_TOKEN_MAX_AGE_MS :: i64 where
  "REFRESH_TOKEN_MAX_AGE_MS = 90 * 24 * 60 * 60 * 1000"
definition TOKEN_SAFETY_WINDOW_MS :: i64 where "TOKEN_SAFETY_WINDOW_MS = 30 * 60 * 1000"
definition TOKEN_REFRESH_BACKOFF_MS :: i64 where "TOKEN_REFRESH_BACKOFF_MS = 60000"
definition FAILURE_TTL_MS :: i64 where "FAILURE_TTL_MS = 5 * 60 * 1000"
definition MAX_BACKOFF_RETRIES :: nat where "MAX_BACKOFF_RETRIES = 10"
definition DAY_MS :: i64 where "DAY_MS = 24 * 60 * 60 * 1000"

datatype health_status = Healthy | Warning | Critical | Expired | NoRefreshToken

record token_health_status =
  th_account_id :: string
  th_account_name :: string
  th_provider :: string
  has_refresh_token :: bool
  refresh_token_age_days :: "i64 option"
  th_status :: health_status
  th_message :: string
  days_until_expiration :: "i64 option"
  requires_reauth :: bool

record health_summary =
  sum_total :: nat
  sum_healthy :: nat
  sum_warning :: nat
  sum_critical :: nat
  sum_expired :: nat
  sum_no_refresh_token :: nat
  sum_requires_reauth :: nat

record token_health_report =
  rep_accounts :: "token_health_status list"
  rep_summary :: health_summary
  rep_timestamp :: i64

definition token_issued_at :: "account \<Rightarrow> i64" where
  "token_issued_at a =
     (case refresh_token_updated_at a of
        Some t \<Rightarrow> if t > 0 then t else created_at a
      | None \<Rightarrow> created_at a)"

definition days_left :: "i64 \<Rightarrow> i64" where
  "days_left ms = f64_to_i64 (f64_ceil (f64_of_int ms / f64_of_int DAY_MS))"

definition health_of_days :: "i64 \<Rightarrow> i64 \<Rightarrow> health_status \<times> string \<times> bool" where
  "health_of_days age_days days =
     (if days \<le> 0 then
        (Expired, ''Refresh token expired ~'' @ show_int \<bar>days\<bar> @
           '' days ago - requires immediate re-authentication'', True)
      else if days \<le> 3 then
        (Critical, ''Refresh token expires in '' @ show_int days @
           '' days - immediate re-authentication required'', True)
      else if days \<le> 7 then
        (Warning, ''Refresh token expires in '' @ show_int days @
           '' days - re-authentication recommended soon'', False)
      else if age_days > 60 then
        (Warning, ''Refresh token is '' @ show_int age_days @
           '' days old - monitor for expiration'', False)
      else
        (Healthy, ''Refresh token is healthy (expires in ~'' @ show_int days @ '' days)'', False))"

definition check_refresh_token_health :: "account \<Rightarrow> i64 \<Rightarrow> token_health_status" where
  "check_refresh_token_health a now =
     (let base = \<lparr>th_account_id = acct_id a, th_account_name = acct_name a,
            th_provider = provider a, has_refresh_token = False, refresh_token_age_days = None,
            th_status = NoRefreshToken, th_message = [], days_until_expiration = None,
            requires_reauth = False\<rparr>
      in if refresh_token a = [] then
           base\<lparr>th_message := (if api_key a \<noteq> None
                  then ''API key account (no refresh token needed)''
                  else ''OAuth account missing refresh token - requires re-authentication''),
                requires_reauth := (api_key a = None)\<rparr>
         else if token_issued_at a = 0 then
           base\<lparr>has_refresh_token := True, th_status := Warning,
                th_message := ''Refresh token has unknown age - recommend re-authentication'',
                requires_reauth := True\<rparr>
         else
           (let age_days = i64_div (i64_sub now (token_issued_at a)) DAY_MS;
                estimated_expiration = i64_add (token_issued_at a) REFRESH_TOKEN_MAX_AGE_MS;
                days = days_left (i64_sub estimated_expiration now);
                (status, message, reauth) = health_of_days age_days days
            in base\<lparr>has_refresh_token := True, refresh_token_age_days := Some age_days,
                    th_status := status, th_message := message,
                    days_until_expiration := Some days, requires_reauth := reauth\<rparr>))"

definition is_refresh_token_likely_expired :: "account \<Rightarrow> i64 \<Rightarrow> bool" where
  "is_refresh_token_likely_expired a now =
     (if refresh_token a = [] \<or> created_at a = 0 then True
      else i64_sub now (created_at a) > REFRESH_TOKEN_MAX_AGE_MS)"

definition quote_name :: "string \<Rightarrow> string" where
  "quote_name n = [CHR 0x27] @ n @ [CHR 0x27]"

definition get_oauth_error_message :: "account \<Rightarrow> string \<Rightarrow> i64 \<Rightarrow> string" where
  "get_oauth_error_message a original_error now =
     (let health = check_refresh_token_health a now
      in if th_status health = Expired \<or> th_status health = Critical then
           ''OAuth tokens have expired for account '' @ quote_name (acct_name a) @
           ''. Please re-authenticate.''
         else if th_status health = NoRefreshToken \<and> requires_reauth health then
           ''OAuth account '' @ quote_name (acct_name a) @
           '' missing refresh token. Please re-authenticate.''
         else if th_status health = Warning then
           ''OAuth tokens for account '' @ quote_name (acct_name a) @
           '' are nearing expiration. Consider re-authenticating soon. Original error: '' @
           original_error
         else
           ''OAuth token refresh failed for account '' @ quote_name (acct_name a) @ '': '' @
           original_error)"

definition count_status :: "health_status \<Rightarrow> token_health_status list \<Rightarrow> nat" where
  "count_status s xs = length (filter (\<lambda>h. th_status h = s) xs)"

definition check_all_accounts_health :: "account list \<Rightarrow> i64 \<Rightarrow> token_health_report" where
  "check_all_accounts_health accounts now =
     (let statuses = map (\<lambda>a. check_refresh_token_health a now) accounts
      in \<lparr>rep_accounts = statuses,
          rep_summary =
            \<lparr>sum_total = length statuses,
             sum_healthy = count_status Healthy statuses,
             sum_warning = count_status Warning statuses,
             sum_critical = count_status Critical statuses,
             sum_expired = count_status Expired statuses,
             sum_no_refresh_token = count_status NoRefreshToken statuses,
             sum_requires_reauth = length (filter requires_reauth statuses)\<rparr>,
          rep_timestamp = now\<rparr>)"

section \<open>The days left are exact\<close>

text \<open>
  Between two whole days there is always a double: the quotient cannot round down to the whole
  day below, so the ceiling of the rounded quotient is the ceiling of the exact one.
\<close>

lemma f64_ceil_quotient:
  assumes "\<bar>x\<bar> \<le> 2 ^ 50"
  shows "days_left x = \<lceil>(of_int x :: rat) / of_int DAY_MS\<rceil>"
proof -
  let ?q = "(of_int x :: rat) / of_int DAY_MS"
  define k where "k = \<lceil>?q\<rceil>"
  have day: "f64_of_int DAY_MS = Fin (of_int DAY_MS)" "f64_of_int x = Fin (of_int x)"
    using f64_of_int_exact [of DAY_MS] f64_of_int_exact [of x] assms
    by (simp_all add: DAY_MS_def)
  have D: "DAY_MS = 86400000" by (simp add: DAY_MS_def)
  have quot: "f64_of_int x / f64_of_int DAY_MS = rnd ?q"
    unfolding day by (simp add: D)
  have le: "?q \<le> of_int k" and gt: "of_int (k - 1) < ?q"
    unfolding k_def by linarith+
  have kx: "(k - 1) * DAY_MS < x" "x \<le> k * DAY_MS"
  proof -
    have "of_int (k - 1) * of_int DAY_MS < (of_int x :: rat)"
      using gt by (simp add: D field_simps)
    then show "(k - 1) * DAY_MS < x"
      by (metis of_int_less_iff of_int_mult)
    have "(of_int x :: rat) \<le> of_int k * of_int DAY_MS"
      using le by (simp add: D field_simps)
    then show "x \<le> k * DAY_MS"
      by (metis of_int_le_iff of_int_mult)
  qed
  have k: "\<bar>k\<bar> \<le> 2 ^ 25"
    using assms kx by (auto simp: D abs_le_iff)
  let ?z = "of_int ((k - 1) * 2 ^ 27 + 1) * (2 powi - 27 :: rat)"
  have z: "?z = of_int (k - 1) + 1 / 2 ^ 27"
    by (simp add: power_int_def field_simps)
  have "(k - 1) * DAY_MS + 1 \<le> x" using kx(1) by simp
  then have "of_int (k - 1) * of_int DAY_MS + 1 \<le> (of_int x :: rat)"
    by (metis of_int_1 of_int_add of_int_le_iff of_int_mult)
  then have "of_int (k - 1) + 1 / of_int DAY_MS \<le> ?q"
    by (simp add: D field_simps)
  then have "?z \<le> ?q"
    unfolding z by (simp add: D)
  then have "rnd ?z \<le> rnd ?q"
    by (rule rnd_mono)
  moreover have "rnd ?z = Fin ?z"
    using k by (intro rnd_dyadic) (auto simp: abs_le_iff)
  moreover have "rnd ?q \<le> rnd (of_int k)"
    by (rule rnd_mono [OF le])
  moreover have "rnd (of_int k) = Fin (of_int k)"
    using k by (intro rnd_of_int) auto
  ultimately have bounds: "Fin ?z \<le> rnd ?q" "rnd ?q \<le> Fin (of_int k)"
    by simp_all
  then obtain r where r: "rnd ?q = Fin r" "?z \<le> r" "r \<le> of_int k"
    by (cases "rnd ?q") auto
  have "of_int (k - 1) < ?z"
    unfolding z by simp
  with r(2,3) have "\<lceil>r\<rceil> = k"
    by (intro ceiling_unique) (simp_all del: of_int_diff of_int_mult of_int_add)
  then have "days_left x = i64_saturate k"
    unfolding days_left_def quot r(1) by simp
  also have "\<dots> = k"
    using k by (intro i64_saturate_id) (auto simp: in_i64_def i64_min_def i64_max_def)
  finally show ?thesis by (simp add: k_def)
qed

lemma days_left_le:
  assumes "\<bar>x\<bar> \<le> 2 ^ 50"
  shows "days_left x \<le> n \<longleftrightarrow> x \<le> n * DAY_MS"
proof -
  have D: "(of_int DAY_MS :: rat) > 0" by (simp add: DAY_MS_def)
  have "days_left x \<le> n \<longleftrightarrow> (of_int x :: rat) / of_int DAY_MS \<le> of_int n"
    by (simp add: f64_ceil_quotient [OF assms] ceiling_le_iff)
  also have "\<dots> \<longleftrightarrow> (of_int x :: rat) \<le> of_int (n * DAY_MS)"
    using D by (simp add: divide_le_eq)
  finally show ?thesis by (simp only: of_int_le_iff)
qed

lemma i64_div_gt:
  assumes "\<bar>x\<bar> \<le> 2 ^ 50" "0 \<le> n"
  shows "n < i64_div x DAY_MS \<longleftrightarrow> (n + 1) * DAY_MS \<le> x"
proof -
  have D: "DAY_MS = 86400000" by (simp add: DAY_MS_def)
  have "\<bar>x\<bar> div 86400000 \<le> \<bar>x\<bar>" by simp
  then have "in_i64 (sgn x * (\<bar>x\<bar> div 86400000))"
    using assms(1) by (auto simp: in_i64_def i64_min_def i64_max_def sgn_if)
  then have "i64_div x DAY_MS = sgn x * (\<bar>x\<bar> div 86400000)"
    by (simp add: i64_div_def D i64_wrap_id)
  then show ?thesis
    using assms(2) by (auto simp: D sgn_if)
qed

text \<open>
  The warning levels are exact to the millisecond. For an account with a refresh token of
  known age the report says expired from the 90th day on, critical in the three days before,
  warning in the seven days before or from the 61st day of its age on, and healthy otherwise;
  rounding in the floating-point division never moves a level. Re-authentication is demanded
  exactly at the levels critical and expired.
\<close>

theorem token_health_levels:
  assumes "refresh_token a \<noteq> []" "token_issued_at a \<noteq> 0"
    and "\<bar>now\<bar> \<le> 2 ^ 60" "\<bar>token_issued_at a\<bar> \<le> 2 ^ 60"
    and "\<bar>now - token_issued_at a\<bar> \<le> 2 ^ 49"
  shows "let left = token_issued_at a + 90 * DAY_MS - now;
      h = check_refresh_token_health a now
    in th_status h =
         (if left \<le> 0 then Expired
          else if left \<le> 3 * DAY_MS then Critical
          else if left \<le> 7 * DAY_MS \<or> now - token_issued_at a \<ge> 61 * DAY_MS then Warning
          else Healthy) \<and>
       (requires_reauth h \<longleftrightarrow> th_status h = Expired \<or> th_status h = Critical)"
proof -
  let ?t = "token_issued_at a"
  let ?left = "?t + 90 * DAY_MS - now"
  have D: "DAY_MS = 86400000" "REFRESH_TOKEN_MAX_AGE_MS = 90 * DAY_MS"
    by (simp_all add: DAY_MS_def REFRESH_TOKEN_MAX_AGE_MS_def)
  have m: "moderate now" "moderate ?t" "moderate (90 * DAY_MS)" "moderate (?t + 90 * DAY_MS)"
    using assms(3,4) by (auto simp: moderate_def D abs_le_iff)
  have sub: "i64_sub now ?t = now - ?t"
      "i64_sub (i64_add ?t REFRESH_TOKEN_MAX_AGE_MS) now = ?left"
    by (simp_all only: D(2) i64_sub_moderate i64_add_moderate m)
  have range: "\<bar>?left\<bar> \<le> 2 ^ 50" "\<bar>now - ?t\<bar> \<le> 2 ^ 50"
    using assms(5) by (auto simp: D abs_le_iff)
  have age: "60 < i64_div (now - ?t) DAY_MS \<longleftrightarrow> 61 * DAY_MS \<le> now - ?t"
    using i64_div_gt [OF range(2), of 60] by simp
  have h: "check_refresh_token_health a now =
      (let (status, message, reauth) =
             health_of_days (i64_div (now - ?t) DAY_MS) (days_left ?left)
       in \<lparr>th_account_id = acct_id a, th_account_name = acct_name a, th_provider = provider a,
           has_refresh_token = True,
           refresh_token_age_days = Some (i64_div (now - ?t) DAY_MS), th_status = status,
           th_message = message, days_until_expiration = Some (days_left ?left),
           requires_reauth = reauth\<rparr>)"
    using assms(1,2) by (simp add: check_refresh_token_health_def sub Let_def split: prod.split)
  show ?thesis
    unfolding h health_of_days_def days_left_le [OF range(1)] age Let_def
    by simp
qed

theorem token_health_levels_witness:
  "th_status (check_refresh_token_health
     ((fresh_account ''a'' ''anthropic'')\<lparr>refresh_token := ''r'', created_at := 1000\<rparr>)
     (1000 + 87 * DAY_MS)) = Critical"
  using token_health_levels [of "(fresh_account ''a'' ''anthropic'')
      \<lparr>refresh_token := ''r'', created_at := 1000\<rparr>" "1000 + 87 * DAY_MS"]
  by (simp add: token_issued_at_def DAY_MS_def Let_def fresh_account_def)

text \<open>The summary counts every account under exactly one status.\<close>

theorem health_summary_total:
  "let s = rep_summary (check_all_accounts_health accounts now)
   in sum_total s = length accounts \<and>
      sum_healthy s + sum_warning s + sum_critical s + sum_expired s + sum_no_refresh_token s =
      sum_total s"
proof -
  have "count_status Healthy xs + count_status Warning xs + count_status Critical xs +
      count_status Expired xs + count_status NoRefreshToken xs = length xs" for xs
  proof (induction xs)
    case Nil
    then show ?case by (simp add: count_status_def)
  next
    case (Cons x xs)
    then show ?case by (cases "th_status x") (simp_all add: count_status_def)
  qed
  then show ?thesis
    by (simp add: check_all_accounts_health_def Let_def)
qed

text \<open>
  The two judgements on the age of a refresh token part ways after a re-authentication:
  the report counts from the renewal, \<open>is_refresh_token_likely_expired\<close> from the creation of the
  account, so a token renewed yesterday on an account older than 90 days is called healthy by
  one and expired by the other.
\<close>

theorem likely_expired_ignores_renewal:
  "let a = (fresh_account ''a'' ''anthropic'')\<lparr>refresh_token := ''r'', created_at := 1,
         refresh_token_updated_at := Some (100 * DAY_MS)\<rparr>
   in th_status (check_refresh_token_health a (101 * DAY_MS)) = Healthy \<and>
      is_refresh_token_likely_expired a (101 * DAY_MS)"
proof -
  have D: "DAY_MS = 86400000" by (simp add: DAY_MS_def)
  have d: "days_left 7689600000 = 89"
    using f64_ceil_quotient [of 7689600000] by (simp add: D)
  show ?thesis
    by (simp add: check_refresh_token_health_def token_issued_at_def D fresh_account_def
        REFRESH_TOKEN_MAX_AGE_MS_def i64_sub_moderate i64_add_moderate moderate_def d
        health_of_days_def i64_div_def i64_wrap_id in_i64_def i64_min_def i64_max_def
        is_refresh_token_likely_expired_def Let_def)
qed

end
