(* ===== verification/Token_Manager.thy ===== *)
theory Token_Manager
  imports Token_Health Providers "HOL-Library.Word"
begin

text \<open>
  Access tokens, \<open>crates/proxy/src/token_manager.rs\<close>: which token a request uses, when it is
  refreshed, the backoff after a failure and the recovery from the database. The refresher and
  the persister are the traits of the code: functions that thread a world of any type. A request
  works on its own copy of the account, which is returned updated. The refresh lock orders the
  requests of one account; a run is a sequence of calls.
\<close>

section \<open>State and collaborators\<close>

datatype token_error =
    RefreshFailed string string
  | InBackoff string
  | NoApiKey string

record token_refresh_result =
  new_access_token :: string
  new_expires_at :: i64
  new_refresh_token :: string
  new_subscription_tier :: "string option"
  new_email :: "string option"

record 'w token_io =
  io_refresh :: "account \<Rightarrow> string \<Rightarrow> 'w \<Rightarrow> (string + token_refresh_result) \<times> 'w"
  io_persist_tokens :: "string \<Rightarrow> string \<Rightarrow> i64 \<Rightarrow> string \<Rightarrow> 'w \<Rightarrow> 'w"
  io_persist_tier :: "string \<Rightarrow> string option \<Rightarrow> 'w \<Rightarrow> 'w"
  io_persist_email :: "string \<Rightarrow> string option \<Rightarrow> 'w \<Rightarrow> 'w"
  io_load_account :: "string \<Rightarrow> 'w \<Rightarrow> account option"

record failure_record =
  fail_timestamp :: i64
  backoff_count :: "32 word"

record token_manager =
  refresh_locks :: "(string, unit) hash_map"
  failures :: "(string, failure_record) hash_map"
  client_id :: string
  last_cleanup :: i64

definition CLEANUP_INTERVAL_MS :: i64 where "CLEANUP_INTERVAL_MS = 60000"

definition token_manager_new :: "string \<Rightarrow> token_manager" where
  "token_manager_new cid =
     \<lparr>refresh_locks = [], failures = [], client_id = cid, last_cleanup = 0\<rparr>"

section \<open>Operations\<close>

definition is_api_key_provider :: "string \<Rightarrow> bool" where
  "is_api_key_provider p =
     (case provider_from_str_loose p of None \<Rightarrow> False | Some k \<Rightarrow> provider_uses_api_key k)"

definition cleanup_expired_failures :: "token_manager \<Rightarrow> i64 \<Rightarrow> token_manager" where
  "cleanup_expired_failures tm now =
     (if i64_sub now (last_cleanup tm) < CLEANUP_INTERVAL_MS then tm
      else tm\<lparr>last_cleanup := now,
        failures := hm_retain (\<lambda>_ r. i64_sub now (fail_timestamp r) \<le> FAILURE_TTL_MS) (failures tm)\<rparr>)"

datatype backoff_action = StayInBackoff | TryDbRecovery | BackoffExpired

definition check_backoff :: "token_manager \<Rightarrow> string \<Rightarrow> i64 \<Rightarrow> backoff_action option \<times> token_manager" where
  "check_backoff tm i now =
     (case hm_get (failures tm) i of
        None \<Rightarrow> (None, tm)
      | Some r \<Rightarrow>
          if i64_sub now (fail_timestamp r) < TOKEN_REFRESH_BACKOFF_MS then
            (let r' = r\<lparr>backoff_count := backoff_count r + 1\<rparr>
             in (Some (if unat (backoff_count r') \<ge> MAX_BACKOFF_RETRIES then TryDbRecovery
                       else StayInBackoff),
                 tm\<lparr>failures := hm_insert i r' (failures tm)\<rparr>))
          else (Some BackoffExpired, tm))"

definition token_is_safe :: "account \<Rightarrow> i64 \<Rightarrow> string option" where
  "token_is_safe a now =
     (case (access_token a, expires_at a) of
        (Some token, Some expires) \<Rightarrow>
          if i64_sub expires now > TOKEN_SAFETY_WINDOW_MS then Some token else None
      | _ \<Rightarrow> None)"

type_synonym 'w token_answer = "(token_error + string) \<times> account \<times> token_manager \<times> 'w"

definition recover_from_db :: "'w token_io \<Rightarrow> token_manager \<Rightarrow> account \<Rightarrow> i64 \<Rightarrow> 'w \<Rightarrow> 'w token_answer" where
  "recover_from_db io tm a now w =
     (let failed = (Inl (InBackoff (acct_id a)), a, tm, w)
      in case io_load_account io (acct_id a) w of
           None \<Rightarrow> failed
         | Some db \<Rightarrow>
             (case (access_token db, expires_at db) of
                (Some db_token, Some db_expires) \<Rightarrow>
                  if i64_sub db_expires now > TOKEN_SAFETY_WINDOW_MS \<and>
                     access_token a \<noteq> Some db_token then
                    (let a = a\<lparr>access_token := Some db_token, expires_at := Some db_expires\<rparr>;
                         a = (if refresh_token db \<noteq> []
                              then a\<lparr>refresh_token := refresh_token db\<rparr> else a)
                     in (Inr db_token, a,
                         tm\<lparr>failures := hm_remove (acct_id a) (failures tm)\<rparr>, w))
                  else failed
              | _ \<Rightarrow> failed))"

definition update_account :: "account \<Rightarrow> token_refresh_result \<Rightarrow> account" where
  "update_account a r =
     (let a = a\<lparr>access_token := Some (new_access_token r), expires_at := Some (new_expires_at r)\<rparr>;
          a = (if new_refresh_token r \<noteq> [] then a\<lparr>refresh_token := new_refresh_token r\<rparr> else a);
          a = (case new_subscription_tier r of
                 Some t \<Rightarrow> a\<lparr>subscription_tier := Some t\<rparr> | None \<Rightarrow> a)
      in case new_email r of Some e \<Rightarrow> a\<lparr>email := Some e\<rparr> | None \<Rightarrow> a)"

definition persist_result :: "'w token_io \<Rightarrow> string \<Rightarrow> token_refresh_result \<Rightarrow> 'w \<Rightarrow> 'w" where
  "persist_result io i r w =
     (let w = io_persist_tokens io i (new_access_token r) (new_expires_at r) (new_refresh_token r) w;
          w = (if new_subscription_tier r \<noteq> None
               then io_persist_tier io i (new_subscription_tier r) w else w)
      in if new_email r \<noteq> None then io_persist_email io i (new_email r) w else w)"

text \<open>The part under the lock of the account.\<close>

definition refresh_locked :: "'w token_io \<Rightarrow> token_manager \<Rightarrow> account \<Rightarrow> i64 \<Rightarrow> 'w \<Rightarrow> 'w token_answer" where
  "refresh_locked io tm a now w =
     (let tm = tm\<lparr>refresh_locks :=
            (if hm_get (refresh_locks tm) (acct_id a) = None
             then hm_insert (acct_id a) () (refresh_locks tm) else refresh_locks tm)\<rparr>
      in case token_is_safe a now of
           Some token \<Rightarrow> (Inr token, a, tm, w)
         | None \<Rightarrow>
             (case io_refresh io a (client_id tm) w of
                (Inr r, w) \<Rightarrow>
                  (Inr (new_access_token r), update_account a r,
                   tm\<lparr>failures := hm_remove (acct_id a) (failures tm)\<rparr>,
                   persist_result io (acct_id a) r w)
              | (Inl err, w) \<Rightarrow>
                  (Inl (RefreshFailed (acct_id a) (get_oauth_error_message a err now)), a,
                   tm\<lparr>failures := hm_insert (acct_id a)
                     \<lparr>fail_timestamp = now, backoff_count = 0\<rparr> (failures tm)\<rparr>, w)))"

definition refresh_access_token :: "'w token_io \<Rightarrow> token_manager \<Rightarrow> account \<Rightarrow> i64 \<Rightarrow> 'w \<Rightarrow> 'w token_answer" where
  "refresh_access_token io tm a now w =
     (let tm = cleanup_expired_failures tm now
      in case check_backoff tm (acct_id a) now of
           (Some TryDbRecovery, tm) \<Rightarrow> recover_from_db io tm a now w
         | (Some StayInBackoff, tm) \<Rightarrow> (Inl (InBackoff (acct_id a)), a, tm, w)
         | (Some BackoffExpired, tm) \<Rightarrow>
             refresh_locked io (tm\<lparr>failures := hm_remove (acct_id a) (failures tm)\<rparr>) a now w
         | (None, tm) \<Rightarrow> refresh_locked io tm a now w)"

definition get_valid_access_token :: "'w token_io \<Rightarrow> token_manager \<Rightarrow> account \<Rightarrow> i64 \<Rightarrow> 'w \<Rightarrow> 'w token_answer" where
  "get_valid_access_token io tm a now w =
     (if is_api_key_provider (provider a) then
        (case api_key a of
           Some key \<Rightarrow> (Inr key, a, tm, w)
         | None \<Rightarrow>
             if refresh_token a \<noteq> [] then (Inr (refresh_token a), a, tm, w)
             else (Inl (NoApiKey (acct_name a)), a, tm, w))
      else if refresh_token a = [] \<and> api_key a \<noteq> None then (Inr [], a, tm, w)
      else case token_is_safe a now of
          Some token \<Rightarrow> (Inr token, a, tm, w)
        | None \<Rightarrow> refresh_access_token io tm a now w)"

definition clear_account_state :: "token_manager \<Rightarrow> string \<Rightarrow> token_manager" where
  "clear_account_state tm i =
     tm\<lparr>refresh_locks := hm_remove i (refresh_locks tm), failures := hm_remove i (failures tm)\<rparr>"

section \<open>Which token is used\<close>

lemma token_is_safe_Some:
  "token_is_safe a now = Some t \<longleftrightarrow>
     access_token a = Some t \<and>
     (\<exists>e. expires_at a = Some e \<and> i64_sub e now > TOKEN_SAFETY_WINDOW_MS)"
  by (auto simp: token_is_safe_def split: option.splits if_splits)

text \<open>An account whose tokens are managed: an OAuth provider, and not a bare API key.\<close>

definition oauth_managed :: "account \<Rightarrow> bool" where
  "oauth_managed a \<longleftrightarrow>
     \<not> is_api_key_provider (provider a) \<and> \<not> (refresh_token a = [] \<and> api_key a \<noteq> None)"

lemma update_account_token [simp]: "access_token (update_account a r) = Some (new_access_token r)"
  by (simp add: update_account_def Let_def split: option.split)

lemma refresh_locked_token:
  assumes "refresh_locked io tm a now w = (Inr token, a', tm', w')"
  shows "access_token a' = Some token \<and>
    (token_is_safe a' now = Some token \<or>
     (\<exists>r w1. io_refresh io a (client_id tm) w = (Inr r, w1) \<and> new_access_token r = token))"
proof (cases "token_is_safe a now")
  case (Some t)
  with assms have "token = t" "a' = a"
    by (auto simp: refresh_locked_def)
  with Some show ?thesis by (auto simp: token_is_safe_Some)
next
  case None
  with assms show ?thesis
    by (auto simp: refresh_locked_def Let_def split: prod.splits sum.splits)
qed

lemma recover_token:
  assumes "recover_from_db io tm a now w = (Inr token, a', tm', w')"
  shows "access_token a' = Some token \<and> token_is_safe a' now = Some token"
  using assms
  by (auto simp: recover_from_db_def token_is_safe_def Let_def split: option.splits if_splits)

lemma client_id_cleanup [simp]: "client_id (cleanup_expired_failures tm now) = client_id tm"
  by (simp add: cleanup_expired_failures_def)

lemma client_id_check_backoff:
  "check_backoff tm i now = (act, tm') \<Longrightarrow> client_id tm' = client_id tm"
  by (auto simp: check_backoff_def Let_def split: option.splits if_splits)

text \<open>
  C14. The token that a managed account is served with is good: it is the one stored in the
  account from then on, and it either outlives the request by more than the safety window of
  thirty minutes, or the provider issued it just now.
\<close>

theorem managed_token_good:
  assumes "oauth_managed a"
    and "get_valid_access_token io tm a now w = (Inr token, a', tm', w')"
  shows "access_token a' = Some token \<and>
    ((\<exists>e. expires_at a' = Some e \<and> i64_sub e now > TOKEN_SAFETY_WINDOW_MS) \<or>
     (\<exists>r w1. io_refresh io a (client_id tm) w = (Inr r, w1) \<and> new_access_token r = token))"
proof (cases "token_is_safe a now")
  case (Some t)
  with assms have "token = t" "a' = a"
    by (auto simp: get_valid_access_token_def oauth_managed_def split: if_splits)
  with Some show ?thesis by (auto simp: token_is_safe_Some)
next
  case None
  with assms have run: "refresh_access_token io tm a now w = (Inr token, a', tm', w')"
    by (auto simp: get_valid_access_token_def oauth_managed_def split: if_splits)
  obtain act tm1 where act: "check_backoff (cleanup_expired_failures tm now) (acct_id a) now =
      (act, tm1)"
    by (cases "check_backoff (cleanup_expired_failures tm now) (acct_id a) now")
  have cid: "client_id tm1 = client_id tm"
    using client_id_check_backoff [OF act] by simp
  show ?thesis
  proof (cases act)
    case None
    with run act have "refresh_locked io tm1 a now w = (Inr token, a', tm', w')"
      by (simp add: refresh_access_token_def)
    from refresh_locked_token [OF this] cid show ?thesis
      by (auto simp: token_is_safe_Some)
  next
    case (Some x)
    show ?thesis
    proof (cases x)
      case StayInBackoff
      with run act Some show ?thesis by (simp add: refresh_access_token_def)
    next
      case TryDbRecovery
      with run act Some have "recover_from_db io tm1 a now w = (Inr token, a', tm', w')"
        by (simp add: refresh_access_token_def)
      from recover_token [OF this] show ?thesis
        by (auto simp: token_is_safe_Some)
    next
      case BackoffExpired
      with run act Some have "refresh_locked io
          (tm1\<lparr>failures := hm_remove (acct_id a) (failures tm1)\<rparr>) a now w = (Inr token, a', tm', w')"
        by (simp add: refresh_access_token_def)
      from refresh_locked_token [OF this] cid show ?thesis
        by (auto simp: token_is_safe_Some)
    qed
  qed
qed

text \<open>A world that counts the calls of the provider, which accepts or refuses them all.\<close>

definition demo_io :: "string + token_refresh_result \<Rightarrow> nat token_io" where
  "demo_io answer =
     \<lparr>io_refresh = \<lambda>a c n. (answer, Suc n), io_persist_tokens = \<lambda>i t e r n. n,
      io_persist_tier = \<lambda>i t n. n, io_persist_email = \<lambda>i e n. n, io_load_account = \<lambda>i n. None\<rparr>"

definition demo_result :: token_refresh_result where
  "demo_result = \<lparr>new_access_token = ''t'', new_expires_at = 10000000, new_refresh_token = [],
     new_subscription_tier = None, new_email = None\<rparr>"

definition demo_oauth :: account where
  "demo_oauth = (fresh_account ''a'' ''anthropic'')\<lparr>refresh_token := ''r''\<rparr>"

lemma demo_oauth_managed: "oauth_managed demo_oauth"
  by (simp add: oauth_managed_def demo_oauth_def is_api_key_provider_def provider_from_str_loose_def
      provider_uses_api_key_def)

lemma demo_refresh:
  "get_valid_access_token (demo_io (Inr demo_result)) (token_manager_new []) demo_oauth 0 n =
     (Inr ''t'', update_account demo_oauth demo_result,
      (token_manager_new [])\<lparr>refresh_locks := [(''a'', ())]\<rparr>, Suc n)"
  using demo_oauth_managed
  by (simp add: oauth_managed_def get_valid_access_token_def demo_oauth_def token_is_safe_def
      refresh_access_token_def cleanup_expired_failures_def token_manager_new_def
      CLEANUP_INTERVAL_MS_def check_backoff_def refresh_locked_def demo_io_def persist_result_def
      demo_result_def)

theorem managed_token_good_witness:
  "access_token (update_account demo_oauth demo_result) = Some ''t'' \<and>
   (\<exists>r w1. io_refresh (demo_io (Inr demo_result)) demo_oauth [] 0 = (Inr r, w1) \<and>
      new_access_token r = ''t'')"
  using managed_token_good [OF demo_oauth_managed demo_refresh [of 0]]
  by (auto simp: demo_io_def demo_result_def)

section \<open>Backoff\<close>

text \<open>
  C15. A provider that refused a refresh is left alone for a minute: while the last failure of
  the account is less than sixty seconds old, no call reaches the refresher or the persister.
  The answer is the backoff error, with the failure kept, or a token that another process
  stored in the database and that outlives the safety window.
\<close>

theorem backoff_spares_provider:
  assumes "oauth_managed a" "token_is_safe a now = None"
    and "hm_ok (failures tm)" "hm_get (failures tm) (acct_id a) = Some r"
    and "i64_sub now (fail_timestamp r) < TOKEN_REFRESH_BACKOFF_MS"
  shows "case get_valid_access_token io tm a now w of
      (Inl e, a', tm', w') \<Rightarrow> e = InBackoff (acct_id a) \<and> a' = a \<and> w' = w \<and>
        map_option fail_timestamp (hm_get (failures tm') (acct_id a)) = Some (fail_timestamp r)
    | (Inr token, a', tm', w') \<Rightarrow> w' = w \<and>
        token_is_safe a' now = Some token \<and>
        (\<exists>db. io_load_account io (acct_id a) w = Some db \<and> access_token db = Some token)"
proof -
  let ?tm = "cleanup_expired_failures tm now"
  have "i64_sub now (fail_timestamp r) \<le> FAILURE_TTL_MS"
    using assms(5) by (simp add: TOKEN_REFRESH_BACKOFF_MS_def FAILURE_TTL_MS_def)
  with assms(3,4) have kept: "hm_get (failures ?tm) (acct_id a) = Some r"
    by (simp add: cleanup_expired_failures_def hm_get_retain)
  define tm1 where "tm1 = ?tm\<lparr>failures := hm_insert (acct_id a)
    (r\<lparr>backoff_count := backoff_count r + 1\<rparr>) (failures ?tm)\<rparr>"
  have held: "check_backoff ?tm (acct_id a) now = (Some TryDbRecovery, tm1) \<or>
      check_backoff ?tm (acct_id a) now = (Some StayInBackoff, tm1)"
    using assms(5) kept by (simp add: check_backoff_def tm1_def Let_def)
  have ts: "map_option fail_timestamp (hm_get (failures tm1) (acct_id a)) = Some (fail_timestamp r)"
    by (simp add: tm1_def)
  have run: "get_valid_access_token io tm a now w = refresh_access_token io tm a now w"
    using assms(1,2) by (auto simp: get_valid_access_token_def oauth_managed_def)
  show ?thesis
  proof (cases "check_backoff ?tm (acct_id a) now = (Some StayInBackoff, tm1)")
    case True
    with ts show ?thesis by (simp add: run refresh_access_token_def)
  next
    case False
    with held have run: "get_valid_access_token io tm a now w = recover_from_db io tm1 a now w"
      by (auto simp: run refresh_access_token_def)
    show ?thesis
    proof (cases "recover_from_db io tm1 a now w")
      case (fields res a' tm' w')
      then show ?thesis
        unfolding run using ts
        by (cases res)
           (auto simp: recover_from_db_def token_is_safe_def Let_def
              split: option.splits if_splits)
    qed
  qed
qed

theorem backoff_spares_provider_witness:
  "fst (get_valid_access_token (demo_io (Inl ''refused''))
     ((token_manager_new [])\<lparr>failures := [(''a'', \<lparr>fail_timestamp = 0, backoff_count = 0\<rparr>)]\<rparr>)
     demo_oauth 59999 0) = Inl (InBackoff ''a'')"
proof -
  have "i64_sub 59999 0 = 59999"
    by (subst i64_sub_moderate) (simp_all add: moderate_def)
  moreover obtain res a' tm' w' where run: "get_valid_access_token (demo_io (Inl ''refused''))
     ((token_manager_new [])\<lparr>failures := [(''a'', \<lparr>fail_timestamp = 0, backoff_count = 0\<rparr>)]\<rparr>)
     demo_oauth 59999 0 = (res, a', tm', w')"
    by (metis prod_cases4)
  ultimately show ?thesis
    using backoff_spares_provider [OF demo_oauth_managed, where now = 59999
        and tm = "(token_manager_new [])\<lparr>failures := [(''a'', \<lparr>fail_timestamp = 0, backoff_count = 0\<rparr>)]\<rparr>"
        and r = "\<lparr>fail_timestamp = 0, backoff_count = 0\<rparr>" and io = "demo_io (Inl ''refused'')"
        and w = 0, unfolded run]
    unfolding run
    by (cases res) (simp_all add: demo_oauth_def token_is_safe_def hm_ok_def
        TOKEN_REFRESH_BACKOFF_MS_def demo_io_def)
qed

text \<open>
  A failed refresh is recorded at once, and the record is what the backoff looks at: the
  failure of the account carries the time of this call.
\<close>

theorem failed_refresh_recorded:
  assumes "oauth_managed a" "token_is_safe a now = None"
    and "get_valid_access_token io tm a now w = (Inl (RefreshFailed i msg), a', tm', w')"
  shows "i = acct_id a \<and> a' = a \<and>
    hm_get (failures tm') (acct_id a) = Some \<lparr>fail_timestamp = now, backoff_count = 0\<rparr> \<and>
    (\<exists>err. io_refresh io a (client_id tm) w = (Inl err, w'))"
proof -
  let ?tm = "cleanup_expired_failures tm now"
  have locked: "i = acct_id a \<and> a' = a \<and>
      hm_get (failures tm') (acct_id a) = Some \<lparr>fail_timestamp = now, backoff_count = 0\<rparr> \<and>
      (\<exists>err. io_refresh io a (client_id tm1) w = (Inl err, w'))"
    if "refresh_locked io tm1 a now w = (Inl (RefreshFailed i msg), a', tm', w')" for tm1
    using that assms(2)
    by (auto simp: refresh_locked_def Let_def split: prod.splits sum.splits)
  have recover: "recover_from_db io tm1 a now w \<noteq> (Inl (RefreshFailed i msg), a', tm', w')" for tm1
    by (auto simp: recover_from_db_def Let_def split: option.splits if_splits)
  obtain act tm1 where act: "check_backoff ?tm (acct_id a) now = (act, tm1)"
    by (cases "check_backoff ?tm (acct_id a) now")
  have cid: "client_id tm1 = client_id tm"
    using client_id_check_backoff [OF act] by simp
  have "refresh_access_token io tm a now w = (Inl (RefreshFailed i msg), a', tm', w')"
    using assms by (auto simp: get_valid_access_token_def oauth_managed_def split: if_splits)
  with act recover have "refresh_locked io tm1 a now w = (Inl (RefreshFailed i msg), a', tm', w') \<or>
      refresh_locked io (tm1\<lparr>failures := hm_remove (acct_id a) (failures tm1)\<rparr>) a now w =
        (Inl (RefreshFailed i msg), a', tm', w')"
    by (auto simp: refresh_access_token_def split: option.splits backoff_action.splits)
  with locked cid show ?thesis by fastforce
qed

theorem failed_refresh_recorded_witness:
  "\<exists>msg tm'. get_valid_access_token (demo_io (Inl ''refused'')) (token_manager_new []) demo_oauth 0 0 =
     (Inl (RefreshFailed ''a'' msg), demo_oauth, tm', 1) \<and>
   hm_get (failures tm') ''a'' = Some \<lparr>fail_timestamp = 0, backoff_count = 0\<rparr>"
proof -
  have safe: "token_is_safe demo_oauth 0 = None"
    by (simp add: token_is_safe_def demo_oauth_def)
  obtain tm' where run: "get_valid_access_token (demo_io (Inl ''refused'')) (token_manager_new [])
      demo_oauth 0 0 = (Inl (RefreshFailed ''a'' (get_oauth_error_message demo_oauth ''refused'' 0)),
        demo_oauth, tm', 1)"
    using demo_oauth_managed safe
    by (auto simp: oauth_managed_def get_valid_access_token_def refresh_access_token_def
        cleanup_expired_failures_def token_manager_new_def CLEANUP_INTERVAL_MS_def check_backoff_def refresh_locked_def
        demo_io_def demo_oauth_def hm_retain_def)
  from failed_refresh_recorded [OF demo_oauth_managed safe this] run show ?thesis
    by (auto simp: demo_oauth_def)
qed

section \<open>What the token manager does not do\<close>

text \<open>
  The providers that count as users of API keys never reach the refresher, whatever their
  implementation of \<open>refresh_token\<close> would do: the key itself is the token, and neither the
  account nor the manager changes. For Vertex AI this means that the Google Cloud credentials
  are never asked for.
\<close>

theorem key_providers_never_refresh:
  assumes "is_api_key_provider (provider a)"
  shows "get_valid_access_token io tm a now w =
    ((case api_key a of
        Some key \<Rightarrow> Inr key
      | None \<Rightarrow> if refresh_token a \<noteq> [] then Inr (refresh_token a)
                else Inl (NoApiKey (acct_name a))), a, tm, w)"
  using assms by (auto simp: get_valid_access_token_def split: option.split)

lemma vertex_is_key_provider: "is_api_key_provider ''vertex-ai''"
  by (simp add: is_api_key_provider_def provider_from_str_loose_def provider_uses_api_key_def)

theorem key_providers_never_refresh_witness:
  "get_valid_access_token (demo_io (Inr demo_result)) (token_manager_new [])
     (fresh_account ''v'' ''vertex-ai'') 0 0 =
   (Inl (NoApiKey ''v''), fresh_account ''v'' ''vertex-ai'', token_manager_new [], 0)"
  by (subst key_providers_never_refresh) (simp_all add: vertex_is_key_provider)

text \<open>
  Concurrent refreshes are not shared. The second of two requests that hold the same
  expired account waits for the lock, but what it checks then is its own copy, which no other
  request can have updated; so the provider is asked twice.
\<close>

theorem refresh_not_deduplicated:
  "let (r1, a1, tm1, calls1) =
         get_valid_access_token (demo_io (Inr demo_result)) (token_manager_new []) demo_oauth 0 0;
       (r2, a2, tm2, calls2) =
         get_valid_access_token (demo_io (Inr demo_result)) tm1 demo_oauth 0 calls1
   in r1 = Inr ''t'' \<and> r2 = Inr ''t'' \<and> calls2 = 2"
proof -
  have "fst (get_valid_access_token (demo_io (Inr demo_result))
        ((token_manager_new [])\<lparr>refresh_locks := [(''a'', ())]\<rparr>) demo_oauth 0 1) = Inr ''t''"
    and "snd (snd (snd (get_valid_access_token (demo_io (Inr demo_result))
        ((token_manager_new [])\<lparr>refresh_locks := [(''a'', ())]\<rparr>) demo_oauth 0 1))) = 2"
    using demo_oauth_managed
    by (simp_all add: oauth_managed_def get_valid_access_token_def demo_oauth_def
        token_is_safe_def refresh_access_token_def cleanup_expired_failures_def
        token_manager_new_def CLEANUP_INTERVAL_MS_def check_backoff_def refresh_locked_def
        demo_io_def persist_result_def demo_result_def)
  then show ?thesis
    by (simp add: demo_refresh split_beta)
qed

end
