(* ===== verification/OpenAI_Format.thy ===== *)
theory OpenAI_Format
  imports Text_Json
begin

text \<open>
  The translation between the Messages format of Anthropic and the Chat Completions format of
  OpenAI, \<open>providers/src/impls/openai_format.rs\<close>. The input is consumed as it is read (\<open>take\<close>);
  no field is read twice, so that reading suffices here. Parsing and printing JSON text are
  parameters.
\<close>

section \<open>The request\<close>

definition str_or :: "json \<Rightarrow> string \<Rightarrow> string \<Rightarrow> string" where
  "str_or j k d = (case get_str j k of Some s \<Rightarrow> s | None \<Rightarrow> d)"

definition json_or :: "json \<Rightarrow> string \<Rightarrow> json \<Rightarrow> json" where
  "json_or j k d = (case json_get j k of Some v \<Rightarrow> v | None \<Rightarrow> d)"

fun join_with :: "string \<Rightarrow> string list \<Rightarrow> string" where
  "join_with sep [] = []"
| "join_with sep [s] = s"
| "join_with sep (s # ss) = s @ sep @ join_with sep ss"

definition oai_message :: "string \<Rightarrow> json \<Rightarrow> json" where
  "oai_message role content = JObject [(''role'', JString role), (''content'', content)]"

definition system_messages :: "json option \<Rightarrow> json list" where
  "system_messages system =
     (case system of
        None \<Rightarrow> []
      | Some (JString s) \<Rightarrow> if s \<noteq> [] then [oai_message ''system'' (JString s)] else []
      | Some (JArray arr) \<Rightarrow>
          (let t = join_with [CHR 0x0A] (List.map_filter (\<lambda>b. get_str b ''text'') arr)
           in if t \<noteq> [] then [oai_message ''system'' (JString t)] else [])
      | Some _ \<Rightarrow> [])"

definition block_text :: "json \<Rightarrow> string option" where
  "block_text b = (if str_or b ''type'' [] = ''text'' then get_str b ''text'' else None)"

definition block_tool_call :: "(json \<Rightarrow> string option) \<Rightarrow> json \<Rightarrow> json option" where
  "block_tool_call to_str b =
     (if str_or b ''type'' [] = ''tool_use'' then
        Some (JObject
          [(''id'', JString (str_or b ''id'' [])), (''type'', JString ''function''),
           (''function'', JObject
             [(''name'', JString (str_or b ''name'' [])),
              (''arguments'', JString
                 (case to_str (json_or b ''input'' (JObject [])) of Some s \<Rightarrow> s | None \<Rightarrow> []))])])
      else None)"

definition tool_result_content :: "json \<Rightarrow> string" where
  "tool_result_content b =
     (case json_get b ''content'' of
        Some (JString s) \<Rightarrow> s
      | Some (JArray (x # xs)) \<Rightarrow> str_or x ''text'' []
      | _ \<Rightarrow> [])"

definition block_tool_result :: "json \<Rightarrow> (string \<times> string) option" where
  "block_tool_result b =
     (if str_or b ''type'' [] = ''tool_result''
      then Some (str_or b ''tool_use_id'' [], tool_result_content b) else None)"

definition tool_message :: "string \<times> string \<Rightarrow> json" where
  "tool_message r =
     JObject [(''role'', JString ''tool''), (''tool_call_id'', JString (fst r)),
       (''content'', JString (snd r))]"

text \<open>The messages that one array of content blocks becomes.\<close>

definition convert_content_blocks :: "(json \<Rightarrow> string option) \<Rightarrow> string \<Rightarrow> json list \<Rightarrow> json list" where
  "convert_content_blocks to_str role blocks =
     (let text_parts = List.map_filter block_text blocks;
          tool_calls = List.map_filter (block_tool_call to_str) blocks;
          tool_results = List.map_filter block_tool_result blocks
      in if role = ''assistant'' then
           (let content = (if text_parts = [] then JNull else JString (concat text_parts))
            in if tool_calls = [] then [oai_message ''assistant'' content]
               else [JObject [(''role'', JString ''assistant''), (''content'', content),
                       (''tool_calls'', JArray tool_calls)]])
         else if tool_results \<noteq> [] then map tool_message tool_results
         else [oai_message role (JString (concat text_parts))])"

definition convert_message :: "(json \<Rightarrow> string option) \<Rightarrow> json \<Rightarrow> json list" where
  "convert_message to_str msg =
     (let role = str_or msg ''role'' []
      in case json_get msg ''content'' of
           Some (JString t) \<Rightarrow> [oai_message role (JString t)]
         | Some (JArray blocks) \<Rightarrow> convert_content_blocks to_str role blocks
         | _ \<Rightarrow> [oai_message role JNull])"

definition convert_messages :: "(json \<Rightarrow> string option) \<Rightarrow> json \<Rightarrow> json list" where
  "convert_messages to_str j =
     system_messages (json_get j ''system'') @
     (case Option.bind (json_get j ''messages'') as_array of
        None \<Rightarrow> []
      | Some msgs \<Rightarrow> concat (map (convert_message to_str) msgs))"

definition convert_tool :: "json \<Rightarrow> json option" where
  "convert_tool tool =
     map_option (\<lambda>n. JObject
       [(''type'', JString ''function''),
        (''function'', JObject
          ((''name'', JString n) #
           (case json_get tool ''description'' of Some d \<Rightarrow> [(''description'', d)] | None \<Rightarrow> []) @
           (case json_get tool ''input_schema'' of Some s \<Rightarrow> [(''parameters'', s)] | None \<Rightarrow> [])))])
       (get_str tool ''name'')"

text \<open>A field that is handed over under the same or another name, when it is there.\<close>

definition carry :: "json \<Rightarrow> string \<Rightarrow> string \<Rightarrow> (string \<times> json) list" where
  "carry j from_key to_key = (case json_get j from_key of Some v \<Rightarrow> [(to_key, v)] | None \<Rightarrow> [])"

definition stream_fields :: "json \<Rightarrow> (string \<times> json) list" where
  "stream_fields j =
     (case json_get j ''stream'' of
        None \<Rightarrow> []
      | Some s \<Rightarrow>
          (''stream'', s) #
          (if as_bool s = Some True
           then [(''stream_options'', JObject [(''include_usage'', JBool True)])] else []))"

definition tool_fields :: "json \<Rightarrow> (string \<times> json) list" where
  "tool_fields j =
     (case json_get j ''tools'' of
        Some (JArray tools) \<Rightarrow>
          (let oai_tools = List.map_filter convert_tool tools
           in if oai_tools \<noteq> [] then [(''tools'', JArray oai_tools)] else [])
      | _ \<Rightarrow> [])"

definition openai_request :: "(json \<Rightarrow> string option) \<Rightarrow> json \<Rightarrow> json" where
  "openai_request to_str j =
     JObject (carry j ''model'' ''model'' @
       [(''messages'', JArray (convert_messages to_str j))] @
       carry j ''max_tokens'' ''max_tokens'' @
       concat (map (\<lambda>k. carry j k k) [''temperature'', ''top_p'', ''top_k'']) @
       carry j ''stop_sequences'' ''stop'' @
       stream_fields j @
       tool_fields j)"

definition anthropic_to_openai_request ::
  "(string \<Rightarrow> json option) \<Rightarrow> (json \<Rightarrow> string option) \<Rightarrow> (json \<Rightarrow> string option) \<Rightarrow>
     string \<Rightarrow> string option" where
  "anthropic_to_openai_request from_slice to_vec to_str body =
     Option.bind (from_slice body) (\<lambda>j.
       if as_object j = None then None else to_vec (openai_request to_str j))"

section \<open>The response\<close>

definition map_finish_reason :: "string option \<Rightarrow> string" where
  "map_finish_reason reason =
     (if reason = Some ''stop'' then ''end_turn''
      else if reason = Some ''length'' then ''max_tokens''
      else if reason = Some ''function_call'' \<or> reason = Some ''tool_calls'' then ''tool_use''
      else if reason = Some ''content_filter'' then ''stop_sequence''
      else ''end_turn'')"

definition tool_use_block :: "string \<Rightarrow> string \<Rightarrow> json \<Rightarrow> json" where
  "tool_use_block i n input =
     JObject [(''type'', JString ''tool_use''), (''id'', JString i), (''name'', JString n),
       (''input'', input)]"

definition text_part :: "string \<Rightarrow> json" where
  "text_part t = JObject [(''type'', JString ''text''), (''text'', JString t)]"

definition tool_call_block :: "(string \<Rightarrow> json option) \<Rightarrow> json \<Rightarrow> json option" where
  "tool_call_block from_str tc =
     (case json_get tc ''function'' of
        None \<Rightarrow> None
      | Some func \<Rightarrow>
          Some (tool_use_block (str_or tc ''id'' []) (str_or func ''name'' [])
            (case from_str (str_or func ''arguments'' ''{}'') of
               Some v \<Rightarrow> v | None \<Rightarrow> JObject [])))"

definition response_content :: "(string \<Rightarrow> json option) \<Rightarrow> json \<Rightarrow> json list" where
  "response_content from_str message =
     (case get_str message ''content'' of
        Some t \<Rightarrow> if t \<noteq> [] then [text_part t] else []
      | None \<Rightarrow> []) @
     (case Option.bind (json_get message ''tool_calls'') as_array of
        None \<Rightarrow> []
      | Some calls \<Rightarrow> List.map_filter (tool_call_block from_str) calls)"

definition anthropic_response :: "(string \<Rightarrow> json option) \<Rightarrow> json \<Rightarrow> json option" where
  "anthropic_response from_str input =
     (case Option.bind (json_get input ''choices'') as_array of
        Some (choice # choices) \<Rightarrow>
          map_option (\<lambda>message.
            (let usage = json_or input ''usage'' (JObject [])
             in JObject
               [(''id'', json_or input ''id'' (JString ''msg_unknown'')),
                (''type'', JString ''message''), (''role'', JString ''assistant''),
                (''model'', JString (str_or input ''model'' ''unknown'')),
                (''content'', JArray (response_content from_str message)),
                (''stop_reason'', JString (map_finish_reason (get_str choice ''finish_reason''))),
                (''stop_sequence'', JNull),
                (''usage'', JObject
                  [(''input_tokens'', json_or usage ''prompt_tokens'' (JNumber (PosInt 0))),
                   (''output_tokens'', json_or usage ''completion_tokens'' (JNumber (PosInt 0)))])]))
            (json_get choice ''message'')
      | _ \<Rightarrow> None)"

definition openai_to_anthropic_response ::
  "(string \<Rightarrow> json option) \<Rightarrow> (json \<Rightarrow> string option) \<Rightarrow> (string \<Rightarrow> json option) \<Rightarrow>
     string \<Rightarrow> string option" where
  "openai_to_anthropic_response from_slice to_vec from_str body =
     Option.bind (Option.bind (from_slice body) (anthropic_response from_str)) to_vec"

section \<open>What the translation keeps\<close>

lemma json_get_Cons [simp]:
  "json_get (JObject ((k, v) # kvs)) k' = (if k' = k then Some v else json_get (JObject kvs) k')"
  by (simp add: json_get_def)

lemma json_get_Nil [simp]: "json_get (JObject []) k = None"
  by (simp add: json_get_def)

lemma json_get_append [simp]:
  "json_get (JObject (kvs @ kvs')) k =
     (case json_get (JObject kvs) k of Some v \<Rightarrow> Some v | None \<Rightarrow> json_get (JObject kvs') k)"
  by (simp add: json_get_def map_add_def split: option.split)

lemma json_get_carry [simp]:
  "json_get (JObject (carry j a b)) k = (if k = b then json_get j a else None)"
  by (simp add: carry_def split: option.split)

lemma json_get_stream [simp]:
  "k \<noteq> ''stream'' \<Longrightarrow> k \<noteq> ''stream_options'' \<Longrightarrow> json_get (JObject (stream_fields j)) k = None"
  by (simp add: stream_fields_def split: option.split)

lemma json_get_tools [simp]: "k \<noteq> ''tools'' \<Longrightarrow> json_get (JObject (tool_fields j)) k = None"
  by (simp add: tool_fields_def Let_def split: option.split json.split)

text \<open>
  The parameters of a request reach OpenAI under their names: the model, the token limit and
  the sampling parameters unchanged, the stop sequences as \<open>stop\<close>, streaming with its usage report
  asked for exactly when the client streams; and there are no other fields but the messages and
  tools.
\<close>

theorem request_parameters_kept:
  "json_get (openai_request to_str j) k =
     (if list_ex (\<lambda>p. k = p) [''model'', ''max_tokens'', ''temperature'', ''top_p'', ''top_k'', ''stream'']
      then json_get j k
      else if k = ''stop'' then json_get j ''stop_sequences''
      else if k = ''stream_options'' then
        (if json_get j ''stream'' = Some (JBool True)
         then Some (JObject [(''include_usage'', JBool True)]) else None)
      else if k = ''messages'' then Some (JArray (convert_messages to_str j))
      else if k = ''tools'' then json_get (JObject (tool_fields j)) k
      else None)"
proof -
  have stream: "json_get (JObject (stream_fields j)) ''stream'' = json_get j ''stream''"
    "json_get (JObject (stream_fields j)) ''stream_options'' =
      (if json_get j ''stream'' = Some (JBool True)
       then Some (JObject [(''include_usage'', JBool True)]) else None)"
    by (simp_all add: stream_fields_def as_bool_def split: option.split json.split)
  show ?thesis
    by (simp add: openai_request_def stream split: option.split)
qed

text \<open>A text message, in either of the two forms of its content.\<close>

definition says :: "string \<Rightarrow> string \<Rightarrow> json \<Rightarrow> bool" where
  "says role t msg \<longleftrightarrow>
     get_str msg ''role'' = Some role \<and>
     (json_get msg ''content'' = Some (JString t) \<or>
      (\<exists>ts. ts \<noteq> [] \<and> json_get msg ''content'' = Some (JArray (map text_part ts)) \<and> t = concat ts))"

lemma text_block_read [simp]:
  "block_text (text_part t) = Some t" "block_tool_call f (text_part t) = None"
  "block_tool_result (text_part t) = None"
  by (simp_all add: text_part_def block_text_def block_tool_call_def block_tool_result_def
      str_or_def get_str_def as_str_def)

lemma map_filter_map: "List.map_filter f (map g xs) = List.map_filter (\<lambda>x. f (g x)) xs"
  by (induction xs) (simp_all split: option.split)

lemma map_filter_all [simp]: "List.map_filter (\<lambda>x. Some (f x)) xs = map f xs"
  by (induction xs) simp_all

lemma map_filter_none [simp]: "List.map_filter (\<lambda>x. None) xs = []"
  by (induction xs) simp_all

lemma map_filter_append [simp]:
  "List.map_filter f (xs @ ys) = List.map_filter f xs @ List.map_filter f ys"
  by (induction xs) (simp_all split: option.split)

lemma convert_says:
  assumes "says role t msg"
  shows "convert_message to_str msg = [oai_message role (JString t)]"
proof -
  have role: "str_or msg ''role'' [] = role"
    using assms by (simp add: says_def str_or_def)
  consider "json_get msg ''content'' = Some (JString t)"
    | ts where "ts \<noteq> []" "json_get msg ''content'' = Some (JArray (map text_part ts))" "t = concat ts"
    using assms by (auto simp: says_def)
  then show ?thesis
  proof cases
    case 2
    then show ?thesis
      by (auto simp: convert_message_def role convert_content_blocks_def map_filter_map Let_def)
  qed (simp add: convert_message_def role Let_def)
qed

text \<open>
  A conversation in text arrives as it is: message by message, in order, with its role and its
  text, whether the text came as a string or in blocks, after the system prompt if there is one.
\<close>

theorem conversation_kept:
  assumes "json_get j ''messages'' = Some (JArray msgs)"
    and "list_all2 (\<lambda>rt msg. says (fst rt) (snd rt) msg) spoken msgs"
  shows "convert_messages to_str j =
    system_messages (json_get j ''system'') @ map (\<lambda>rt. oai_message (fst rt) (JString (snd rt))) spoken"
proof -
  have "concat (map (convert_message to_str) msgs) =
      map (\<lambda>rt. oai_message (fst rt) (JString (snd rt))) spoken"
    using assms(2) by (induction rule: list_all2_induct) (simp_all add: convert_says)
  with assms(1) show ?thesis
    by (simp add: convert_messages_def as_array_def)
qed

theorem conversation_kept_witness:
  "convert_messages (\<lambda>_. None) (JObject [(''system'', JString ''s''),
      (''messages'', JArray [JObject [(''role'', JString ''user''), (''content'', JString ''hi'')],
         JObject [(''role'', JString ''assistant''), (''content'', JArray [text_part ''a'', text_part ''b''])]])]) =
   [oai_message ''system'' (JString ''s''), oai_message ''user'' (JString ''hi''),
    oai_message ''assistant'' (JString ''ab'')]"
proof -
  have "says ''assistant'' ''ab'' (JObject [(''role'', JString ''assistant''),
      (''content'', JArray [text_part ''a'', text_part ''b''])])"
    unfolding says_def by (intro conjI disjI2 exI [of _ "[''a'', ''b'']"]) (simp_all add: get_str_def as_str_def)
  moreover have "says ''user'' ''hi'' (JObject [(''role'', JString ''user''), (''content'', JString ''hi'')])"
    by (simp add: says_def get_str_def as_str_def)
  ultimately have "list_all2 (\<lambda>rt msg. says (fst rt) (snd rt) msg) [(''user'', ''hi''), (''assistant'', ''ab'')]
     [JObject [(''role'', JString ''user''), (''content'', JString ''hi'')],
      JObject [(''role'', JString ''assistant''), (''content'', JArray [text_part ''a'', text_part ''b''])]]"
    by simp
  from conversation_kept [OF _ this] show ?thesis
    by (simp add: system_messages_def)
qed

text \<open>
  C32. Tool calls survive the way there and back: the message that the blocks of an assistant's turn
  become, read as the answer of a model, gives back the text in one block and each tool call with
  its id, its name and its input, in order. What is relied on is that the printed inputs are
  parsed again to the same values.
\<close>

theorem tool_calls_roundtrip:
  assumes "list_all (\<lambda>(i, n, v). \<exists>s. to_str v = Some s \<and> from_str s = Some v) calls"
  shows "\<exists>msg. convert_content_blocks to_str ''assistant''
       (map text_part ts @ map (\<lambda>(i, n, v). tool_use_block i n v) calls) = [msg] \<and>
     response_content from_str msg =
       (if concat ts = [] then [] else [text_part (concat ts)]) @
       map (\<lambda>(i, n, v). tool_use_block i n v) calls"
proof -
  define call where "call = (\<lambda>(i, n, v). JObject
    [(''id'', JString i), (''type'', JString ''function''),
     (''function'', JObject [(''name'', JString n), (''arguments'', JString (the (to_str v)))])])"
  have no_text: "block_text (case c of (i, n, v) \<Rightarrow> tool_use_block i n v) = None" for c
    by (cases c) (simp add: tool_use_block_def block_text_def str_or_def get_str_def as_str_def)
  have one: "block_tool_call to_str (tool_use_block i n v) = Some (call (i, n, v)) \<and>
      tool_call_block from_str (call (i, n, v)) = Some (tool_use_block i n v)"
    if "to_str v = Some s" "from_str s = Some v" for i n v s
    using that by (simp add: tool_use_block_def block_tool_call_def tool_call_block_def call_def
        str_or_def get_str_def as_str_def json_or_def)
  have out: "List.map_filter (block_tool_call to_str) (map (\<lambda>(i, n, v). tool_use_block i n v) calls) =
      map call calls"
    and again: "List.map_filter (tool_call_block from_str) (map call calls) =
      map (\<lambda>(i, n, v). tool_use_block i n v) calls"
    using assms by (induction calls) (auto simp: one map_filter_simps)
  show ?thesis
    by (auto simp: convert_content_blocks_def Let_def map_filter_map no_text
        out [unfolded map_filter_map] again [unfolded map_filter_map] oai_message_def
        response_content_def get_str_def as_str_def as_array_def)
qed

theorem tool_calls_roundtrip_witness:
  "\<exists>msg. convert_content_blocks (\<lambda>_. Some ''{}'') ''assistant''
       [text_part ''on it'', tool_use_block ''t1'' ''ls'' (JObject [])] = [msg] \<and>
     response_content (\<lambda>_. Some (JObject [])) msg =
       [text_part ''on it'', tool_use_block ''t1'' ''ls'' (JObject [])]"
  using tool_calls_roundtrip [of "\<lambda>_. Some ''{}''" "\<lambda>_. Some (JObject [])"
      "[(''t1'', ''ls'', JObject [])]" "[''on it'']"]
  by simp

text \<open>
  A turn of the user that brings the result of a tool loses everything else: its text blocks do
  not reach the model, and of a result in several blocks only the first does.
\<close>

theorem text_beside_tool_result_lost:
  "convert_content_blocks to_str ''user''
     (JObject [(''type'', JString ''tool_result''), (''tool_use_id'', JString i),
        (''content'', JArray (text_part r # blocks))] # map text_part ts) =
   [tool_message (i, r)]"
  by (simp add: convert_content_blocks_def block_text_def block_tool_call_def block_tool_result_def
      str_or_def get_str_def as_str_def tool_result_content_def map_filter_map Let_def text_part_def)

declare json_get_Cons [simp del] json_get_Nil [simp del] json_get_append [simp del]
  map_filter_all [simp del] map_filter_none [simp del] map_filter_append [simp del]

end
