(* ===== verification/Provider_Impls.thy ===== *)
theory Provider_Impls
  imports Handler Token_Manager OpenAI_Format
begin

text \<open>
  What the provider implementations under \<open>crates/providers/src/impls/\<close> do to a request and read
  from a response: URLs, authentication headers, rate-limit headers, the model of the body; and
  the registry that maps provider names to them (\<open>registry.rs\<close>, filled by \<open>main.rs\<close>). The parser
  of RFC 3339 dates and JSON text are parameters.
\<close>

section \<open>Header maps\<close>

definition hdr_remove :: "string \<Rightarrow> header_map \<Rightarrow> header_map" where
  "hdr_remove name h = filter (\<lambda>(n, _). n \<noteq> name) h"

definition hdr_insert :: "string \<Rightarrow> string \<Rightarrow> header_map \<Rightarrow> header_map" where
  "hdr_insert name v h = hdr_remove name h @ [(name, v)]"

definition hdr_values :: "string \<Rightarrow> header_map \<Rightarrow> string list" where
  "hdr_values name h = map snd (filter (\<lambda>(n, _). n = name) h)"

lemma hdr_values_remove [simp]:
  "hdr_values n (hdr_remove m h) = (if n = m then [] else hdr_values n h)"
  by (induction h) (auto simp: hdr_values_def hdr_remove_def)

lemma hdr_values_append [simp]: "hdr_values n (h @ h') = hdr_values n h @ hdr_values n h'"
  by (simp add: hdr_values_def)

lemma hdr_values_single [simp]: "hdr_values n [(m, v)] = (if n = m then [v] else [])"
  by (simp add: hdr_values_def)

lemma hdr_values_insert [simp]:
  "hdr_values n (hdr_insert m v h) = (if n = m then [v] else hdr_values n h)"
  by (simp add: hdr_insert_def)

text \<open>\<open>HeaderValue::from_str\<close> and \<open>HeaderName::from_bytes\<close>.\<close>

definition parse_header_value :: "string \<Rightarrow> string option" where
  "parse_header_value s = (if list_all visible_ascii s then Some s else None)"

definition is_token_char :: "char \<Rightarrow> bool" where
  "is_token_char c \<longleftrightarrow>
     (let b = byte c
      in 48 \<le> b \<and> b \<le> 57 \<or> 65 \<le> b \<and> b \<le> 90 \<or> 97 \<le> b \<and> b \<le> 122 \<or>
         b \<in> {33, 35, 36, 37, 38, 39, 42, 43, 45, 46, 94, 95, 96, 124, 126})"

definition parse_header_name :: "string \<Rightarrow> string option" where
  "parse_header_name s =
     (if s \<noteq> [] \<and> list_all is_token_char s then Some (to_ascii_lowercase s) else None)"

section \<open>Authentication headers\<close>

datatype auth_type = Bearer | Direct

record compat_config =
  cc_name :: string
  cc_endpoint :: string
  cc_auth_header :: string
  cc_auth_type :: auth_type
  cc_streaming :: bool

definition anthropic_compat_default :: compat_config where
  "anthropic_compat_default =
     \<lparr>cc_name = ''anthropic-compatible'', cc_endpoint = ''https://api.anthropic.com'',
      cc_auth_header = ''x-api-key'', cc_auth_type = Direct, cc_streaming = True\<rparr>"

definition anthropic_compat_with_endpoint :: "string \<Rightarrow> string \<Rightarrow> compat_config" where
  "anthropic_compat_with_endpoint name endpoint =
     anthropic_compat_default\<lparr>cc_name := name, cc_endpoint := trim_end_matches (CHR ''/'') endpoint\<rparr>"

definition openai_compat_default :: compat_config where
  "openai_compat_default =
     \<lparr>cc_name = ''openai-compatible'', cc_endpoint = ''https://api.openai.com'',
      cc_auth_header = ''authorization'', cc_auth_type = Bearer, cc_streaming = True\<rparr>"

definition strip_hop_by_hop :: "header_map \<Rightarrow> header_map" where
  "strip_hop_by_hop h =
     hdr_remove ''content-encoding'' (hdr_remove ''accept-encoding'' (hdr_remove ''host'' h))"

definition strip_auth :: "header_map \<Rightarrow> header_map" where
  "strip_auth h = hdr_remove ''x-api-key'' (hdr_remove ''authorization'' h)"

definition auth_error :: "string \<Rightarrow> string" where
  "auth_error what = ''Auth error: '' @ what"

definition first_some :: "'a option \<Rightarrow> 'a option \<Rightarrow> 'a option" where
  "first_some x y = (case x of None \<Rightarrow> y | Some _ \<Rightarrow> x)"

text \<open>\<open>AnthropicCompatibleProvider\<close> and \<open>OpenAiCompatibleProvider\<close> share this code, line by line.\<close>

definition compat_prepare_headers ::
  "compat_config \<Rightarrow> header_map \<Rightarrow> string option \<Rightarrow> string option \<Rightarrow> string + header_map" where
  "compat_prepare_headers cfg headers token key =
     (let headers = strip_auth headers
      in case first_some token key of
           None \<Rightarrow> Inr (strip_hop_by_hop headers)
         | Some cred \<Rightarrow>
             (let v = (case cc_auth_type cfg of Bearer \<Rightarrow> ''Bearer '' @ cred | Direct \<Rightarrow> cred)
              in case parse_header_name (cc_auth_header cfg) of
                   None \<Rightarrow> Inl (auth_error ''Invalid auth header name: invalid HTTP header name'')
                 | Some hn \<Rightarrow>
                     (case parse_header_value v of
                        None \<Rightarrow> Inl (auth_error ''Invalid token format: failed to parse header value'')
                      | Some hv \<Rightarrow> Inr (strip_hop_by_hop (hdr_insert hn hv headers)))))"

definition OAUTH_BETA_HEADER :: string where "OAUTH_BETA_HEADER = ''oauth-2025-04-20''"

definition add_oauth_beta :: "header_map \<Rightarrow> header_map" where
  "add_oauth_beta h =
     (case header_str h ''anthropic-beta'' of
        Some existing \<Rightarrow>
          if \<not> contains_str existing OAUTH_BETA_HEADER then
            (case parse_header_value (existing @ '','' @ OAUTH_BETA_HEADER) of
               Some v \<Rightarrow> hdr_insert ''anthropic-beta'' v h
             | None \<Rightarrow> h)
          else h
      | None \<Rightarrow>
          (case parse_header_value OAUTH_BETA_HEADER of
             Some v \<Rightarrow> hdr_insert ''anthropic-beta'' v h
           | None \<Rightarrow> h))"

definition claude_prepare_headers ::
  "header_map \<Rightarrow> string option \<Rightarrow> string option \<Rightarrow> string + header_map" where
  "claude_prepare_headers headers token key =
     (let headers = strip_auth headers
      in case token of
           Some t \<Rightarrow>
             (case parse_header_value (''Bearer '' @ t) of
                None \<Rightarrow> Inl (auth_error ''Invalid token format: failed to parse header value'')
              | Some v \<Rightarrow>
                  Inr (strip_hop_by_hop (add_oauth_beta (hdr_insert ''authorization'' v headers))))
         | None \<Rightarrow>
             (case key of
                Some k \<Rightarrow>
                  (case parse_header_value k of
                     None \<Rightarrow> Inl (auth_error ''Invalid API key format: failed to parse header value'')
                   | Some v \<Rightarrow> Inr (strip_hop_by_hop (hdr_insert ''x-api-key'' v headers)))
              | None \<Rightarrow> Inr (strip_hop_by_hop headers)))"

definition vertex_prepare_headers ::
  "header_map \<Rightarrow> string option \<Rightarrow> string option \<Rightarrow> string + header_map" where
  "vertex_prepare_headers headers token key =
     (let headers = strip_auth headers;
          finish = (\<lambda>h. Inr (strip_hop_by_hop
            (hdr_remove ''anthropic-version'' (hdr_remove ''anthropic-beta'' h))))
      in case token of
           None \<Rightarrow> finish headers
         | Some t \<Rightarrow>
             (case parse_header_value (''Bearer '' @ t) of
                None \<Rightarrow> Inl (auth_error ''Invalid token format: failed to parse header value'')
              | Some v \<Rightarrow> finish (hdr_insert ''authorization'' v headers)))"

section \<open>URLs\<close>

definition with_query :: "string \<Rightarrow> string \<Rightarrow> string \<Rightarrow> string" where
  "with_query endpoint path query =
     (if query = [] then endpoint @ path else endpoint @ path @ ''?'' @ query)"

definition custom_or :: "account \<Rightarrow> string \<Rightarrow> string" where
  "custom_or a endpoint =
     (case custom_endpoint a of
        Some custom \<Rightarrow> if custom \<noteq> [] then custom else endpoint
      | None \<Rightarrow> endpoint)"

definition translate_path :: "string \<Rightarrow> string" where
  "translate_path path =
     (if contains_str path ''/messages'' then ''/v1/chat/completions'' else path)"

definition NANOGPT_ENDPOINT :: string where "NANOGPT_ENDPOINT = ''https://nano-gpt.com/api''"

section \<open>Numbers and rate limits\<close>

definition digit_value :: "char \<Rightarrow> nat option" where
  "digit_value c = (if in_range 48 57 c then Some (byte c - 48) else None)"

fun digits_value :: "nat \<Rightarrow> string \<Rightarrow> nat option" where
  "digits_value acc [] = Some acc"
| "digits_value acc (c # cs) =
     (case digit_value c of None \<Rightarrow> None | Some d \<Rightarrow> digits_value (10 * acc + d) cs)"

definition parse_i64 :: "string \<Rightarrow> i64 option" where
  "parse_i64 s =
     (let (neg, ds) =
            (case s of
               c # cs \<Rightarrow> if c = CHR ''-'' then (True, cs) else if c = CHR ''+'' then (False, cs)
                         else (False, s)
             | [] \<Rightarrow> (False, s))
      in if ds = [] then None
         else case digits_value 0 ds of
             None \<Rightarrow> None
           | Some n \<Rightarrow>
               (let v = (if neg then - int n else int n)
                in if in_i64 v then Some v else None))"

definition HARD_LIMIT_STATUSES :: "string list" where
  "HARD_LIMIT_STATUSES = [''rate_limited'', ''blocked'', ''queueing_hard'', ''payment_required'']"

definition unified_rate_limit ::
  "(string \<Rightarrow> i64 option) \<Rightarrow> header_map \<Rightarrow> nat \<Rightarrow> rate_limit_info" where
  "unified_rate_limit rfc3339 headers status =
     (let st = header_str headers ''anthropic-ratelimit-unified-status''
      in \<lparr>is_rate_limited =
            (case st of
               Some s \<Rightarrow> s \<noteq> ''allowed'' \<and> s \<in> set HARD_LIMIT_STATUSES
             | None \<Rightarrow> status = 429),
          reset_time =
            (case header_str headers ''anthropic-ratelimit-unified-reset'' of
               None \<Rightarrow> None
             | Some s \<Rightarrow> first_some (parse_i64 s) (rfc3339 s)),
          status_header = st,
          remaining =
            Option.bind (header_str headers ''anthropic-ratelimit-unified-remaining'') parse_i64\<rparr>)"

definition openai_rate_limit ::
  "(string \<Rightarrow> i64 option) \<Rightarrow> header_map \<Rightarrow> nat \<Rightarrow> rate_limit_info" where
  "openai_rate_limit rfc3339 headers status =
     \<lparr>is_rate_limited = (status = 429),
      reset_time =
        (case header_str headers ''x-ratelimit-reset-requests'' of
           None \<Rightarrow> None
         | Some s \<Rightarrow> first_some (parse_i64 s) (rfc3339 s)),
      status_header = None,
      remaining = Option.bind (header_str headers ''x-ratelimit-remaining-requests'') parse_i64\<rparr>"

definition vertex_rate_limit :: "header_map \<Rightarrow> nat \<Rightarrow> rate_limit_info" where
  "vertex_rate_limit headers status =
     \<lparr>is_rate_limited = (status = 429), reset_time = None, status_header = None,
      remaining = Option.bind (header_str headers ''x-ratelimit-remaining'') parse_i64\<rparr>"

definition zai_rate_limit ::
  "(string \<Rightarrow> i64 option) \<Rightarrow> i64 \<Rightarrow> header_map \<Rightarrow> nat \<Rightarrow> rate_limit_info" where
  "zai_rate_limit rfc3339 now headers status =
     (if status \<noteq> 429 then unified_rate_limit rfc3339 headers status
      else
        \<lparr>is_rate_limited = True,
         reset_time =
           map_option (\<lambda>secs. i64_add now (i64_mul secs 1000))
             (Option.bind (header_str headers ''retry-after'') parse_i64),
         status_header = Some ''rate_limited'', remaining = Some 0\<rparr>)"

section \<open>Model names\<close>

definition KNOWN_PATTERNS :: "string list" where
  "KNOWN_PATTERNS = [''sonnet'', ''opus'', ''haiku'', ''claude-3'', ''claude-4'', ''claude-instant'']"

fun pattern_match :: "string \<Rightarrow> (string \<times> json) list \<Rightarrow> string option" where
  "pattern_match model_lower [] = None"
| "pattern_match model_lower ((k, v) # rest) =
     (let key_lower = to_ascii_lowercase k
      in if list_ex (\<lambda>p. contains_str key_lower p \<and> contains_str model_lower p) KNOWN_PATTERNS then
           (case as_str v of Some mapped \<Rightarrow> Some mapped | None \<Rightarrow> pattern_match model_lower rest)
         else pattern_match model_lower rest)"

definition get_model_name :: "(string \<Rightarrow> json option) \<Rightarrow> string \<Rightarrow> account option \<Rightarrow> string" where
  "get_model_name from_str model acc =
     (case Option.bind acc model_mappings of
        None \<Rightarrow> model
      | Some mappings_json \<Rightarrow>
          (case Option.bind (from_str mappings_json) as_object of
             None \<Rightarrow> model
           | Some obj \<Rightarrow>
               (case Option.bind (map_of obj model) as_str of
                  Some mapped \<Rightarrow> mapped
                | None \<Rightarrow>
                    (case pattern_match (to_ascii_lowercase model) obj of
                       Some mapped \<Rightarrow> mapped
                     | None \<Rightarrow> model))))"

definition transform_body_model ::
  "(string \<Rightarrow> json option) \<Rightarrow> (json \<Rightarrow> string option) \<Rightarrow> string \<Rightarrow> account option \<Rightarrow> string option" where
  "transform_body_model from_slice to_vec body acc =
     (case from_slice body of
        None \<Rightarrow> None
      | Some j \<Rightarrow>
          (case get_str j ''model'' of
             None \<Rightarrow> None
           | Some model \<Rightarrow>
               (let mapped = get_model_name from_slice model acc
                in if mapped = model then None else to_vec (set_field ''model'' (JString mapped) j))))"

definition transform_body_model_force ::
  "(string \<Rightarrow> json option) \<Rightarrow> (json \<Rightarrow> string option) \<Rightarrow> string \<Rightarrow> string \<Rightarrow> string option" where
  "transform_body_model_force from_slice to_vec body target_model =
     (case from_slice body of
        None \<Rightarrow> None
      | Some j \<Rightarrow>
          if json_get j ''model'' = None then None
          else to_vec (set_field ''model'' (JString target_model) j))"

definition is_digit :: "char \<Rightarrow> bool" where "is_digit c = in_range 48 57 c"

text \<open>
  \<open>split_at\<close> panics inside a multi-byte character, as does slicing after the first byte of the
  suffix.
\<close>

definition to_vertex_model :: "string \<Rightarrow> string outcome" where
  "to_vertex_model model =
     (if length model \<ge> 10 then
        (let k = length model - 9; suffix = drop k model
         in if in_range 0x80 0xBF (model ! k) then Panics
            else if hd suffix = CHR ''-'' \<and> list_all is_digit (tl suffix)
              then Returns (take k model @ ''@'' @ tl suffix)
              else Returns model)
      else Returns model)"

definition from_vertex_model :: "string \<Rightarrow> string" where
  "from_vertex_model model =
     (if CHR ''@'' \<in> set model then
        (let suffix = rev (takeWhile (\<lambda>c. c \<noteq> CHR ''@'') (rev model));
             before = take (length model - length suffix - 1) model
         in if length suffix = 8 \<and> list_all is_digit suffix then before @ ''-'' @ suffix else model)
      else model)"

section \<open>The registry\<close>

datatype claude_mode = ClaudeOAuthMode' | ConsoleMode'

datatype provider_impl =
    ClaudeImpl claude_mode
  | ZaiImpl compat_config
  | MinimaxImpl compat_config
  | NanoGptImpl compat_config
  | AnthropicCompatImpl compat_config
  | OpenAiCompatImpl compat_config
  | VertexImpl

definition impl_name :: "provider_impl \<Rightarrow> string" where
  "impl_name p =
     (case p of
        ClaudeImpl ClaudeOAuthMode' \<Rightarrow> ''claude-oauth''
      | ClaudeImpl ConsoleMode' \<Rightarrow> ''console''
      | ZaiImpl _ \<Rightarrow> ''zai''
      | MinimaxImpl _ \<Rightarrow> ''minimax''
      | NanoGptImpl _ \<Rightarrow> ''nanogpt''
      | AnthropicCompatImpl cfg \<Rightarrow> cc_name cfg
      | OpenAiCompatImpl cfg \<Rightarrow> cc_name cfg
      | VertexImpl \<Rightarrow> ''vertex-ai'')"

record provider_registry =
  reg_providers :: "(string, provider_impl) hash_map"
  reg_oauth :: "(string, provider_impl) hash_map"

definition registry_new :: provider_registry where
  "registry_new = \<lparr>reg_providers = [], reg_oauth = []\<rparr>"

definition reg_register :: "provider_impl \<Rightarrow> provider_registry \<Rightarrow> provider_registry" where
  "reg_register p r = r\<lparr>reg_providers := hm_insert (impl_name p) p (reg_providers r)\<rparr>"

definition reg_register_oauth :: "provider_impl \<Rightarrow> provider_registry \<Rightarrow> provider_registry" where
  "reg_register_oauth p r =
     r\<lparr>reg_providers := hm_insert (impl_name p) p (reg_providers r),
       reg_oauth := hm_insert (impl_name p) p (reg_oauth r)\<rparr>"

definition reg_register_as :: "string \<Rightarrow> provider_impl \<Rightarrow> provider_registry \<Rightarrow> provider_registry" where
  "reg_register_as alias p r = r\<lparr>reg_providers := hm_insert alias p (reg_providers r)\<rparr>"

definition reg_get :: "provider_registry \<Rightarrow> string \<Rightarrow> provider_impl option" where
  "reg_get r name = hm_get (reg_providers r) name"

definition reg_unregister :: "string \<Rightarrow> provider_registry \<Rightarrow> bool \<times> provider_registry" where
  "reg_unregister name r =
     (hm_get (reg_providers r) name \<noteq> None,
      r\<lparr>reg_providers := hm_remove name (reg_providers r), reg_oauth := hm_remove name (reg_oauth r)\<rparr>)"

definition zai_config :: compat_config where
  "zai_config = anthropic_compat_default
     \<lparr>cc_name := ''zai'', cc_endpoint := ''https://api.z.ai/api/anthropic''\<rparr>"

definition minimax_config :: compat_config where
  "minimax_config = anthropic_compat_with_endpoint ''minimax'' ''https://api.minimax.io/anthropic''"

definition nanogpt_config :: compat_config where
  "nanogpt_config = anthropic_compat_default\<lparr>cc_name := ''nanogpt'', cc_endpoint := NANOGPT_ENDPOINT\<rparr>"

definition create_provider_registry :: provider_registry where
  "create_provider_registry =
     (let r = registry_new;
          r = reg_register_oauth (ClaudeImpl ClaudeOAuthMode') r;
          r = reg_register_as ''anthropic'' (ClaudeImpl ClaudeOAuthMode') r;
          r = reg_register_oauth (ClaudeImpl ConsoleMode') r;
          r = reg_register (ZaiImpl zai_config) r;
          r = reg_register (MinimaxImpl minimax_config) r;
          r = reg_register (NanoGptImpl nanogpt_config) r;
          r = reg_register (AnthropicCompatImpl anthropic_compat_default) r;
          r = reg_register (OpenAiCompatImpl openai_compat_default) r
      in reg_register VertexImpl r)"

definition VALID_MODES :: "string list" where
  "VALID_MODES = [''claude-oauth'', ''console'', ''zai'', ''minimax'', ''nanogpt'',
     ''anthropic-compatible'', ''openai-compatible'', ''vertex-ai'']"

definition mode_to_provider :: "string \<Rightarrow> string" where
  "mode_to_provider mode = (if mode = ''console'' then ''claude-console-api'' else mode)"

section \<open>Dispatch\<close>

fun impl_prepare_headers ::
  "provider_impl \<Rightarrow> header_map \<Rightarrow> string option \<Rightarrow> string option \<Rightarrow> string + header_map" where
  "impl_prepare_headers (ClaudeImpl _) h token key = claude_prepare_headers h token key"
| "impl_prepare_headers (ZaiImpl cfg) h token key = compat_prepare_headers cfg h token key"
| "impl_prepare_headers (MinimaxImpl cfg) h token key = compat_prepare_headers cfg h token key"
| "impl_prepare_headers (NanoGptImpl cfg) h token key = compat_prepare_headers cfg h token key"
| "impl_prepare_headers (AnthropicCompatImpl cfg) h token key = compat_prepare_headers cfg h token key"
| "impl_prepare_headers (OpenAiCompatImpl cfg) h token key = compat_prepare_headers cfg h token key"
| "impl_prepare_headers VertexImpl h token key = vertex_prepare_headers h token key"

fun impl_parse_rate_limit ::
  "(string \<Rightarrow> i64 option) \<Rightarrow> i64 \<Rightarrow> provider_impl \<Rightarrow> header_map \<Rightarrow> nat \<Rightarrow> rate_limit_info" where
  "impl_parse_rate_limit rfc3339 now (ZaiImpl _) h status = zai_rate_limit rfc3339 now h status"
| "impl_parse_rate_limit rfc3339 now (OpenAiCompatImpl _) h status = openai_rate_limit rfc3339 h status"
| "impl_parse_rate_limit rfc3339 now VertexImpl h status = vertex_rate_limit h status"
| "impl_parse_rate_limit rfc3339 now _ h status = unified_rate_limit rfc3339 h status"

text \<open>
  The project and region in an account's \<open>custom_endpoint\<close>; the parameter is the derived
  deserializer of that struct.
\<close>

type_synonym vertex_config_parser = "string \<Rightarrow> (string \<times> string) option"

definition vertex_parse_config :: "vertex_config_parser \<Rightarrow> account \<Rightarrow> (string \<times> string) option" where
  "vertex_parse_config parse a =
     (case custom_endpoint a of
        None \<Rightarrow> None
      | Some s \<Rightarrow> if s = [] then None else parse s)"

definition vertex_build_url ::
  "vertex_config_parser \<Rightarrow> string \<Rightarrow> string \<Rightarrow> account \<Rightarrow> string" where
  "vertex_build_url parse path query a =
     (case vertex_parse_config parse a of
        None \<Rightarrow> ''https://aiplatform.googleapis.com/v1/messages''
      | Some (project_id, region) \<Rightarrow>
          (let is_streaming = (contains_str path ''stream'' \<or> contains_str query ''stream=true'');
               specifier = (if is_streaming then ''streamRawPredict'' else ''rawPredict'');
               base_url = (if region = ''global'' then ''https://aiplatform.googleapis.com''
                           else ''https://'' @ region @ ''-aiplatform.googleapis.com'')
           in base_url @ ''/v1/projects/'' @ project_id @ ''/locations/'' @ region @
              ''/publishers/anthropic/models/claude-sonnet-4-6:'' @ specifier))"

fun impl_build_url ::
  "vertex_config_parser \<Rightarrow> provider_impl \<Rightarrow> string \<Rightarrow> string \<Rightarrow> account \<Rightarrow> string" where
  "impl_build_url parse (ClaudeImpl _) path query a =
     with_query (custom_or a ''https://api.anthropic.com'') path query"
| "impl_build_url parse (ZaiImpl cfg) path query a = with_query (custom_or a (cc_endpoint cfg)) path query"
| "impl_build_url parse (MinimaxImpl cfg) path query a = with_query (custom_or a (cc_endpoint cfg)) path query"
| "impl_build_url parse (NanoGptImpl cfg) path query a =
     with_query (case custom_endpoint a of
         Some custom \<Rightarrow> if custom \<noteq> [] then trim_end_matches (CHR ''/'') custom else NANOGPT_ENDPOINT
       | None \<Rightarrow> NANOGPT_ENDPOINT) path query"
| "impl_build_url parse (AnthropicCompatImpl cfg) path query a =
     with_query (custom_or a (cc_endpoint cfg)) path query"
| "impl_build_url parse (OpenAiCompatImpl cfg) path query a =
     with_query (custom_or a (cc_endpoint cfg)) (translate_path path) query"
| "impl_build_url parse VertexImpl path query a = vertex_build_url parse path query a"

definition vertex_transform ::
  "(string \<Rightarrow> json option) \<Rightarrow> (json \<Rightarrow> string option) \<Rightarrow> string \<Rightarrow> account \<Rightarrow>
     (string + string option) outcome" where
  "vertex_transform from_slice to_vec body a =
     (case from_slice body of
        None \<Rightarrow> Returns (Inl ''Request transform failed: Invalid JSON body'')
      | Some j \<Rightarrow>
          (let j = (case get_str j ''model'' of
                      None \<Rightarrow> j
                    | Some m \<Rightarrow>
                        (let mapped = get_model_name from_slice m (Some a)
                         in if mapped \<noteq> m then set_field ''model'' (JString mapped) j else j));
               j = remove_field ''model'' j
           in case index_assign ''anthropic_version'' (JString ''vertex-2023-10-16'') j of
                Panics \<Rightarrow> Panics
              | Returns j \<Rightarrow>
                  (case to_vec j of
                     None \<Rightarrow> Returns (Inl ''Request transform failed: Failed to serialize body'')
                   | Some b \<Rightarrow> Returns (Inr (Some b)))))"

text \<open>
  The body as each provider rewrites it. Printing a value as bytes or as a string gives
  the same text.
\<close>

fun impl_transform ::
  "(string \<Rightarrow> json option) \<Rightarrow> (json \<Rightarrow> string option) \<Rightarrow>
     provider_impl \<Rightarrow> string \<Rightarrow> account \<Rightarrow> (string + string option) outcome" where
  "impl_transform from_slice to_vec (MinimaxImpl _) body a =
     Returns (Inr (transform_body_model_force from_slice to_vec body ''MiniMax-M2''))"
| "impl_transform from_slice to_vec (OpenAiCompatImpl _) body a =
     (case anthropic_to_openai_request from_slice to_vec to_vec body of
        None \<Rightarrow> Returns (Inl ''Request transform failed: Failed to translate request body'')
      | Some t \<Rightarrow>
          Returns (Inr (Some (case transform_body_model from_slice to_vec t (Some a) of
              Some r \<Rightarrow> r | None \<Rightarrow> t))))"
| "impl_transform from_slice to_vec VertexImpl body a =
     vertex_transform from_slice to_vec body a"
| "impl_transform from_slice to_vec _ body a =
     Returns (Inr (transform_body_model from_slice to_vec body (Some a)))"

section \<open>The client's credentials stay with the proxy\<close>

text \<open>The values under the two authentication headers.\<close>

definition auth_values :: "header_map \<Rightarrow> string list" where
  "auth_values h = hdr_values ''authorization'' h @ hdr_values ''x-api-key'' h"

definition made_from :: "string option \<Rightarrow> string option \<Rightarrow> string \<Rightarrow> bool" where
  "made_from token key v \<longleftrightarrow>
     (\<exists>cred \<in> set_option token \<union> set_option key. v = cred \<or> v = ''Bearer '' @ cred)"

lemma auth_values_hop [simp]: "auth_values (strip_hop_by_hop h) = auth_values h"
  by (simp add: auth_values_def strip_hop_by_hop_def)

lemma auth_values_strip [simp]: "auth_values (strip_auth h) = []"
  by (simp add: auth_values_def strip_auth_def)

lemma auth_values_insert:
  "set (auth_values (hdr_insert n v h)) \<subseteq> insert v (set (auth_values h))"
  by (auto simp: auth_values_def)

lemma auth_values_other:
  "n \<noteq> ''authorization'' \<Longrightarrow> n \<noteq> ''x-api-key'' \<Longrightarrow>
     auth_values (hdr_insert n v h) = auth_values h \<and> auth_values (hdr_remove n h) = auth_values h"
  by (auto simp: auth_values_def)

lemma auth_values_beta [simp]: "auth_values (add_oauth_beta h) = auth_values h"
  by (simp add: add_oauth_beta_def auth_values_other split: option.split)

lemma parse_header_value_Some: "parse_header_value s = Some v \<Longrightarrow> v = s"
  by (simp add: parse_header_value_def split: if_splits)

lemma compat_auth:
  assumes "compat_prepare_headers cfg h token key = Inr h'"
  shows "\<forall>v \<in> set (auth_values h'). made_from token key v"
proof (cases "first_some token key")
  case None
  with assms have "h' = strip_hop_by_hop (strip_auth h)"
    by (simp add: compat_prepare_headers_def)
  then show ?thesis by simp
next
  case (Some cred)
  then have cred: "cred \<in> set_option token \<union> set_option key"
    by (auto simp: first_some_def split: option.splits)
  obtain hn hv where h': "h' = strip_hop_by_hop (hdr_insert hn hv (strip_auth h))"
    and hv: "hv = cred \<or> hv = ''Bearer '' @ cred"
    using assms Some
    by (auto simp: compat_prepare_headers_def Let_def dest!: parse_header_value_Some
        split: option.splits auth_type.splits)
  have "set (auth_values h') \<subseteq> {hv}"
    using auth_values_insert [of hn hv "strip_auth h"] by (simp add: h')
  with cred hv show ?thesis
    by (auto simp: made_from_def)
qed

lemma claude_auth:
  assumes "claude_prepare_headers h token key = Inr h'"
  shows "\<forall>v \<in> set (auth_values h'). made_from token key v"
proof -
  have "set (auth_values h') \<subseteq> (\<lambda>t. ''Bearer '' @ t) ` set_option token \<union> set_option key"
    using assms auth_values_insert
    by (fastforce simp: claude_prepare_headers_def Let_def dest!: parse_header_value_Some
        split: option.splits)
  then show ?thesis by (auto simp: made_from_def)
qed

lemma vertex_auth:
  assumes "vertex_prepare_headers h token key = Inr h'"
  shows "\<forall>v \<in> set (auth_values h'). made_from token key v"
proof -
  have "set (auth_values h') \<subseteq> (\<lambda>t. ''Bearer '' @ t) ` set_option token"
    using assms auth_values_insert
    by (fastforce simp: vertex_prepare_headers_def Let_def auth_values_other
        dest!: parse_header_value_Some split: option.splits)
  then show ?thesis by (auto simp: made_from_def)
qed

lemmas impl_auth = compat_auth claude_auth vertex_auth

text \<open>
  The client's credentials are not forwarded: whatever authentication headers a request
  arrives with, after any provider has prepared the headers every value under
  \<open>authorization\<close> and \<open>x-api-key\<close> is made from the account's own token or key.
\<close>

theorem no_client_credentials:
  assumes "impl_prepare_headers p h token key = Inr h'"
  shows "\<forall>v \<in> set (auth_values h'). made_from token key v"
  using assms by (cases p) (auto dest: impl_auth)

theorem no_client_credentials_witness:
  "\<forall>v \<in> set (auth_values [(''authorization'', ''Bearer t''), (''anthropic-beta'', OAUTH_BETA_HEADER)]).
     made_from (Some ''t'') None v"
  by (rule no_client_credentials [of "ClaudeImpl ClaudeOAuthMode'" "[(''x-api-key'', ''client'')]"])
     (simp add: claude_prepare_headers_def strip_auth_def hdr_remove_def hdr_insert_def
        parse_header_value_def visible_ascii_def byte_def add_oauth_beta_def header_str_def
        strip_hop_by_hop_def OAUTH_BETA_HEADER_def)

section \<open>The registry and the stored provider names\<close>

lemma reg_get_create:
  "reg_get create_provider_registry name =
     map_of [(''claude-oauth'', ClaudeImpl ClaudeOAuthMode'), (''anthropic'', ClaudeImpl ClaudeOAuthMode'),
       (''console'', ClaudeImpl ConsoleMode'), (''zai'', ZaiImpl zai_config),
       (''minimax'', MinimaxImpl minimax_config), (''nanogpt'', NanoGptImpl nanogpt_config),
       (''anthropic-compatible'', AnthropicCompatImpl anthropic_compat_default),
       (''openai-compatible'', OpenAiCompatImpl openai_compat_default),
       (''vertex-ai'', VertexImpl)] name"
  by (simp add: create_provider_registry_def registry_new_def reg_register_oauth_def
      reg_register_as_def reg_register_def reg_get_def impl_name_def anthropic_compat_default_def
      openai_compat_default_def Let_def)

text \<open>
  One account mode has no implementation: the registry knows the provider of every mode but
  \<open>console\<close>, whose accounts are stored under the name \<open>claude-console-api\<close> while the
  implementation is registered as \<open>console\<close>. Requests to such an account end in an error.
\<close>

theorem console_accounts_unserved:
  "filter (\<lambda>m. reg_get create_provider_registry (mode_to_provider m) = None) VALID_MODES =
   [''console'']"
  by (simp add: VALID_MODES_def mode_to_provider_def reg_get_create)

text \<open>
  No newly created account has session affinity: the provider name stored for the mode
  \<open>claude-oauth\<close> is not among the names that \<open>from_str_loose\<close> knows, and the providers of the
  other modes do not track sessions.
\<close>

theorem created_accounts_untracked:
  "list_all (\<lambda>m. \<not> requires_session_tracking (mode_to_provider m)) VALID_MODES"
  by (simp add: VALID_MODES_def mode_to_provider_def requires_session_tracking_def
      provider_from_str_loose_def provider_requires_session_tracking_def)

section \<open>Vertex model names\<close>

lemma ascii_nth: "is_ascii s \<Longrightarrow> i < length s \<Longrightarrow> \<not> in_range 0x80 0xBF (s ! i)"
  unfolding is_ascii_def list_all_length in_range_def by fastforce

text \<open>
  The conversion of model names to the format of Vertex AI can be undone: a name in ASCII
  without an at sign survives the round trip, dated or not.
\<close>

theorem vertex_model_roundtrip:
  assumes "is_ascii model" "CHR ''@'' \<notin> set model"
  shows "\<exists>v. to_vertex_model model = Returns v \<and> from_vertex_model v = model"
proof (cases "length model \<ge> 10 \<and> hd (drop (length model - 9) model) = CHR ''-'' \<and>
    list_all is_digit (tl (drop (length model - 9) model))")
  case False
  have "\<not> in_range 0x80 0xBF (model ! (length model - 9))" if "length model \<ge> 10"
    using assms(1) that ascii_nth [of model "length model - 9"] by simp
  with False have "to_vertex_model model = Returns model"
    by (auto simp: to_vertex_model_def Let_def)
  with assms(2) show ?thesis by (simp add: from_vertex_model_def)
next
  case True
  let ?k = "length model - 9"
  define pre suf where "pre = take ?k model" and "suf = tl (drop ?k model)"
  have len: "length suf = 8"
    using True by (simp add: suf_def)
  have "drop ?k model \<noteq> []"
    using True by auto
  then have "drop ?k model = CHR ''-'' # suf"
    using True by (metis list.collapse suf_def)
  then have model: "model = pre @ ''-'' @ suf"
    by (metis append_Cons append_Nil append_take_drop_id pre_def)
  have "\<not> in_range 0x80 0xBF (model ! ?k)"
    by (rule ascii_nth [OF assms(1)]) (use True in linarith)
  then have v: "to_vertex_model model = Returns (pre @ ''@'' @ suf)"
    using True by (simp add: to_vertex_model_def pre_def suf_def Let_def)
  have no: "CHR ''@'' \<notin> set suf" "CHR ''@'' \<notin> set pre"
    using assms(2) by (auto simp: model)
  have "takeWhile (\<lambda>c. c \<noteq> CHR ''@'') (rev suf @ CHR ''@'' # rev pre) = rev suf"
    using no(1) by (subst takeWhile_append2) auto
  then have "takeWhile (\<lambda>c. c \<noteq> CHR ''@'') (rev (pre @ ''@'' @ suf)) = rev suf"
    by simp
  moreover have "list_all is_digit suf"
    using True by (simp add: suf_def)
  ultimately have "from_vertex_model (pre @ ''@'' @ suf) = model"
    using len by (simp add: from_vertex_model_def model)
  with v show ?thesis by blast
qed

theorem vertex_model_roundtrip_witness:
  "\<exists>v. to_vertex_model ''claude-haiku-4-5-20251001'' = Returns v \<and>
     from_vertex_model v = ''claude-haiku-4-5-20251001''"
  by (rule vertex_model_roundtrip) (simp_all add: is_ascii_def byte_def)

end
