(* ===== verification/Streaming.thy ===== *)
theory Streaming
  imports Text_Json Rate_Limit
begin

text \<open>
  Streamed responses, \<open>crates/proxy/src/streaming.rs\<close>: the bounded buffer kept for analytics, the
  stream that copies into it while it forwards, the line parser of server-sent events, and the
  token counts read from the events. A poll of the inner stream carries the instant at which
  it is ready; instants and durations are nanoseconds.
\<close>

section \<open>The analytics buffer\<close>

definition STREAM_TIMEOUT_MS :: int where "STREAM_TIMEOUT_MS = 300000"
definition CHUNK_TIMEOUT_MS :: int where "CHUNK_TIMEOUT_MS = 30000"
definition ANALYTICS_MAX_BYTES :: nat where "ANALYTICS_MAX_BYTES = 1048576"

definition from_millis :: "int \<Rightarrow> int" where "from_millis ms = ms * 10 ^ 6"

record analytics_buffer =
  chunks :: "string list"
  total_bytes :: nat
  truncated :: bool

definition buffer_new :: analytics_buffer where
  "buffer_new = \<lparr>chunks = [], total_bytes = 0, truncated = False\<rparr>"

definition buffer_push :: "analytics_buffer \<Rightarrow> string \<Rightarrow> analytics_buffer" where
  "buffer_push b chunk =
     (if truncated b then b
      else if total_bytes b + length chunk \<le> ANALYTICS_MAX_BYTES then
        b\<lparr>chunks := chunks b @ [chunk], total_bytes := total_bytes b + length chunk\<rparr>
      else
        (let room = ANALYTICS_MAX_BYTES - total_bytes b;
             b = (if room > 0
                  then b\<lparr>chunks := chunks b @ [take room chunk], total_bytes := total_bytes b + room\<rparr>
                  else b)
         in b\<lparr>truncated := True\<rparr>))"

text \<open>The buffer after \<open>bytes\<close> went in: their first megabyte, and whether there was more.\<close>

definition holds_prefix :: "analytics_buffer \<Rightarrow> string \<Rightarrow> bool" where
  "holds_prefix b bytes \<longleftrightarrow>
     concat (chunks b) = take ANALYTICS_MAX_BYTES bytes \<and>
     total_bytes b = length (concat (chunks b)) \<and>
     (truncated b \<longleftrightarrow> ANALYTICS_MAX_BYTES < length bytes)"

lemma holds_prefix_new: "holds_prefix buffer_new []"
  by (simp add: holds_prefix_def buffer_new_def)

lemma holds_prefix_push:
  assumes "holds_prefix b bytes"
  shows "holds_prefix (buffer_push b chunk) (bytes @ chunk)"
proof (cases "truncated b")
  case True
  with assms show ?thesis by (simp add: holds_prefix_def buffer_push_def)
next
  case False
  with assms have "concat (chunks b) = bytes" "total_bytes b = length bytes"
    "length bytes \<le> ANALYTICS_MAX_BYTES"
    by (auto simp: holds_prefix_def)
  with False show ?thesis
    by (auto simp: holds_prefix_def buffer_push_def Let_def)
qed

section \<open>The tee\<close>

text \<open>What the inner stream answers to a poll: a chunk, an error, the end, or nothing yet.\<close>

datatype 'e polled = Chunk string | ChunkError 'e | StreamEnd | Pending

record tee_state =
  tee_buffer :: analytics_buffer
  stream_start :: instant
  last_chunk :: instant
  timed_out :: bool
  tee_tx :: bool
  received :: "analytics_buffer option"

text \<open>
  The sender is there until it is used; \<open>received\<close> is the other end of the channel. A receiver
  that is gone is the same to the sender.
\<close>

definition send_buffer :: "tee_state \<Rightarrow> analytics_buffer \<Rightarrow> tee_state" where
  "send_buffer st b = (if tee_tx st then st\<lparr>tee_tx := False, received := Some b\<rparr> else st)"

definition tee_drop :: "tee_state \<Rightarrow> tee_state" where
  "tee_drop st = (if tee_tx st then (send_buffer st (tee_buffer st))\<lparr>tee_buffer := buffer_new\<rparr> else st)"

definition tee_poll_next :: "tee_state \<Rightarrow> 'e polled \<Rightarrow> instant \<Rightarrow> 'e polled \<times> tee_state" where
  "tee_poll_next st answer now =
     (case answer of
        Chunk chunk \<Rightarrow>
          (let late =
                 (if duration_since now (stream_start st) > from_millis STREAM_TIMEOUT_MS then True
                  else if duration_since now (last_chunk st) > from_millis CHUNK_TIMEOUT_MS \<and>
                          \<not> timed_out st then True
                  else timed_out st);
               st = st\<lparr>timed_out := late, last_chunk := now\<rparr>;
               st = (if \<not> timed_out st
                     then st\<lparr>tee_buffer := buffer_push (tee_buffer st) chunk\<rparr> else st)
           in (Chunk chunk, st))
      | ChunkError e \<Rightarrow> (ChunkError e, st)
      | StreamEnd \<Rightarrow> (StreamEnd, send_buffer (st\<lparr>tee_buffer := buffer_new\<rparr>) (tee_buffer st))
      | Pending \<Rightarrow> (Pending, st))"

definition tee_stream :: "instant \<Rightarrow> tee_state" where
  "tee_stream now =
     \<lparr>tee_buffer = buffer_new, stream_start = now, last_chunk = now, timed_out = False,
      tee_tx = True, received = None\<rparr>"

text \<open>A client that polls for a while and then drops the stream, whether or not it has ended.\<close>

fun tee_polls :: "tee_state \<Rightarrow> ('e polled \<times> instant) list \<Rightarrow> 'e polled list \<times> tee_state" where
  "tee_polls st [] = ([], st)"
| "tee_polls st ((answer, now) # ps) =
     (let (out, st) = tee_poll_next st answer now;
          (outs, st) = tee_polls st ps
      in (out # outs, st))"

definition tee_run :: "instant \<Rightarrow> ('e polled \<times> instant) list \<Rightarrow> 'e polled list \<times> tee_state" where
  "tee_run start ps = (let (outs, st) = tee_polls (tee_stream start) ps in (outs, tee_drop st))"

text \<open>
  The bytes that arrive in time: until the stream ends, or a chunk comes more than five minutes
  after the start or thirty seconds after the one before it.
\<close>

fun timely_bytes :: "instant \<Rightarrow> instant \<Rightarrow> ('e polled \<times> instant) list \<Rightarrow> string" where
  "timely_bytes start prev [] = []"
| "timely_bytes start prev ((Chunk c, now) # ps) =
     (if duration_since now start > 300 * 10 ^ 9 \<or> duration_since now prev > 30 * 10 ^ 9 then []
      else c @ timely_bytes start now ps)"
| "timely_bytes start prev ((ChunkError e, now) # ps) = timely_bytes start prev ps"
| "timely_bytes start prev ((StreamEnd, now) # ps) = []"
| "timely_bytes start prev ((Pending, now) # ps) = timely_bytes start prev ps"

lemma fst_tee_poll_next [simp]: "fst (tee_poll_next st answer now) = answer"
  by (simp add: tee_poll_next_def Let_def split: polled.split)

lemma tee_polls_Cons [simp]:
  "fst (tee_polls st ((answer, now) # ps)) =
     answer # fst (tee_polls (snd (tee_poll_next st answer now)) ps)"
  "snd (tee_polls st ((answer, now) # ps)) =
     snd (tee_polls (snd (tee_poll_next st answer now)) ps)"
  by (simp_all add: Let_def case_prod_beta)

lemma tee_polls_transparent: "fst (tee_polls st ps) = map fst ps"
  by (induction ps arbitrary: st) (auto simp del: tee_polls.simps(2))

lemma timeouts [simp]:
  "from_millis STREAM_TIMEOUT_MS = 300 * 10 ^ 9" "from_millis CHUNK_TIMEOUT_MS = 30 * 10 ^ 9"
  by (simp_all add: from_millis_def STREAM_TIMEOUT_MS_def CHUNK_TIMEOUT_MS_def)

text \<open>Once the buffer is sent, nothing changes what was received.\<close>

lemma tee_polls_sent:
  "\<not> tee_tx st \<Longrightarrow> received (tee_drop (snd (tee_polls st ps))) = received st"
proof (induction ps arbitrary: st)
  case Nil
  then show ?case by (simp add: tee_drop_def)
next
  case (Cons p ps)
  obtain answer now where p: "p = (answer, now)" by (cases p)
  let ?st = "snd (tee_poll_next st answer now)"
  have "\<not> tee_tx ?st \<and> received ?st = received st"
    using Cons.prems by (auto simp: tee_poll_next_def send_buffer_def Let_def split: polled.split)
  with Cons.IH [of ?st] show ?case
    by (simp add: p del: tee_polls.simps(2))
qed

text \<open>The end of the stream sends what the buffer holds.\<close>

lemma tee_polls_end:
  "tee_tx st \<Longrightarrow>
     received (tee_drop (snd (tee_polls st ((StreamEnd, now) # ps)))) = Some (tee_buffer st)"
  using tee_polls_sent [of "snd (tee_poll_next st StreamEnd now)" ps]
  by (simp add: tee_poll_next_def send_buffer_def del: tee_polls.simps(2))

text \<open>After a timeout the buffer is kept as it is.\<close>

lemma tee_polls_late:
  "tee_tx st \<Longrightarrow> timed_out st \<Longrightarrow> received (tee_drop (snd (tee_polls st ps))) = Some (tee_buffer st)"
proof (induction ps arbitrary: st)
  case Nil
  then show ?case by (simp add: tee_drop_def send_buffer_def)
next
  case (Cons p ps)
  obtain answer now where p: "p = (answer, now)" by (cases p)
  show ?case
  proof (cases "answer = StreamEnd")
    case True
    with tee_polls_end Cons.prems show ?thesis by (simp add: p del: tee_polls.simps(2))
  next
    case False
    let ?st = "snd (tee_poll_next st answer now)"
    have "tee_tx ?st \<and> timed_out ?st \<and> tee_buffer ?st = tee_buffer st"
      using Cons.prems False by (auto simp: tee_poll_next_def Let_def split: polled.split)
    with Cons.IH [of ?st] show ?thesis by (simp add: p del: tee_polls.simps(2))
  qed
qed

lemma tee_polls_received:
  assumes "tee_tx st" "\<not> timed_out st" "holds_prefix (tee_buffer st) bytes"
  shows "\<exists>b. received (tee_drop (snd (tee_polls st ps))) = Some b \<and>
    holds_prefix b (bytes @ timely_bytes (stream_start st) (last_chunk st) ps)"
  using assms
proof (induction ps arbitrary: st bytes)
  case Nil
  then show ?case by (simp add: tee_drop_def send_buffer_def)
next
  case (Cons p ps)
  obtain answer now where p: "p = (answer, now)" by (cases p)
  show ?case
  proof (cases answer)
    case (Chunk c)
    let ?late = "duration_since now (stream_start st) > 300 * 10 ^ 9 \<or>
      duration_since now (last_chunk st) > 30 * 10 ^ 9"
    show ?thesis
    proof (cases ?late)
      case True
      let ?st = "st\<lparr>timed_out := True, last_chunk := now\<rparr>"
      from True Cons.prems have "snd (tee_poll_next st answer now) = ?st"
        by (auto simp: tee_poll_next_def Chunk Let_def)
      moreover from tee_polls_late [of ?st ps] Cons.prems
      have "received (tee_drop (snd (tee_polls ?st ps))) = Some (tee_buffer st)" by simp
      moreover from True have "timely_bytes (stream_start st) (last_chunk st) (p # ps) = []"
        by (simp only: p Chunk timely_bytes.simps if_True)
      ultimately show ?thesis
        using Cons.prems(3) by (simp only: p tee_polls_Cons(2)) simp
    next
      case False
      let ?st = "st\<lparr>timed_out := False, last_chunk := now, tee_buffer := buffer_push (tee_buffer st) c\<rparr>"
      from False Cons.prems have "snd (tee_poll_next st answer now) = ?st"
        by (auto simp: tee_poll_next_def Chunk Let_def)
      moreover from Cons.IH [of ?st "bytes @ c"] Cons.prems holds_prefix_push
      obtain b where "received (tee_drop (snd (tee_polls ?st ps))) = Some b"
        "holds_prefix b ((bytes @ c) @ timely_bytes (stream_start st) now ps)" by auto
      moreover from False have "timely_bytes (stream_start st) (last_chunk st) (p # ps) =
          c @ timely_bytes (stream_start st) now ps"
        by (simp only: p Chunk timely_bytes.simps if_False)
      ultimately show ?thesis
        by (simp only: p tee_polls_Cons(2)) simp
    qed
  next
    case StreamEnd
    with tee_polls_end [OF Cons.prems(1), of now ps] Cons.prems(3) show ?thesis
      by (intro exI [of _ "tee_buffer st"]) (simp add: p del: tee_polls.simps(2) tee_polls_Cons)
  next
    case (ChunkError e)
    with Cons.IH [OF Cons.prems] show ?thesis
      by (simp add: p tee_poll_next_def del: tee_polls.simps(2))
  next
    case Pending
    with Cons.IH [OF Cons.prems] show ?thesis
      by (simp add: p tee_poll_next_def del: tee_polls.simps(2))
  qed
qed

text \<open>
  The tee is transparent and bounded: the client gets every item of the inner stream as it
  came; and the analytics side gets exactly one buffer, at the end of the stream or when the
  client drops it, with the first megabyte of the bytes that arrived in time, flagged exactly
  when there were more.
\<close>

theorem tee_transparent:
  "fst (tee_run start ps) = map fst ps \<and>
   (\<exists>b. received (snd (tee_run start ps)) = Some b \<and>
      holds_prefix b (timely_bytes start start ps))"
proof -
  from tee_polls_received [of "tee_stream start" "[]" ps] holds_prefix_new
  have "\<exists>b. received (tee_drop (snd (tee_polls (tee_stream start) ps))) = Some b \<and>
      holds_prefix b (timely_bytes start start ps)"
    by (simp add: tee_stream_def)
  then show ?thesis
    using tee_polls_transparent [of "tee_stream start" ps]
    by (auto simp: tee_run_def split: prod.splits)
qed

section \<open>Server-sent events\<close>

record sse_event =
  event_type :: "string option"
  event_data :: string

record sse_parser =
  byte_buffer :: string
  current_event :: "string option"

definition sse_parser_new :: sse_parser where
  "sse_parser_new = \<lparr>byte_buffer = [], current_event = None\<rparr>"

definition newline :: char where "newline = CHR 0x0A"

text \<open>The field after a name, with one space after the colon left out.\<close>

definition sse_field :: "string \<Rightarrow> string \<Rightarrow> string option" where
  "sse_field line name =
     (case strip_prefix line (name @ '': '') of
        Some v \<Rightarrow> Some v
      | None \<Rightarrow> strip_prefix line (name @ '':''))"

text \<open>One complete line: the events it completes and the current event type after it.\<close>

definition line_effect :: "string option \<Rightarrow> string \<Rightarrow> string option \<times> sse_event list" where
  "line_effect current line_bytes =
     (let line_bytes = (case strip_suffix line_bytes [CHR 0x0D] of Some l \<Rightarrow> l | None \<Rightarrow> line_bytes)
      in if line_bytes = [] then (None, [])
         else if \<not> utf8_valid line_bytes then (current, [])
         else case sse_field line_bytes ''event'' of
             Some t \<Rightarrow> (Some (trim t), [])
           | None \<Rightarrow>
               (case sse_field line_bytes ''data'' of
                  Some d \<Rightarrow> (current, [\<lparr>event_type = current, event_data = d\<rparr>])
                | None \<Rightarrow> (current, [])))"

definition process_line :: "sse_parser \<Rightarrow> string \<Rightarrow> sse_event list \<Rightarrow> sse_parser \<times> sse_event list" where
  "process_line p line events =
     (case line_effect (current_event p) line of
        (cur, es) \<Rightarrow> (p\<lparr>current_event := cur\<rparr>, events @ es))"

lemma byte_buffer_process_line [simp]:
  "byte_buffer (fst (process_line p line events)) = byte_buffer p"
  by (simp add: process_line_def split: prod.split)

function feed_loop :: "sse_parser \<Rightarrow> sse_event list \<Rightarrow> sse_parser \<times> sse_event list" where
  "feed_loop p events =
     (if newline \<notin> set (byte_buffer p) then (p, events)
      else
        (let line = takeWhile (\<lambda>b. b \<noteq> newline) (byte_buffer p);
             rest = drop (Suc (length line)) (byte_buffer p);
             nxt = process_line (p\<lparr>byte_buffer := rest\<rparr>) line events
         in feed_loop (fst nxt) (snd nxt)))"
  by pat_completeness auto
termination
  by (relation "measure (\<lambda>x. length (byte_buffer (fst x)))") (auto intro!: diff_less)

declare feed_loop.simps [simp del]

definition feed :: "sse_parser \<Rightarrow> string \<Rightarrow> sse_parser \<times> sse_event list" where
  "feed p chunk = feed_loop (p\<lparr>byte_buffer := byte_buffer p @ chunk\<rparr>) []"

definition flush :: "sse_parser \<Rightarrow> sse_parser \<times> sse_event list" where
  "flush p =
     (if byte_buffer p = [] then (p, [])
      else process_line (p\<lparr>byte_buffer := []\<rparr>) (byte_buffer p) [])"

section \<open>Token usage\<close>

record stream_usage =
  su_model :: "string option"
  su_input_tokens :: "i64 option"
  su_output_tokens :: "i64 option"
  su_cache_read_input_tokens :: "i64 option"
  su_cache_creation_input_tokens :: "i64 option"

definition stream_usage_default :: stream_usage where
  "stream_usage_default =
     \<lparr>su_model = None, su_input_tokens = None, su_output_tokens = None,
      su_cache_read_input_tokens = None, su_cache_creation_input_tokens = None\<rparr>"

definition get_i64 :: "json \<Rightarrow> string \<Rightarrow> i64 option" where
  "get_i64 j k = Option.bind (json_get j k) as_i64"

definition keep_some :: "'a option \<Rightarrow> 'a option \<Rightarrow> 'a option" where
  "keep_some new old = (case new of Some v \<Rightarrow> Some v | None \<Rightarrow> old)"

definition extract_usage_from_sse_data ::
  "(string \<Rightarrow> json option) \<Rightarrow> string \<Rightarrow> stream_usage \<Rightarrow> stream_usage" where
  "extract_usage_from_sse_data from_str data usage =
     (if \<not> contains_str data ''message_start'' \<and> \<not> contains_str data ''message_delta'' then usage
      else case from_str data of
          None \<Rightarrow> usage
        | Some j \<Rightarrow>
            (let t = (case get_str j ''type'' of Some t \<Rightarrow> t | None \<Rightarrow> [])
             in if t = ''message_start'' then
                  (case json_get j ''message'' of
                     None \<Rightarrow> usage
                   | Some message \<Rightarrow>
                       (let usage = usage\<lparr>su_model :=
                              keep_some (get_str message ''model'') (su_model usage)\<rparr>
                        in case json_get message ''usage'' of
                             None \<Rightarrow> usage
                           | Some u \<Rightarrow> usage
                               \<lparr>su_input_tokens :=
                                  keep_some (get_i64 u ''input_tokens'') (su_input_tokens usage),
                                su_cache_read_input_tokens :=
                                  keep_some (get_i64 u ''cache_read_input_tokens'')
                                    (su_cache_read_input_tokens usage),
                                su_cache_creation_input_tokens :=
                                  keep_some (get_i64 u ''cache_creation_input_tokens'')
                                    (su_cache_creation_input_tokens usage)\<rparr>))
                else if t = ''message_delta'' then
                  (case json_get j ''usage'' of
                     None \<Rightarrow> usage
                   | Some u \<Rightarrow> usage\<lparr>su_output_tokens :=
                       keep_some (get_i64 u ''output_tokens'') (su_output_tokens usage)\<rparr>)
                else usage))"

definition extract_usage_from_response ::
  "(string \<Rightarrow> json option) \<Rightarrow> string \<Rightarrow> stream_usage option" where
  "extract_usage_from_response from_slice body =
     Option.bind (from_slice body) (\<lambda>j.
       Option.bind (json_get j ''usage'') (\<lambda>u. Some
         \<lparr>su_model = get_str j ''model'',
          su_input_tokens = get_i64 u ''input_tokens'',
          su_output_tokens = get_i64 u ''output_tokens'',
          su_cache_read_input_tokens = get_i64 u ''cache_read_input_tokens'',
          su_cache_creation_input_tokens = get_i64 u ''cache_creation_input_tokens''\<rparr>))"

definition use_events ::
  "(string \<Rightarrow> json option) \<Rightarrow> sse_event list \<Rightarrow> stream_usage \<Rightarrow> stream_usage" where
  "use_events from_str events usage =
     fold (\<lambda>e. extract_usage_from_sse_data from_str (event_data e)) events usage"

fun feed_chunks ::
  "(string \<Rightarrow> json option) \<Rightarrow> sse_parser \<Rightarrow> string list \<Rightarrow> stream_usage \<Rightarrow>
     sse_parser \<times> stream_usage" where
  "feed_chunks from_str p [] usage = (p, usage)"
| "feed_chunks from_str p (c # cs) usage =
     (case feed p c of (p, events) \<Rightarrow> feed_chunks from_str p cs (use_events from_str events usage))"

definition extract_usage_from_buffer ::
  "(string \<Rightarrow> json option) \<Rightarrow> analytics_buffer \<Rightarrow> stream_usage" where
  "extract_usage_from_buffer from_str b =
     (let (p, usage) = feed_chunks from_str sse_parser_new (chunks b) stream_usage_default
      in use_events from_str (snd (flush p)) usage)"

section \<open>Chunk boundaries do not matter\<close>

text \<open>The events of a whole text: its lines, each with the event type of the lines before.\<close>

fun line_events :: "string option \<Rightarrow> string list \<Rightarrow> string option \<times> sse_event list" where
  "line_events cur [] = (cur, [])"
| "line_events cur (l # ls) =
     (let (cur, es) = line_effect cur l; (cur, es') = line_events cur ls in (cur, es @ es'))"

definition sse_events :: "string \<Rightarrow> sse_event list" where
  "sse_events text = snd (line_events None (split_on newline text))"

text \<open>What a parser will have emitted once \<open>text\<close> and then the end arrive.\<close>

definition pending_events :: "sse_parser \<Rightarrow> string \<Rightarrow> sse_event list" where
  "pending_events p text =
     snd (line_events (current_event p) (split_on newline (byte_buffer p @ text)))"

lemma take_drop_line:
  "c \<in> set s \<Longrightarrow>
     s = takeWhile (\<lambda>b. b \<noteq> c) s @ c # drop (Suc (length (takeWhile (\<lambda>b. b \<noteq> c) s))) s"
  by (induction s) auto

lemma feed_loop_pending:
  "snd (feed_loop p events) @ pending_events (fst (feed_loop p events)) text =
     events @ pending_events p text"
proof (induction p events rule: feed_loop.induct)
  case (1 p events)
  show ?case
  proof (cases "newline \<in> set (byte_buffer p)")
    case False
    then show ?thesis by (simp add: feed_loop.simps)
  next
    case True
    define line where "line = takeWhile (\<lambda>b. b \<noteq> newline) (byte_buffer p)"
    define rest where "rest = drop (Suc (length line)) (byte_buffer p)"
    define nxt where "nxt = process_line (p\<lparr>byte_buffer := rest\<rparr>) line events"
    have loop: "feed_loop p events = feed_loop (fst nxt) (snd nxt)"
      using True by (subst feed_loop.simps) (simp add: line_def rest_def nxt_def Let_def)
    have IH: "snd (feed_loop (fst nxt) (snd nxt)) @
        pending_events (fst (feed_loop (fst nxt) (snd nxt))) text =
        snd nxt @ pending_events (fst nxt) text"
      using "1.IH" [of line rest nxt] True by (simp add: line_def rest_def nxt_def)
    obtain cur es where eff: "line_effect (current_event p) line = (cur, es)"
      by (cases "line_effect (current_event p) line")
    have "newline \<notin> set line"
      unfolding line_def by (auto dest: set_takeWhileD)
    moreover have "byte_buffer p = line @ newline # rest"
      using take_drop_line [OF True] by (simp add: line_def rest_def)
    ultimately have "pending_events p text =
        es @ snd (line_events cur (split_on newline (rest @ text)))"
      by (simp add: pending_events_def split_on_append eff split: prod.split)
    moreover have "snd nxt = events @ es"
      "pending_events (fst nxt) text = snd (line_events cur (split_on newline (rest @ text)))"
      by (simp_all add: nxt_def process_line_def eff pending_events_def)
    ultimately show ?thesis
      using IH by (simp add: loop)
  qed
qed

lemma feed_pending:
  "feed p c = (p', events) \<Longrightarrow> events @ pending_events p' text = pending_events p (c @ text)"
  using feed_loop_pending [of "p\<lparr>byte_buffer := byte_buffer p @ c\<rparr>" "[]" "text"]
  by (simp add: feed_def pending_events_def)

lemma feed_loop_no_newline: "newline \<notin> set (byte_buffer (fst (feed_loop p events)))"
proof (induction p events rule: feed_loop.induct)
  case (1 p events)
  then show ?case
    by (cases "newline \<in> set (byte_buffer p)") (subst feed_loop.simps, simp add: Let_def)+
qed

lemma flush_pending: "newline \<notin> set (byte_buffer p) \<Longrightarrow> snd (flush p) = pending_events p []"
  by (simp add: flush_def process_line_def pending_events_def split_on_no_sep line_effect_def
      strip_suffix_def split: prod.split)

lemma use_events_append [simp]:
  "use_events f (es @ es') u = use_events f es' (use_events f es u)"
  by (simp add: use_events_def)

lemma feed_chunks_pending:
  assumes "newline \<notin> set (byte_buffer p)"
  shows "(case feed_chunks f p cs u of (p', u') \<Rightarrow> use_events f (snd (flush p')) u') =
    use_events f (pending_events p (concat cs)) u"
  using assms
proof (induction cs arbitrary: p u)
  case Nil
  then show ?case by (simp add: flush_pending)
next
  case (Cons c cs)
  obtain p' events where f: "feed p c = (p', events)" by (cases "feed p c")
  with feed_loop_no_newline [of "p\<lparr>byte_buffer := byte_buffer p @ c\<rparr>" "[]"]
  have "newline \<notin> set (byte_buffer p')" by (simp add: feed_def)
  from Cons.IH [OF this] show ?case
    by (simp add: f feed_pending [OF f, symmetric])
qed

text \<open>
  C17. Token counts do not depend on how the network cut the stream: feeding the chunks one by
  one through the incremental parser gives what one pass over the lines of the whole text gives,
  also when a chunk ends inside a line or a character, and with the last line unterminated.
\<close>

theorem usage_ignores_chunking:
  "extract_usage_from_buffer from_str b =
     use_events from_str (sse_events (concat (chunks b))) stream_usage_default"
  using feed_chunks_pending [of sse_parser_new from_str "chunks b" stream_usage_default]
  by (simp add: extract_usage_from_buffer_def sse_parser_new_def pending_events_def sse_events_def)

end
