(* ===== verification/Path_Validator.thy ===== *)
theory Path_Validator
  imports Text_Json
begin

text \<open>
  The two path checks of \<open>crates/core/src/path_validator.rs\<close>: \<open>is_safe_request_path\<close>, which the
  proxy applies to every URL path, and \<open>validate_path\<close> for files. Paths are byte strings. A
  resolved file path is its list of components, as \<open>std::path\<close> cuts it on Unix.
\<close>

section \<open>Request paths\<close>

definition has_traversal :: "string \<Rightarrow> bool" where
  "has_traversal s \<longleftrightarrow> contains_str s ''..'' \<or> CHR 0x00 \<in> set s"

definition hex_val :: "char \<Rightarrow> nat option" where
  "hex_val c =
     (if in_range 48 57 c then Some (byte c - 48)
      else if in_range 97 102 c then Some (byte c - 97 + 10)
      else if in_range 65 70 c then Some (byte c - 65 + 10)
      else None)"

text \<open>\<open>(hi << 4) | lo\<close> of two four-bit values.\<close>

definition join_nibbles :: "nat \<Rightarrow> nat \<Rightarrow> char" where
  "join_nibbles hi lo = char_of (hi * 16 + lo)"

fun percent_bytes :: "string \<Rightarrow> string" where
  "percent_bytes [] = []"
| "percent_bytes (c # cs) =
     (if c = CHR ''%'' then
        (case cs of
           h # l # rest \<Rightarrow>
             (case (hex_val h, hex_val l) of
                (Some hi, Some lo) \<Rightarrow> join_nibbles hi lo # percent_bytes rest
              | _ \<Rightarrow> c # percent_bytes cs)
         | _ \<Rightarrow> c # percent_bytes cs)
      else c # percent_bytes cs)"

definition simple_percent_decode :: "string \<Rightarrow> string" where
  "simple_percent_decode s = from_utf8_lossy (percent_bytes s)"

fun decode_rounds :: "nat \<Rightarrow> string \<Rightarrow> bool" where
  "decode_rounds 0 current = True"
| "decode_rounds (Suc n) current =
     (let decoded = simple_percent_decode current
      in if has_traversal decoded then False
         else if decoded = current then True
         else decode_rounds n decoded)"

definition is_safe_request_path :: "string \<Rightarrow> bool" where
  "is_safe_request_path path = (if has_traversal path then False else decode_rounds 8 path)"

lemma decode_rounds_iff:
  "\<not> has_traversal s \<Longrightarrow>
     decode_rounds n s \<longleftrightarrow> (\<forall>k\<le>n. \<not> has_traversal ((simple_percent_decode ^^ k) s))"
proof (induction n arbitrary: s)
  case 0
  then show ?case by simp
next
  case (Suc n)
  let ?d = "simple_percent_decode"
  have split: "(\<forall>k\<le>Suc n. \<not> has_traversal ((?d ^^ k) s)) \<longleftrightarrow>
      (\<forall>k\<le>n. \<not> has_traversal ((?d ^^ k) (?d s)))"
  proof
    assume "\<forall>k\<le>Suc n. \<not> has_traversal ((?d ^^ k) s)"
    then show "\<forall>k\<le>n. \<not> has_traversal ((?d ^^ k) (?d s))"
      by (metis Suc_le_mono funpow_simps_right(2) o_apply)
  next
    assume all: "\<forall>k\<le>n. \<not> has_traversal ((?d ^^ k) (?d s))"
    show "\<forall>k\<le>Suc n. \<not> has_traversal ((?d ^^ k) s)"
    proof (intro allI impI)
      fix k
      assume "k \<le> Suc n"
      with all Suc.prems show "\<not> has_traversal ((?d ^^ k) s)"
        by (cases k) (auto simp: funpow_swap1)
    qed
  qed
  show ?case
  proof (cases "has_traversal (?d s)")
    case True
    then have "\<not> (\<forall>k\<le>n. \<not> has_traversal ((?d ^^ k) (?d s)))"
      by (intro notI) (metis funpow_0 zero_le)
    with True split show ?thesis by simp
  next
    case False
    show ?thesis
    proof (cases "?d s = s")
      case True
      then have "(?d ^^ k) s = s" for k
        by (induction k) auto
      with True Suc.prems show ?thesis by (simp add: Let_def)
    next
      case neq: False
      then show ?thesis using Suc.IH [OF False] False split by simp
    qed
  qed
qed

lemma list_all_upt_9: "list_all P [0..<9] \<longleftrightarrow> (\<forall>k\<le>8. P k)"
proof -
  have "k \<in> set [0..<9] \<longleftrightarrow> k \<le> 8" for k :: nat
    unfolding set_upt atLeastLessThan_iff by linarith
  then show ?thesis unfolding list_all_iff by blast
qed

text \<open>
  The request path check looks through nested percent-encoding: a path is safe exactly when
  neither the path itself nor any of its first eight decodings contains two dots in a row or a
  NUL. The early stop at a fixed point loses nothing.
\<close>

theorem safe_path_readings:
  "is_safe_request_path path \<longleftrightarrow>
     list_all (\<lambda>k. \<not> has_traversal ((simple_percent_decode ^^ k) path)) [0..<9]"
proof (cases "has_traversal path")
  case True
  then have "\<not> (\<forall>k\<le>8. \<not> has_traversal ((simple_percent_decode ^^ k) path))"
    by (intro notI) (metis funpow_0 zero_le)
  with True show ?thesis
    unfolding list_all_upt_9 by (simp only: is_safe_request_path_def if_True)
next
  case False
  with decode_rounds_iff [OF False, of 8] show ?thesis
    unfolding list_all_upt_9 by (simp only: is_safe_request_path_def if_False)
qed

text \<open>Full percent-encoding, the inverse of the decoder on valid text.\<close>

definition hex_upper :: "nat \<Rightarrow> char" where
  "hex_upper d = char_of (if d < 10 then 48 + d else 55 + d)"

definition percent_encode :: "string \<Rightarrow> string" where
  "percent_encode s =
     concat (map (\<lambda>c. [CHR ''%'', hex_upper (byte c div 16), hex_upper (byte c mod 16)]) s)"

lemma byte_lt: "byte c < 256"
  by (simp add: byte_def)

lemma byte_char_of: "n < 256 \<Longrightarrow> byte (char_of n) = n"
  by (simp add: byte_def)

lemma hex_val_upper [simp]: "d < 16 \<Longrightarrow> hex_val (hex_upper d) = Some d"
  by (auto simp: hex_val_def hex_upper_def in_range_def byte_char_of)

lemma join_nibbles_byte [simp]: "join_nibbles (byte c div 16) (byte c mod 16) = c"
  by (simp add: join_nibbles_def byte_def)

lemma percent_bytes_encode: "percent_bytes (percent_encode s) = s"
proof (induction s)
  case Nil
  then show ?case by (simp add: percent_encode_def)
next
  case (Cons c s)
  have "byte c div 16 < 16"
    using byte_lt [of c] by simp
  with Cons show ?case by (simp add: percent_encode_def)
qed

lemma is_ascii_percent_encode: "is_ascii (percent_encode s)"
proof (induction s)
  case Nil
  then show ?case by (simp add: percent_encode_def is_ascii_def)
next
  case (Cons c s)
  have "byte (hex_upper d) < 128" if "d < 16" for d
    using that by (auto simp: hex_upper_def byte_char_of)
  moreover have "byte c div 16 < 16"
    using byte_lt [of c] by simp
  moreover have "byte (CHR ''%'') < 128"
    by (simp add: byte_def)
  ultimately show ?case
    using Cons by (simp add: percent_encode_def is_ascii_def)
qed

lemma percent_roundtrip: "utf8_valid s \<Longrightarrow> simple_percent_decode (percent_encode s) = s"
  by (simp add: simple_percent_decode_def percent_bytes_encode from_utf8_lossy_valid)

lemma decode_encode_power:
  "utf8_valid s \<Longrightarrow> (simple_percent_decode ^^ n) ((percent_encode ^^ n) s) = s"
proof (induction n)
  case 0
  then show ?case by simp
next
  case (Suc n)
  have "utf8_valid ((percent_encode ^^ n) s)"
    using Suc.prems by (cases n) (simp_all add: utf8_valid_ascii is_ascii_percent_encode)
  then have "simple_percent_decode (percent_encode ((percent_encode ^^ n) s)) =
      (percent_encode ^^ n) s"
    by (rule percent_roundtrip)
  then show ?case
    using Suc.IH [OF Suc.prems] by (simp only: funpow_simps_right(2) [of n simple_percent_decode]
        funpow.simps(2) [of n percent_encode] o_apply)
qed

text \<open>
  A traversal hidden under up to eight layers of percent-encoding is rejected: decoding
  inverts encoding on valid text, so the eight rounds reach the path that was wrapped.
\<close>

theorem wrapped_traversal_rejected:
  assumes "utf8_valid path" "has_traversal path" "layers \<le> 8"
  shows "\<not> is_safe_request_path ((percent_encode ^^ layers) path)"
proof
  assume safe: "is_safe_request_path ((percent_encode ^^ layers) path)"
  then have start: "\<not> has_traversal ((percent_encode ^^ layers) path)"
    and "decode_rounds 8 ((percent_encode ^^ layers) path)"
    by (auto simp: is_safe_request_path_def split: if_splits)
  with decode_rounds_iff [OF start] assms(3)
  have "\<not> has_traversal ((simple_percent_decode ^^ layers) ((percent_encode ^^ layers) path))"
    by blast
  with assms show False by (simp add: decode_encode_power)
qed

theorem wrapped_traversal_rejected_witness:
  "\<not> is_safe_request_path ((percent_encode ^^ 3) ''/v1/../admin'')"
proof (rule wrapped_traversal_rejected)
  show "utf8_valid ''/v1/../admin''"
    by (rule utf8_valid_ascii) (simp add: is_ascii_def byte_def)
qed (simp_all add: has_traversal_def)

section \<open>File paths\<close>

datatype component = RootDir | CurDir | ParentDir | Normal string

text \<open>
  \<open>Path::components\<close>: repeated separators and inner single dots vanish, a leading single dot
  stays.
\<close>

definition component_of :: "string \<Rightarrow> component" where
  "component_of s = (if s = ''..'' then ParentDir else Normal s)"

definition is_absolute :: "string \<Rightarrow> bool" where
  "is_absolute s \<longleftrightarrow> starts_with s ''/''"

definition path_components :: "string \<Rightarrow> component list" where
  "path_components s =
     (let parts = split_on (CHR ''/'') s;
          body = map component_of (filter (\<lambda>w. w \<noteq> [] \<and> w \<noteq> ''.'') parts)
      in if is_absolute s then RootDir # body
         else if s \<noteq> [] \<and> hd parts = ''.'' then CurDir # body
         else body)"

record path_validation_result =
  is_valid :: bool
  resolved_path :: "component list"
  reason :: "string option"

record path_validation_options =
  additional_allowed_paths :: "component list list"
  allow_empty :: bool

text \<open>The process and the file system: the resolution of links, existence, three directories.\<close>

record file_env =
  canonicalize :: "string \<Rightarrow> string + component list"
  path_exists :: "string \<Rightarrow> bool"
  current_dir :: "(component list) option"
  config_dir :: "component list"
  temp_dir :: "component list"
  display_path :: "component list \<Rightarrow> string"

definition get_default_allowed_paths :: "file_env \<Rightarrow> component list list \<Rightarrow> component list list" where
  "get_default_allowed_paths env additional =
     [config_dir env] @ (case current_dir env of Some cwd \<Rightarrow> [cwd] | None \<Rightarrow> []) @
     [temp_dir env] @ additional"

text \<open>\<open>PathBuf::push\<close> of one component: the root replaces what stands there.\<close>

fun resolve_components :: "component list \<Rightarrow> component list \<Rightarrow> (component list) option" where
  "resolve_components resolved [] = Some resolved"
| "resolve_components resolved (ParentDir # cs) = None"
| "resolve_components resolved (Normal c # cs) = resolve_components (resolved @ [Normal c]) cs"
| "resolve_components resolved (RootDir # cs) = resolve_components [RootDir] cs"
| "resolve_components resolved (CurDir # cs) = resolve_components resolved cs"

definition invalid_path :: "string \<Rightarrow> path_validation_result" where
  "invalid_path why = \<lparr>is_valid = False, resolved_path = [], reason = Some why\<rparr>"

definition resolve_path :: "file_env \<Rightarrow> string \<Rightarrow> string + component list" where
  "resolve_path env raw =
     (case canonicalize env raw of
        Inr p \<Rightarrow> Inr p
      | Inl e \<Rightarrow>
          if path_exists env raw then Inl (''Path canonicalization failed: '' @ e)
          else
            (case resolve_components
                    (if is_absolute raw then [] else case current_dir env of Some cwd \<Rightarrow> cwd | None \<Rightarrow> [])
                    (path_components raw) of
               None \<Rightarrow> Inl ''Directory traversal detected''
             | Some r \<Rightarrow> Inr r))"

definition validate_path :: "file_env \<Rightarrow> string \<Rightarrow> path_validation_options \<Rightarrow> path_validation_result" where
  "validate_path env raw options =
     (if raw = [] \<and> \<not> allow_empty options then invalid_path ''Empty path not allowed''
      else if CHR 0x00 \<in> set raw then invalid_path ''Null byte detected in path''
      else if contains_str raw ''..'' then invalid_path ''Directory traversal detected in path''
      else case resolve_path env raw of
          Inl why \<Rightarrow> invalid_path why
        | Inr resolved \<Rightarrow>
            if \<not> list_ex (\<lambda>base. prefix base resolved)
                 (get_default_allowed_paths env (additional_allowed_paths options))
            then invalid_path (''Path outside allowed directories: '' @ display_path env resolved)
            else \<lparr>is_valid = True, resolved_path = resolved, reason = None\<rparr>)"

definition validate_path_or_err ::
  "file_env \<Rightarrow> string \<Rightarrow> path_validation_options \<Rightarrow> string + component list" where
  "validate_path_or_err env raw options =
     (let result = validate_path env raw options
      in if is_valid result then Inr (resolved_path result)
         else Inl (case reason result of Some r \<Rightarrow> r | None \<Rightarrow> ''Path validation failed''))"

lemma resolve_components_no_parent:
  "resolve_components r cs = Some r' \<Longrightarrow> ParentDir \<notin> set r \<Longrightarrow> ParentDir \<notin> set r'"
  by (induction r cs rule: resolve_components.induct) auto

text \<open>
  A file path that passes lies under an allowed directory and has no parent component left,
  given that the directories of the process and the links resolved by the system have none.
\<close>

theorem valid_path_contained:
  assumes "validate_path_or_err env raw options = Inr resolved"
    and "list_all (\<lambda>cwd. ParentDir \<notin> set cwd) (case current_dir env of Some cwd \<Rightarrow> [cwd] | None \<Rightarrow> [])"
    and "case canonicalize env raw of Inr p \<Rightarrow> ParentDir \<notin> set p | Inl _ \<Rightarrow> True"
  shows "ParentDir \<notin> set resolved \<and> CHR 0x00 \<notin> set raw \<and>
    list_ex (\<lambda>base. prefix base resolved)
      (get_default_allowed_paths env (additional_allowed_paths options))"
proof -
  from assms(1) have path: "resolve_path env raw = Inr resolved" and "CHR 0x00 \<notin> set raw"
    "list_ex (\<lambda>base. prefix base resolved)
      (get_default_allowed_paths env (additional_allowed_paths options))"
    by (auto simp: validate_path_or_err_def validate_path_def invalid_path_def Let_def
        split: if_splits sum.splits)
  moreover have "ParentDir \<notin> set resolved"
    using path assms(2,3) unfolding resolve_path_def
    by (auto split: sum.splits if_splits option.splits dest: resolve_components_no_parent)
  ultimately show ?thesis by blast
qed

definition demo_files :: file_env where
  "demo_files = \<lparr>canonicalize = \<lambda>_. Inl ''not found'', path_exists = \<lambda>_. False,
     current_dir = None, config_dir = [RootDir, Normal ''cfg''],
     temp_dir = [RootDir, Normal ''tmp''], display_path = \<lambda>_. []\<rparr>"

theorem valid_path_contained_witness:
  "ParentDir \<notin> set [RootDir, Normal ''tmp'', Normal ''x'']"
  using valid_path_contained [of demo_files "''/tmp/x''"
      "\<lparr>additional_allowed_paths = [], allow_empty = False\<rparr>"
      "[RootDir, Normal ''tmp'', Normal ''x'']"]
  by (simp add: validate_path_or_err_def validate_path_def resolve_path_def demo_files_def
      is_absolute_def starts_with_def path_components_def component_of_def
      get_default_allowed_paths_def Let_def)

end
