(* ===== verification/Account_Store.thy ===== *)
theory Account_Store
  imports Core_Types
begin

text \<open>
  The \<open>accounts\<close> table and the operations of \<open>database/src/repositories/account.rs\<close>. The table is
  the list of its rows; a statement \<open>UPDATE ... WHERE id = ?\<close> changes the row with that id.
  The schema makes \<open>id\<close> the primary key and \<open>name\<close> unique, so an \<open>INSERT\<close> or a renaming that
  would repeat one fails and changes nothing. What else makes a statement fail (I/O, locks) is
  not modelled here.
\<close>

section \<open>Operations\<close>

definition on_row :: "string \<Rightarrow> (account \<Rightarrow> account) \<Rightarrow> account list \<Rightarrow> account list" where
  "on_row i f rows = map (\<lambda>a. if acct_id a = i then f a else a) rows"

definition find_all_accounts :: "account list \<Rightarrow> account list" where
  "find_all_accounts rows = sort_by (\<lambda>a b. cmp_of (priority a) (priority b)) rows"

definition find_by_id :: "string \<Rightarrow> account list \<Rightarrow> account option" where
  "find_by_id i rows = find (\<lambda>a. acct_id a = i) rows"

definition find_by_name :: "string \<Rightarrow> account list \<Rightarrow> account option" where
  "find_by_name n rows = find (\<lambda>a. acct_name a = n) rows"

definition update_tokens ::
  "i64 \<Rightarrow> string \<Rightarrow> i64 \<Rightarrow> string option \<Rightarrow> string \<Rightarrow> account list \<Rightarrow> account list" where
  "update_tokens now_ms access expiry refresh i rows =
     (case refresh of
        Some rt \<Rightarrow>
          on_row i (\<lambda>a. a\<lparr>access_token := Some access, expires_at := Some expiry,
            refresh_token := rt, refresh_token_updated_at := Some now_ms\<rparr>) rows
      | None \<Rightarrow> on_row i (\<lambda>a. a\<lparr>access_token := Some access, expires_at := Some expiry\<rparr>) rows)"

definition increment_usage :: "i64 \<Rightarrow> i64 \<Rightarrow> string \<Rightarrow> account list \<Rightarrow> account list" where
  "increment_usage now session_duration_ms i rows =
     on_row i (\<lambda>a.
       let fresh = (case session_start a of None \<Rightarrow> True | Some s \<Rightarrow> session_duration_ms \<le> now - s)
       in a\<lparr>last_used := Some now, request_count := request_count a + 1,
            total_requests := total_requests a + 1,
            session_start := (if fresh then Some now else session_start a),
            session_request_count := (if fresh then 1 else session_request_count a + 1)\<rparr>) rows"

definition set_rate_limited :: "i64 \<Rightarrow> string \<Rightarrow> account list \<Rightarrow> account list" where
  "set_rate_limited until i rows = on_row i (\<lambda>a. a\<lparr>rate_limited_until := Some until\<rparr>) rows"

definition update_rate_limit_meta ::
  "string \<Rightarrow> i64 option \<Rightarrow> i64 option \<Rightarrow> string \<Rightarrow> account list \<Rightarrow> account list" where
  "update_rate_limit_meta status reset left i rows =
     on_row i (\<lambda>a. a\<lparr>rate_limit_status := Some status, rate_limit_reset := reset,
       rate_limit_remaining := left\<rparr>) rows"

definition pause :: "string \<Rightarrow> account list \<Rightarrow> account list" where
  "pause i rows = on_row i (\<lambda>a. a\<lparr>paused := True\<rparr>) rows"

definition resume :: "string \<Rightarrow> account list \<Rightarrow> account list" where
  "resume i rows = on_row i (\<lambda>a. a\<lparr>paused := False\<rparr>) rows"

definition reset_session :: "i64 \<Rightarrow> string \<Rightarrow> account list \<Rightarrow> account list" where
  "reset_session timestamp i rows =
     on_row i (\<lambda>a. a\<lparr>session_start := Some timestamp, session_request_count := 0\<rparr>) rows"

definition update_request_count :: "i64 \<Rightarrow> string \<Rightarrow> account list \<Rightarrow> account list" where
  "update_request_count n i rows = on_row i (\<lambda>a. a\<lparr>session_request_count := n\<rparr>) rows"

definition update_priority :: "i64 \<Rightarrow> string \<Rightarrow> account list \<Rightarrow> account list" where
  "update_priority p i rows = on_row i (\<lambda>a. a\<lparr>priority := p\<rparr>) rows"

definition set_auto_fallback_enabled :: "bool \<Rightarrow> string \<Rightarrow> account list \<Rightarrow> account list" where
  "set_auto_fallback_enabled b i rows = on_row i (\<lambda>a. a\<lparr>auto_fallback_enabled := b\<rparr>) rows"

definition set_auto_refresh_enabled :: "bool \<Rightarrow> string \<Rightarrow> account list \<Rightarrow> account list" where
  "set_auto_refresh_enabled b i rows = on_row i (\<lambda>a. a\<lparr>auto_refresh_enabled := b\<rparr>) rows"

definition set_custom_endpoint :: "string option \<Rightarrow> string \<Rightarrow> account list \<Rightarrow> account list" where
  "set_custom_endpoint e i rows = on_row i (\<lambda>a. a\<lparr>custom_endpoint := e\<rparr>) rows"

definition set_model_mappings :: "string option \<Rightarrow> string \<Rightarrow> account list \<Rightarrow> account list" where
  "set_model_mappings m i rows = on_row i (\<lambda>a. a\<lparr>model_mappings := m\<rparr>) rows"

definition set_reserve_5h :: "i64 \<Rightarrow> string \<Rightarrow> account list \<Rightarrow> account list" where
  "set_reserve_5h percent i rows = on_row i (\<lambda>a. a\<lparr>reserve_5h := percent\<rparr>) rows"

definition set_reserve_weekly :: "i64 \<Rightarrow> string \<Rightarrow> account list \<Rightarrow> account list" where
  "set_reserve_weekly percent i rows = on_row i (\<lambda>a. a\<lparr>reserve_weekly := percent\<rparr>) rows"

definition set_reserve_hard :: "bool \<Rightarrow> string \<Rightarrow> account list \<Rightarrow> account list" where
  "set_reserve_hard hard i rows = on_row i (\<lambda>a. a\<lparr>reserve_hard := hard\<rparr>) rows"

definition set_subscription_tier :: "string option \<Rightarrow> string \<Rightarrow> account list \<Rightarrow> account list" where
  "set_subscription_tier tier i rows = on_row i (\<lambda>a. a\<lparr>subscription_tier := tier\<rparr>) rows"

definition set_email :: "string option \<Rightarrow> string \<Rightarrow> account list \<Rightarrow> account list" where
  "set_email e i rows = on_row i (\<lambda>a. a\<lparr>email := e\<rparr>) rows"

definition set_overage_protection :: "bool \<Rightarrow> string \<Rightarrow> account list \<Rightarrow> account list" where
  "set_overage_protection b i rows = on_row i (\<lambda>a. a\<lparr>overage_protection := b\<rparr>) rows"

definition set_is_shared :: "bool \<Rightarrow> string \<Rightarrow> account list \<Rightarrow> account list" where
  "set_is_shared shared i rows = on_row i (\<lambda>a. a\<lparr>is_shared := shared\<rparr>) rows"

definition clear_expired_rate_limits :: "i64 \<Rightarrow> account list \<Rightarrow> nat \<times> account list" where
  "clear_expired_rate_limits now rows =
     (let expired = (\<lambda>a. case rate_limited_until a of None \<Rightarrow> False | Some u \<Rightarrow> u \<le> now)
      in (length (filter expired rows),
          map (\<lambda>a. if expired a then a\<lparr>rate_limited_until := None\<rparr> else a) rows))"

definition has_accounts_for_provider :: "string \<Rightarrow> account list \<Rightarrow> bool" where
  "has_accounts_for_provider p rows = list_ex (\<lambda>a. provider a = p) rows"

definition delete_account :: "string \<Rightarrow> account list \<Rightarrow> bool \<times> account list" where
  "delete_account i rows = (list_ex (\<lambda>a. acct_id a = i) rows, filter (\<lambda>a. acct_id a \<noteq> i) rows)"

datatype store_error = UniqueViolation string

definition create_account :: "account \<Rightarrow> account list \<Rightarrow> store_error + account list" where
  "create_account a rows =
     (if list_ex (\<lambda>b. acct_id b = acct_id a) rows then Inl (UniqueViolation ''accounts.id'')
      else if list_ex (\<lambda>b. acct_name b = acct_name a) rows then Inl (UniqueViolation ''accounts.name'')
      else Inr (rows @ [a]))"

definition rename_account :: "string \<Rightarrow> string \<Rightarrow> account list \<Rightarrow> store_error + account list" where
  "rename_account new_name i rows =
     (if list_ex (\<lambda>b. acct_id b = i) rows \<and> list_ex (\<lambda>b. acct_id b \<noteq> i \<and> acct_name b = new_name) rows
      then Inl (UniqueViolation ''accounts.name'')
      else Inr (on_row i (\<lambda>a. a\<lparr>acct_name := new_name\<rparr>) rows))"

section \<open>What the schema guarantees\<close>

definition valid_rows :: "account list \<Rightarrow> bool" where
  "valid_rows rows \<longleftrightarrow> distinct (map acct_id rows) \<and> distinct (map acct_name rows)"

text \<open>The table as a map from ids to accounts.\<close>

definition stored :: "account list \<Rightarrow> string \<rightharpoonup> account" where
  "stored rows i = find_by_id i rows"

lemma find_map_if:
  "(\<And>a. acct_id (f a) = acct_id a) \<Longrightarrow>
   find (\<lambda>a. acct_id a = j) (on_row i f rows) =
     (if i = j then map_option f (find (\<lambda>a. acct_id a = j) rows)
      else find (\<lambda>a. acct_id a = j) rows)"
  by (induction rows) (auto simp: on_row_def)

text \<open>
  The contract of an \<open>UPDATE\<close> of one row: it changes the row with the id, by a function that
  keeps the two unique columns.
\<close>

locale row_update =
  fixes op :: "string \<Rightarrow> account list \<Rightarrow> account list" and f :: "account \<Rightarrow> account"
  assumes op_on_row: "op i rows = on_row i f rows"
    and keeps_id: "acct_id (f a) = acct_id a"
    and keeps_name: "acct_name (f a) = acct_name a"
begin

lemma ids: "map acct_id (op i rows) = map acct_id rows"
  by (simp add: op_on_row on_row_def keeps_id)

lemma names: "map acct_name (op i rows) = map acct_name rows"
  by (simp add: op_on_row on_row_def keeps_name)

lemma valid: "valid_rows (op i rows) \<longleftrightarrow> valid_rows rows"
  by (simp add: valid_rows_def ids names)

lemma abs_update: "stored (op i rows) = (stored rows)(i := map_option f (stored rows i))"
  by (rule ext) (simp add: stored_def find_by_id_def op_on_row find_map_if keeps_id)

lemma missing: "stored rows i = None \<Longrightarrow> op i rows = rows"
  by (auto simp: stored_def find_by_id_def op_on_row on_row_def find_None_iff intro: map_idI)

end

section \<open>The operations as writes\<close>

datatype row_write =
  UpdateTokens i64 string i64 "string option"
| IncrementUsage i64 i64
| SetRateLimited i64
| UpdateRateLimitMeta string "i64 option" "i64 option"
| SetPaused bool
| ResetSession i64
| UpdateRequestCount i64
| UpdatePriority i64
| SetAutoFallback bool
| SetAutoRefresh bool
| SetCustomEndpoint "string option"
| SetModelMappings "string option"
| SetReserve5h i64
| SetReserveWeekly i64
| SetReserveHard bool
| SetSubscriptionTier "string option"
| SetEmail "string option"
| SetOverageProtection bool
| SetIsShared bool

fun row_op :: "row_write \<Rightarrow> string \<Rightarrow> account list \<Rightarrow> account list" where
  "row_op (UpdateTokens now access expiry refresh) = update_tokens now access expiry refresh"
| "row_op (IncrementUsage now dur) = increment_usage now dur"
| "row_op (SetRateLimited until) = set_rate_limited until"
| "row_op (UpdateRateLimitMeta st reset left) = update_rate_limit_meta st reset left"
| "row_op (SetPaused b) = (if b then pause else resume)"
| "row_op (ResetSession t) = reset_session t"
| "row_op (UpdateRequestCount n) = update_request_count n"
| "row_op (UpdatePriority p) = update_priority p"
| "row_op (SetAutoFallback b) = set_auto_fallback_enabled b"
| "row_op (SetAutoRefresh b) = set_auto_refresh_enabled b"
| "row_op (SetCustomEndpoint e) = set_custom_endpoint e"
| "row_op (SetModelMappings m) = set_model_mappings m"
| "row_op (SetReserve5h n) = set_reserve_5h n"
| "row_op (SetReserveWeekly n) = set_reserve_weekly n"
| "row_op (SetReserveHard b) = set_reserve_hard b"
| "row_op (SetSubscriptionTier t) = set_subscription_tier t"
| "row_op (SetEmail e) = set_email e"
| "row_op (SetOverageProtection b) = set_overage_protection b"
| "row_op (SetIsShared b) = set_is_shared b"

lemmas row_op_defs =
  update_tokens_def increment_usage_def set_rate_limited_def update_rate_limit_meta_def pause_def
  resume_def reset_session_def update_request_count_def update_priority_def
  set_auto_fallback_enabled_def set_auto_refresh_enabled_def set_custom_endpoint_def
  set_model_mappings_def set_reserve_5h_def set_reserve_weekly_def set_reserve_hard_def
  set_subscription_tier_def set_email_def set_overage_protection_def set_is_shared_def

text \<open>What a write does to the row it hits: its effect on a table of that row alone.\<close>

definition row_effect :: "row_write \<Rightarrow> account \<Rightarrow> account" where
  "row_effect w a = hd (row_op w (acct_id a) [a])"

lemma row_op_effect:
  "row_op w i rows = on_row i (row_effect w) rows \<and>
   acct_id (row_effect w a) = acct_id a \<and> acct_name (row_effect w a) = acct_name a"
  by (cases w) (auto simp: row_effect_def row_op_defs on_row_def Let_def split: option.split)

interpretation one_row: row_update "row_op w" "row_effect w" for w
  by unfold_locales (simp_all add: row_op_effect)

datatype account_write =
  OnRow row_write string
| ClearExpired i64
| CreateAccount account
| RenameAccount string string
| DeleteAccount string

fun store_write :: "account_write \<Rightarrow> account list \<Rightarrow> store_error + account list" where
  "store_write (OnRow w i) rows = Inr (row_op w i rows)"
| "store_write (ClearExpired now) rows = Inr (snd (clear_expired_rate_limits now rows))"
| "store_write (CreateAccount a) rows = create_account a rows"
| "store_write (RenameAccount n i) rows = rename_account n i rows"
| "store_write (DeleteAccount i) rows = Inr (snd (delete_account i rows))"

text \<open>The same on maps from ids to accounts: what a caller may rely on.\<close>

definition without_expired :: "i64 \<Rightarrow> account \<Rightarrow> account" where
  "without_expired now a =
     (case rate_limited_until a of
        None \<Rightarrow> a
      | Some u \<Rightarrow> if u \<le> now then a\<lparr>rate_limited_until := None\<rparr> else a)"

lemma without_expired_same [simp]:
  "acct_id (without_expired now a) = acct_id a" "acct_name (without_expired now a) = acct_name a"
  by (simp_all add: without_expired_def split: option.split)

fun abs_write :: "account_write \<Rightarrow> (string \<rightharpoonup> account) \<Rightarrow> string \<rightharpoonup> account" where
  "abs_write (OnRow w i) m = m(i := map_option (row_effect w) (m i))"
| "abs_write (ClearExpired now) m = (\<lambda>i. map_option (without_expired now) (m i))"
| "abs_write (CreateAccount a) m = m(acct_id a \<mapsto> a)"
| "abs_write (RenameAccount n i) m = m(i := map_option (acct_name_update (\<lambda>_. n)) (m i))"
| "abs_write (DeleteAccount i) m = m(i := None)"

fun conflicts :: "account_write \<Rightarrow> (string \<rightharpoonup> account) \<Rightarrow> bool" where
  "conflicts (CreateAccount a) m \<longleftrightarrow>
     m (acct_id a) \<noteq> None \<or> (\<exists>b \<in> ran m. acct_name b = acct_name a)"
| "conflicts (RenameAccount n i) m \<longleftrightarrow>
     m i \<noteq> None \<and> (\<exists>b \<in> ran m. acct_id b \<noteq> i \<and> acct_name b = n)"
| "conflicts _ m \<longleftrightarrow> False"

lemma stored_Some: "stored rows i = Some a \<Longrightarrow> a \<in> set rows \<and> acct_id a = i"
  by (auto simp: stored_def find_by_id_def find_Some_iff)

lemma stored_None: "stored rows i = None \<longleftrightarrow> \<not> list_ex (\<lambda>a. acct_id a = i) rows"
  by (auto simp: stored_def find_by_id_def find_None_iff list_ex_iff)

lemma stored_mem: "valid_rows rows \<Longrightarrow> a \<in> set rows \<Longrightarrow> stored rows (acct_id a) = Some a"
proof -
  assume v: "valid_rows rows" "a \<in> set rows"
  then obtain b where b: "stored rows (acct_id a) = Some b"
    by (cases "stored rows (acct_id a)") (auto simp: stored_None list_ex_iff)
  with stored_Some [OF b] v show ?thesis
    by (auto simp: valid_rows_def distinct_map dest: inj_onD)
qed

lemma ran_stored: "valid_rows rows \<Longrightarrow> ran (stored rows) = set rows"
  by (auto simp: ran_def dest: stored_Some stored_mem)

lemma stored_append: "stored (rows @ [a]) i = (case stored rows i of None \<Rightarrow> if acct_id a = i then Some a else None | Some b \<Rightarrow> Some b)"
  by (induction rows) (auto simp: stored_def find_by_id_def)

lemma conflict_iff: "valid_rows rows \<Longrightarrow> conflicts w (stored rows) \<longleftrightarrow> (\<exists>e. store_write w rows = Inl e)"
  by (cases w) (auto simp: ran_stored stored_None create_account_def rename_account_def list_ex_iff)

lemma stored_map:
  "(\<And>a. acct_id (f a) = acct_id a) \<Longrightarrow> stored (map f rows) i = map_option f (stored rows i)"
  by (induction rows) (auto simp: stored_def find_by_id_def)

lemma stored_delete: "stored (filter (\<lambda>a. acct_id a \<noteq> i) rows) = (stored rows)(i := None)"
proof
  fix j
  show "stored (filter (\<lambda>a. acct_id a \<noteq> i) rows) j = ((stored rows)(i := None)) j"
    by (induction rows) (auto simp: stored_def find_by_id_def)
qed

lemma write_succeeds:
  assumes "valid_rows rows" "store_write w rows = Inr rows'"
  shows "valid_rows rows' \<and> stored rows' = abs_write w (stored rows)"
proof (cases w)
  case (OnRow v i)
  with assms show ?thesis by (auto simp: one_row.valid one_row.abs_update)
next
  case (ClearExpired now)
  have "rows' = map (without_expired now) rows"
    using assms(2) ClearExpired
    by (auto simp: clear_expired_rate_limits_def without_expired_def Let_def split: option.split)
  then show ?thesis
    using assms(1) ClearExpired
    by (auto simp: valid_rows_def comp_def stored_map intro!: ext)
next
  case (CreateAccount a)
  have no: "\<not> list_ex (\<lambda>b. acct_id b = acct_id a) rows" "\<not> list_ex (\<lambda>b. acct_name b = acct_name a) rows"
    and rows': "rows' = rows @ [a]"
    using assms CreateAccount by (auto simp: create_account_def split: if_splits)
  have "stored rows (acct_id a) = None" using no(1) by (simp add: stored_None)
  with assms(1) no CreateAccount show ?thesis
    by (auto simp: rows' valid_rows_def list_ex_iff stored_append intro!: ext split: option.split)
next
  case (RenameAccount n i)
  let ?f = "acct_name_update (\<lambda>_. n)"
  have no: "\<not> (list_ex (\<lambda>b. acct_id b = i) rows \<and> list_ex (\<lambda>b. acct_id b \<noteq> i \<and> acct_name b = n) rows)"
    and rows': "rows' = on_row i ?f rows"
    using assms RenameAccount by (auto simp: rename_account_def split: if_splits)
  have "distinct (map acct_name rows')"
    using assms(1) no
    by (auto simp: rows' on_row_def valid_rows_def distinct_map inj_on_def list_ex_iff; metis)
  moreover have "map acct_id rows' = map acct_id rows" by (simp add: rows' on_row_def)
  ultimately show ?thesis
    using assms(1) RenameAccount find_map_if [of ?f]
    by (auto simp: valid_rows_def rows' stored_def find_by_id_def fun_upd_def intro!: ext)
next
  case (DeleteAccount i)
  with assms show ?thesis
    by (auto simp: delete_account_def valid_rows_def stored_delete distinct_map_filter)
qed



section \<open>Reading back\<close>

text \<open>What the load balancer is given: every account, in the order of the priorities.\<close>

interpretation by_priority: comparator "\<lambda>a b. cmp_of (priority a) (priority (b :: account))"
  by (rule comparator_cmp_of_key)

lemma find_all_sorted:
  "mset (find_all_accounts rows) = mset rows \<and>
   sorted_by (\<lambda>a b. cmp_of (priority a) (priority b)) (find_all_accounts rows)"
  by (simp add: find_all_accounts_def by_priority.sorted_sort_by)

end
