(* ===== verification/Proxy_Handler.thy ===== *)
theory Proxy_Handler
  imports Auth Provider_Impls Streaming Path_Validator Account_Store
begin

text \<open>
  The proxy endpoint, \<open>crates/proxy/src/proxy.rs\<close>: from an authenticated request through account
  selection and failover to the response. The outside (database queries, upstream servers, the
  token refresher, clocks) is a world of any type that the functions of an environment read or
  advance; what the handler itself sends, writes to the database in the background and posts to
  the analytics task is recorded in its state in the order in which it is issued.
\<close>

section \<open>Upstream requests and responses\<close>

definition MAX_BODY_SIZE :: nat where "MAX_BODY_SIZE = 10 * 1024 * 1024"
definition ACCOUNTS_CACHE_TTL_SECS :: int where "ACCOUNTS_CACHE_TTL_SECS = 5"

record upstream_request =
  ur_method :: string
  ur_url :: string
  ur_headers :: header_map
  ur_body :: string

text \<open>The body arrives in chunks, any of which may fail.\<close>

record upstream_response =
  up_status :: nat
  up_headers :: header_map
  up_chunks :: "(string + string) list"

fun collect_body :: "(string + string) list \<Rightarrow> string + string" where
  "collect_body [] = Inr []"
| "collect_body (Inl e # cs) = Inl e"
| "collect_body (Inr c # cs) = (case collect_body cs of Inl e \<Rightarrow> Inl e | Inr b \<Rightarrow> Inr (c @ b))"

fun good_chunks :: "(string + string) list \<Rightarrow> string list" where
  "good_chunks [] = []"
| "good_chunks (Inl e # cs) = good_chunks cs"
| "good_chunks (Inr c # cs) = c # good_chunks cs"

section \<open>Headers\<close>

definition should_forward_request_header :: "string \<Rightarrow> bool" where
  "should_forward_request_header name =
     (let lower = to_ascii_lowercase name
      in if lower \<in> {''content-type'', ''content-length'', ''accept'', ''accept-encoding'',
           ''authorization'', ''x-api-key'', ''x-request-id'', ''user-agent''} then True
         else starts_with lower ''anthropic-'' \<or> starts_with lower ''x-stainless-'')"

definition filter_request_headers :: "header_map \<Rightarrow> header_map" where
  "filter_request_headers h = filter (\<lambda>(n, _). should_forward_request_header n) h"

definition should_forward_response_header :: "string \<Rightarrow> bool \<Rightarrow> bool" where
  "should_forward_response_header name is_streaming =
     (if eq_ignore_ascii_case name ''content-type'' then True
      else if eq_ignore_ascii_case name ''cache-control'' \<or> eq_ignore_ascii_case name ''retry-after''
           \<or> eq_ignore_ascii_case name ''expires'' then True
      else if eq_ignore_ascii_case name ''x-request-id'' \<or> eq_ignore_ascii_case name ''request-id''
           \<or> eq_ignore_ascii_case name ''x-correlation-id'' then True
      else (let lower = to_ascii_lowercase name
            in starts_with lower ''anthropic-'' \<or> starts_with lower ''x-ratelimit-''))"

text \<open>\<open>HeaderValue::from_bytes\<close> takes every byte but the control characters.\<close>

definition value_from_bytes :: "string \<Rightarrow> string option" where
  "value_from_bytes v =
     (if list_all (\<lambda>c. byte c \<ge> 32 \<and> byte c \<noteq> 127 \<or> byte c = 9) v then Some v else None)"

definition convert_header :: "string \<times> string \<Rightarrow> (string \<times> string) option" where
  "convert_header nv =
     (case (parse_header_name (fst nv), value_from_bytes (snd nv)) of
        (Some n, Some v) \<Rightarrow> Some (n, v)
      | _ \<Rightarrow> None)"

definition reqwest_headers :: "header_map \<Rightarrow> header_map" where
  "reqwest_headers h = List.map_filter convert_header h"

definition axum_headers_from_reqwest :: "header_map \<Rightarrow> header_map" where
  "axum_headers_from_reqwest h = List.map_filter convert_header h"

definition forward_response_headers :: "header_map \<Rightarrow> bool \<Rightarrow> header_map" where
  "forward_response_headers h is_streaming =
     List.map_filter (\<lambda>nv. if \<not> should_forward_response_header (fst nv) is_streaming then None
       else convert_header nv) h"

definition is_streaming_response :: "header_map \<Rightarrow> bool" where
  "is_streaming_response h \<longleftrightarrow>
     (case header_str h ''content-type'' of
        Some ct \<Rightarrow> contains_str ct ''text/event-stream''
      | None \<Rightarrow> False)"

definition method_from_bytes :: "string \<Rightarrow> string option" where
  "method_from_bytes m = (if m \<noteq> [] \<and> list_all is_token_char m then Some m else None)"

definition status_or :: "nat \<Rightarrow> nat \<Rightarrow> nat" where
  "status_or n other = (if 100 \<le> n \<and> n \<le> 999 then n else other)"

section \<open>Background writes\<close>

text \<open>The updates of the \<open>accounts\<close> table, and what each does to the rows.\<close>

datatype db_update =
    LimitUntil i64 string
  | MarkAuthFailed string i64 string
  | RateMeta "string option" "i64 option" "i64 option" string
  | CountRequest i64 string
  | SessionResets "session_reset list"

fun apply_update :: "db_update \<Rightarrow> account list \<Rightarrow> account list" where
  "apply_update (LimitUntil until i) rows = on_row i (rate_limited_until_update (\<lambda>_. Some until)) rows"
| "apply_update (MarkAuthFailed label expiry i) rows =
     on_row i (\<lambda>a. a\<lparr>rate_limit_status := Some label, rate_limit_reset := None,
       rate_limit_remaining := None,
       expires_at := (if api_key a = None then Some expiry else expires_at a)\<rparr>) rows"
| "apply_update (RateMeta st rem reset i) rows =
     on_row i (\<lambda>a. a\<lparr>rate_limit_status := st, rate_limit_remaining := rem,
       rate_limit_reset := reset\<rparr>) rows"
| "apply_update (CountRequest now i) rows =
     on_row i (\<lambda>a. a\<lparr>request_count := request_count a + 1, total_requests := total_requests a + 1,
       session_request_count := session_request_count a + 1, last_used := Some now\<rparr>) rows"
| "apply_update (SessionResets rs) rows = persist_session_resets rs rows"

definition auth_failed_label :: "nat \<Rightarrow> string" where
  "auth_failed_label status = ''Auth failed ('' @ show_nat status @ '')''"

section \<open>State and environment\<close>

datatype analytics_content = WholeBody string | StreamBuffer analytics_buffer

record analytics_msg =
  am_request_id :: string
  am_account_id :: "string option"
  am_path :: string
  am_status :: nat
  am_start :: instant
  am_agent :: "string option"
  am_project :: "string option"
  am_key_id :: "string option"
  am_key_name :: "string option"
  am_attempts :: nat
  am_content :: "analytics_content option"

record 'w proxy_state =
  ps_world :: 'w
  ps_counter :: "64 word"
  ps_permits :: "nat option"
  ps_accounts :: "account list slot"
  ps_strategy :: "session_strategy option"
  ps_tokens :: "token_manager option"
  ps_sent :: "upstream_request list"
  ps_writes :: "db_update list"
  ps_posts :: "analytics_msg list"
  ps_streams :: "analytics_msg list"

text \<open>
  \<open>ps_permits\<close> are the free slots of the semaphore, if there is one; \<open>ps_streams\<close> the spawned
  tasks that wait for the buffer of a streamed response.
\<close>

record codecs =
  from_slice :: "string \<Rightarrow> json option"
  to_vec :: "json \<Rightarrow> string option"
  rfc3339 :: "string \<Rightarrow> i64 option"
  vertex_config :: vertex_config_parser
  model_field :: "string \<Rightarrow> string option option"
  string_map :: "string \<Rightarrow> (string \<times> string) list option"

record 'w proxy_env =
  env_registry :: "provider_registry option"
  env_pool :: bool
  env_post :: bool
  env_codecs :: codecs
  env_now :: "'w \<Rightarrow> i64"
  env_instant :: "'w \<Rightarrow> instant"
  env_usage :: "'w \<Rightarrow> usage_map"
  env_load_accounts :: "'w \<Rightarrow> (string + account list) \<times> 'w"
  env_token_io :: "provider_impl \<Rightarrow> 'w token_io"
  env_send :: "upstream_request \<Rightarrow> 'w \<Rightarrow> (string + upstream_response) \<times> 'w"

definition write_db :: "'w proxy_env \<Rightarrow> db_update \<Rightarrow> 'w proxy_state \<Rightarrow> 'w proxy_state" where
  "write_db env u st = (if env_pool env then st\<lparr>ps_writes := ps_writes st @ [u]\<rparr> else st)"

definition post_analytics :: "'w proxy_env \<Rightarrow> analytics_msg \<Rightarrow> 'w proxy_state \<Rightarrow> 'w proxy_state" where
  "post_analytics env m st = (if env_post env then st\<lparr>ps_posts := ps_posts st @ [m]\<rparr> else st)"

definition send_upstream ::
  "'w proxy_env \<Rightarrow> upstream_request \<Rightarrow> 'w proxy_state \<Rightarrow>
     (string + upstream_response) \<times> 'w proxy_state" where
  "send_upstream env r st =
     (case env_send env r (ps_world st) of
        (answer, w) \<Rightarrow> (answer, st\<lparr>ps_world := w, ps_sent := ps_sent st @ [r]\<rparr>))"

text \<open>The accounts, from the slot or from the database.\<close>

definition get_accounts_cached ::
  "'w proxy_env \<Rightarrow> 'w proxy_state \<Rightarrow> (string + account list) \<times> 'w proxy_state" where
  "get_accounts_cached env st =
     (case slot_lookup ACCOUNTS_CACHE_TTL_SECS (ps_accounts st) () (env_instant env (ps_world st)) of
        Some accounts \<Rightarrow> (Inr accounts, st)
      | None \<Rightarrow>
          (case env_load_accounts env (ps_world st) of
             (Inl e, w) \<Rightarrow> (Inl (''Failed to load accounts: '' @ e), st\<lparr>ps_world := w\<rparr>)
           | (Inr accounts, w) \<Rightarrow>
               (Inr accounts,
                st\<lparr>ps_world := w,
                   ps_accounts := slot_store (ps_accounts st) () accounts (env_instant env w)\<rparr>)))"

section \<open>One attempt\<close>

text \<open>What the closure captures: the request and who makes it.\<close>

record attempt_context =
  ac_meta :: request_meta
  ac_info :: auth_info
  ac_headers :: header_map
  ac_model :: "string option"
  ac_body :: string
  ac_start :: instant

definition get_model_mapping :: "codecs \<Rightarrow> string \<Rightarrow> string \<Rightarrow> string option" where
  "get_model_mapping c mappings_json model =
     (case string_map c mappings_json of None \<Rightarrow> None | Some m \<Rightarrow> map_of m model)"

definition apply_model_mapping ::
  "codecs \<Rightarrow> account \<Rightarrow> string option \<Rightarrow> string \<Rightarrow> string outcome" where
  "apply_model_mapping c a requested_model body =
     (case (model_mappings a, requested_model) of
        (Some mappings_json, Some model) \<Rightarrow>
          (case get_model_mapping c mappings_json model of
             None \<Rightarrow> Returns body
           | Some mapped \<Rightarrow>
               (case replace_model_in_body (from_slice c) (to_vec c) body model mapped of
                  Panics \<Rightarrow> Panics
                | Returns None \<Rightarrow> Returns body
                | Returns (Some b) \<Rightarrow> Returns b))
      | _ \<Rightarrow> Returns body)"

definition final_body ::
  "codecs \<Rightarrow> provider_impl \<Rightarrow> account \<Rightarrow> attempt_context \<Rightarrow> string outcome" where
  "final_body c p a ctx =
     (case impl_transform (from_slice c) (to_vec c) p (ac_body ctx) a of
        Panics \<Rightarrow> Panics
      | Returns (Inr (Some transformed)) \<Rightarrow> Returns transformed
      | Returns (Inr None) \<Rightarrow>
          if agent_used (ac_meta ctx) \<noteq> None then apply_model_mapping c a (ac_model ctx) (ac_body ctx)
          else Returns (ac_body ctx)
      | Returns (Inl _) \<Rightarrow> Returns (ac_body ctx))"

definition use_token ::
  "'w proxy_env \<Rightarrow> provider_impl \<Rightarrow> account \<Rightarrow> 'w proxy_state \<Rightarrow> account \<times> 'w proxy_state" where
  "use_token env p a st =
     (case ps_tokens st of
        None \<Rightarrow> (a, st)
      | Some tm \<Rightarrow>
          (case get_valid_access_token (env_token_io env p) tm a
                  (env_now env (ps_world st)) (ps_world st) of
             (res, a', tm', w') \<Rightarrow>
               ((case res of
                   Inr token \<Rightarrow> if token \<noteq> [] then a'\<lparr>access_token := Some token\<rparr> else a'
                 | Inl _ \<Rightarrow> a'),
                st\<lparr>ps_tokens := Some tm', ps_world := w'\<rparr>)))"

definition analytics_of ::
  "attempt_context \<Rightarrow> account \<Rightarrow> nat \<Rightarrow> nat \<Rightarrow> analytics_content option \<Rightarrow> analytics_msg" where
  "analytics_of ctx a attempt status content =
     \<lparr>am_request_id = req_id (ac_meta ctx), am_account_id = Some (acct_id a),
      am_path = req_path (ac_meta ctx), am_status = status, am_start = ac_start ctx,
      am_agent = agent_used (ac_meta ctx), am_project = project (ac_meta ctx),
      am_key_id = api_key_id (ac_info ctx), am_key_name = api_key_name (ac_info ctx),
      am_attempts = attempt, am_content = content\<rparr>"

type_synonym 'w answer = "response outcome account_result \<times> 'w proxy_state"

definition build_success_response ::
  "'w proxy_env \<Rightarrow> provider_impl \<Rightarrow> account \<Rightarrow> attempt_context \<Rightarrow> nat \<Rightarrow> upstream_response \<Rightarrow>
     'w proxy_state \<Rightarrow> 'w answer" where
  "build_success_response env p a ctx attempt resp st =
     (let headers = axum_headers_from_reqwest (up_headers resp);
          is_streaming = is_streaming_response headers;
          info = impl_parse_rate_limit (rfc3339 (env_codecs env)) (env_now env (ps_world st)) p
                   headers (up_status resp);
          st = write_db env (RateMeta (status_header info) (remaining info) (reset_time info)
                 (acct_id a)) st;
          reply = (\<lambda>b. \<lparr>resp_status = status_or (up_status resp) 200,
            resp_headers = forward_response_headers (up_headers resp) is_streaming, resp_body = b\<rparr>)
      in if is_streaming then
           (Success (Returns (reply (StreamBody (good_chunks (up_chunks resp))))),
            (if env_post env
             then st\<lparr>ps_streams := ps_streams st @ [analytics_of ctx a attempt (up_status resp) None]\<rparr>
             else st))
         else case collect_body (up_chunks resp) of
             Inl e \<Rightarrow> (Error (''Failed to read response: '' @ e), st)
           | Inr b \<Rightarrow>
               (Success (Returns (reply (RawBody b))),
                post_analytics env
                  (analytics_of ctx a attempt (up_status resp) (Some (WholeBody b))) st))"

definition json_reply :: "nat \<Rightarrow> string \<Rightarrow> response" where
  "json_reply status b =
     \<lparr>resp_status = status, resp_headers = [(''content-type'', ''application/json'')],
      resp_body = RawBody b\<rparr>"

definition on_rate_limited ::
  "'w proxy_env \<Rightarrow> provider_impl \<Rightarrow> account \<Rightarrow> upstream_response \<Rightarrow> 'w proxy_state \<Rightarrow> 'w answer" where
  "on_rate_limited env p a resp st =
     (let now = env_now env (ps_world st);
          info = impl_parse_rate_limit (rfc3339 (env_codecs env)) now p
                   (axum_headers_from_reqwest (up_headers resp)) (up_status resp);
          until = (case reset_time info of Some t \<Rightarrow> t | None \<Rightarrow> i64_add now 60000)
      in (RateLimited info, write_db env (LimitUntil until (acct_id a)) st))"

definition on_auth_failure ::
  "'w proxy_env \<Rightarrow> account \<Rightarrow> nat \<Rightarrow> 'w proxy_state \<Rightarrow> 'w answer" where
  "on_auth_failure env a status st =
     (AuthFailure (status_or status 401),
      write_db env (MarkAuthFailed (auth_failed_label status)
        (i64_sub (env_now env (ps_world st)) 1) (acct_id a)) st)"

definition on_bad_request ::
  "'w proxy_env \<Rightarrow> provider_impl \<Rightarrow> account \<Rightarrow> attempt_context \<Rightarrow> nat \<Rightarrow> upstream_request \<Rightarrow>
     upstream_response \<Rightarrow> 'w proxy_state \<Rightarrow> 'w answer" where
  "on_bad_request env p a ctx attempt req resp st =
     (let c = env_codecs env in
      case collect_body (up_chunks resp) of
        Inl e \<Rightarrow> (Error e, st)
      | Inr b \<Rightarrow>
          if agent_used (ac_meta ctx) \<noteq> None \<and> is_thinking_block_error (from_slice c) 400 b then
            (case filter_thinking_blocks (from_slice c) (to_vec c) (ur_body req) of
               None \<Rightarrow> (Success (Returns (json_reply 400 b)), st)
             | Some filtered \<Rightarrow>
                 (case send_upstream env (req\<lparr>ur_body := filtered\<rparr>) st of
                    (Inr retry, st) \<Rightarrow>
                      if 200 \<le> up_status retry \<and> up_status retry < 300
                      then build_success_response env p a ctx attempt retry st
                      else (Success (Returns (json_reply 400 b)), st)
                  | (Inl _, st) \<Rightarrow> (Success (Returns (json_reply 400 b)), st)))
          else
            (Success (Returns (json_reply 400 b)),
             post_analytics env (analytics_of ctx a attempt 400 (Some (WholeBody b))) st))"

definition on_response ::
  "'w proxy_env \<Rightarrow> provider_impl \<Rightarrow> account \<Rightarrow> attempt_context \<Rightarrow> nat \<Rightarrow> upstream_request \<Rightarrow>
     upstream_response \<Rightarrow> 'w proxy_state \<Rightarrow> 'w answer" where
  "on_response env p a ctx attempt req resp st =
     (if up_status resp = 429 then on_rate_limited env p a resp st
      else if up_status resp = 401 \<or> up_status resp = 403
      then on_auth_failure env a (up_status resp) st
      else if up_status resp = 400 then on_bad_request env p a ctx attempt req resp st
      else build_success_response env p a ctx attempt resp st)"

text \<open>
  A panic ends the whole request, so it ends the failover loop the way an answer does; the
  answer then is no response.
\<close>

definition try_account ::
  "'w proxy_env \<Rightarrow> attempt_context \<Rightarrow> account \<Rightarrow> nat \<Rightarrow> 'w proxy_state \<Rightarrow> 'w answer" where
  "try_account env ctx a attempt st =
     (case Option.bind (env_registry env) (\<lambda>reg. reg_get reg (provider a)) of
        None \<Rightarrow> (Error (''No provider implementation for '' @ [CHR 0x27] @ provider a @ [CHR 0x27]), st)
      | Some p \<Rightarrow>
          (case use_token env p a st of (a, st) \<Rightarrow>
             (let url = impl_build_url (vertex_config (env_codecs env)) p
                    (req_path (ac_meta ctx)) (req_query (ac_meta ctx)) a
              in case impl_prepare_headers p (filter_request_headers (ac_headers ctx))
                        (access_token a) (api_key a) of
                   Inl _ \<Rightarrow> (AuthFailure 401, st)
                 | Inr h \<Rightarrow>
                     (case final_body (env_codecs env) p a ctx of
                        Panics \<Rightarrow> (Success Panics, st)
                      | Returns body \<Rightarrow>
                          (let req = \<lparr>ur_method =
                                 (case method_from_bytes (req_method (ac_meta ctx)) of
                                    Some m \<Rightarrow> m | None \<Rightarrow> ''POST''),
                                 ur_url = url, ur_headers = reqwest_headers h, ur_body = body\<rparr>
                           in case send_upstream env req st of
                                (Inl e, st) \<Rightarrow> (Error e, st)
                              | (Inr resp, st) \<Rightarrow> on_response env p a ctx attempt req resp st)))))"

section \<open>The request\<close>

record proxy_request = http_request +
  rq_query :: string
  rq_body :: "string option"

text \<open>\<open>rq_body\<close> is \<open>None\<close> when the client's body cannot be read.\<close>

definition selection_meta_of :: "auth_info \<Rightarrow> header_map \<Rightarrow> selection_meta" where
  "selection_meta_of info headers =
     (if info_scope info = Some Proxy then
        \<lparr>force_account_id = None, force_account_strict = False, bypass_session = False\<rparr>
      else
        \<lparr>force_account_id = get_force_account_id headers,
         force_account_strict =
           (header_str headers ''x-better-ccflare-force-account-strict'' = Some ''true''),
         bypass_session = is_session_bypass headers\<rparr>)"

definition usage_of_accounts :: "usage_map \<Rightarrow> account list \<Rightarrow> usage_map" where
  "usage_of_accounts usage accounts i = (if i \<in> acct_id ` set accounts then usage i else None)"

definition order_accounts ::
  "'w proxy_env \<Rightarrow> selection_meta \<Rightarrow> account list \<Rightarrow> i64 \<Rightarrow> 'w proxy_state \<Rightarrow>
     (account list \<times> session_reset list) \<times> 'w proxy_state" where
  "order_accounts env smeta accounts now st =
     (case ps_strategy st of
        Some lb \<Rightarrow>
          (case select lb accounts (usage_of_accounts (env_usage env (ps_world st)) accounts) smeta now of
             (res, lb') \<Rightarrow> (res, st\<lparr>ps_strategy := Some lb'\<rparr>))
      | None \<Rightarrow> ((sort_by priority_cmp accounts, []), st))"

text \<open>The project header is read under its two names, in order of preference.\<close>

definition project_of :: "header_map \<Rightarrow> string option" where
  "project_of h =
     (if map_of h ''x-ccflare-project'' \<noteq> None then header_str h ''x-ccflare-project''
      else header_str h ''x-better-ccflare-project'')"

definition request_meta_of ::
  "proxy_request \<Rightarrow> i64 \<Rightarrow> 64 word \<Rightarrow> request_meta \<times> 64 word" where
  "request_meta_of req now counter =
     (case request_meta_new (rq_method req) (rq_path req) (rq_query req) now counter of
        (meta, counter') \<Rightarrow>
          (meta\<lparr>agent_used := Option.bind (header_str (rq_headers req) ''user-agent'')
                  detect_agent_from_user_agent,
                project := project_of (rq_headers req)\<rparr>, counter'))"

definition context_of ::
  "'w proxy_env \<Rightarrow> auth_info \<Rightarrow> proxy_request \<Rightarrow> request_meta \<Rightarrow> string \<Rightarrow> instant \<Rightarrow>
     attempt_context" where
  "context_of env info req meta body start =
     \<lparr>ac_meta = meta, ac_info = info, ac_headers = rq_headers req,
      ac_model = extract_model_from_body (model_field (env_codecs env)) body,
      ac_body = body, ac_start = start\<rparr>"

definition all_failed :: string where
  "all_failed = ''All accounts failed '' @ map (char_of :: nat \<Rightarrow> char) [0xE2, 0x80, 0x94] @
     '' request could not be proxied''"

definition forward_request ::
  "'w proxy_env \<Rightarrow> attempt_context \<Rightarrow> i64 \<Rightarrow> account list \<Rightarrow> 'w proxy_state \<Rightarrow>
     response outcome \<times> 'w proxy_state" where
  "forward_request env ctx now accounts st =
     (if accounts = [] then
        (Returns (error_response 503 ''No accounts configured. Add an account with: better-ccflare --add-account <name> --mode <mode>''), st)
      else
        (case order_accounts env (selection_meta_of (ac_info ctx) (ac_headers ctx)) accounts now st of
           ((ordered, resets), st) \<Rightarrow>
             (let st = (if resets \<noteq> [] then write_db env (SessionResets resets) st else st)
              in if ordered = [] then
                   (Returns (error_response 503 ''All accounts are paused or rate-limited''), st)
                 else case try_accounts_in_order (try_account env ctx) ordered st of
                     (Some (Returns resp, i), st) \<Rightarrow>
                       (Returns resp, write_db env (CountRequest now i) st)
                   | (Some (Panics, i), st) \<Rightarrow> (Panics, st)
                   | (None, st) \<Rightarrow>
                       (Returns (error_response 503 all_failed), st))))"

definition handle_admitted ::
  "'w proxy_env \<Rightarrow> auth_info \<Rightarrow> proxy_request \<Rightarrow> instant \<Rightarrow> 'w proxy_state \<Rightarrow>
     response outcome \<times> 'w proxy_state" where
  "handle_admitted env info req start st =
     (if \<not> is_safe_request_path (rq_path req) then
        (Returns (error_response 400 ''Invalid request path''), st)
      else if (case rq_body req of None \<Rightarrow> True | Some b \<Rightarrow> length b > MAX_BODY_SIZE) then
        (Returns (error_response 413 ''Request body too large''), st)
      else
        (let body = the (rq_body req);
             now = env_now env (ps_world st);
             (meta, counter) = request_meta_of req now (ps_counter st);
             st = st\<lparr>ps_counter := counter\<rparr>
         in if \<not> env_pool env then
              (Returns (error_response 503 ''Database not available''), st)
            else case get_accounts_cached env st of
                (Inl e, st) \<Rightarrow> (Returns (error_response 503 ''Failed to load accounts''), st)
              | (Inr accounts, st) \<Rightarrow>
                  forward_request env (context_of env info req meta body start) now accounts st))"

definition proxy_handler ::
  "'w proxy_env \<Rightarrow> auth_info \<Rightarrow> proxy_request \<Rightarrow> 'w proxy_state \<Rightarrow>
     response outcome \<times> 'w proxy_state" where
  "proxy_handler env info req st =
     (let start = env_instant env (ps_world st) in
      if \<not> is_authenticated info then (Returns (error_response 401 ''Unauthorized''), st)
      else case ps_permits st of
          None \<Rightarrow> handle_admitted env info req start st
        | Some 0 \<Rightarrow>
            (Returns ((error_response 429 ''Too many concurrent requests'')
               \<lparr>resp_headers := resp_headers (error_response 429 []) @ [(''retry-after'', ''1'')]\<rparr>), st)
        | Some (Suc n) \<Rightarrow>
            (case handle_admitted env info req start (st\<lparr>ps_permits := Some n\<rparr>) of
               (res, st) \<Rightarrow> (res, st\<lparr>ps_permits := map_option Suc (ps_permits st)\<rparr>)))"

text \<open>
  The task that waits for a streamed response: once the client has read or dropped the stream,
  the buffer of the tee is posted.
\<close>

definition finish_stream ::
  "analytics_msg \<Rightarrow> instant \<Rightarrow> ('e polled \<times> instant) list \<Rightarrow> analytics_msg option" where
  "finish_stream m start polls =
     (case received (snd (tee_run start polls)) of
        None \<Rightarrow> None
      | Some b \<Rightarrow> Some (m\<lparr>am_content := Some (StreamBuffer b)\<rparr>))"

end
