(* ===== verification/Proxy_Correct.thy ===== *)
theory Proxy_Correct
  imports Proxy_Handler
begin

text \<open>
  What the proxy endpoint guarantees: which headers matter and which leave, how often an upstream
  is called, what a failure does to the account, what the client's body goes through. The facts
  about one attempt come first; the contracts of the failover loop (theory Handler), interpreted
  on \<open>try_account\<close>, carry them to the request.
\<close>

section \<open>The state after an attempt\<close>

lemma write_db_sel [simp]:
  "ps_sent (write_db env u st) = ps_sent st" "ps_world (write_db env u st) = ps_world st"
  "ps_permits (write_db env u st) = ps_permits st" "ps_tokens (write_db env u st) = ps_tokens st"
  by (simp_all add: write_db_def)

lemma post_analytics_sel [simp]:
  "ps_sent (post_analytics env m st) = ps_sent st"
  "ps_permits (post_analytics env m st) = ps_permits st"
  "ps_writes (post_analytics env m st) = ps_writes st"
  by (simp_all add: post_analytics_def)

lemma build_success_sent [simp]:
  "ps_sent (snd (build_success_response env p a ctx n resp st)) = ps_sent st"
  "ps_permits (snd (build_success_response env p a ctx n resp st)) = ps_permits st"
  by (auto simp: build_success_response_def Let_def split: sum.split)

lemma send_upstream_sent:
  "ps_sent (snd (send_upstream env r st)) = ps_sent st @ [r]"
  "ps_permits (snd (send_upstream env r st)) = ps_permits st"
  "ps_writes (snd (send_upstream env r st)) = ps_writes st"
  by (simp_all add: send_upstream_def split: prod.split)

lemma on_rate_limited_sent [simp]:
  "ps_sent (snd (on_rate_limited env p a resp st)) = ps_sent st"
  "ps_permits (snd (on_rate_limited env p a resp st)) = ps_permits st"
  by (simp_all add: on_rate_limited_def Let_def)

lemma on_auth_failure_sent [simp]:
  "ps_sent (snd (on_auth_failure env a status st)) = ps_sent st"
  "ps_permits (snd (on_auth_failure env a status st)) = ps_permits st"
  by (simp_all add: on_auth_failure_def)

lemma use_token_sent:
  "use_token env p a st = (a', st') \<Longrightarrow>
     ps_sent st' = ps_sent st \<and> ps_permits st' = ps_permits st \<and> ps_writes st' = ps_writes st"
  by (auto simp: use_token_def split: option.splits prod.splits)

text \<open>
  The requests that follow the first one of an attempt: none, or the same request with the
  filtered body, for clients that are agents.
\<close>

definition follow_ups :: "attempt_context \<Rightarrow> upstream_request \<Rightarrow> upstream_request list \<Rightarrow> bool" where
  "follow_ups ctx req rs \<longleftrightarrow>
     rs = [] \<or> agent_used (ac_meta ctx) \<noteq> None \<and> (\<exists>b. rs = [req\<lparr>ur_body := b\<rparr>])"

lemma on_bad_request_sent:
  "\<exists>rs. ps_sent (snd (on_bad_request env p a ctx n req resp st)) = ps_sent st @ rs \<and>
     follow_ups ctx req rs \<and>
     ps_permits (snd (on_bad_request env p a ctx n req resp st)) = ps_permits st"
proof (cases "collect_body (up_chunks resp)")
  case (Inl e)
  then show ?thesis by (simp add: on_bad_request_def follow_ups_def)
next
  case (Inr b)
  let ?c = "env_codecs env"
  show ?thesis
  proof (cases "agent_used (ac_meta ctx) \<noteq> None \<and> is_thinking_block_error (from_slice ?c) 400 b")
    case False
    with Inr show ?thesis by (auto simp: on_bad_request_def follow_ups_def Let_def)
  next
    case agent: True
    show ?thesis
    proof (cases "filter_thinking_blocks (from_slice ?c) (to_vec ?c) (ur_body req)")
      case None
      with Inr agent show ?thesis by (simp add: on_bad_request_def follow_ups_def)
    next
      case (Some filtered)
      let ?req = "req\<lparr>ur_body := filtered\<rparr>"
      obtain answer st' where s: "send_upstream env ?req st = (answer, st')"
        by (cases "send_upstream env ?req st")
      with send_upstream_sent [of env ?req st]
      have "ps_sent st' = ps_sent st @ [?req]" "ps_permits st' = ps_permits st"
        by auto
      moreover have "follow_ups ctx req [?req]"
        using agent by (auto simp: follow_ups_def)
      ultimately show ?thesis
        using Inr agent Some s
        by (intro exI [of _ "[?req]"]) (auto simp: on_bad_request_def split: sum.split)
    qed
  qed
qed

lemma on_response_sent:
  "\<exists>rs. ps_sent (snd (on_response env p a ctx n req resp st)) = ps_sent st @ rs \<and>
     follow_ups ctx req rs \<and>
     ps_permits (snd (on_response env p a ctx n req resp st)) = ps_permits st"
proof (cases "up_status resp = 400")
  case True
  with on_bad_request_sent [of env p a ctx n req resp st] show ?thesis
    by (simp add: on_response_def)
next
  case False
  then show ?thesis
    by (auto simp: on_response_def follow_ups_def)
qed

text \<open>An attempt that calls the upstream: the provider, the account with its token, the request.\<close>

definition attempt_request ::
  "'w proxy_env \<Rightarrow> attempt_context \<Rightarrow> provider_impl \<Rightarrow> account \<Rightarrow> upstream_request \<Rightarrow> bool" where
  "attempt_request env ctx p a req \<longleftrightarrow>
     (\<exists>h body. impl_prepare_headers p (filter_request_headers (ac_headers ctx))
          (access_token a) (api_key a) = Inr h \<and>
        final_body (env_codecs env) p a ctx = Returns body \<and>
        req = \<lparr>ur_method = (case method_from_bytes (req_method (ac_meta ctx)) of
                   Some m \<Rightarrow> m | None \<Rightarrow> ''POST''),
               ur_url = impl_build_url (vertex_config (env_codecs env)) p
                 (req_path (ac_meta ctx)) (req_query (ac_meta ctx)) a,
               ur_headers = reqwest_headers h, ur_body = body\<rparr>)"

lemma try_account_cases:
  obtains (quiet) "ps_sent (snd (try_account env ctx a n st)) = ps_sent st"
      "ps_permits (snd (try_account env ctx a n st)) = ps_permits st"
      "ps_writes (snd (try_account env ctx a n st)) = ps_writes st"
      "\<And>info. fst (try_account env ctx a n st) \<noteq> RateLimited info"
      "\<And>resp. fst (try_account env ctx a n st) \<noteq> Success (Returns resp)"
  | (failed) p a' st1 req e st2 where "reg_get (the (env_registry env)) (provider a) = Some p"
      "use_token env p a st = (a', st1)" "attempt_request env ctx p a' req"
      "send_upstream env req st1 = (Inl e, st2)" "try_account env ctx a n st = (Error e, st2)"
  | (answered) p a' st1 req resp st2 where "reg_get (the (env_registry env)) (provider a) = Some p"
      "use_token env p a st = (a', st1)" "attempt_request env ctx p a' req"
      "send_upstream env req st1 = (Inr resp, st2)"
      "try_account env ctx a n st = on_response env p a' ctx n req resp st2"
proof (cases "Option.bind (env_registry env) (\<lambda>reg. reg_get reg (provider a))")
  case None
  then show ?thesis by (intro quiet) (simp_all add: try_account_def)
next
  case (Some p)
  then have reg: "reg_get (the (env_registry env)) (provider a) = Some p"
    by (cases "env_registry env") simp_all
  obtain a' st1 where u: "use_token env p a st = (a', st1)" by (cases "use_token env p a st")
  note u' = use_token_sent [OF u]
  show ?thesis
  proof (cases "impl_prepare_headers p (filter_request_headers (ac_headers ctx))
      (access_token a') (api_key a')")
    case (Inl e)
    with Some u u' show ?thesis by (intro quiet) (simp_all add: try_account_def Let_def)
  next
    case (Inr h)
    show ?thesis
    proof (cases "final_body (env_codecs env) p a' ctx")
      case Panics
      with Some u u' Inr show ?thesis by (intro quiet) (simp_all add: try_account_def Let_def)
    next
      case (Returns body)
      define req where "req = \<lparr>ur_method = (case method_from_bytes (req_method (ac_meta ctx)) of
             Some m \<Rightarrow> m | None \<Rightarrow> ''POST''),
           ur_url = impl_build_url (vertex_config (env_codecs env)) p
             (req_path (ac_meta ctx)) (req_query (ac_meta ctx)) a',
           ur_headers = reqwest_headers h, ur_body = body\<rparr>"
      have r: "attempt_request env ctx p a' req"
        using Inr Returns by (simp add: attempt_request_def req_def)
      obtain answer st2 where s: "send_upstream env req st1 = (answer, st2)"
        by (cases "send_upstream env req st1")
      have t: "try_account env ctx a n st =
          (case answer of Inl e \<Rightarrow> (Error e, st2) | Inr resp \<Rightarrow> on_response env p a' ctx n req resp st2)"
        using Some u Inr Returns s
        by (simp add: try_account_def Let_def req_def split: sum.split)
      show ?thesis
      proof (cases answer)
        case (Inl e)
        with failed [OF reg u r] s t show ?thesis by simp
      next
        case (Inr resp)
        with answered [OF reg u r] s t show ?thesis by simp
      qed
    qed
  qed
qed

text \<open>What an attempt sends: nothing, or one request and at most one follow-up.\<close>

lemma try_account_sent:
  "\<exists>rs. ps_sent (snd (try_account env ctx a n st)) = ps_sent st @ rs \<and>
     ps_permits (snd (try_account env ctx a n st)) = ps_permits st \<and>
     (rs = [] \<or> (\<exists>p a' st1 req fs. reg_get (the (env_registry env)) (provider a) = Some p \<and>
        use_token env p a st = (a', st1) \<and> attempt_request env ctx p a' req \<and>
        rs = req # fs \<and> follow_ups ctx req fs))"
proof (rule try_account_cases [of env ctx a n st])
  assume "ps_sent (snd (try_account env ctx a n st)) = ps_sent st"
    "ps_permits (snd (try_account env ctx a n st)) = ps_permits st"
  then show ?thesis by simp
next
  fix p a' st1 req e st2
  assume *: "reg_get (the (env_registry env)) (provider a) = Some p"
    "use_token env p a st = (a', st1)" "attempt_request env ctx p a' req"
    "send_upstream env req st1 = (Inl e, st2)" "try_account env ctx a n st = (Error e, st2)"
  with send_upstream_sent [of env req st1] use_token_sent [OF *(2)] show ?thesis
    by (intro exI [of _ "[req]"]) (auto simp: follow_ups_def)
next
  fix p a' st1 req resp st2
  assume *: "reg_get (the (env_registry env)) (provider a) = Some p"
    "use_token env p a st = (a', st1)" "attempt_request env ctx p a' req"
    "send_upstream env req st1 = (Inr resp, st2)"
    "try_account env ctx a n st = on_response env p a' ctx n req resp st2"
  obtain fs where "ps_sent (snd (on_response env p a' ctx n req resp st2)) = ps_sent st2 @ fs"
    "follow_ups ctx req fs"
    "ps_permits (snd (on_response env p a' ctx n req resp st2)) = ps_permits st2"
    using on_response_sent [of env p a' ctx n req resp st2] by blast
  with * send_upstream_sent [of env req st1] use_token_sent [OF *(2)] show ?thesis
    by (intro exI [of _ "req # fs"]) auto
qed

section \<open>From the attempts to the request\<close>

definition client_agent :: "proxy_request \<Rightarrow> string option" where
  "client_agent req =
     Option.bind (header_str (rq_headers req) ''user-agent'') detect_agent_from_user_agent"

text \<open>A context made for the request.\<close>

definition serves :: "attempt_context \<Rightarrow> auth_info \<Rightarrow> proxy_request \<Rightarrow> bool" where
  "serves ctx info req \<longleftrightarrow>
     ac_info ctx = info \<and> ac_headers ctx = rq_headers req \<and> rq_body req = Some (ac_body ctx) \<and>
     agent_used (ac_meta ctx) = client_agent req \<and> req_path (ac_meta ctx) = rq_path req"

definition own_headers :: "response \<Rightarrow> bool" where
  "own_headers r \<longleftrightarrow> set (map fst (resp_headers r)) \<subseteq> {''content-type'', ''retry-after''}"

lemma own_headers_error [simp]: "own_headers (error_response status m)"
  by (simp add: own_headers_def error_response_def)

text \<open>An answer of the proxy's own, with no upstream called and no slot kept.\<close>

definition refused :: "response outcome \<times> 'w proxy_state \<Rightarrow> 'w proxy_state \<Rightarrow> bool" where
  "refused r st \<longleftrightarrow>
     (case fst r of Panics \<Rightarrow> False | Returns resp \<Rightarrow> own_headers resp) \<and>
     ps_sent (snd r) = ps_sent st \<and> ps_permits (snd r) = ps_permits st"

lemma refused_Returns [simp]:
  "refused (Returns resp, st') st \<longleftrightarrow>
     own_headers resp \<and> ps_sent st' = ps_sent st \<and> ps_permits st' = ps_permits st"
  by (simp add: refused_def)

lemma get_accounts_cached_sent:
  "get_accounts_cached env st = (res, st') \<Longrightarrow>
     ps_sent st' = ps_sent st \<and> ps_permits st' = ps_permits st \<and> ps_writes st' = ps_writes st"
  by (auto simp: get_accounts_cached_def split: option.splits prod.splits sum.splits)

lemma order_accounts_sent:
  "order_accounts env smeta accounts now st = (res, st') \<Longrightarrow>
     ps_sent st' = ps_sent st \<and> ps_permits st' = ps_permits st \<and> ps_writes st' = ps_writes st"
  by (auto simp: order_accounts_def split: option.splits prod.splits)

definition final_answer :: "(response outcome \<times> string) option \<Rightarrow> response outcome" where
  "final_answer res =
     (case res of Some (x, i) \<Rightarrow> x | None \<Rightarrow> Returns (error_response 503 all_failed))"

lemma forward_request_cases:
  obtains (own) "refused (forward_request env ctx now accounts st) st"
  | (tried) ordered st1 st2 res where
      "try_accounts_in_order (try_account env ctx) ordered st1 = (res, st2)"
      "fst (forward_request env ctx now accounts st) = final_answer res"
      "ps_sent st1 = ps_sent st" "ps_permits st1 = ps_permits st"
      "ps_sent (snd (forward_request env ctx now accounts st)) = ps_sent st2"
      "ps_permits (snd (forward_request env ctx now accounts st)) = ps_permits st2"
proof (cases "accounts = []")
  case True
  then show ?thesis by (intro own) (simp_all add: forward_request_def)
next
  case False
  obtain ordered resets st0 where o: "order_accounts env
      (selection_meta_of (ac_info ctx) (ac_headers ctx)) accounts now st = ((ordered, resets), st0)"
    by (metis prod.collapse)
  note o' = order_accounts_sent [OF o]
  define st1 where "st1 = (if resets \<noteq> [] then write_db env (SessionResets resets) st0 else st0)"
  have st1: "ps_sent st1 = ps_sent st" "ps_permits st1 = ps_permits st"
    using o' by (simp_all add: st1_def)
  show ?thesis
  proof (cases "ordered = []")
    case True
    with False o st1 show ?thesis
      by (intro own) (simp_all add: forward_request_def st1_def [symmetric])
  next
    case ordered: False
    obtain res st2 where t: "try_accounts_in_order (try_account env ctx) ordered st1 = (res, st2)"
      by (cases "try_accounts_in_order (try_account env ctx) ordered st1")
    have "forward_request env ctx now accounts st =
        (case res of
           Some (Returns resp, i) \<Rightarrow> (Returns resp, write_db env (CountRequest now i) st2)
         | Some (Panics, i) \<Rightarrow> (Panics, st2)
         | None \<Rightarrow> (Returns (error_response 503 all_failed), st2))"
      using False o ordered t
      by (simp add: forward_request_def st1_def [symmetric] split: option.split prod.split outcome.split)
    with tried [OF t _ st1] show ?thesis
      by (auto simp: final_answer_def split: option.splits prod.splits outcome.splits)
  qed
qed

lemma handle_admitted_cases:
  obtains (own) "refused (handle_admitted env info req start st) st"
  | (tried) ctx ordered st1 st2 res where "serves ctx info req"
      "try_accounts_in_order (try_account env ctx) ordered st1 = (res, st2)"
      "fst (handle_admitted env info req start st) = final_answer res"
      "ps_sent st1 = ps_sent st" "ps_permits st1 = ps_permits st"
      "ps_sent (snd (handle_admitted env info req start st)) = ps_sent st2"
      "ps_permits (snd (handle_admitted env info req start st)) = ps_permits st2"
proof (cases "is_safe_request_path (rq_path req) \<and> (\<exists>b. rq_body req = Some b \<and> length b \<le> MAX_BODY_SIZE)
    \<and> env_pool env")
  case False
  then show ?thesis
    by (intro own) (auto simp: handle_admitted_def Let_def split: option.splits prod.splits)
next
  case True
  then obtain b where b: "rq_body req = Some b" "length b \<le> MAX_BODY_SIZE" by blast
  let ?now = "env_now env (ps_world st)"
  obtain meta counter where m: "request_meta_of req ?now (ps_counter st) = (meta, counter)"
    by (cases "request_meta_of req ?now (ps_counter st)")
  obtain res st0 where g: "get_accounts_cached env (st\<lparr>ps_counter := counter\<rparr>) = (res, st0)"
    by (cases "get_accounts_cached env (st\<lparr>ps_counter := counter\<rparr>)")
  note g' = get_accounts_cached_sent [OF g]
  let ?ctx = "context_of env info req meta b start"
  have h: "handle_admitted env info req start st =
      (case res of Inl e \<Rightarrow> (Returns (error_response 503 ''Failed to load accounts''), st0)
       | Inr accounts \<Rightarrow> forward_request env ?ctx ?now accounts st0)"
    using True b m g by (simp add: handle_admitted_def split: sum.split)
  have serves: "serves ?ctx info req"
    using m b by (auto simp: serves_def context_of_def request_meta_of_def request_meta_new_def
        client_agent_def split: prod.splits)
  show ?thesis
  proof (cases res)
    case (Inl e)
    with h g' show ?thesis by (intro own) simp_all
  next
    case (Inr accounts)
    show ?thesis
    proof (rule forward_request_cases [of env ?ctx ?now accounts st0])
      assume "refused (forward_request env ?ctx ?now accounts st0) st0"
      with h Inr g' show ?thesis by (intro own) (simp add: refused_def)
    next
      fix ordered st1 st2 ans
      assume "try_accounts_in_order (try_account env ?ctx) ordered st1 = (ans, st2)"
        "fst (forward_request env ?ctx ?now accounts st0) = final_answer ans"
        "ps_sent st1 = ps_sent st0" "ps_permits st1 = ps_permits st0"
        "ps_sent (snd (forward_request env ?ctx ?now accounts st0)) = ps_sent st2"
        "ps_permits (snd (forward_request env ?ctx ?now accounts st0)) = ps_permits st2"
      with h Inr g' serves show ?thesis by (intro tried [of ?ctx ordered st1 ans st2]) simp_all
    qed
  qed
qed

text \<open>The slot taken at the start is given back, so the handler around it changes nothing else.\<close>

lemma proxy_handler_cases:
  obtains (own) "refused (proxy_handler env info req st) st"
  | (admitted) st1 start where "ps_sent st1 = ps_sent st" "is_authenticated info"
      "ps_permits st \<noteq> Some 0"
      "fst (proxy_handler env info req st) = fst (handle_admitted env info req start st1)"
      "ps_sent (snd (proxy_handler env info req st)) =
        ps_sent (snd (handle_admitted env info req start st1))"
      "ps_permits (snd (handle_admitted env info req start st1)) = ps_permits st1 \<Longrightarrow>
        ps_permits (snd (proxy_handler env info req st)) = ps_permits st"
proof (cases "is_authenticated info \<and> ps_permits st \<noteq> Some 0")
  case False
  then show ?thesis
    by (intro own)
       (auto simp: proxy_handler_def Let_def own_headers_def error_response_def split: option.split)
next
  case True
  let ?start = "env_instant env (ps_world st)"
  show ?thesis
  proof (cases "ps_permits st")
    case None
    with True show ?thesis by (intro admitted [of st ?start]) (simp_all add: proxy_handler_def)
  next
    case (Some k)
    with True obtain n where n: "ps_permits st = Some (Suc n)" by (cases k) auto
    with True show ?thesis
      by (intro admitted [of "st\<lparr>ps_permits := Some n\<rparr>" ?start])
         (simp_all add: proxy_handler_def case_prod_beta Let_def)
  qed
qed

section \<open>How often an upstream is called\<close>

definition calls_per_attempt :: "string option \<Rightarrow> nat" where
  "calls_per_attempt agent = (if agent = None then 1 else 2)"

interpretation upstream_calls:
  attempt_cost "try_account env ctx" "\<lambda>st. length (ps_sent st)"
    "calls_per_attempt (agent_used (ac_meta ctx))" for env ctx
proof unfold_locales
  fix a n st
  show "length (ps_sent (snd (try_account env ctx a n st))) \<le>
      length (ps_sent st) + calls_per_attempt (agent_used (ac_meta ctx))"
    using try_account_sent [of env ctx a n st]
    by (auto simp: follow_ups_def calls_per_attempt_def)
qed

text \<open>
  C6. One client request costs a bounded number of upstream calls: at most five, one per attempt,
  and at most ten for an agent, whose attempts may be repeated once without thinking blocks.
\<close>

theorem upstream_calls_bounded:
  "length (ps_sent (snd (proxy_handler env info req st))) \<le>
     length (ps_sent st) + (if client_agent req = None then 5 else 10)"
proof (rule proxy_handler_cases [of env info req st])
  assume "refused (proxy_handler env info req st) st"
  then show ?thesis by (simp add: refused_def)
next
  fix st1 start
  assume st1: "ps_sent st1 = ps_sent st" "ps_sent (snd (proxy_handler env info req st)) =
    ps_sent (snd (handle_admitted env info req start st1))"
  show ?thesis
  proof (rule handle_admitted_cases [of env info req start st1])
    assume "refused (handle_admitted env info req start st1) st1"
    with st1 show ?thesis by (simp add: refused_def)
  next
    fix ctx ordered s1 s2 res
    assume "serves ctx info req"
      "try_accounts_in_order (try_account env ctx) ordered s1 = (res, s2)"
      "ps_sent s1 = ps_sent st1" "ps_sent (snd (handle_admitted env info req start st1)) = ps_sent s2"
    with st1 upstream_calls.cost_bounded [of env ctx ordered s1] show ?thesis
      by (auto simp: serves_def calls_per_attempt_def)
  qed
qed


text \<open>The slots: an attempt does not touch them, so the handler returns what it takes.\<close>

interpretation slots_kept:
  attempt_invariant "try_account env ctx" "\<lambda>st. ps_permits st = n" for env ctx n
proof unfold_locales
  fix st a k
  show "ps_permits st = n \<Longrightarrow> ps_permits (snd (try_account env ctx a k st)) = n"
    using try_account_sent [of env ctx a k st] by auto
qed

lemma handle_admitted_permits:
  "ps_permits (snd (handle_admitted env info req start st)) = ps_permits st"
proof (rule handle_admitted_cases [of env info req start st])
  assume "refused (handle_admitted env info req start st) st"
  then show ?thesis by (simp add: refused_def)
next
  fix ctx ordered s1 s2 res
  assume "try_accounts_in_order (try_account env ctx) ordered s1 = (res, s2)"
    "ps_permits s1 = ps_permits st"
    "ps_permits (snd (handle_admitted env info req start st)) = ps_permits s2"
  with slots_kept.inv_kept [of s1 "ps_permits st" env ctx ordered] show ?thesis by simp
qed

text \<open>
  The concurrency limit neither leaks nor blocks: whatever happens to a request, a panic
  included, the slot it took is free again when the handler returns; with no slot free the
  request is refused with 429 and \<open>retry-after\<close> at once and the state is untouched.
\<close>

theorem concurrency_slots:
  "ps_permits (snd (proxy_handler env info req st)) = ps_permits st \<and>
   (\<exists>r. proxy_handler env (info\<lparr>is_authenticated := True\<rparr>) req (st\<lparr>ps_permits := Some 0\<rparr>) =
        (Returns r, st\<lparr>ps_permits := Some 0\<rparr>) \<and>
      resp_status r = 429 \<and> header_str (resp_headers r) ''retry-after'' = Some ''1'')"
proof (rule conjI)
  show "ps_permits (snd (proxy_handler env info req st)) = ps_permits st"
  proof (rule proxy_handler_cases [of env info req st])
    assume "refused (proxy_handler env info req st) st"
    then show ?thesis by (simp add: refused_def)
  next
    fix st1 start
    assume "ps_permits (snd (handle_admitted env info req start st1)) = ps_permits st1 \<Longrightarrow>
      ps_permits (snd (proxy_handler env info req st)) = ps_permits st"
    with handle_admitted_permits show ?thesis by blast
  qed
  show "\<exists>r. proxy_handler env (info\<lparr>is_authenticated := True\<rparr>) req (st\<lparr>ps_permits := Some 0\<rparr>) =
        (Returns r, st\<lparr>ps_permits := Some 0\<rparr>) \<and>
      resp_status r = 429 \<and> header_str (resp_headers r) ''retry-after'' = Some ''1''"
    by (simp add: proxy_handler_def error_response_def header_str_def visible_ascii_def byte_def)
qed

section \<open>What the client gets back\<close>

definition response_header_ok :: "string \<times> string \<Rightarrow> bool" where
  "response_header_ok nv \<longleftrightarrow> should_forward_response_header (fst nv) False"

definition safe_answer :: "response outcome \<Rightarrow> bool" where
  "safe_answer x =
     (case x of Panics \<Rightarrow> True | Returns r \<Rightarrow> list_all response_header_ok (resp_headers r))"

lemma should_forward_response_lower [simp]:
  "should_forward_response_header (to_ascii_lowercase n) b = should_forward_response_header n b"
  by (simp add: should_forward_response_header_def eq_ignore_ascii_case_def)

lemma should_forward_response_stream: "should_forward_response_header n b = should_forward_response_header n c"
  by (simp add: should_forward_response_header_def)

lemma forward_response_headers_ok: "list_all response_header_ok (forward_response_headers h b)"
proof -
  have "response_header_ok nv" if "nv \<in> set (forward_response_headers h b)" for nv
  proof -
    from that obtain mv where "should_forward_response_header (fst mv) b" "convert_header mv = Some nv"
      by (auto simp: forward_response_headers_def List.map_filter_def split: if_splits)
    then have "fst nv = to_ascii_lowercase (fst mv)"
      by (auto simp: convert_header_def parse_header_name_def split: option.splits if_splits)
    with \<open>should_forward_response_header (fst mv) b\<close> show ?thesis
      by (simp add: response_header_ok_def should_forward_response_stream [of _ False b])
  qed
  then show ?thesis by (simp add: list_all_iff)
qed

lemma own_headers_safe: "own_headers r \<Longrightarrow> safe_answer (Returns r)"
proof -
  assume "own_headers r"
  moreover have "response_header_ok (''content-type'', v)" "response_header_ok (''retry-after'', v)" for v
    by (simp_all add: response_header_ok_def should_forward_response_header_def
        eq_ignore_ascii_case_def)
  ultimately show ?thesis
    by (fastforce simp: own_headers_def safe_answer_def list_all_iff)
qed

lemma build_success_safe:
  "fst (build_success_response env p a ctx n resp st) = Success x \<Longrightarrow> safe_answer x"
  by (auto simp: build_success_response_def safe_answer_def forward_response_headers_ok Let_def
      split: if_splits sum.splits)

lemma json_reply_safe [simp]: "safe_answer (Returns (json_reply status b))"
  by (intro own_headers_safe) (simp add: own_headers_def json_reply_def)

lemma on_bad_request_safe:
  "fst (on_bad_request env p a ctx n req resp st) = Success x \<Longrightarrow> safe_answer x"
  by (auto simp: on_bad_request_def Let_def dest: build_success_safe
      split: sum.splits if_splits option.splits prod.splits)

lemma on_response_safe:
  "fst (on_response env p a ctx n req resp st) = Success x \<Longrightarrow> safe_answer x"
  by (auto simp: on_response_def on_rate_limited_def on_auth_failure_def Let_def
      dest: build_success_safe on_bad_request_safe split: if_splits)

interpretation safe_answers: attempt_answer "try_account env ctx" safe_answer for env ctx
proof unfold_locales
  fix a n st x
  assume x: "fst (try_account env ctx a n st) = Success x"
  show "safe_answer x"
  proof (cases "\<exists>resp. x = Returns resp")
    case False
    then have "x = Panics" by (cases x) auto
    then show ?thesis by (simp add: safe_answer_def)
  next
    case True
    then obtain resp where "x = Returns resp" ..
    with x show ?thesis
      by (auto simp: try_account_def Let_def dest: on_response_safe
          split: option.splits prod.splits sum.splits outcome.splits)
  qed
qed

text \<open>
  The allowlists are compared with lists of headers, and prefixes of headers, that must never
  pass. The comparison is a computation on the literals.
\<close>

definition matches :: "string list \<Rightarrow> string list \<Rightarrow> string \<Rightarrow> bool" where
  "matches names pres n \<longleftrightarrow> n \<in> set names \<or> list_ex (\<lambda>p. starts_with n p) pres"

lemma matches_disjoint:
  assumes "list_all (\<lambda>n. \<not> matches ns ps n) ms"
    "list_all (\<lambda>q. list_all (\<lambda>n. \<not> starts_with n q) ns \<and>
       list_all (\<lambda>p. \<not> prefix p q \<and> \<not> prefix q p) ps) qs"
    "matches ms qs n"
  shows "\<not> matches ns ps n"
  using assms by (fastforce simp: matches_def starts_with_def list_all_iff list_ex_iff
      dest: prefix_same_cases)

text \<open>Response headers through which an upstream could act on the client.\<close>

definition acts_on_client :: "string \<Rightarrow> bool" where
  "acts_on_client =
     matches [''set-cookie'', ''www-authenticate'', ''location'', ''server'', ''connection'',
       ''transfer-encoding'', ''content-encoding'', ''strict-transport-security'']
       [''access-control-'']"

lemma answered_not_acting:
  assumes "should_forward_response_header n b"
  shows "\<not> acts_on_client (to_ascii_lowercase n)"
proof -
  have lower:
    "to_ascii_lowercase ''content-type'' = ''content-type''"
    "to_ascii_lowercase ''cache-control'' = ''cache-control''"
    "to_ascii_lowercase ''retry-after'' = ''retry-after''"
    "to_ascii_lowercase ''expires'' = ''expires''"
    "to_ascii_lowercase ''x-request-id'' = ''x-request-id''"
    "to_ascii_lowercase ''request-id'' = ''request-id''"
    "to_ascii_lowercase ''x-correlation-id'' = ''x-correlation-id''"
    by (simp_all add: to_ascii_lowercase_def to_ascii_lower_char_def is_ascii_upper_def)
  from assms have "matches [''content-type'', ''cache-control'', ''retry-after'', ''expires'',
      ''x-request-id'', ''request-id'', ''x-correlation-id''] [''anthropic-'', ''x-ratelimit-'']
      (to_ascii_lowercase n)"
    by (auto simp only: should_forward_response_header_def matches_def eq_ignore_ascii_case_def
        lower insert_iff Let_def list.set list_ex_Cons_iff list_ex_Nil_iff split: if_splits)
  then show ?thesis
    unfolding acts_on_client_def
    by (rule matches_disjoint [rotated 2]) (simp_all add: matches_def starts_with_def)
qed

text \<open>
  C10. Only harmless headers reach the client: every header of every response, proxied or the
  proxy's own, is on the allowlist of response headers, so no upstream can set a cookie, a
  CORS or an authentication header.
\<close>

theorem response_headers_allowed:
  "case fst (proxy_handler env info req st) of
     Panics \<Rightarrow> True
   | Returns r \<Rightarrow> list_all (\<lambda>(n, _). should_forward_response_header n False \<and>
       \<not> acts_on_client (to_ascii_lowercase n)) (resp_headers r)"
proof -
  have "safe_answer (fst (proxy_handler env info req st))"
  proof (rule proxy_handler_cases [of env info req st])
    assume "refused (proxy_handler env info req st) st"
    then show ?thesis
      by (auto simp: refused_def intro: own_headers_safe split: outcome.splits)
  next
    fix st1 start
    assume eq: "fst (proxy_handler env info req st) = fst (handle_admitted env info req start st1)"
    show ?thesis
    proof (rule handle_admitted_cases [of env info req start st1])
      assume "refused (handle_admitted env info req start st1) st1"
      then show ?thesis
        by (auto simp: eq refused_def intro: own_headers_safe split: outcome.splits)
    next
      fix ctx ordered s1 s2 res
      assume "try_accounts_in_order (try_account env ctx) ordered s1 = (res, s2)"
        "fst (handle_admitted env info req start st1) = final_answer res"
      with safe_answers.final_good [of env ctx ordered s1] show ?thesis
        by (auto simp: eq final_answer_def intro: own_headers_safe split: option.split)
    qed
  qed
  then show ?thesis
    by (fastforce simp: safe_answer_def response_header_ok_def list_all_iff
        dest: answered_not_acting split: outcome.splits)
qed


section \<open>Which request headers matter\<close>

definition routing_headers :: "string list" where
  "routing_headers = [''x-better-ccflare-account-id'', ''x-better-ccflare-force-account-strict'',
     ''x-better-ccflare-bypass-session'']"

definition project_headers :: "string list" where
  "project_headers = [''x-ccflare-project'', ''x-better-ccflare-project'']"

text \<open>
  The headers that may influence a request: the allowlist without the credentials, the project,
  and for a caller without the restricted scope the routing hints.
\<close>

definition header_matters :: "auth_info \<Rightarrow> string \<Rightarrow> bool" where
  "header_matters info n \<longleftrightarrow>
     should_forward_request_header n \<and> n \<noteq> ''authorization'' \<and> n \<noteq> ''x-api-key'' \<or>
     n \<in> set project_headers \<or>
     info_scope info \<noteq> Some Proxy \<and> n \<in> set routing_headers"

definition relevant_headers :: "auth_info \<Rightarrow> header_map \<Rightarrow> header_map" where
  "relevant_headers info h = filter (\<lambda>(n, _). header_matters info n) h"

lemma map_of_filter_key: "map_of (filter (\<lambda>(n, _). P n) h) k = (if P k then map_of h k else None)"
  by (induction h) auto

lemma map_of_relevant:
  "map_of (relevant_headers info h) k = (if header_matters info k then map_of h k else None)"
  by (simp add: relevant_headers_def map_of_filter_key)

lemma header_str_relevant:
  "header_str (relevant_headers info h) k = (if header_matters info k then header_str h k else None)"
  by (simp add: header_str_def map_of_relevant)

lemma strip_auth_filter: "strip_auth h = filter (\<lambda>(n, _). n \<noteq> ''authorization'' \<and> n \<noteq> ''x-api-key'') h"
  by (auto simp: strip_auth_def hdr_remove_def intro!: filter_cong)

lemma should_not_forward:
  "n \<in> set project_headers \<Longrightarrow> \<not> should_forward_request_header n"
  "n \<in> set routing_headers \<Longrightarrow> \<not> should_forward_request_header n"
  by (auto simp: project_headers_def routing_headers_def should_forward_request_header_def
      starts_with_def to_ascii_lowercase_def to_ascii_lower_char_def is_ascii_upper_def)

lemma filter_relevant:
  "filter_request_headers (relevant_headers info h) = strip_auth (filter_request_headers h)"
  unfolding strip_auth_filter filter_request_headers_def relevant_headers_def filter_filter
  using should_not_forward by (intro filter_cong) (auto simp: header_matters_def)

lemma prepare_strips: "impl_prepare_headers p (strip_auth h) token key = impl_prepare_headers p h token key"
proof -
  have "strip_auth (strip_auth h) = strip_auth h"
    by (simp add: strip_auth_filter)
  then show ?thesis
    by (cases p) (simp_all add: claude_prepare_headers_def compat_prepare_headers_def
        vertex_prepare_headers_def)
qed

lemmas deep_cong = if_cong option.case_cong nat.case_cong prod.case_cong sum.case_cong outcome.case_cong

lemma analytics_headers [simp]: "analytics_of (ctx\<lparr>ac_headers := h\<rparr>) = analytics_of ctx"
  by (intro ext) (simp add: analytics_of_def)

lemma on_response_headers:
  "on_response env p a (ctx\<lparr>ac_headers := h\<rparr>) n req resp st = on_response env p a ctx n req resp st"
proof -
  have *: "build_success_response env p a (ctx\<lparr>ac_headers := h\<rparr>) n resp st =
      build_success_response env p a ctx n resp st" for resp st
    by (simp add: build_success_response_def Let_def cong: deep_cong)
  show ?thesis
    by (simp add: on_response_def on_bad_request_def Let_def * cong: deep_cong)
qed

lemma final_body_headers: "final_body c p a (ctx\<lparr>ac_headers := h\<rparr>) = final_body c p a ctx"
  by (simp add: final_body_def cong: deep_cong)

lemma try_account_relevant:
  "try_account env (ctx\<lparr>ac_headers := relevant_headers info (ac_headers ctx)\<rparr>) = try_account env ctx"
  by (intro ext)
     (simp add: try_account_def final_body_headers filter_relevant prepare_strips on_response_headers
        Let_def cong: deep_cong)

lemma selection_relevant:
  "selection_meta_of info (relevant_headers info h) = selection_meta_of info h"
  by (auto simp: selection_meta_of_def get_force_account_id_def is_session_bypass_def
      header_str_relevant header_matters_def routing_headers_def)

lemma forward_request_relevant:
  "ac_info ctx = info \<Longrightarrow>
     forward_request env (ctx\<lparr>ac_headers := relevant_headers info (ac_headers ctx)\<rparr>) now accounts st =
     forward_request env ctx now accounts st"
  by (simp add: forward_request_def try_account_relevant selection_relevant Let_def cong: deep_cong)

lemma user_agent_matters: "header_matters info ''user-agent''"
  by (simp add: header_matters_def should_forward_request_header_def to_ascii_lowercase_def
      to_ascii_lower_char_def is_ascii_upper_def)

lemma project_relevant: "project_of (relevant_headers info h) = project_of h"
proof -
  have "header_matters info ''x-ccflare-project''" "header_matters info ''x-better-ccflare-project''"
    by (simp_all add: header_matters_def project_headers_def)
  then show ?thesis
    by (simp add: project_of_def header_str_relevant map_of_relevant)
qed

lemma request_meta_relevant:
  "request_meta_of (req\<lparr>rq_headers := relevant_headers info (rq_headers req)\<rparr>) now counter =
   request_meta_of req now counter"
  by (simp add: request_meta_of_def header_str_relevant user_agent_matters project_relevant)

lemma context_relevant:
  "context_of env info (req\<lparr>rq_headers := relevant_headers info (rq_headers req)\<rparr>) meta b start =
   (context_of env info req meta b start)\<lparr>ac_headers := relevant_headers info (rq_headers req)\<rparr>"
  by (simp add: context_of_def)

lemma handle_admitted_relevant:
  "handle_admitted env info (req\<lparr>rq_headers := relevant_headers info (rq_headers req)\<rparr>) start st =
   handle_admitted env info req start st"
proof -
  have "forward_request env ((context_of env info req meta b start)
      \<lparr>ac_headers := relevant_headers info (rq_headers req)\<rparr>) now accounts st =
      forward_request env (context_of env info req meta b start) now accounts st" for meta b now accounts st
    using forward_request_relevant [of "context_of env info req meta b start" info]
    by (simp add: context_of_def)
  then show ?thesis
    by (simp add: handle_admitted_def request_meta_relevant context_relevant Let_def cong: deep_cong)
qed


section \<open>What an upstream sees\<close>

definition sent_headers_ok :: "upstream_request \<Rightarrow> bool" where
  "sent_headers_ok r \<longleftrightarrow> list_all (\<lambda>(n, _). should_forward_request_header n) (ur_headers r)"

definition allowed_names :: "header_map \<Rightarrow> bool" where
  "allowed_names h \<longleftrightarrow> (\<forall>(n, _) \<in> set h. should_forward_request_header n)"

lemma allowed_remove: "allowed_names h \<Longrightarrow> allowed_names (hdr_remove n h)"
  by (auto simp: allowed_names_def hdr_remove_def)

lemma allowed_insert:
  "allowed_names h \<Longrightarrow> should_forward_request_header n \<Longrightarrow> allowed_names (hdr_insert n v h)"
  by (auto simp: allowed_names_def hdr_insert_def hdr_remove_def)

lemma forwarded_names:
  "should_forward_request_header ''authorization''" "should_forward_request_header ''x-api-key''"
  "should_forward_request_header ''anthropic-beta''"
  by (simp_all add: should_forward_request_header_def to_ascii_lowercase_def
      to_ascii_lower_char_def is_ascii_upper_def starts_with_def)

lemma allowed_strip:
  "allowed_names h \<Longrightarrow> allowed_names (strip_auth h)"
  "allowed_names h \<Longrightarrow> allowed_names (strip_hop_by_hop h)"
  by (simp_all add: strip_auth_def strip_hop_by_hop_def allowed_remove)

lemma allowed_beta: "allowed_names h \<Longrightarrow> allowed_names (add_oauth_beta h)"
  by (auto simp: add_oauth_beta_def allowed_insert forwarded_names split: option.split)

lemmas allowed = allowed_remove allowed_insert allowed_strip allowed_beta forwarded_names

lemma allowed_compat:
  assumes "allowed_names h" "cc_auth_header cfg = ''x-api-key'' \<or> cc_auth_header cfg = ''authorization''"
    and "compat_prepare_headers cfg h token key = Inr h'"
  shows "allowed_names h'"
proof -
  have "should_forward_request_header n" if "parse_header_name (cc_auth_header cfg) = Some n" for n
    using assms(2) that forwarded_names
    by (auto simp: parse_header_name_def to_ascii_lowercase_def to_ascii_lower_char_def
        is_ascii_upper_def split: if_splits)
  with assms show ?thesis
    by (auto simp: compat_prepare_headers_def Let_def allowed split: option.splits auth_type.splits)
qed

lemma allowed_prepare:
  assumes "reg_get create_provider_registry name = Some p" "allowed_names h"
    and "impl_prepare_headers p h token key = Inr h'"
  shows "allowed_names h'"
proof -
  have "allowed_names h'" if "claude_prepare_headers h token key = Inr h'"
    using that assms(2)
    by (auto simp: claude_prepare_headers_def Let_def allowed split: option.splits)
  moreover have "allowed_names h'" if "vertex_prepare_headers h token key = Inr h'"
    using that assms(2)
    by (auto simp: vertex_prepare_headers_def Let_def allowed split: option.splits)
  moreover have "allowed_names h'" if "compat_prepare_headers cfg h token key = Inr h'"
    "cc_auth_header cfg = ''x-api-key'' \<or> cc_auth_header cfg = ''authorization''" for cfg
    by (rule allowed_compat [OF assms(2) that(2,1)])
  ultimately show ?thesis
    using assms(1,3)
    by (auto simp: reg_get_create zai_config_def minimax_config_def nanogpt_config_def
        anthropic_compat_with_endpoint_def anthropic_compat_default_def openai_compat_default_def
        split: if_splits)
qed

lemma should_forward_request_lower:
  "should_forward_request_header (to_ascii_lowercase n) = should_forward_request_header n"
  by (simp add: should_forward_request_header_def)

lemma reqwest_names:
  assumes "allowed_names h"
  shows "list_all (\<lambda>(n, _). should_forward_request_header n) (reqwest_headers h)"
proof -
  have "should_forward_request_header (fst nv)" if nv: "nv \<in> set (reqwest_headers h)" for nv
  proof -
    from nv obtain mv where "mv \<in> set h" "convert_header mv = Some nv"
      by (auto simp: reqwest_headers_def List.map_filter_def split: if_splits)
    with assms show ?thesis
      by (auto simp: allowed_names_def convert_header_def parse_header_name_def
          should_forward_request_lower split: option.splits if_splits)
  qed
  then show ?thesis by (auto simp: list_all_iff)
qed

lemma allowed_filter: "allowed_names (filter_request_headers h)"
  by (auto simp: allowed_names_def filter_request_headers_def)

definition with_registry :: "'w proxy_env \<Rightarrow> 'w proxy_env" where
  "with_registry env = env\<lparr>env_registry := Some create_provider_registry\<rparr>"

interpretation sent_headers:
  attempt_invariant "try_account (with_registry env) ctx"
    "\<lambda>st. list_all sent_headers_ok (ps_sent st)" for env :: "'w proxy_env" and ctx
proof unfold_locales
  fix st :: "'w proxy_state" and a n
  assume "list_all sent_headers_ok (ps_sent st)"
  moreover obtain rs where rs: "ps_sent (snd (try_account (with_registry env) ctx a n st)) =
      ps_sent st @ rs" "rs = [] \<or> (\<exists>p a' st1 req fs.
        reg_get (the (env_registry (with_registry env))) (provider a) = Some p \<and>
        use_token (with_registry env) p a st = (a', st1) \<and>
        attempt_request (with_registry env) ctx p a' req \<and> rs = req # fs \<and> follow_ups ctx req fs)"
    using try_account_sent [of "with_registry env" ctx a n st] by blast
  moreover have "sent_headers_ok req"
    if "reg_get create_provider_registry (provider a) = Some p"
      "attempt_request (with_registry env) ctx p a' req" for p a' req
  proof -
    from that(2) obtain h where h: "impl_prepare_headers p (filter_request_headers (ac_headers ctx))
        (access_token a') (api_key a') = Inr h" "ur_headers req = reqwest_headers h"
      by (auto simp: attempt_request_def)
    from allowed_prepare [OF that(1) allowed_filter h(1)] show ?thesis
      by (simp add: sent_headers_ok_def h(2) reqwest_names)
  qed
  ultimately show "list_all sent_headers_ok
      (ps_sent (snd (try_account (with_registry env) ctx a n st)))"
    by (auto simp: follow_ups_def with_registry_def sent_headers_ok_def)
qed

text \<open>Headers that concern the client and the proxy alone.\<close>

definition stays_behind :: "string \<Rightarrow> bool" where
  "stays_behind =
     matches [''cookie'', ''host'', ''connection'', ''upgrade'', ''transfer-encoding'', ''te'',
       ''proxy-authorization'', ''forwarded'', ''x-forwarded-for'', ''x-real-ip'']
       [''x-better-ccflare-'', ''x-ccflare-'']"

lemma forwarded_not_behind:
  assumes "should_forward_request_header n"
  shows "\<not> stays_behind (to_ascii_lowercase n)"
proof -
  from assms have "matches [''content-type'', ''content-length'', ''accept'', ''accept-encoding'',
      ''authorization'', ''x-api-key'', ''x-request-id'', ''user-agent'']
      [''anthropic-'', ''x-stainless-''] (to_ascii_lowercase n)"
    by (auto simp only: should_forward_request_header_def matches_def list.set list_ex_Cons_iff list_ex_Nil_iff Let_def
        split: if_splits)
  then show ?thesis
    unfolding stays_behind_def
    by (rule matches_disjoint [rotated 2]) (simp_all add: matches_def starts_with_def)
qed

text \<open>
  C9. Only allowlisted headers leave: with the providers that the program registers, every
  header of every upstream request of a client request, the ones that the providers add
  included, is on the allowlist; cookies, connection headers, the trail of other proxies and the
  proxy's own routing hints, in any spelling, are never among them.
\<close>

theorem upstream_headers_allowed:
  "list_all (\<lambda>r. list_all (\<lambda>(n, _). should_forward_request_header n \<and>
       \<not> stays_behind (to_ascii_lowercase n)) (ur_headers r))
     (ps_sent (snd (proxy_handler (env\<lparr>env_registry := Some create_provider_registry\<rparr>) info req
        (st\<lparr>ps_sent := []\<rparr>))))"
proof -
  let ?env = "with_registry env" and ?st = "st\<lparr>ps_sent := []\<rparr>"
  have "list_all sent_headers_ok (ps_sent (snd (proxy_handler ?env info req ?st)))"
  proof (rule proxy_handler_cases [of ?env info req ?st])
    assume "refused (proxy_handler ?env info req ?st) ?st"
    then show ?thesis by (simp add: refused_def)
  next
    fix st1 start
    assume st1: "ps_sent st1 = ps_sent ?st" "ps_sent (snd (proxy_handler ?env info req ?st)) =
      ps_sent (snd (handle_admitted ?env info req start st1))"
    show ?thesis
    proof (rule handle_admitted_cases [of ?env info req start st1])
      assume "refused (handle_admitted ?env info req start st1) st1"
      with st1 show ?thesis by (simp add: refused_def)
    next
      fix ctx ordered s1 s2 res
      assume "try_accounts_in_order (try_account ?env ctx) ordered s1 = (res, s2)"
        "ps_sent s1 = ps_sent st1" "ps_sent (snd (handle_admitted ?env info req start st1)) = ps_sent s2"
      with st1 sent_headers.inv_kept [of s1 env ctx ordered] show ?thesis by simp
    qed
  qed
  then show ?thesis
    by (fastforce simp: sent_headers_ok_def with_registry_def list_all_iff
        dest: forwarded_not_behind)
qed

section \<open>What a failure does to the account\<close>

text \<open>A token changes nothing that identifies or routes an account.\<close>

definition same_identity :: "account \<Rightarrow> account \<Rightarrow> bool" where
  "same_identity a b \<longleftrightarrow>
     acct_id b = acct_id a \<and> provider b = provider a \<and> api_key b = api_key a \<and>
     model_mappings b = model_mappings a \<and> custom_endpoint b = custom_endpoint a"

lemma same_identity_refl [simp]: "same_identity a a"
  by (simp add: same_identity_def)

lemma same_identity_update [simp]: "same_identity a (update_account a r)"
  by (simp add: same_identity_def update_account_def Let_def split: option.split)

lemma same_identity_refresh:
  "refresh_locked io tm a now w = (res, a', tm', w') \<Longrightarrow> same_identity a a'"
  by (auto simp: refresh_locked_def Let_def split: option.splits prod.splits sum.splits)

lemma same_identity_recover:
  "recover_from_db io tm a now w = (res, a', tm', w') \<Longrightarrow> same_identity a a'"
  by (auto simp: recover_from_db_def same_identity_def Let_def split: option.splits if_splits)

lemma same_identity_token:
  "get_valid_access_token io tm a now w = (res, a', tm', w') \<Longrightarrow> same_identity a a'"
  by (auto simp: get_valid_access_token_def refresh_access_token_def Let_def
      dest: same_identity_refresh same_identity_recover
      split: option.splits if_splits prod.splits backoff_action.splits)

lemma use_token_identity: "use_token env p a st = (a', st') \<Longrightarrow> same_identity a a'"
  by (auto simp: use_token_def same_identity_def split: option.splits prod.splits sum.splits if_splits
      dest!: same_identity_token)


lemma unavailable:
  "reason_holds a usage now r \<Longrightarrow> \<not> is_account_available a usage now"
  unfolding is_account_available_def routable_iff_no_reason by blast

lemma limited_answer:
  assumes "try_account env ctx a n st = (r, st')" "is_limited r"
  obtains p a' resp st2 where "reg_get (the (env_registry env)) (provider a) = Some p"
    "acct_id a' = acct_id a" "ps_writes st2 = ps_writes st"
    "on_rate_limited env p a' resp st2 = (r, st')"
proof -
  have no: "\<not> is_limited (fst (build_success_response env p b ctx n resp s))" for p b resp s
    by (simp add: build_success_response_def Let_def split: sum.split)
  have no': "\<not> is_limited (fst (on_bad_request env p b ctx n q resp s))" for p b q resp s
    by (simp add: on_bad_request_def Let_def no split: sum.split option.split prod.split)
  show ?thesis
  proof (rule try_account_cases [of env ctx a n st])
    assume "\<And>info. fst (try_account env ctx a n st) \<noteq> RateLimited info"
    with assms show ?thesis by (cases r) auto
  next
    fix p a' st1 req e st2
    assume "try_account env ctx a n st = (Error e, st2)"
    with assms have "is_limited (Error e :: response outcome account_result)" by simp
    then show ?thesis by simp
  next
    fix p a' st1 req resp st2
    assume *: "reg_get (the (env_registry env)) (provider a) = Some p"
      "use_token env p a st = (a', st1)" "send_upstream env req st1 = (Inr resp, st2)"
      "try_account env ctx a n st = on_response env p a' ctx n req resp st2"
    have "on_rate_limited env p a' resp st2 = (r, st')"
      using assms *(4) no [of p a' resp st2] no' [of p a' req resp st2]
      by (auto simp: on_response_def on_auth_failure_def split: if_splits)
    moreover have "acct_id a' = acct_id a"
      using use_token_identity [OF *(2)] by (simp add: same_identity_def)
    moreover have "ps_writes st2 = ps_writes st"
      using use_token_sent [OF *(2)] send_upstream_sent(3) [of env req st1] *(3) by simp
    ultimately show ?thesis using that *(1) by blast
  qed
qed

text \<open>
  C7. A rate-limited account rests: after an attempt that ends in a 429, the one write of the
  attempt sets the account's limit to the reset time the provider gave, or a minute from now,
  and once that is in the database no routing decision uses the account before that time,
  whatever its usage.
\<close>

theorem rate_limited_rests:
  assumes "env_pool env" "try_account env ctx a n st = (RateLimited info, st')"
    and "until = (case reset_time info of Some t \<Rightarrow> t
        | None \<Rightarrow> i64_add (env_now env (ps_world st')) 60000)"
    and "now \<le> normalize_epoch_millis until"
  shows "ps_writes st' = ps_writes st @ [LimitUntil until (acct_id a)] \<and>
    list_all (\<lambda>b. acct_id b = acct_id a \<longrightarrow> \<not> is_account_available b usage now)
      (apply_update (LimitUntil until (acct_id a)) rows)"
proof -
  obtain p a' resp st2 where "acct_id a' = acct_id a" "ps_writes st2 = ps_writes st"
    and l: "on_rate_limited env p a' resp st2 = (RateLimited info, st')"
    using limited_answer [OF assms(2)] by (metis is_limited.simps(1))
  have w: "ps_world st' = ps_world st2"
    using l by (auto simp: on_rate_limited_def Let_def)
  have u: "until = (case reset_time info of Some t \<Rightarrow> t
      | None \<Rightarrow> i64_add (env_now env (ps_world st2)) 60000)"
    using assms(3) unfolding w .
  with l \<open>acct_id a' = acct_id a\<close> \<open>ps_writes st2 = ps_writes st\<close>
  have "ps_writes st' = ps_writes st @ [LimitUntil until (acct_id a)]"
    using assms(1) by (auto simp: on_rate_limited_def write_db_def Let_def)
  moreover have "\<not> is_account_available (b\<lparr>rate_limited_until := Some until\<rparr>) usage now" for b
    by (rule unavailable [of _ _ _ ActiveRateLimit]) (use assms(4) in simp)
  ultimately show ?thesis
    by (auto simp: on_row_def list_all_iff)
qed

lemma eq_char_of_iff: "c = char_of (n :: nat) \<longleftrightarrow> take_bit 8 n = of_char c"
  by (subst eq_commute) (simp add: char_of_eq_iff)

lemma show_nat_auth [simp]: "show_nat 401 = ''401''" "show_nat 403 = ''403''"
  by (simp_all add: show_nat.simps digit_char_def char_of_eq_iff)

lemma auth_failed_label_blocks:
  assumes "status = 401 \<or> status = 403"
  shows "is_auth_failure (upstream_from_raw (Some (auth_failed_label status)))"
proof -
  have "trim (auth_failed_label status) = auth_failed_label status"
    using assms by (intro trim_graphic) (auto simp: auth_failed_label_def graphic_def)
  moreover have "starts_with (to_ascii_lowercase (auth_failed_label status)) ''auth failed''"
    by (simp add: auth_failed_label_def starts_with_def to_ascii_lowercase_def
        to_ascii_lower_char_def is_ascii_upper_def eq_char_of_iff)
  moreover have "CHR ''('' \<in> set (to_ascii_lowercase (auth_failed_label status))"
    by (simp add: auth_failed_label_def to_ascii_lowercase_def to_ascii_lower_char_def
        is_ascii_upper_def)
  then have "to_ascii_lowercase (auth_failed_label status) \<notin> {[], ''ok'', ''allowed''}"
    by auto
  moreover have "\<not> contains_str (to_ascii_lowercase (auth_failed_label status)) ''allowed_warning''"
    using assms by (auto simp: auth_failed_label_def to_ascii_lowercase_def
        to_ascii_lower_char_def is_ascii_upper_def eq_char_of_iff)
  ultimately show ?thesis
    by (simp add: upstream_from_raw_def is_auth_failure_def Let_def)
qed

text \<open>
  C8. An account that the upstream refuses with 401 or 403 is taken out: the one write of the
  attempt marks the row so that no routing decision uses the account, at any time and whatever
  its usage, until the mark is replaced; its token counts as expired, so it is refreshed next.
\<close>

theorem refused_account_taken_out:
  assumes "env_pool env" "status = 401 \<or> status = 403"
    and "on_response env p a ctx n req (resp\<lparr>up_status := status\<rparr>) st = (r, st')"
  shows "\<exists>u. r = AuthFailure status \<and> ps_writes st' = ps_writes st @ [u] \<and>
    list_all (\<lambda>b. acct_id b = acct_id a \<longrightarrow> \<not> is_account_available b usage now \<and>
        (api_key b = None \<longrightarrow> expires_at b = Some (i64_sub (env_now env (ps_world st)) 1)))
      (apply_update u rows)"
proof -
  let ?u = "MarkAuthFailed (auth_failed_label status)
    (i64_sub (env_now env (ps_world st)) 1) (acct_id a)"
  have "r = AuthFailure status" "ps_writes st' = ps_writes st @ [?u]"
    using assms by (auto simp: on_response_def on_auth_failure_def write_db_def status_or_def)
  moreover have "\<not> is_account_available (b\<lparr>rate_limit_status := Some (auth_failed_label status),
      rate_limit_reset := None, rate_limit_remaining := None, expires_at := e\<rparr>) usage now" for b e
    by (rule unavailable [of _ _ _ AuthFailed])
       (use auth_failed_label_blocks [OF assms(2)] in simp)
  ultimately show ?thesis
    by (intro exI [of _ ?u]) (auto simp: on_row_def list_all_iff)
qed

section \<open>The body\<close>

text \<open>Providers that speak the client's own format and do not force a model.\<close>

fun keeps_format :: "provider_impl \<Rightarrow> bool" where
  "keeps_format (ClaudeImpl _) = True" | "keeps_format (ZaiImpl _) = True"
| "keeps_format (NanoGptImpl _) = True" | "keeps_format (AnthropicCompatImpl _) = True"
| "keeps_format _ = False"

lemma final_body_unmapped:
  assumes "keeps_format p" "model_mappings a = None"
  shows "final_body c p a ctx = Returns (ac_body ctx)"
proof -
  have "transform_body_model (from_slice c) (to_vec c) (ac_body ctx) (Some a) = None"
    using assms(2)
    by (simp add: transform_body_model_def get_model_name_def split: option.split)
  with assms show ?thesis
    by (cases p) (simp_all add: final_body_def apply_model_mapping_def)
qed

text \<open>
  The body passes through untouched: for an account without model mappings at a provider of
  the same format, the first upstream request carries the client's bytes exactly, and for a
  client that is not a known agent there is no other.
\<close>

theorem body_passthrough:
  assumes "reg_get (the (env_registry env)) (provider a) = Some p" "keeps_format p"
    and "model_mappings a = None"
  shows "\<exists>rs. ps_sent (snd (try_account env ctx a n st)) = ps_sent st @ rs \<and>
    (case rs of [] \<Rightarrow> True
     | r # fs \<Rightarrow> ur_body r = ac_body ctx \<and> (agent_used (ac_meta ctx) = None \<longrightarrow> fs = []))"
proof -
  obtain rs where rs: "ps_sent (snd (try_account env ctx a n st)) = ps_sent st @ rs"
    "rs = [] \<or> (\<exists>q a' st1 req fs. reg_get (the (env_registry env)) (provider a) = Some q \<and>
       use_token env q a st = (a', st1) \<and> attempt_request env ctx q a' req \<and>
       rs = req # fs \<and> follow_ups ctx req fs)"
    using try_account_sent [of env ctx a n st] by blast
  show ?thesis
  proof (cases "rs = []")
    case True
    with rs(1) show ?thesis by (intro exI [of _ "[]"]) simp
  next
    case False
    then obtain a' st1 req fs where "use_token env p a st = (a', st1)"
      "attempt_request env ctx p a' req" "rs = req # fs" "follow_ups ctx req fs"
      using rs(2) assms(1) by auto
    moreover from this(1) assms(3) have "model_mappings a' = None"
      using use_token_identity [of env p a st] by (simp add: same_identity_def)
    ultimately show ?thesis
      using rs(1) final_body_unmapped [OF assms(2)]
      by (intro exI [of _ rs]) (auto simp: attempt_request_def follow_ups_def)
  qed
qed


section \<open>Two providers that do otherwise\<close>

lemma limit_irrelevant [simp]:
  "is_at_overage (a\<lparr>rate_limited_until := x\<rparr>) info = is_at_overage a info"
  "is_at_reserve (a\<lparr>rate_limited_until := x\<rparr>) usage = is_at_reserve a usage"
proof -
  have family: "is_anthropic_family (a\<lparr>rate_limited_until := x\<rparr>) = is_anthropic_family a"
    by (simp add: is_anthropic_family_def)
  show "is_at_overage (a\<lparr>rate_limited_until := x\<rparr>) info = is_at_overage a info"
    by (simp add: is_at_overage_def family)
  have "reserve_window_hit (a\<lparr>rate_limited_until := x\<rparr>) = reserve_window_hit a"
    by (intro ext) (auto simp: reserve_window_hit_def family split: window_kind.split)
  then show "is_at_reserve (a\<lparr>rate_limited_until := x\<rparr>) usage = is_at_reserve a usage"
    by (auto simp: is_at_reserve_def Let_def split: option.split)
qed

text \<open>
  The limit of an OpenAI account is not one: a reset header that gives seconds, as the code
  expects, is stored as a point in time, which lies in 1970. So after a 429 the account stays
  routable and the next request goes to it again.
\<close>

theorem openai_reset_no_limit:
  assumes "header_str (axum_headers_from_reqwest (up_headers resp)) ''x-ratelimit-reset-requests'' = Some s"
    and "parse_i64 s = Some secs" "0 \<le> secs" "secs < 1000000000"
    and "env_pool env" "1000 * secs < now"
    and "routable (evaluate_account_eligibility (a\<lparr>rate_limited_until := None\<rparr>) usage now)"
  shows "ps_writes (snd (on_rate_limited env (OpenAiCompatImpl cfg) a resp st)) =
      ps_writes st @ [LimitUntil secs (acct_id a)] \<and>
    list_all (\<lambda>b. is_account_available b usage now) (apply_update (LimitUntil secs (acct_id a)) [a])"
proof -
  have "normalize_epoch_millis secs = 1000 * secs"
    using assms(3,4) by (intro normalize_seconds) simp
  moreover have free: "\<not> reason_holds (a\<lparr>rate_limited_until := None\<rparr>) usage now r" for r
    using assms(7) by (simp add: routable_iff_no_reason)
  ultimately have "\<not> reason_holds (a\<lparr>rate_limited_until := Some secs\<rparr>) usage now r" for r
    using assms(6) free [of r] by (cases r) (auto split: if_splits)
  then have "is_account_available (a\<lparr>rate_limited_until := Some secs\<rparr>) usage now"
    by (simp add: is_account_available_def routable_iff_no_reason)
  with assms(1,2,5) show ?thesis
    by (simp add: on_rate_limited_def Let_def openai_rate_limit_def first_some_def write_db_def
        on_row_def)
qed

lemma sublist_sixth: "sublist m (a @ b @ c @ d @ e @ m @ f)"
  using sublist_appendI [of m "a @ b @ c @ d @ e" f] by simp

lemma vertex_url_model:
  assumes "vertex_parse_config parse a = Some (project_id, region)"
  shows "contains_str (vertex_build_url parse path query a)
    ''/publishers/anthropic/models/claude-sonnet-4-6:''"
  unfolding contains_str_iff_sublist vertex_build_url_def assms option.case prod.case Let_def
  by (rule sublist_sixth)

lemma vertex_body_model:
  assumes "parse body = Some (JObject kvs)" "\<forall>j. print j \<noteq> None"
  obtains j b where "vertex_transform parse print body a = Returns (Inr (Some b))"
    "print j = Some b" "json_get j ''model'' = None"
proof -
  have "\<exists>kvs'. (case get_str (JObject kvs) ''model'' of None \<Rightarrow> JObject kvs
      | Some m \<Rightarrow> (let mapped = get_model_name parse m (Some a)
          in if mapped \<noteq> m then set_field ''model'' (JString mapped) (JObject kvs) else JObject kvs)) =
      JObject kvs'"
    by (simp add: Let_def set_field_def split: option.split)
  then obtain kvs' where kvs': "(case get_str (JObject kvs) ''model'' of None \<Rightarrow> JObject kvs
      | Some m \<Rightarrow> (let mapped = get_model_name parse m (Some a)
          in if mapped \<noteq> m then set_field ''model'' (JString mapped) (JObject kvs) else JObject kvs)) =
      JObject kvs'" ..
  define j where "j = JObject (AList.update ''anthropic_version'' (JString ''vertex-2023-10-16'')
    (AList.delete ''model'' kvs'))"
  from assms(2) obtain b where b: "print j = Some b" by blast
  have "vertex_transform parse print body a = Returns (Inr (Some b))"
    using b unfolding vertex_transform_def assms(1) option.case kvs' j_def
    by (simp add: remove_field_def index_assign_def)
  moreover have "json_get j ''model'' = None"
    by (simp add: j_def)
  ultimately show ?thesis using that b by blast
qed

text \<open>
  Vertex serves one model: every upstream request for an account of Vertex AI names the
  model \<open>claude-sonnet-4-6\<close> in its URL, and the model the client asked for, removed from the body
  because it belongs in the URL, is lost.
\<close>

theorem vertex_model_lost:
  assumes "reg_get (the (env_registry env)) (provider a) = Some VertexImpl"
    and "custom_endpoint a = Some cfg" "cfg \<noteq> []"
    and "vertex_config (env_codecs env) cfg = Some (project_id, region)"
    and "from_slice (env_codecs env) (ac_body ctx) = Some (JObject kvs)"
    and "\<forall>j. to_vec (env_codecs env) j \<noteq> None"
  shows "\<exists>rs. ps_sent (snd (try_account env ctx a n st)) = ps_sent st @ rs \<and>
    list_all (\<lambda>r. contains_str (ur_url r) ''/publishers/anthropic/models/claude-sonnet-4-6:'') rs \<and>
    (rs = [] \<or> (\<exists>j. to_vec (env_codecs env) j = Some (ur_body (hd rs)) \<and> json_get j ''model'' = None))"
proof -
  obtain rs where rs: "ps_sent (snd (try_account env ctx a n st)) = ps_sent st @ rs"
    "rs = [] \<or> (\<exists>a' st1 req fs. use_token env VertexImpl a st = (a', st1) \<and>
       attempt_request env ctx VertexImpl a' req \<and> rs = req # fs \<and> follow_ups ctx req fs)"
    using try_account_sent [of env ctx a n st] assms(1) by auto
  show ?thesis
  proof (cases "rs = []")
    case True
    with rs(1) show ?thesis by (intro exI [of _ "[]"]) simp
  next
    case False
    then obtain a' st1 req fs where u: "use_token env VertexImpl a st = (a', st1)"
      and r: "attempt_request env ctx VertexImpl a' req" "rs = req # fs" "follow_ups ctx req fs"
      using rs(2) by auto
    have "custom_endpoint a' = Some cfg"
      using use_token_identity [OF u] assms(2) by (simp add: same_identity_def)
    then have url: "contains_str (ur_url req) ''/publishers/anthropic/models/claude-sonnet-4-6:''"
      using r(1) assms(3,4) vertex_url_model [of "vertex_config (env_codecs env)" a' project_id region]
      by (auto simp: attempt_request_def vertex_parse_config_def)
    moreover have "list_all (\<lambda>r. ur_url r = ur_url req) rs"
      using r(2,3) by (auto simp: follow_ups_def)
    moreover have "\<exists>j. to_vec (env_codecs env) j = Some (ur_body req) \<and> json_get j ''model'' = None"
    proof (rule vertex_body_model [of "from_slice (env_codecs env)" "ac_body ctx" kvs
          "to_vec (env_codecs env)" a'])
      fix j b
      assume "vertex_transform (from_slice (env_codecs env)) (to_vec (env_codecs env)) (ac_body ctx) a' =
          Returns (Inr (Some b))" "to_vec (env_codecs env) j = Some b" "json_get j ''model'' = None"
      with r(1) show ?thesis by (auto simp: attempt_request_def final_body_def)
    qed (use assms(5,6) in simp_all)
    ultimately show ?thesis
      using rs(1) r(2) by (intro exI [of _ rs]) (auto simp: list_all_iff)
  qed
qed

section \<open>Concrete runs\<close>

text \<open>An upstream that gives one answer, a clock that stands, no database content.\<close>

definition demo_codecs :: codecs where
  "demo_codecs = \<lparr>from_slice = \<lambda>_. Some (JObject []), to_vec = \<lambda>_. Some ''{}'',
     rfc3339 = \<lambda>_. None, vertex_config = \<lambda>_. Some (''p'', ''global''), model_field = \<lambda>_. None,
     string_map = \<lambda>_. None\<rparr>"

definition demo_proxy :: "upstream_response \<Rightarrow> unit proxy_env" where
  "demo_proxy resp =
     \<lparr>env_registry = Some create_provider_registry, env_pool = True, env_post = False,
      env_codecs = demo_codecs, env_now = \<lambda>_. 1700000000000, env_instant = \<lambda>_. 0,
      env_usage = \<lambda>_ _. None, env_load_accounts = \<lambda>w. (Inr [], w),
      env_token_io = \<lambda>_. \<lparr>io_refresh = \<lambda>a c w. (Inl [], w), io_persist_tokens = \<lambda>i t e r w. w,
        io_persist_tier = \<lambda>i t w. w, io_persist_email = \<lambda>i e w. w, io_load_account = \<lambda>i w. None\<rparr>,
      env_send = \<lambda>r w. (Inr resp, w)\<rparr>"

definition demo_proxy_state :: "unit proxy_state" where
  "demo_proxy_state =
     \<lparr>ps_world = (), ps_counter = 0, ps_permits = None, ps_accounts = None, ps_strategy = None,
      ps_tokens = None, ps_sent = [], ps_writes = [], ps_posts = [], ps_streams = []\<rparr>"

definition demo_context :: attempt_context where
  "demo_context =
     \<lparr>ac_meta = \<lparr>req_id = [], req_method = ''POST'', req_path = ''/v1/messages'', req_query = [],
        req_timestamp = 0, agent_used = None, project = None\<rparr>,
      ac_info = auth_info_default, ac_headers = [], ac_model = None, ac_body = ''{}'', ac_start = 0\<rparr>"

definition demo_answer :: "nat \<Rightarrow> header_map \<Rightarrow> upstream_response" where
  "demo_answer status h = \<lparr>up_status = status, up_headers = h, up_chunks = []\<rparr>"

lemmas demo_defs = demo_proxy_def demo_proxy_state_def demo_context_def demo_answer_def demo_codecs_def

lemma demo_limited:
  "\<exists>info. reset_time info = None \<and>
     fst (try_account (demo_proxy (demo_answer 429 [])) demo_context (fresh_account ''a'' ''zai'') 0
       demo_proxy_state) = RateLimited info"
  by (simp add: try_account_def demo_defs reg_get_create use_token_def final_body_def
      filter_request_headers_def compat_prepare_headers_def strip_auth_def strip_hop_by_hop_def
      hdr_remove_def first_some_def send_upstream_def on_response_def on_rate_limited_def
      zai_rate_limit_def axum_headers_from_reqwest_def List.map_filter_def header_str_def
      transform_body_model_def get_str_def json_get_def)

theorem rate_limited_rests_witness:
  "\<not> is_account_available ((fresh_account ''a'' ''zai'')\<lparr>rate_limited_until := Some 1700000060000\<rparr>)
     (\<lambda>_. None) 1700000059999"
proof -
  let ?t = "try_account (demo_proxy (demo_answer 429 [])) demo_context (fresh_account ''a'' ''zai'') 0
    demo_proxy_state"
  obtain info st' where t: "?t = (RateLimited info, st')" "reset_time info = None"
    using demo_limited by (metis prod.collapse)
  have now: "(1700000060000 :: int) = (case reset_time info of Some t \<Rightarrow> t
      | None \<Rightarrow> i64_add (env_now (demo_proxy (demo_answer 429 [])) (ps_world st')) 60000)"
    by (simp add: t(2) demo_proxy_def i64_add_def i64_wrap_id in_i64_def i64_min_def i64_max_def)
  have "(1700000059999 :: int) \<le> normalize_epoch_millis 1700000060000"
    by (subst normalize_millis) (simp_all add: i64_max_def)
  from rate_limited_rests [OF _ t(1) now this, of "\<lambda>_. None" "[fresh_account ''a'' ''zai'']"]
  show ?thesis by (simp add: demo_proxy_def on_row_def)
qed

lemma acct_id_persist [simp]: "map acct_id (persist_session_resets rs rows) = map acct_id rows"
proof (induction rs arbitrary: rows)
  case Nil
  then show ?case by (simp add: persist_session_resets_def)
next
  case (Cons r rs)
  have "map acct_id (persist_session_resets [r] rows) = map acct_id rows"
    by (simp add: persist_session_resets_def)
  with Cons [of "persist_session_resets [r] rows"] show ?case
    by (simp add: persist_session_resets_def)
qed

theorem refused_account_taken_out_witness:
  "\<exists>u. ps_writes (snd (on_response (demo_proxy (demo_answer 200 [])) (ZaiImpl zai_config)
        (fresh_account ''a'' ''zai'') demo_context 0 (undefined :: upstream_request)
        ((demo_answer 200 [])\<lparr>up_status := 403\<rparr>) demo_proxy_state)) = [u] \<and>
     list_all (\<lambda>b. \<not> is_account_available b (\<lambda>_. None) 0)
       (apply_update u [fresh_account ''a'' ''zai''])"
proof -
  let ?r = "on_response (demo_proxy (demo_answer 200 [])) (ZaiImpl zai_config)
    (fresh_account ''a'' ''zai'') demo_context 0 (undefined :: upstream_request)
    ((demo_answer 200 [])\<lparr>up_status := 403\<rparr>) demo_proxy_state"
  obtain r st' where r: "?r = (r, st')" by (cases ?r)
  have one: "map acct_id (apply_update u [fresh_account ''a'' ''zai'']) = [''a'']" for u
    by (cases u) (simp_all add: on_row_def)
  have "acct_id b = ''a''" if "b \<in> set (apply_update u [fresh_account ''a'' ''zai''])" for b u
    using arg_cong [OF one [of u], of set] that by auto
  with refused_account_taken_out [OF _ _ r, of "\<lambda>_. None" 0 "[fresh_account ''a'' ''zai'']"]
  show ?thesis
    unfolding r by (auto simp: demo_proxy_def demo_proxy_state_def list_all_iff)
qed

theorem body_passthrough_witness:
  "\<exists>rs. ps_sent (snd (try_account (demo_proxy (demo_answer 200 [])) demo_context
       (fresh_account ''a'' ''zai'') 0 demo_proxy_state)) = rs \<and>
     (case rs of [] \<Rightarrow> True | r # fs \<Rightarrow> ur_body r = ''{}'' \<and> fs = [])"
  using body_passthrough [of "demo_proxy (demo_answer 200 [])" "fresh_account ''a'' ''zai''"
      "ZaiImpl zai_config" demo_context 0 demo_proxy_state]
  by (simp add: demo_defs reg_get_create cong: list.case_cong)

lemma demo_reset_header:
  "header_str (axum_headers_from_reqwest [(''x-ratelimit-reset-requests'', ''60'')])
     ''x-ratelimit-reset-requests'' = Some ''60''"
  by (simp add: header_str_def axum_headers_from_reqwest_def List.map_filter_def convert_header_def
      parse_header_name_def is_token_char_def value_from_bytes_def visible_ascii_def byte_def
      to_ascii_lowercase_def to_ascii_lower_char_def is_ascii_upper_def)

theorem openai_reset_no_limit_witness:
  "list_all (\<lambda>b. is_account_available b (\<lambda>_. None) 1700000000000)
     (apply_update (LimitUntil 60 ''a'') [fresh_account ''a'' ''openai-compatible''])"
proof -
  have "parse_i64 ''60'' = Some 60"
    by (simp add: parse_i64_def digit_value_def in_range_def byte_def in_i64_def i64_min_def
        i64_max_def)
  from openai_reset_no_limit [of "demo_answer 429 [(''x-ratelimit-reset-requests'', ''60'')]", OF _ this,
      of "demo_proxy (demo_answer 429 [])" 1700000000000 "fresh_account ''a'' ''openai-compatible''"
         "\<lambda>_. None" openai_compat_default demo_proxy_state]
  show ?thesis
    using demo_reset_header
    by (simp add: demo_answer_def demo_proxy_def routable_plain fresh_account_def)
qed

theorem vertex_model_lost_witness:
  "\<exists>rs. ps_sent (snd (try_account (demo_proxy (demo_answer 200 [])) demo_context
       ((fresh_account ''a'' ''vertex-ai'')\<lparr>custom_endpoint := Some ''cfg''\<rparr>) 0 demo_proxy_state)) = rs \<and>
     list_all (\<lambda>r. contains_str (ur_url r) ''/publishers/anthropic/models/claude-sonnet-4-6:'') rs"
  using vertex_model_lost [of "demo_proxy (demo_answer 200 [])"
      "(fresh_account ''a'' ''vertex-ai'')\<lparr>custom_endpoint := Some ''cfg''\<rparr>" "''cfg''" "''p''" "''global''"
      demo_context "[]" 0 demo_proxy_state]
  by (auto simp: demo_defs reg_get_create)

end
