(* ===== verification/OpenAI_Stream.thy ===== *)
theory OpenAI_Stream
  imports OpenAI_Format Streaming
begin

text \<open>
  The state machine that turns the stream of OpenAI chat completions into a stream of Anthropic
  events, \<open>providers/src/impls/openai_stream.rs\<close>. The line buffer and the rest of the context are
  kept apart; an event is the pair of its type and data until it is printed. A hash map is an
  association list, and \<open>arrange\<close> the order in which its values are visited.
\<close>

section \<open>The context\<close>

definition MAX_TOOL_CALL_ARGS_LEN :: nat where "MAX_TOOL_CALL_ARGS_LEN = 1000000"
definition MAX_TOOL_CALL_INDEX :: nat where "MAX_TOOL_CALL_INDEX = 100"

record tool_acc =
  ta_id :: string
  ta_name :: string
  ta_arguments :: string
  ta_started :: bool
  ta_index :: nat

record oai_state =
  ox_has_started :: bool
  ox_sent_start :: bool
  ox_text_open :: bool
  ox_model :: string
  ox_has_tool_calls :: bool
  ox_tools :: "(nat, tool_acc) hash_map"
  ox_prompt_tokens :: i64
  ox_completion_tokens :: i64
  ox_block_index :: nat
  ox_finish_reason :: "string option"

record oai_context =
  oc_buffer :: string
  oc_state :: oai_state

definition oai_state_new :: oai_state where
  "oai_state_new =
     \<lparr>ox_has_started = False, ox_sent_start = False, ox_text_open = False, ox_model = [],
      ox_has_tool_calls = False, ox_tools = [], ox_prompt_tokens = 0, ox_completion_tokens = 0,
      ox_block_index = 0, ox_finish_reason = None\<rparr>"

definition oai_context_new :: oai_context where
  "oai_context_new = \<lparr>oc_buffer = [], oc_state = oai_state_new\<rparr>"

section \<open>Events\<close>

type_synonym anth_event = "string \<times> json"

definition render_event :: "(json \<Rightarrow> string option) \<Rightarrow> anth_event \<Rightarrow> string" where
  "render_event to_str e =
     ''event: '' @ fst e @ [CHR 0x0A] @ ''data: '' @
     (case to_str (snd e) of Some s \<Rightarrow> s | None \<Rightarrow> []) @ [CHR 0x0A, CHR 0x0A]"

definition int_json :: "int \<Rightarrow> json" where
  "int_json i = JNumber (if 0 \<le> i then PosInt (nat i) else NegInt i)"

definition typed_event :: "string \<Rightarrow> (string \<times> json) list \<Rightarrow> anth_event" where
  "typed_event t kvs = (t, JObject ((''type'', JString t) # kvs))"

definition block_start_event :: "nat \<Rightarrow> json \<Rightarrow> anth_event" where
  "block_start_event i block =
     typed_event ''content_block_start'' [(''index'', JNumber (PosInt i)), (''content_block'', block)]"

definition block_delta_event :: "nat \<Rightarrow> json \<Rightarrow> anth_event" where
  "block_delta_event i delta =
     typed_event ''content_block_delta'' [(''index'', JNumber (PosInt i)), (''delta'', delta)]"

definition block_stop_event :: "nat \<Rightarrow> anth_event" where
  "block_stop_event i = typed_event ''content_block_stop'' [(''index'', JNumber (PosInt i))]"

definition message_start_event :: "oai_state \<Rightarrow> json \<Rightarrow> anth_event" where
  "message_start_event c j =
     typed_event ''message_start''
       [(''message'', JObject
          [(''id'', json_or j ''id'' (JString ''msg_unknown'')), (''type'', JString ''message''),
           (''role'', JString ''assistant''), (''model'', JString (ox_model c)),
           (''content'', JArray []), (''stop_reason'', JNull), (''stop_sequence'', JNull),
           (''usage'', JObject [(''input_tokens'', int_json (ox_prompt_tokens c)),
              (''output_tokens'', JNumber (PosInt 0))])])]"

definition message_delta_event :: "oai_state \<Rightarrow> anth_event" where
  "message_delta_event c =
     typed_event ''message_delta''
       [(''delta'', JObject [(''stop_reason'', JString (map_finish_reason (ox_finish_reason c))),
           (''stop_sequence'', JNull)]),
        (''usage'', JObject [(''output_tokens'', int_json (ox_completion_tokens c))])]"

definition current_text_index :: nat where "current_text_index = 0"

section \<open>Tool calls\<close>

definition close_text :: "oai_state \<Rightarrow> oai_state \<times> anth_event list" where
  "close_text c =
     (if ox_has_tool_calls c then (c, [])
      else
        (let c = c\<lparr>ox_has_tool_calls := True\<rparr>
         in if ox_text_open c
            then (c\<lparr>ox_block_index := ox_block_index c + 1, ox_text_open := False\<rparr>,
                  [block_stop_event current_text_index])
            else (c, [])))"

definition tool_entry :: "oai_state \<Rightarrow> nat \<Rightarrow> tool_acc" where
  "tool_entry c index =
     (case hm_get (ox_tools c) index of
        Some acc \<Rightarrow> acc
      | None \<Rightarrow> \<lparr>ta_id = [], ta_name = [], ta_arguments = [], ta_started = False,
                  ta_index = ox_block_index c + index\<rparr>)"

definition tool_args :: "json \<Rightarrow> string option" where
  "tool_args tc = Option.bind (json_get tc ''function'') (\<lambda>f. get_str f ''arguments'')"

definition update_acc :: "json \<Rightarrow> tool_acc \<Rightarrow> tool_acc" where
  "update_acc tc acc =
     (let acc = (case get_str tc ''id'' of Some i \<Rightarrow> acc\<lparr>ta_id := i\<rparr> | None \<Rightarrow> acc);
          acc = (case Option.bind (json_get tc ''function'') (\<lambda>f. get_str f ''name'') of
                   Some n \<Rightarrow> acc\<lparr>ta_name := n\<rparr> | None \<Rightarrow> acc)
      in case tool_args tc of
           None \<Rightarrow> acc
         | Some args \<Rightarrow>
             if length (ta_arguments acc) + length args \<le> MAX_TOOL_CALL_ARGS_LEN
             then acc\<lparr>ta_arguments := ta_arguments acc @ args\<rparr> else acc)"

definition start_tool :: "tool_acc \<Rightarrow> tool_acc \<times> anth_event list" where
  "start_tool acc =
     (if \<not> ta_started acc \<and> ta_name acc \<noteq> [] then
        (acc\<lparr>ta_started := True\<rparr>,
         [block_start_event (ta_index acc)
            (JObject [(''type'', JString ''tool_use''), (''id'', JString (ta_id acc)),
               (''name'', JString (ta_name acc)), (''input'', JObject [])])])
      else (acc, []))"

definition args_delta :: "json \<Rightarrow> tool_acc \<Rightarrow> anth_event list" where
  "args_delta tc acc =
     (case tool_args tc of
        Some args \<Rightarrow>
          if args \<noteq> [] \<and> ta_started acc then
            [block_delta_event (ta_index acc)
               (JObject [(''type'', JString ''input_json_delta''), (''partial_json'', JString args)])]
          else []
      | None \<Rightarrow> [])"

definition as_u64 :: "json \<Rightarrow> nat option" where
  "as_u64 j = (case j of JNumber (PosInt n) \<Rightarrow> Some n | _ \<Rightarrow> None)"

definition tool_index :: "json \<Rightarrow> nat" where
  "tool_index tc = (case Option.bind (json_get tc ''index'') as_u64 of Some n \<Rightarrow> n | None \<Rightarrow> 0)"

definition process_tool_call_delta :: "oai_state \<Rightarrow> json \<Rightarrow> oai_state \<times> anth_event list" where
  "process_tool_call_delta c tc =
     (if tool_index tc > MAX_TOOL_CALL_INDEX then (c, [])
      else
        (let (c, closed) = close_text c;
             (acc, started) = start_tool (update_acc tc (tool_entry c (tool_index tc)))
         in (c\<lparr>ox_tools := hm_insert (tool_index tc) acc (ox_tools c)\<rparr>,
             closed @ started @ args_delta tc acc)))"

section \<open>Lines\<close>

definition text_delta :: "oai_state \<Rightarrow> string \<Rightarrow> oai_state \<times> anth_event list" where
  "text_delta c content =
     (if content = [] then (c, [])
      else
        (c\<lparr>ox_text_open := True\<rparr>,
         (if ox_text_open c then []
          else [block_start_event (ox_block_index c)
                 (JObject [(''type'', JString ''text''), (''text'', JString [])])]) @
         [block_delta_event current_text_index
            (JObject [(''type'', JString ''text_delta''), (''text'', JString content)])]))"

text \<open>Steps in sequence, their events appended.\<close>

fun steps :: "(oai_state \<Rightarrow> 'a \<Rightarrow> oai_state \<times> anth_event list) \<Rightarrow> oai_state \<Rightarrow> 'a list \<Rightarrow>
    oai_state \<times> anth_event list" where
  "steps f c [] = (c, [])"
| "steps f c (x # xs) =
     (let (c, es) = f c x; (c, es') = steps f c xs in (c, es @ es'))"

definition process_choice :: "oai_state \<Rightarrow> json \<Rightarrow> oai_state \<times> anth_event list" where
  "process_choice c choice =
     (let c = (case get_str choice ''finish_reason'' of
                 Some r \<Rightarrow> c\<lparr>ox_finish_reason := Some r\<rparr> | None \<Rightarrow> c)
      in case json_get choice ''delta'' of
           None \<Rightarrow> (c, [])
         | Some delta \<Rightarrow>
             (let (c, es) = (case get_str delta ''content'' of
                               Some t \<Rightarrow> text_delta c t | None \<Rightarrow> (c, []));
                  (c, es') = (case Option.bind (json_get delta ''tool_calls'') as_array of
                                Some tcs \<Rightarrow> steps process_tool_call_delta c tcs | None \<Rightarrow> (c, []))
              in (c, es @ es')))"

definition message_start :: "oai_state \<Rightarrow> json \<Rightarrow> oai_state \<times> anth_event list" where
  "message_start c j =
     (let c = (if ox_has_started c then c
               else (let c = c\<lparr>ox_has_started := True\<rparr>
                     in case get_str j ''model'' of Some m \<Rightarrow> c\<lparr>ox_model := m\<rparr> | None \<Rightarrow> c))
      in if ox_sent_start c then (c, [])
         else (c\<lparr>ox_sent_start := True\<rparr>, [message_start_event c j, typed_event ''ping'' []]))"

definition read_usage :: "oai_state \<Rightarrow> json \<Rightarrow> oai_state" where
  "read_usage c j =
     (case json_get j ''usage'' of
        None \<Rightarrow> c
      | Some usage \<Rightarrow>
          (let c = (case get_i64 usage ''prompt_tokens'' of
                      Some n \<Rightarrow> c\<lparr>ox_prompt_tokens := n\<rparr> | None \<Rightarrow> c)
           in case get_i64 usage ''completion_tokens'' of
                Some n \<Rightarrow> c\<lparr>ox_completion_tokens := n\<rparr> | None \<Rightarrow> c))"

definition process_json :: "oai_state \<Rightarrow> json \<Rightarrow> oai_state \<times> anth_event list" where
  "process_json c j =
     (let (c, es) = message_start c j;
          c = read_usage c j;
          (c, es') = (case Option.bind (json_get j ''choices'') as_array of
                        Some choices \<Rightarrow> steps process_choice c choices | None \<Rightarrow> (c, []))
      in (c, es @ es'))"

definition finish_events :: "(tool_acc list \<Rightarrow> tool_acc list) \<Rightarrow> oai_state \<Rightarrow> anth_event list" where
  "finish_events arrange c =
     (if ox_text_open c then [block_stop_event current_text_index] else []) @
     map (\<lambda>acc. block_stop_event (ta_index acc))
       (filter ta_started (arrange (map snd (ox_tools c)))) @
     [message_delta_event c, typed_event ''message_stop'' []]"

definition oai_process_line ::
  "(string \<Rightarrow> json option) \<Rightarrow> (tool_acc list \<Rightarrow> tool_acc list) \<Rightarrow> oai_state \<Rightarrow> string \<Rightarrow>
     oai_state \<times> anth_event list" where
  "oai_process_line from_str arrange c line =
     (if line = [] \<or> hd line = CHR '':'' then (c, [])
      else case strip_prefix line ''data: '' of
          None \<Rightarrow> (c, [])
        | Some data \<Rightarrow>
            if data = ''[DONE]'' then (c, finish_events arrange c)
            else (case from_str data of
                    None \<Rightarrow> (c, [])
                  | Some j \<Rightarrow> process_json c j))"

text \<open>The complete lines of a text and what follows the last of them.\<close>

fun split_lines :: "string \<Rightarrow> string list \<times> string" where
  "split_lines [] = ([], [])"
| "split_lines (b # bs) =
     (case split_lines bs of
        (ls, rest) \<Rightarrow>
          if b = newline then ([] # ls, rest)
          else (case ls of [] \<Rightarrow> ([], b # rest) | l # ls' \<Rightarrow> ((b # l) # ls', rest)))"

definition trim_cr :: "string \<Rightarrow> string" where
  "trim_cr = trim_end_matches (CHR 0x0D)"

definition transform_chunk ::
  "(string \<Rightarrow> json option) \<Rightarrow> (tool_acc list \<Rightarrow> tool_acc list) \<Rightarrow> oai_context \<Rightarrow> string \<Rightarrow>
     oai_context \<times> anth_event list" where
  "transform_chunk from_str arrange ctx chunk =
     (let (ls, rest) = split_lines (oc_buffer ctx @ chunk);
          (c, es) = steps (oai_process_line from_str arrange) (oc_state ctx) (map trim_cr ls)
      in (\<lparr>oc_buffer = rest, oc_state = c\<rparr>, es))"

fun transform_chunks ::
  "(string \<Rightarrow> json option) \<Rightarrow> (tool_acc list \<Rightarrow> tool_acc list) \<Rightarrow> oai_context \<Rightarrow> string list \<Rightarrow>
     oai_context \<times> anth_event list" where
  "transform_chunks from_str arrange ctx [] = (ctx, [])"
| "transform_chunks from_str arrange ctx (chunk # cs) =
     (let (ctx, es) = transform_chunk from_str arrange ctx chunk;
          (ctx, es') = transform_chunks from_str arrange ctx cs
      in (ctx, es @ es'))"

section \<open>Chunk boundaries do not matter\<close>

lemma steps_append:
  "steps f c (xs @ ys) =
     (let (c, es) = steps f c xs; (c, es') = steps f c ys in (c, es @ es'))"
  by (induction xs arbitrary: c) (simp_all add: split_beta Let_def)

lemma split_lines_append:
  "split_lines (a @ b) =
     (case split_lines a of
        (ls, rest) \<Rightarrow> (case split_lines (rest @ b) of (ls', rest') \<Rightarrow> (ls @ ls', rest')))"
  by (induction a) (auto split: prod.split list.split)

lemma split_lines_rest: "split_lines (snd (split_lines a)) = ([], snd (split_lines a))"
  by (induction a) (auto split: prod.splits list.splits if_splits)

text \<open>A buffer holds no complete line.\<close>

definition buffer_ok :: "oai_context \<Rightarrow> bool" where
  "buffer_ok ctx \<longleftrightarrow> split_lines (oc_buffer ctx) = ([], oc_buffer ctx)"

lemma transform_chunk_append:
  "transform_chunk fs arr ctx (a @ b) =
     (let (ctx, es) = transform_chunk fs arr ctx a; (ctx, es') = transform_chunk fs arr ctx b
      in (ctx, es @ es'))"
  by (simp add: transform_chunk_def steps_append split_beta Let_def
      split_lines_append [of "oc_buffer ctx @ a" b, simplified])

lemma transform_chunk_nil: "buffer_ok ctx \<Longrightarrow> transform_chunk fs arr ctx [] = (ctx, [])"
  by (simp add: transform_chunk_def buffer_ok_def)

lemma buffer_ok_chunk: "buffer_ok (fst (transform_chunk fs arr ctx chunk))"
  by (simp add: transform_chunk_def buffer_ok_def split_beta Let_def split_lines_rest)

lemma transform_chunks_concat:
  "buffer_ok ctx \<Longrightarrow> transform_chunks fs arr ctx cs = transform_chunk fs arr ctx (concat cs)"
proof (induction cs arbitrary: ctx)
  case (Cons c cs)
  then show ?case
    using Cons.IH [OF buffer_ok_chunk [of fs arr ctx c]]
    by (simp add: transform_chunk_append split_beta Let_def)
qed (simp add: transform_chunk_nil)

section \<open>The protocol of the events\<close>

text \<open>
  What a client of the Messages API relies on: one \<open>message_start\<close>, blocks that are started once
  under an index of their own, written to while they are open and stopped once, then one
  \<open>message_delta\<close> and \<open>message_stop\<close>.
\<close>

datatype anth_phase = Before | Running "nat list" "nat list" | Closing | Ended

definition event_index :: "anth_event \<Rightarrow> nat option" where
  "event_index e = Option.bind (json_get (snd e) ''index'') as_u64"

fun anth_step :: "anth_phase \<Rightarrow> anth_event \<Rightarrow> anth_phase option" where
  "anth_step Before e = (if fst e = ''message_start'' then Some (Running [] []) else None)"
| "anth_step (Running used opened) e =
     (if fst e = ''ping'' then Some (Running used opened)
      else if fst e = ''message_delta'' then (if opened = [] then Some Closing else None)
      else case event_index e of
          None \<Rightarrow> None
        | Some i \<Rightarrow>
            if fst e = ''content_block_start'' then
              (if i \<in> set used then None else Some (Running (i # used) (i # opened)))
            else if fst e = ''content_block_delta'' then
              (if i \<in> set opened then Some (Running used opened) else None)
            else if fst e = ''content_block_stop'' then
              (if i \<in> set opened then Some (Running used (removeAll i opened)) else None)
            else None)"
| "anth_step Closing e = (if fst e = ''message_stop'' then Some Ended else None)"
| "anth_step Ended e = None"

fun anth_run :: "anth_phase \<Rightarrow> anth_event list \<Rightarrow> anth_phase option" where
  "anth_run p [] = Some p"
| "anth_run p (e # es) = (case anth_step p e of None \<Rightarrow> None | Some p' \<Rightarrow> anth_run p' es)"

lemma anth_run_append:
  "anth_run p (es @ es') = Option.bind (anth_run p es) (\<lambda>p'. anth_run p' es')"
  by (induction es arbitrary: p) (simp_all split: option.split)

lemma typed_simps [simp]:
  "fst (typed_event t kvs) = t"
  "event_index (block_start_event i b) = Some i" "event_index (block_delta_event i b) = Some i"
  "event_index (block_stop_event i) = Some i"
  "fst (block_start_event i b) = ''content_block_start''"
  "fst (block_delta_event i b) = ''content_block_delta''"
  "fst (block_stop_event i) = ''content_block_stop''"
  "fst (message_start_event c j) = ''message_start''"
  "fst (message_delta_event c) = ''message_delta''"
  by (simp_all add: typed_event_def block_start_event_def block_delta_event_def block_stop_event_def
      message_start_event_def message_delta_event_def event_index_def as_u64_def json_get_def)

text \<open>How the context and the protocol stand to each other while text comes, and after the first tool.\<close>

definition started_keys :: "oai_state \<Rightarrow> nat set" where
  "started_keys c = {k. \<exists>acc. hm_get (ox_tools c) k = Some acc \<and> ta_started acc}"

definition started_indices :: "oai_state \<Rightarrow> nat set" where
  "started_indices c = (\<lambda>k. ox_block_index c + k) ` started_keys c"

fun in_step :: "oai_state \<Rightarrow> anth_phase \<Rightarrow> bool" where
  "in_step c (Running used opened) \<longleftrightarrow>
     ox_sent_start c \<and> hm_ok (ox_tools c) \<and>
     (if ox_has_tool_calls c then
        \<not> ox_text_open c \<and> set opened = started_indices c \<and>
        set used = started_indices c \<union> {i. i < ox_block_index c} \<and>
        (\<forall>k acc. hm_get (ox_tools c) k = Some acc \<longrightarrow> ta_index acc = ox_block_index c + k)
      else ox_tools c = [] \<and> ox_block_index c = 0 \<and>
        set used = (if ox_text_open c then {0} else {}) \<and>
        set opened = (if ox_text_open c then {0} else {}))"
| "in_step c _ \<longleftrightarrow> False"

text \<open>Running a step keeps them in step.\<close>

definition kept_by :: "(oai_state \<Rightarrow> oai_state \<times> anth_event list) \<Rightarrow> oai_state \<Rightarrow> bool" where
  "kept_by f c \<longleftrightarrow>
     (\<forall>p. in_step c p \<longrightarrow> (\<exists>p'. anth_run p (snd (f c)) = Some p' \<and> in_step (fst (f c)) p'))"

lemma close_text_kept: "kept_by close_text c"
  unfolding kept_by_def
proof (intro allI impI)
  fix p assume "in_step c p"
  then show "\<exists>p'. anth_run p (snd (close_text c)) = Some p' \<and> in_step (fst (close_text c)) p'"
    by (cases p) (auto simp: close_text_def Let_def current_text_index_def started_indices_def
        started_keys_def)
qed

lemma close_text_tools: "ox_has_tool_calls (fst (close_text c))"
  by (simp add: close_text_def Let_def)

lemma update_acc_same [simp]:
  "ta_started (update_acc tc acc) = ta_started acc" "ta_index (update_acc tc acc) = ta_index acc"
  by (simp_all add: update_acc_def Let_def split: option.split)

lemma start_tool_index [simp]: "ta_index (fst (start_tool acc)) = ta_index acc"
  by (simp add: start_tool_def)

lemma start_tool_started: "ta_started acc \<Longrightarrow> ta_started (fst (start_tool acc))"
  by (simp add: start_tool_def)

lemma set_tool_keys:
  "started_keys (c\<lparr>ox_tools := hm_insert k acc (ox_tools c)\<rparr>) =
     (if ta_started acc then insert k (started_keys c) else started_keys c - {k})"
  by (auto simp: started_keys_def split: if_splits)

text \<open>The update of one tool, once the text block is closed.\<close>

definition set_tool :: "json \<Rightarrow> oai_state \<Rightarrow> oai_state \<times> anth_event list" where
  "set_tool tc c =
     (let (acc, started) = start_tool (update_acc tc (tool_entry c (tool_index tc)))
      in (c\<lparr>ox_tools := hm_insert (tool_index tc) acc (ox_tools c)\<rparr>, started @ args_delta tc acc))"

lemma set_tool_kept:
  assumes "in_step c p" "ox_has_tool_calls c"
  shows "\<exists>p'. anth_run p (snd (set_tool tc c)) = Some p' \<and> in_step (fst (set_tool tc c)) p'"
proof -
  obtain used opened where p: "p = Running used opened"
    using assms(1) by (cases p) auto
  note inv = assms(1) [unfolded p in_step.simps, simplified assms(2) if_True]
  define k where "k = tool_index tc"
  define old where "old = update_acc tc (tool_entry c k)"
  define acc where "acc = fst (start_tool old)"
  have index: "ta_index old = ox_block_index c + k"
    using inv by (auto simp: old_def tool_entry_def split: option.split)
  have key: "ta_started old \<longleftrightarrow> k \<in> started_keys c"
    by (auto simp: old_def tool_entry_def started_keys_def split: option.splits)
  have fresh: "ta_index old \<in> set opened \<longleftrightarrow> ta_started old" "ta_index old \<in> set used \<longleftrightarrow> ta_started old"
    using inv by (auto simp: index key started_indices_def)
  define c' where "c' = c\<lparr>ox_tools := hm_insert k acc (ox_tools c)\<rparr>"
  have set_tool: "set_tool tc c = (c', snd (start_tool old) @ args_delta tc acc)"
    by (simp add: set_tool_def split_beta Let_def c'_def acc_def old_def k_def)
  have c': "ox_block_index c' = ox_block_index c" "ox_sent_start c'" "hm_ok (ox_tools c')"
    "ox_has_tool_calls c'" "\<not> ox_text_open c'"
    using inv assms(2) by (simp_all add: c'_def)
  have entries: "\<forall>j a. hm_get (ox_tools c') j = Some a \<longrightarrow> ta_index a = ox_block_index c + j"
    using inv index by (auto simp: c'_def acc_def)
  have start: "anth_run p (snd (start_tool old)) =
      Some (if ta_started acc \<and> \<not> ta_started old
            then Running (ta_index old # used) (ta_index old # opened) else p)"
    using fresh by (auto simp: p start_tool_def acc_def)
  define p' where "p' = (if ta_started acc \<and> \<not> ta_started old
            then Running (ta_index old # used) (ta_index old # opened) else p)"
  have delta: "anth_run p' (args_delta tc acc) = Some p'"
    using fresh start_tool_started [of old]
    by (auto simp: args_delta_def p p'_def acc_def split: option.split)
  have keys: "started_indices c' = (if ta_started acc then insert (ta_index old) (started_indices c)
      else started_indices c)"
    using set_tool_keys [where c = c and k = k and acc = acc] key start_tool_started [of old]
    by (auto simp: started_indices_def c'_def index acc_def)
  have "in_step c' p'"
    using inv c' entries keys key by (auto simp: p p'_def started_indices_def index)
  with start delta show ?thesis
    by (simp add: set_tool anth_run_append p'_def)
qed

lemma tool_delta_steps:
  "process_tool_call_delta c tc =
     (if tool_index tc > MAX_TOOL_CALL_INDEX then (c, [])
      else (let (c, es) = close_text c; (c, es') = set_tool tc c in (c, es @ es')))"
  by (simp add: process_tool_call_delta_def set_tool_def split_beta Let_def)

lemma tool_delta_kept: "kept_by (\<lambda>c. process_tool_call_delta c tc) c"
  unfolding kept_by_def
proof (intro allI impI)
  fix p assume p: "in_step c p"
  obtain p1 where "anth_run p (snd (close_text c)) = Some p1" "in_step (fst (close_text c)) p1"
    using close_text_kept p by (auto simp: kept_by_def)
  with set_tool_kept [OF _ close_text_tools, of c p1 tc] p
  show "\<exists>p'. anth_run p (snd (process_tool_call_delta c tc)) = Some p' \<and>
      in_step (fst (process_tool_call_delta c tc)) p'"
    by (auto simp: tool_delta_steps split_beta Let_def anth_run_append)
qed

lemma text_delta_kept:
  assumes "t = [] \<or> \<not> ox_has_tool_calls c"
  shows "kept_by (\<lambda>c. text_delta c t) c"
  unfolding kept_by_def
proof (intro allI impI)
  fix p assume "in_step c p"
  with assms show "\<exists>p'. anth_run p (snd (text_delta c t)) = Some p' \<and> in_step (fst (text_delta c t)) p'"
    by (cases p) (auto simp: text_delta_def current_text_index_def)
qed

section \<open>A stream in order\<close>

text \<open>What a chunk of the stream contributes: text, or a part of a tool call of admitted index.\<close>

datatype delta_item = TextItem string | ToolItem json

definition text_items :: "json \<Rightarrow> delta_item list" where
  "text_items delta =
     (case get_str delta ''content'' of Some t \<Rightarrow> if t = [] then [] else [TextItem t] | None \<Rightarrow> [])"

definition call_items :: "json \<Rightarrow> delta_item list" where
  "call_items tc = (if tool_index tc > MAX_TOOL_CALL_INDEX then [] else [ToolItem tc])"

definition choice_items :: "json \<Rightarrow> delta_item list" where
  "choice_items choice =
     (case json_get choice ''delta'' of
        None \<Rightarrow> []
      | Some delta \<Rightarrow>
          text_items delta @
          (case Option.bind (json_get delta ''tool_calls'') as_array of
             Some tcs \<Rightarrow> concat (map call_items tcs) | None \<Rightarrow> []))"

definition json_items :: "json \<Rightarrow> delta_item list" where
  "json_items j =
     (case Option.bind (json_get j ''choices'') as_array of
        Some choices \<Rightarrow> concat (map choice_items choices) | None \<Rightarrow> [])"

fun is_tool_item :: "delta_item \<Rightarrow> bool" where
  "is_tool_item (ToolItem tc) = True"
| "is_tool_item (TextItem t) = False"

fun text_first :: "delta_item list \<Rightarrow> bool" where
  "text_first [] = True"
| "text_first (TextItem t # is) = text_first is"
| "text_first (ToolItem tc # is) = list_all is_tool_item is"

definition in_order :: "oai_state \<Rightarrow> delta_item list \<Rightarrow> bool" where
  "in_order c is \<longleftrightarrow> (if ox_has_tool_calls c then list_all is_tool_item is else text_first is)"

text \<open>A step that handles \<open>is\<close> keeps the protocol and the order of what follows.\<close>

definition handles :: "(oai_state \<Rightarrow> oai_state \<times> anth_event list) \<Rightarrow> delta_item list \<Rightarrow> bool" where
  "handles f is \<longleftrightarrow>
     (\<forall>c p rest. in_step c p \<longrightarrow> in_order c (is @ rest) \<longrightarrow>
        (\<exists>p'. anth_run p (snd (f c)) = Some p' \<and> in_step (fst (f c)) p' \<and> in_order (fst (f c)) rest))"

lemma handlesD:
  "handles f is \<Longrightarrow> in_step c p \<Longrightarrow> in_order c (is @ rest) \<Longrightarrow>
     \<exists>p'. anth_run p (snd (f c)) = Some p' \<and> in_step (fst (f c)) p' \<and> in_order (fst (f c)) rest"
  unfolding handles_def by blast

lemma handles_none: "handles (\<lambda>c. (c, [])) []"
  by (auto simp: handles_def)

lemma handles_seq:
  assumes "handles f is" "handles g js"
  shows "handles (\<lambda>c. (fst (g (fst (f c))), snd (f c) @ snd (g (fst (f c))))) (is @ js)"
  unfolding handles_def
proof (intro allI impI)
  fix c p rest assume "in_step c p" "in_order c ((is @ js) @ rest)"
  with handlesD [OF assms(1), of c p "js @ rest"] obtain p1 where 1:
    "anth_run p (snd (f c)) = Some p1" "in_step (fst (f c)) p1" "in_order (fst (f c)) (js @ rest)"
    by auto
  with handlesD [OF assms(2) 1(2,3)]
  show "\<exists>p'. anth_run p (snd (fst (g (fst (f c))), snd (f c) @ snd (g (fst (f c))))) = Some p' \<and>
      in_step (fst (fst (g (fst (f c))), snd (f c) @ snd (g (fst (f c))))) p' \<and>
      in_order (fst (fst (g (fst (f c))), snd (f c) @ snd (g (fst (f c))))) rest"
    by (auto simp: anth_run_append)
qed

lemma handles_steps:
  assumes "\<And>x. handles (\<lambda>c. f c x) (items x)"
  shows "handles (\<lambda>c. steps f c xs) (concat (map items xs))"
proof (induction xs)
  case (Cons x xs)
  from handles_seq [OF assms [of x] Cons.IH] show ?case
    by (simp add: split_beta Let_def)
qed (simp add: handles_none)

lemma handles_text: "handles (\<lambda>c. text_delta c t) (if t = [] then [] else [TextItem t])"
  unfolding handles_def
proof (intro allI impI)
  fix c p rest
  assume p: "in_step c p" and order: "in_order c ((if t = [] then [] else [TextItem t]) @ rest)"
  then have "t = [] \<or> \<not> ox_has_tool_calls c"
    by (auto simp: in_order_def)
  with p text_delta_kept obtain p' where
    "anth_run p (snd (text_delta c t)) = Some p'" "in_step (fst (text_delta c t)) p'"
    unfolding kept_by_def by blast
  moreover have "in_order (fst (text_delta c t)) rest"
    using order by (auto simp: in_order_def text_delta_def split: if_splits)
  ultimately show "\<exists>p'. anth_run p (snd (text_delta c t)) = Some p' \<and>
      in_step (fst (text_delta c t)) p' \<and> in_order (fst (text_delta c t)) rest"
    by blast
qed

lemma handles_tool: "handles (\<lambda>c. process_tool_call_delta c tc) (call_items tc)"
  unfolding handles_def
proof (intro allI impI)
  fix c p rest
  assume p: "in_step c p" and order: "in_order c (call_items tc @ rest)"
  from p tool_delta_kept obtain p' where
    "anth_run p (snd (process_tool_call_delta c tc)) = Some p'"
    "in_step (fst (process_tool_call_delta c tc)) p'"
    unfolding kept_by_def by blast
  moreover have "in_order (fst (process_tool_call_delta c tc)) rest"
  proof (cases "tool_index tc > MAX_TOOL_CALL_INDEX")
    case False
    then have "list_all is_tool_item rest"
      using order by (auto simp: in_order_def call_items_def split: if_splits)
    moreover have "ox_has_tool_calls (fst (process_tool_call_delta c tc))"
      using False close_text_tools [of c]
      by (simp add: tool_delta_steps set_tool_def split_beta Let_def)
    ultimately show ?thesis by (simp add: in_order_def)
  qed (use order in \<open>simp add: process_tool_call_delta_def call_items_def\<close>)
  ultimately show "\<exists>p'. anth_run p (snd (process_tool_call_delta c tc)) = Some p' \<and>
      in_step (fst (process_tool_call_delta c tc)) p' \<and>
      in_order (fst (process_tool_call_delta c tc)) rest"
    by blast
qed

text \<open>What is not looked at by the protocol.\<close>

lemma handles_after:
  assumes "handles f is" "\<And>c p. in_step (h c) p \<longleftrightarrow> in_step c p"
    "\<And>c. ox_has_tool_calls (h c) = ox_has_tool_calls c"
  shows "handles (\<lambda>c. f (h c)) is"
  using assms unfolding handles_def in_order_def by auto

lemma in_step_other:
  "in_step (c\<lparr>ox_finish_reason := r\<rparr>) p \<longleftrightarrow> in_step c p"
  "in_step (c\<lparr>ox_prompt_tokens := n\<rparr>) p \<longleftrightarrow> in_step c p"
  "in_step (c\<lparr>ox_completion_tokens := n\<rparr>) p \<longleftrightarrow> in_step c p"
  "in_step (c\<lparr>ox_has_started := b\<rparr>) p \<longleftrightarrow> in_step c p"
  "in_step (c\<lparr>ox_model := m\<rparr>) p \<longleftrightarrow> in_step c p"
  by (cases p; simp add: started_indices_def started_keys_def)+

definition set_reason :: "json \<Rightarrow> oai_state \<Rightarrow> oai_state" where
  "set_reason choice c =
     (case get_str choice ''finish_reason'' of Some r \<Rightarrow> c\<lparr>ox_finish_reason := Some r\<rparr> | None \<Rightarrow> c)"

definition choice_step :: "json \<Rightarrow> oai_state \<Rightarrow> oai_state \<times> anth_event list" where
  "choice_step choice c =
     (case json_get choice ''delta'' of
        None \<Rightarrow> (c, [])
      | Some delta \<Rightarrow>
          (let (c, es) = (case get_str delta ''content'' of
                            Some t \<Rightarrow> text_delta c t | None \<Rightarrow> (c, []));
               (c, es') = (case Option.bind (json_get delta ''tool_calls'') as_array of
                             Some tcs \<Rightarrow> steps process_tool_call_delta c tcs | None \<Rightarrow> (c, []))
           in (c, es @ es')))"

lemma process_choice_steps: "process_choice c choice = choice_step choice (set_reason choice c)"
  by (simp only: process_choice_def set_reason_def choice_step_def Let_def)

lemma handles_choice_step: "handles (choice_step choice) (choice_items choice)"
proof (cases "json_get choice ''delta''")
  case None
  then have "choice_step choice = (\<lambda>c. (c, []))" "choice_items choice = []"
    by (auto simp: choice_step_def choice_items_def)
  then show ?thesis by (simp only: handles_none)
next
  case (Some delta)
  define said where "said c = (case get_str delta ''content'' of
    Some t \<Rightarrow> text_delta c t | None \<Rightarrow> (c, []))" for c
  define called where "called c = (case Option.bind (json_get delta ''tool_calls'') as_array of
    Some tcs \<Rightarrow> steps process_tool_call_delta c tcs | None \<Rightarrow> (c, []))" for c
  have "handles said (text_items delta)"
    using handles_text handles_none
    by (cases "get_str delta ''content''") (simp_all add: said_def [abs_def] text_items_def)
  moreover have "handles called (case Option.bind (json_get delta ''tool_calls'') as_array of
      Some tcs \<Rightarrow> concat (map call_items tcs) | None \<Rightarrow> [])"
    using handles_steps [OF handles_tool] handles_none
    by (cases "Option.bind (json_get delta ''tool_calls'') as_array") (simp_all add: called_def [abs_def])
  moreover have "choice_step choice =
      (\<lambda>c. (fst (called (fst (said c))), snd (said c) @ snd (called (fst (said c)))))"
    by (intro ext) (simp only: choice_step_def Some option.case said_def called_def split_beta Let_def)
  moreover have "choice_items choice = text_items delta @
      (case Option.bind (json_get delta ''tool_calls'') as_array of
        Some tcs \<Rightarrow> concat (map call_items tcs) | None \<Rightarrow> [])"
    by (simp only: choice_items_def Some option.case)
  ultimately show ?thesis by (simp only: handles_seq)
qed

lemma handles_choice: "handles (\<lambda>c. process_choice c choice) (choice_items choice)"
  unfolding process_choice_steps
  by (rule handles_after [OF handles_choice_step])
     (simp_all add: set_reason_def in_step_other split: option.split)

lemma handles_choices:
  "handles (\<lambda>c. case Option.bind (json_get j ''choices'') as_array of
      Some choices \<Rightarrow> steps process_choice c choices | None \<Rightarrow> (c, [])) (json_items j)"
  using handles_steps [OF handles_choice] handles_none
  by (auto simp: json_items_def split: option.split)

definition unstarted :: "oai_state \<Rightarrow> bool" where
  "unstarted c \<longleftrightarrow> \<not> ox_sent_start c \<and> \<not> ox_text_open c \<and> \<not> ox_has_tool_calls c \<and>
     ox_tools c = [] \<and> ox_block_index c = 0"

lemma message_start_step:
  assumes "in_step c p \<or> unstarted c \<and> p = Before"
  shows "\<exists>p'. anth_run p (snd (message_start c j)) = Some p' \<and>
    in_step (fst (message_start c j)) p' \<and>
    ox_has_tool_calls (fst (message_start c j)) = ox_has_tool_calls c"
  using assms
proof
  assume "in_step c p"
  then show ?thesis
    by (cases p) (auto simp: message_start_def Let_def started_indices_def started_keys_def
        split: option.split)
next
  assume "unstarted c \<and> p = Before"
  then show ?thesis
    by (auto simp: message_start_def Let_def unstarted_def hm_ok_def split: option.split)
qed

lemma read_usage_step:
  "in_step (read_usage c j) p \<longleftrightarrow> in_step c p" "ox_has_tool_calls (read_usage c j) = ox_has_tool_calls c"
  by (simp_all add: read_usage_def Let_def in_step_other split: option.split)

lemma process_json_step:
  assumes "in_step c p \<or> unstarted c \<and> p = Before" "in_order c (json_items j @ rest)"
  shows "\<exists>p'. anth_run p (snd (process_json c j)) = Some p' \<and>
    in_step (fst (process_json c j)) p' \<and> in_order (fst (process_json c j)) rest"
proof -
  let ?c = "fst (message_start c j)"
  obtain p1 where 1: "anth_run p (snd (message_start c j)) = Some p1" "in_step ?c p1"
    "ox_has_tool_calls ?c = ox_has_tool_calls c"
    using message_start_step [OF assms(1)] by blast
  then have "in_step (read_usage ?c j) p1" "in_order (read_usage ?c j) (json_items j @ rest)"
    using assms(2) by (simp_all add: read_usage_step in_order_def)
  from handlesD [OF handles_choices this] 1(1) show ?thesis
    by (auto simp: process_json_def split_beta Let_def anth_run_append)
qed

lemma stops_run:
  "distinct idx \<Longrightarrow> set idx \<subseteq> set opened \<Longrightarrow>
     \<exists>left. anth_run (Running used opened) (map block_stop_event idx @ es) = anth_run (Running used left) es \<and>
       set left = set opened - set idx"
proof (induction idx arbitrary: opened)
  case Nil
  then show ?case by (intro exI [of _ opened]) simp
next
  case (Cons i idx)
  then have "set idx \<subseteq> set (removeAll i opened)" by auto
  with Cons.IH [of "removeAll i opened"] Cons.prems(1) obtain left where
    "anth_run (Running used (removeAll i opened)) (map block_stop_event idx @ es) = anth_run (Running used left) es"
    "set left = set (removeAll i opened) - set idx"
    by auto
  with Cons.prems show ?case
    by (intro exI [of _ left]) auto
qed

lemma finish_step:
  assumes "in_step c p" "\<And>xs. mset (arrange xs) = mset xs"
  shows "anth_run p (finish_events arrange c) = Some Ended"
proof -
  obtain used opened where p: "p = Running used opened"
    using assms(1) by (cases p) auto
  note inv = assms(1) [unfolded p in_step.simps]
  define idx where "idx = (if ox_text_open c then [current_text_index] else []) @
    map ta_index (filter ta_started (arrange (map snd (ox_tools c))))"
  have events: "finish_events arrange c =
      map block_stop_event idx @ [message_delta_event c, typed_event ''message_stop'' []]"
    by (simp add: finish_events_def idx_def comp_def)
  define visited where "visited = map ta_index (filter ta_started (arrange (map snd (ox_tools c))))"
  have idx: "idx = (if ox_text_open c then [current_text_index] else []) @ visited"
    by (simp only: idx_def visited_def)
  define entered where "entered = map ta_index (filter ta_started (map snd (ox_tools c)))"
  have "mset visited = mset entered"
    by (simp only: visited_def entered_def mset_map mset_filter assms(2))
  then have same: "distinct visited = distinct entered" "set visited = set entered"
    by (rule mset_eq_imp_distinct_iff, rule mset_eq_setD)
  have "distinct idx \<and> set idx = set opened"
  proof (cases "ox_has_tool_calls c")
    case False
    with inv have "entered = []" by (simp add: entered_def)
    with same have "visited = []" by simp
    with False inv show ?thesis
      by (simp add: idx current_text_index_def)
  next
    case True
    have get: "(k, acc) \<in> set (ox_tools c) \<longleftrightarrow> hm_get (ox_tools c) k = Some acc" for k acc
      using inv by (simp add: hm_ok_def)
    have "distinct (map fst (filter (ta_started \<circ> snd) (ox_tools c)))"
      using inv by (simp add: hm_ok_def distinct_map_filter)
    then have "distinct (map ((+) (ox_block_index c)) (map fst (filter (ta_started \<circ> snd) (ox_tools c))))"
      by (subst distinct_map) (simp add: inj_on_def)
    then have "distinct (map (\<lambda>e. ox_block_index c + fst e) (filter (ta_started \<circ> snd) (ox_tools c)))"
      by (simp add: comp_def)
    moreover have "map (\<lambda>e. ox_block_index c + fst e) (filter (ta_started \<circ> snd) (ox_tools c)) =
        entered"
      using inv True get by (auto simp: entered_def filter_map comp_def)
    ultimately have "distinct entered" by simp
    moreover have "set entered = started_indices c"
      using inv True get
      by (fastforce simp: entered_def started_indices_def started_keys_def image_iff)
    ultimately show ?thesis
      using inv True same by (simp add: idx)
  qed
  with stops_run [of idx opened used "[message_delta_event c, typed_event ''message_stop'' []]"]
  obtain left where "anth_run p (finish_events arrange c) =
      anth_run (Running used left) [message_delta_event c, typed_event ''message_stop'' []]"
    "set left = {}"
    unfolding events p by auto
  then show ?thesis by simp
qed

text \<open>The lines of a stream: data lines, each followed by an empty one.\<close>

definition data_line :: "string \<Rightarrow> string" where
  "data_line d = ''data: '' @ d"

definition sse_text :: "string list \<Rightarrow> string" where
  "sse_text ds = concat (map (\<lambda>d. data_line d @ [newline, newline]) ds)"

definition one_line :: "string \<Rightarrow> bool" where
  "one_line d \<longleftrightarrow> newline \<notin> set d \<and> (d \<noteq> [] \<longrightarrow> last d \<noteq> CHR 0x0D)"

lemma split_lines_line:
  "newline \<notin> set l \<Longrightarrow> split_lines (l @ newline # s) =
     (case split_lines s of (ls, rest) \<Rightarrow> (l # ls, rest))"
  by (induction l) (auto split: prod.split)

lemma split_lines_sse:
  "list_all one_line ds \<Longrightarrow>
     split_lines (sse_text ds) = (concat (map (\<lambda>d. [data_line d, []]) ds), [])"
proof (induction ds)
  case (Cons d ds)
  have n: "newline \<notin> set (data_line d)"
    using Cons.prems by (simp add: one_line_def newline_def data_line_def)
  have "split_lines (sse_text (d # ds)) =
      split_lines ((data_line d) @ newline # ([] @ newline # sse_text ds))"
    by (simp add: sse_text_def)
  also have "\<dots> = (concat (map (\<lambda>d. [data_line d, []]) (d # ds)), [])"
    using Cons by (simp only: split_lines_line [OF n] split_lines_line [of "[]"] list.set empty_iff
        not_False_eq_True) simp
  finally show ?case .
qed (simp add: sse_text_def)

lemma trim_cr_line: "one_line d \<Longrightarrow> trim_cr (data_line d) = data_line d"
  by (cases d rule: rev_cases) (auto simp: trim_cr_def trim_end_matches_def one_line_def data_line_def)

lemma trim_cr_nil [simp]: "trim_cr [] = []"
  by (simp add: trim_cr_def trim_end_matches_def)

lemma process_data_line:
  "oai_process_line fs arr c (data_line d) =
     (if d = ''[DONE]'' then (c, finish_events arr c)
      else case fs d of None \<Rightarrow> (c, []) | Some j \<Rightarrow> process_json c j)"
  by (simp add: oai_process_line_def strip_prefix_def data_line_def)

lemma process_empty_line [simp]: "oai_process_line fs arr c [] = (c, [])"
  by (simp add: oai_process_line_def)

lemma steps_lines:
  "list_all one_line ds \<Longrightarrow>
     steps (oai_process_line fs arr) c (map trim_cr (concat (map (\<lambda>d. [data_line d, []]) ds))) =
     steps (\<lambda>c d. oai_process_line fs arr c (data_line d)) c ds"
  by (induction ds arbitrary: c) (simp_all add: trim_cr_line split_beta Let_def)

definition is_data :: "(string \<Rightarrow> json option) \<Rightarrow> string \<Rightarrow> json \<Rightarrow> bool" where
  "is_data from_str d j \<longleftrightarrow> one_line d \<and> d \<noteq> ''[DONE]'' \<and> from_str d = Some j"

lemma data_run:
  assumes "list_all2 (is_data fs) ds js"
    and "in_step c p \<or> unstarted c \<and> p = Before \<and> ds \<noteq> []"
    and "in_order c (concat (map json_items js))"
  shows "\<exists>p'. anth_run p (snd (steps (\<lambda>c d. oai_process_line fs arr c (data_line d)) c ds)) = Some p' \<and>
    in_step (fst (steps (\<lambda>c d. oai_process_line fs arr c (data_line d)) c ds)) p'"
  using assms
proof (induction arbitrary: c p rule: list_all2_induct)
  case (Cons d ds j js)
  have line: "oai_process_line fs arr c (data_line d) = process_json c j"
    using Cons.hyps(1) by (simp add: process_data_line is_data_def)
  have "in_step c p \<or> unstarted c \<and> p = Before"
    using Cons.prems(1) by auto
  from process_json_step [OF this, of j "concat (map json_items js)"] Cons.prems(2)
  obtain p1 where p1: "anth_run p (snd (process_json c j)) = Some p1"
    "in_step (fst (process_json c j)) p1" "in_order (fst (process_json c j)) (concat (map json_items js))"
    by auto
  with Cons.IH [of "fst (process_json c j)" p1] show ?case
    by (auto simp: line split_beta Let_def anth_run_append)
qed auto


definition demo_parse :: "string \<Rightarrow> json option" where
  "demo_parse d =
     (if d = ''t'' then Some (JObject [(''choices'', JArray [JObject [(''delta'',
          JObject [(''content'', JString ''Hi'')])]])])
      else if d = ''c'' then Some (JObject [(''choices'', JArray [JObject [(''delta'',
          JObject [(''tool_calls'', JArray [JObject [(''index'', JNumber (PosInt 0)),
             (''id'', JString ''i''), (''function'', JObject [(''name'', JString ''f''),
                (''arguments'', JString ''{}'')])]])])]])])
      else if d = ''u'' then Some (JObject [(''usage'', JObject
          [(''prompt_tokens'', JNumber (PosInt 25))])])
      else None)"

lemma demo_data: "d \<in> {''t'', ''c'', ''u''} \<Longrightarrow> is_data demo_parse d (the (demo_parse d))"
  by (auto simp: is_data_def demo_parse_def one_line_def newline_def)


text \<open>
  Text after a tool call breaks the stream: its deltas name block 0, while the block it starts has
  the index of the first tool.
\<close>

lemma text_after_tool_malformed:
  "anth_run Before (snd (transform_chunks demo_parse id oai_context_new
     [sse_text [''c'', ''t'']])) = None"
proof -
  have lines: "list_all one_line [''c'', ''t'']"
    by (simp add: one_line_def newline_def)
  show ?thesis
    using steps_lines [OF lines, of demo_parse id oai_state_new]
    by (simp add: transform_chunk_def oai_context_new_def split_lines_sse [OF lines] split_beta
        process_data_line process_json_def message_start_def read_usage_def process_choice_def
        process_tool_call_delta_def close_text_def tool_entry_def update_acc_def start_tool_def
        args_delta_def tool_args_def tool_index_def text_delta_def demo_parse_def json_get_def
        as_array_def get_str_def as_str_def as_u64_def MAX_TOOL_CALL_INDEX_def
        MAX_TOOL_CALL_ARGS_LEN_def oai_state_new_def current_text_index_def Let_def)
qed

text \<open>The caller who finishes the stream, as documented, after its end has been seen, ends it twice.\<close>

lemma stop_ends: "anth_run p (es @ [typed_event ''message_stop'' []] @ e # es') = None"
proof -
  have "anth_step q (typed_event ''message_stop'' []) \<in> {None, Some Ended}" for q
    by (cases q) (simp_all add: event_index_def typed_event_def json_get_def)
  then have "anth_run q (typed_event ''message_stop'' [] # e # es') = None" for q
    by (metis (no_types, lifting) anth_run.simps(2) anth_step.simps(4) insertE option.simps(4,5) singletonD)
  then show ?thesis
    by (cases "anth_run p es") (simp_all add: anth_run_append del: anth_run.simps)
qed

lemma finished_twice:
  "anth_run p (snd (oai_process_line from_str arrange c (data_line ''[DONE]'')) @ finish_events arrange c) = None"
proof -
  obtain es where es: "finish_events arrange c = es @ [typed_event ''message_stop'' []]"
    by (simp add: finish_events_def)
  obtain e es' where e: "finish_events arrange c = e # es'"
    by (cases "finish_events arrange c") (simp_all add: finish_events_def)
  have "anth_run p (finish_events arrange c @ finish_events arrange c) =
      anth_run p (es @ [typed_event ''message_stop'' []] @ e # es')"
    unfolding e [symmetric] unfolding es by simp
  then show ?thesis
    using stop_ends [of p es e es'] by (simp add: process_data_line del: anth_run.simps)
qed

text \<open>Steps after the start of the message.\<close>

definition quiet :: "(oai_state \<Rightarrow> oai_state \<times> anth_event list) \<Rightarrow> bool" where
  "quiet f \<longleftrightarrow> (\<forall>c. ox_sent_start (fst (f c)) = ox_sent_start c \<and>
     list_all (\<lambda>e. fst e \<noteq> ''message_start'') (snd (f c)))"

lemma quiet_steps: "(\<And>x. quiet (\<lambda>c. f c x)) \<Longrightarrow> quiet (\<lambda>c. steps f c xs)"
  unfolding quiet_def by (induction xs) (simp_all add: split_beta Let_def)

lemma quiet_text: "quiet (\<lambda>c. text_delta c t)"
  by (simp add: quiet_def text_delta_def)

lemma quiet_tool: "quiet (\<lambda>c. process_tool_call_delta c tc)"
  by (auto simp: quiet_def process_tool_call_delta_def close_text_def start_tool_def args_delta_def
      split_beta Let_def split: option.splits)

lemma quiet_tools: "quiet (\<lambda>c. steps process_tool_call_delta c tcs)"
  by (rule quiet_steps [OF quiet_tool])

lemma quiet_choice: "quiet (\<lambda>c. process_choice c choice)"
proof -
  have "quiet (\<lambda>c. choice_step choice (set_reason choice c))"
    using quiet_text [unfolded quiet_def] quiet_tools [unfolded quiet_def]
    by (simp add: quiet_def choice_step_def set_reason_def split_beta Let_def split: option.split)
  then show ?thesis by (simp add: process_choice_steps)
qed

definition reports_none :: "anth_event \<Rightarrow> bool" where
  "reports_none e \<longleftrightarrow> fst e \<noteq> ''message_start'' \<or>
     Option.bind (json_get (snd e) ''message'') (\<lambda>m. Option.bind (json_get m ''usage'')
       (\<lambda>u. get_i64 u ''input_tokens'')) = Some 0"

definition before_usage :: "oai_state \<Rightarrow> bool" where
  "before_usage c \<longleftrightarrow> ox_sent_start c \<or> ox_prompt_tokens c = 0"

lemma process_json_reports:
  assumes "before_usage c"
  shows "before_usage (fst (process_json c j)) \<and> list_all reports_none (snd (process_json c j))"
proof -
  have start: "list_all reports_none (snd (message_start c j)) \<and> ox_sent_start (fst (message_start c j))"
    using assms by (auto simp: message_start_def before_usage_def Let_def reports_none_def
        message_start_event_def typed_event_def json_get_def int_json_def get_i64_def as_i64_def
        i64_max_def split: option.split)
  have "quiet (\<lambda>c. steps process_choice c choices)" for choices
    by (rule quiet_steps [OF quiet_choice])
  then have rest: "quiet (\<lambda>c. case Option.bind (json_get j ''choices'') as_array of
      Some choices \<Rightarrow> steps process_choice c choices | None \<Rightarrow> (c, []))"
    by (simp add: quiet_def split: option.split)
  have "ox_sent_start (read_usage c' j) = ox_sent_start c'" for c'
    by (simp add: read_usage_def Let_def split: option.split)
  with start rest show ?thesis
    unfolding process_json_def split_beta Let_def
    by (auto simp: quiet_def before_usage_def reports_none_def list_all_iff)
qed

lemma lines_report:
  "before_usage c \<Longrightarrow>
     before_usage (fst (steps (oai_process_line fs arr) c ls)) \<and>
     list_all reports_none (snd (steps (oai_process_line fs arr) c ls))"
proof (induction ls arbitrary: c)
  case (Cons l ls)
  have fin: "list_all reports_none (finish_events arr c)"
    by (auto simp: finish_events_def reports_none_def list_all_iff)
  have "before_usage (fst (oai_process_line fs arr c l)) \<and>
      list_all reports_none (snd (oai_process_line fs arr c l))"
    using Cons.prems process_json_reports fin by (auto simp: oai_process_line_def split: option.split)
  with Cons.IH show ?case by (simp add: split_beta Let_def)
qed simp

text \<open>
  The number of prompt tokens never reaches the client: whatever the upstream reports,
  \<open>message_start\<close> is sent before it is read and says zero (and the final \<open>message_delta\<close> has the
  completion tokens only).
\<close>

theorem prompt_tokens_never_reported:
  "list_all reports_none (snd (transform_chunks from_str arrange oai_context_new cs))"
proof -
  have "before_usage (oc_state ctx) \<Longrightarrow> list_all reports_none (snd (transform_chunks from_str arrange ctx cs))" for ctx
  proof (induction cs arbitrary: ctx)
    case (Cons chunk cs)
    then show ?case
      using lines_report [of "oc_state ctx" from_str arrange]
      by (simp add: transform_chunk_def split_beta Let_def)
  qed simp
  then show ?thesis
    by (simp add: before_usage_def oai_context_new_def oai_state_new_def)
qed

end
