(* ===== verification/XFactor.thy ===== *)
theory XFactor
  imports Text_Json
begin

text \<open>
  \<open>proxy/src/xfactor/state.rs\<close> and \<open>proxy/src/xfactor/mod.rs\<close>: what the proxy believes about the
  capacity of an account. A rolling window of five hours sums the tokens that went through the
  proxy; usage polls update a log-normal posterior of the capacity; a Kalman filter follows the
  usage that did not go through the proxy. All arithmetic is binary64 with its rounding; \<open>ln\<close>,
  \<open>exp\<close> and \<open>sqrt\<close> are the parameter \<open>lm\<close>.
\<close>

section \<open>Constants\<close>

definition WINDOW_5H_MS :: i64 where "WINDOW_5H_MS = 5 * 3600 * 1000"
definition MIN_U_FOR_LB :: f64 where "MIN_U_FOR_LB = lit 5"
definition CENSORED_U_THRESHOLD :: f64 where "CENSORED_U_THRESHOLD = lit 95"
definition SIGMA_SQ_OBS :: f64 where "SIGMA_SQ_OBS = lit (5 / 100)"
definition EMA_ALPHA :: f64 where "EMA_ALPHA = lit (5 / 100)"
definition DECAY_FACTOR :: f64 where "DECAY_FACTOR = lit (98 / 100)"
definition STOP_ASSIGN_BUFFER :: f64 where "STOP_ASSIGN_BUFFER = lit 20000"
definition C_BASE_PRO :: f64 where "C_BASE_PRO = lit 88000"
definition LAG_ESTIMATE_MS :: i64 where "LAG_ESTIMATE_MS = 90000"
definition KF_PROCESS_NOISE_RATE :: f64 where "KF_PROCESS_NOISE_RATE = lit 100"
definition KF_INIT_VARIANCE :: f64 where "KF_INIT_VARIANCE = lit (10 ^ 12)"
definition SHARED_SCORE_THRESHOLD :: f64 where "SHARED_SCORE_THRESHOLD = lit (1 / 2)"

definition model_weight :: "string option \<Rightarrow> f64" where
  "model_weight model =
     (case model of
        None \<Rightarrow> 1
      | Some m \<Rightarrow>
          (let m = to_ascii_lowercase m
           in if contains_str m ''opus'' then lit 4
              else if contains_str m ''haiku'' then lit (1 / 4)
              else 1))"

definition tier_prior :: "libm \<Rightarrow> string option \<Rightarrow> f64 \<times> f64" where
  "tier_prior lm tier =
     (let SIGMA_T = lit (353 / 1000); sigma_sq = SIGMA_T * SIGMA_T;
          unknown = (f_ln lm (lit 200000), lit (693 / 1000) * lit (693 / 1000))
      in case map_option trim tier of
           None \<Rightarrow> unknown
         | Some t \<Rightarrow>
             if contains_str t ''20x'' then (f_ln lm (lit 880000), sigma_sq)
             else if contains_str t ''5x'' then (f_ln lm (lit 440000), sigma_sq)
             else if contains_str (to_ascii_lowercase t) ''max''
             then (f_ln lm (lit 440000), lit (1 / 2) * lit (1 / 2))
             else if contains_str (to_ascii_lowercase t) ''pro'' then (f_ln lm (lit 88000), sigma_sq)
             else if contains_str (to_ascii_lowercase t) ''free''
             then (f_ln lm (lit 10000), lit (693 / 1000) * lit (693 / 1000))
             else unknown)"

section \<open>The state of an account\<close>

text \<open>The row of the table \<open>account_xfactor_state\<close>.\<close>

record xfactor_db_state =
  db_account_id :: string
  db_mu :: f64
  db_sigma_sq :: f64
  db_n_eff :: f64
  db_ema_proxy_rate :: f64
  db_c_i_hard_lower :: f64
  db_updated_at_ms :: i64
  db_kf_e :: f64
  db_kf_e_dot :: f64
  db_kf_p00 :: f64
  db_kf_p01 :: f64
  db_kf_p10 :: f64
  db_kf_p11 :: f64
  db_lag_estimate_ms :: i64

record capacity_state =
  cs_account_id :: string
  cs_account_name :: string
  cs_subscription_tier :: "string option"
  cs_is_shared :: bool
  window_5h :: "(i64 \<times> f64) list"
  proxy_tokens_5h_weighted :: f64
  mu :: f64
  sigma_sq :: f64
  n_eff :: f64
  ema_proxy_rate :: f64
  c_i_hard_lower :: f64
  kf_e :: f64
  kf_e_dot :: f64
  kf_p00 :: f64
  kf_p01 :: f64
  kf_p10 :: f64
  kf_p11 :: f64
  last_kf_predict_ms :: i64
  lag_estimate_ms :: i64
  last_poll_at_ms :: "i64 option"
  updated_at_ms :: i64

definition capacity_new ::
  "libm \<Rightarrow> i64 \<Rightarrow> string \<Rightarrow> string \<Rightarrow> string option \<Rightarrow> bool \<Rightarrow> capacity_state" where
  "capacity_new lm now_ms account_id account_name subscription_tier is_shared =
     (let (m, s) = tier_prior lm subscription_tier
      in \<lparr>cs_account_id = account_id, cs_account_name = account_name,
          cs_subscription_tier = subscription_tier, cs_is_shared = is_shared,
          window_5h = [], proxy_tokens_5h_weighted = 0, mu = m, sigma_sq = s, n_eff = 0,
          ema_proxy_rate = 0, c_i_hard_lower = 0, kf_e = 0, kf_e_dot = 0,
          kf_p00 = KF_INIT_VARIANCE, kf_p01 = 0, kf_p10 = 0, kf_p11 = KF_INIT_VARIANCE,
          last_kf_predict_ms = 0, lag_estimate_ms = LAG_ESTIMATE_MS, last_poll_at_ms = None,
          updated_at_ms = now_ms\<rparr>)"

definition restore_from_db :: "xfactor_db_state \<Rightarrow> capacity_state \<Rightarrow> capacity_state" where
  "restore_from_db db s =
     s\<lparr>mu := db_mu db, sigma_sq := db_sigma_sq db, n_eff := db_n_eff db,
       ema_proxy_rate := db_ema_proxy_rate db, c_i_hard_lower := db_c_i_hard_lower db,
       updated_at_ms := db_updated_at_ms db, kf_e := 0, kf_e_dot := 0,
       kf_p00 := KF_INIT_VARIANCE, kf_p01 := 0, kf_p10 := 0, kf_p11 := KF_INIT_VARIANCE,
       lag_estimate_ms := db_lag_estimate_ms db\<rparr>"

definition to_db_state :: "capacity_state \<Rightarrow> xfactor_db_state" where
  "to_db_state s =
     \<lparr>db_account_id = cs_account_id s, db_mu = mu s, db_sigma_sq = sigma_sq s, db_n_eff = n_eff s,
      db_ema_proxy_rate = ema_proxy_rate s, db_c_i_hard_lower = c_i_hard_lower s,
      db_updated_at_ms = updated_at_ms s, db_kf_e = kf_e s, db_kf_e_dot = kf_e_dot s,
      db_kf_p00 = kf_p00 s, db_kf_p01 = kf_p01 s, db_kf_p10 = kf_p10 s, db_kf_p11 = kf_p11 s,
      db_lag_estimate_ms = lag_estimate_ms s\<rparr>"

section \<open>The rolling window\<close>

fun evict_loop :: "i64 \<Rightarrow> (i64 \<times> f64) list \<Rightarrow> f64 \<Rightarrow> (i64 \<times> f64) list \<times> f64" where
  "evict_loop cutoff [] acc = ([], acc)"
| "evict_loop cutoff ((ts, w) # rest) acc =
     (if ts < cutoff then evict_loop cutoff rest (acc - w) else ((ts, w) # rest, acc))"

definition evict_old :: "i64 \<Rightarrow> capacity_state \<Rightarrow> capacity_state" where
  "evict_old now_ms s =
     (let cutoff = i64_sub now_ms WINDOW_5H_MS;
          (window, acc) = evict_loop cutoff (window_5h s) (proxy_tokens_5h_weighted s)
      in s\<lparr>window_5h := window, proxy_tokens_5h_weighted := f64_max acc 0\<rparr>)"

definition on_request :: "i64 \<Rightarrow> f64 \<Rightarrow> capacity_state \<Rightarrow> capacity_state" where
  "on_request now_ms weighted_tokens s =
     (if weighted_tokens \<le> 0 then s
      else
        (let s = evict_old now_ms s
         in s\<lparr>window_5h := window_5h s @ [(now_ms, weighted_tokens)],
              proxy_tokens_5h_weighted := proxy_tokens_5h_weighted s + weighted_tokens,
              ema_proxy_rate := EMA_ALPHA * weighted_tokens + (1 - EMA_ALPHA) * ema_proxy_rate s,
              updated_at_ms := now_ms\<rparr>))"

definition f64_sum :: "f64 list \<Rightarrow> f64" where
  "f64_sum xs = fold (\<lambda>x acc. acc + x) xs 0"

definition p_at_lagged_time :: "i64 \<Rightarrow> capacity_state \<Rightarrow> f64" where
  "p_at_lagged_time lagged_ms s =
     (let window_start = i64_sub lagged_ms WINDOW_5H_MS
      in f64_sum (map snd (filter (\<lambda>(ts, _). window_start \<le> ts \<and> ts \<le> lagged_ms) (window_5h s))))"

definition window_recovery_tokens :: "i64 \<Rightarrow> i64 \<Rightarrow> capacity_state \<Rightarrow> f64" where
  "window_recovery_tokens now_ms delta_ms s =
     (let window_start = i64_sub now_ms WINDOW_5H_MS;
          cutoff = i64_sub (i64_add now_ms delta_ms) WINDOW_5H_MS
      in f64_sum (map snd (filter (\<lambda>(ts, _). window_start \<le> ts \<and> ts \<le> cutoff) (window_5h s))))"

section \<open>The Kalman filter\<close>

definition kf_predict_to :: "i64 \<Rightarrow> capacity_state \<Rightarrow> capacity_state" where
  "kf_predict_to now_ms s =
     (if last_kf_predict_ms s = 0 then s\<lparr>last_kf_predict_ms := now_ms\<rparr>
      else
        (let dt = f64_of_int (max (i64_sub now_ms (last_kf_predict_ms s)) 0) / lit 1000
         in if dt < lit (1 / 1000) then s
            else
              (let e = kf_e s + kf_e_dot s * dt;
                   p00 = kf_p00 s; p01 = kf_p01 s; p11 = kf_p11 s;
                   p00' = p00 + lit 2 * dt * p01 + dt * dt * p11;
                   p01' = p01 + dt * p11;
                   p11' = p11 + KF_PROCESS_NOISE_RATE * dt;
                   p01'' = f64_clamp (lit (- (10 ^ 14))) (lit (10 ^ 14)) p01'
               in s\<lparr>kf_e := f64_max e (lit (- 5000)), kf_e_dot := f64_max (kf_e_dot s) 0,
                    kf_p00 := f64_min p00' (lit (10 ^ 14)), kf_p01 := p01'', kf_p10 := p01'',
                    kf_p11 := f64_min p11' (lit (10 ^ 14)), last_kf_predict_ms := now_ms\<rparr>)))"

definition kf_update :: "f64 \<Rightarrow> f64 \<Rightarrow> capacity_state \<Rightarrow> capacity_state" where
  "kf_update e_obs r s =
     (let y = e_obs - kf_e s;
          sv = kf_p00 s + r
      in if sv \<le> 0 \<or> \<not> is_finite sv then s
         else
           (let k0 = kf_p00 s / sv;
                k1 = kf_p10 s / sv;
                p00 = kf_p00 s; p01 = kf_p01 s; p11 = kf_p11 s;
                factor = r / sv
            in s\<lparr>kf_e := kf_e s + k0 * y, kf_e_dot := kf_e_dot s + k1 * y,
                 kf_p00 := f64_max (p00 * factor) 0, kf_p01 := p01 * factor,
                 kf_p10 := p01 * factor, kf_p11 := f64_max (p11 - k1 * p01) 0\<rparr>))"

section \<open>Estimates\<close>

definition c_estimate :: "libm \<Rightarrow> capacity_state \<Rightarrow> f64" where
  "c_estimate lm s = f64_max (f_exp lm (mu s)) (c_i_hard_lower s)"

definition c_pessimistic :: "libm \<Rightarrow> capacity_state \<Rightarrow> f64" where
  "c_pessimistic lm s =
     f64_max (f_exp lm (mu s - lit (1645 / 1000) * f_sqrt lm (sigma_sq s))) (c_i_hard_lower s)"

definition c_optimistic :: "libm \<Rightarrow> capacity_state \<Rightarrow> f64" where
  "c_optimistic lm s = f_exp lm (mu s + lit (1645 / 1000) * f_sqrt lm (sigma_sq s))"

definition remaining_tokens_estimate :: "libm \<Rightarrow> capacity_state \<Rightarrow> f64 \<times> f64 \<times> f64" where
  "remaining_tokens_estimate lm s =
     (let c_p5 = c_pessimistic lm s;
          c_p50 = c_estimate lm s;
          c_p95 = c_optimistic lm s;
          used = proxy_tokens_5h_weighted s + f64_max (kf_e s) 0
      in (f64_max (c_p5 - used) 0, f64_max (c_p50 - used) 0, f64_max (c_p95 - used) 0))"

definition total_rate :: "capacity_state \<Rightarrow> f64" where
  "total_rate s = ema_proxy_rate s + f64_max (kf_e_dot s) 0"

definition tte_minutes :: "libm \<Rightarrow> capacity_state \<Rightarrow> f64" where
  "tte_minutes lm s =
     (if total_rate s \<le> lit (1 / 100) then PInf
      else fst (remaining_tokens_estimate lm s) / total_rate s / lit 60)"

definition tte_minutes_with_recovery :: "libm \<Rightarrow> i64 \<Rightarrow> capacity_state \<Rightarrow> f64" where
  "tte_minutes_with_recovery lm now_ms s =
     (if total_rate s \<le> lit (1 / 100) then PInf
      else
        (let f_15min = window_recovery_tokens now_ms (15 * 60 * 1000) s;
             r_adjusted = f64_max (fst (remaining_tokens_estimate lm s) + f_15min) 0
         in r_adjusted / total_rate s / lit 60))"

definition utilization_pct :: "libm \<Rightarrow> capacity_state \<Rightarrow> f64" where
  "utilization_pct lm s =
     (let c = c_estimate lm s
      in if c \<le> 0 then 0
         else f64_min ((proxy_tokens_5h_weighted s + f64_max (kf_e s) 0) / c * lit 100) (lit 100))"

definition x_factor :: "libm \<Rightarrow> capacity_state \<Rightarrow> f64 \<times> f64 \<times> f64" where
  "x_factor lm s =
     (c_pessimistic lm s / C_BASE_PRO, c_estimate lm s / C_BASE_PRO, c_optimistic lm s / C_BASE_PRO)"

definition confidence :: "capacity_state \<Rightarrow> string" where
  "confidence s =
     (if n_eff s < 1 then ''cold''
      else if n_eff s < lit 3 then ''low''
      else if n_eff s < lit 10 then ''medium''
      else ''high'')"

definition should_stop_assign :: "libm \<Rightarrow> capacity_state \<Rightarrow> bool" where
  "should_stop_assign lm s =
     (let drain_5min = total_rate s * lit 300
      in fst (remaining_tokens_estimate lm s) - drain_5min \<le> STOP_ASSIGN_BUFFER)"

definition shared_score :: "capacity_state \<Rightarrow> f64" where
  "shared_score s =
     (if proxy_tokens_5h_weighted s \<le> lit 100 then 0
      else f64_max (kf_e s) 0 / proxy_tokens_5h_weighted s)"

definition suspected_shared :: "capacity_state \<Rightarrow> bool" where
  "suspected_shared s \<longleftrightarrow>
     \<not> cs_is_shared s \<and> n_eff s \<ge> lit 10 \<and> kf_e s \<ge> lit 30000 \<and>
     shared_score s > SHARED_SCORE_THRESHOLD"

definition poll_age_seconds :: "i64 \<Rightarrow> capacity_state \<Rightarrow> f64 option" where
  "poll_age_seconds now_ms s =
     map_option (\<lambda>t. f64_of_int (max (i64_sub now_ms t) 0) / lit 1000) (last_poll_at_ms s)"

section \<open>Usage polls\<close>

definition censored_poll :: "i64 \<Rightarrow> f64 \<Rightarrow> capacity_state \<Rightarrow> capacity_state" where
  "censored_poll now_ms u s =
     (let s = (if proxy_tokens_5h_weighted s > 0
               then s\<lparr>c_i_hard_lower := f64_max (c_i_hard_lower s)
                        (proxy_tokens_5h_weighted s / (u / lit 100))\<rparr>
               else s)
      in kf_predict_to now_ms s)"

definition bayes_update :: "libm \<Rightarrow> f64 \<Rightarrow> capacity_state \<Rightarrow> capacity_state" where
  "bayes_update lm lb s =
     (let decayed = f64_min (sigma_sq s / DECAY_FACTOR) (lit 4);
          log_lb = f_ln lm lb;
          precision_prior = 1 / decayed;
          precision_obs = 1 / SIGMA_SQ_OBS;
          precision_post = precision_prior + precision_obs
      in s\<lparr>mu := (precision_prior * mu s + precision_obs * log_lb) / precision_post,
           sigma_sq := 1 / precision_post,
           n_eff := f64_min (n_eff s + lit (3 / 10)) (lit 100),
           c_i_hard_lower := f64_max (c_i_hard_lower s) (lb * lit (90 / 100))\<rparr>)"

definition external_update :: "libm \<Rightarrow> i64 \<Rightarrow> f64 \<Rightarrow> capacity_state \<Rightarrow> capacity_state" where
  "external_update lm now_ms u s =
     (if n_eff s \<ge> lit 5 then
        (let lagged_ms = i64_sub now_ms (lag_estimate_ms s);
             p_at_lag = p_at_lagged_time lagged_ms s;
             c_est = c_estimate lm s;
             e_obs = f64_max (c_est * u / lit 100 - p_at_lag) 0;
             r = (c_est * lit (1 / 100)) * (c_est * lit (1 / 100)) / lit 12;
             s = kf_update e_obs r s
         in s\<lparr>kf_e := f64_max (kf_e s) (lit (- 5000)), kf_e_dot := f64_max (kf_e_dot s) 0\<rparr>)
      else s)"

definition on_usage_poll :: "libm \<Rightarrow> i64 \<Rightarrow> f64 \<Rightarrow> capacity_state \<Rightarrow> capacity_state" where
  "on_usage_poll lm now_ms u s =
     (let s = (evict_old now_ms s)\<lparr>last_poll_at_ms := Some now_ms, updated_at_ms := now_ms\<rparr>
      in if u \<ge> CENSORED_U_THRESHOLD then censored_poll now_ms u s
         else if u < MIN_U_FOR_LB then kf_predict_to now_ms s
         else
           (let lb = proxy_tokens_5h_weighted s / (u / lit 100)
            in if lb \<le> 0 \<or> \<not> is_finite lb then kf_predict_to now_ms s
               else external_update lm now_ms u (kf_predict_to now_ms (bayes_update lm lb s))))"

text \<open>\<open>XFactorCache::on_request\<close>, for an account in the cache.\<close>

definition xfactor_on_request ::
  "string option \<Rightarrow> i64 \<Rightarrow> i64 \<Rightarrow> capacity_state \<Rightarrow> capacity_state" where
  "xfactor_on_request model total_tokens now_ms s =
     (if total_tokens \<le> 0 then s
      else on_request now_ms (f64_of_int total_tokens * model_weight model) s)"

end
