(* ===== verification/F64_Bounds.thy ===== *)
theory F64_Bounds
  imports F64
begin

text \<open>
  Intervals of binary64 values: exact literals, and what each operation makes of a bounded
  argument. An operation rounds, but it cannot round past a representable bound.
\<close>

section \<open>Exact values\<close>

lemma rnd_frac: "\<bar>k\<bar> < 2 ^ 53 \<Longrightarrow> n \<le> 1074 \<Longrightarrow> rnd (of_int k / 2 ^ n) = Fin (of_int k / 2 ^ n)"
  using rnd_dyadic [of k "- int n"] by (simp add: power_int_minus field_simps)

lemma representable_frac: "\<bar>k\<bar> < 2 ^ 53 \<Longrightarrow> n \<le> 1074 \<Longrightarrow> representable (of_int k / 2 ^ n)"
  unfolding representable_def by (rule rnd_frac)

lemma representable_int: "\<bar>k\<bar> < 2 ^ 53 \<Longrightarrow> representable (of_int k)"
  unfolding representable_def by (rule rnd_of_int)

lemma representable_numeral [simp]: "(numeral n :: int) < 2 ^ 53 \<Longrightarrow> representable (numeral n)"
  using representable_int [of "numeral n"] by simp

lemma representable_minus [simp]: "representable (- x) \<longleftrightarrow> representable x"
  unfolding representable_def rnd_def by (auto simp: Let_def split: if_splits)

lemma representable_1 [simp]: "representable 1"
  using representable_int [of 1] by simp

lemma rnd_numeral [simp]: "(numeral n :: int) < 2 ^ 53 \<Longrightarrow> rnd (numeral n) = Fin (numeral n)"
  using representable_numeral [of n] unfolding representable_def .

lemma lit_representable: "representable x \<Longrightarrow> lit x = Fin x"
  by (simp add: lit_def representable_def)

lemma lit_numeral [simp]: "(numeral n :: int) < 2 ^ 53 \<Longrightarrow> lit (numeral n) = Fin (numeral n)"
  by (simp add: lit_def)

lemma lit_neg_numeral [simp]:
  "(numeral n :: int) < 2 ^ 53 \<Longrightarrow> lit (- numeral n) = Fin (- numeral n)"
  by (simp add: lit_representable)

section \<open>Intervals\<close>

definition between :: "rat \<Rightarrow> rat \<Rightarrow> f64 \<Rightarrow> bool" where
  "between lo hi x \<longleftrightarrow> Fin lo \<le> x \<and> x \<le> Fin hi"

lemma betweenE:
  assumes "between lo hi x"
  obtains r where "x = Fin r" "lo \<le> r" "r \<le> hi"
  using assms by (cases x) (auto simp: between_def)

lemma between_Fin [simp]: "between lo hi (Fin r) \<longleftrightarrow> lo \<le> r \<and> r \<le> hi"
  by (simp add: between_def)

lemma between_rnd:
  "representable lo \<Longrightarrow> representable hi \<Longrightarrow> lo \<le> x \<Longrightarrow> x \<le> hi \<Longrightarrow> between lo hi (rnd x)"
  by (simp add: between_def rnd_le_representable rnd_ge_representable)

lemma between_lit:
  "representable lo \<Longrightarrow> representable hi \<Longrightarrow> lo \<le> x \<Longrightarrow> x \<le> hi \<Longrightarrow> between lo hi (lit x)"
  unfolding lit_def by (rule between_rnd)

lemma between_weaken: "between lo hi x \<Longrightarrow> lo' \<le> lo \<Longrightarrow> hi \<le> hi' \<Longrightarrow> between lo' hi' x"
  by (auto elim!: betweenE)

lemma between_add:
  assumes "between a b x" "between c d y" "representable lo" "representable hi"
    "lo \<le> a + c" "b + d \<le> hi"
  shows "between lo hi (x + y)"
  using assms by (auto elim!: betweenE intro!: between_rnd)

lemma between_mult_nonneg:
  assumes "between a b x" "between c d y" "0 \<le> a" "0 \<le> c" "representable lo" "representable hi"
    "lo \<le> a * c" "b * d \<le> hi"
  shows "between lo hi (x * y)"
proof -
  from assms(1,2) obtain r s where *: "x = Fin r" "a \<le> r" "r \<le> b" "y = Fin s" "c \<le> s" "s \<le> d"
    by (auto elim!: betweenE)
  have "a * c \<le> r * s" "r * s \<le> b * d" using * assms(3,4) by (intro mult_mono; simp)+
  with assms(5-8) show ?thesis by (simp add: *) (intro between_rnd; simp)
qed

lemma between_divide_pos:
  assumes "between a b x" "between c d y" "0 \<le> a" "0 < c" "representable lo" "representable hi"
    "lo \<le> a / d" "b / c \<le> hi"
  shows "between lo hi (x / y)"
proof -
  from assms(1,2) obtain r s where *: "x = Fin r" "a \<le> r" "r \<le> b" "y = Fin s" "c \<le> s" "s \<le> d"
    by (auto elim!: betweenE)
  have "a / d \<le> r / s" "r / s \<le> b / c" using * assms(3,4) by (intro frac_le; simp)+
  with assms(4-8) * show ?thesis by (auto intro!: between_rnd)
qed

lemma between_min: "between lo hi x \<Longrightarrow> lo \<le> m \<Longrightarrow> between lo (min hi m) (f64_min x (Fin m))"
  by (auto elim!: betweenE simp: f64_min_def)

text \<open>Any value, capped from both sides, is in the interval: a NaN becomes a bound.\<close>

lemma between_min_max: "lo \<le> hi \<Longrightarrow> Fin lo \<le> x \<Longrightarrow> between lo hi (f64_min x (Fin hi))"
  by (cases x) (auto simp: f64_min_def)

lemma between_max_min: "lo \<le> hi \<Longrightarrow> x \<noteq> NaN \<Longrightarrow> x \<le> Fin hi \<Longrightarrow> between lo hi (f64_max x (Fin lo))"
  by (cases x) (auto simp: f64_max_def)

lemma f64_max_floor: "Fin lo \<le> f64_max x (Fin lo)"
  by (cases x) (auto simp: f64_max_def)

lemma f64_max_zero: "0 \<le> f64_max x 0"
  using f64_max_floor [of 0 x] by (simp add: zero_f64_def)

lemma f64_zero: "Fin 0 = 0"
  by (simp add: zero_f64_def)

lemma representable_power2 [simp]: "k \<le> 971 \<Longrightarrow> representable (2 ^ k)"
  using rnd_dyadic [of 1 "int k"] by (simp add: representable_def)

lemma f64_ok_times [simp]: "f64_ok ((a::f64) * b)"
  by (cases a; cases b) (auto simp: signed_inf_def)

lemma f64_ok_divide [simp]: "f64_ok ((a::f64) / b)"
  by (cases a; cases b) (auto simp: signed_inf_def)

lemma f64_add_ge_right: "f64_ok b \<Longrightarrow> (0::f64) \<le> b \<Longrightarrow> (0::f64) \<le> a \<Longrightarrow> b \<le> a + b"
  by (cases a; cases b) (auto simp: zero_f64_def intro: rnd_ge_representable)

lemma f64_nonneg_cases:
  assumes "(0::f64) \<le> x"
  obtains r where "x = Fin r" "0 \<le> r" | "x = PInf"
  using assms by (cases x) (auto simp: zero_f64_def)

lemma f64_Fin_nonneg [simp]: "(0::f64) \<le> Fin r \<longleftrightarrow> 0 \<le> r" "(0::f64) \<le> PInf"
    "\<not> (0::f64) \<le> NInf" "\<not> (0::f64) \<le> NaN"
  by (simp_all add: zero_f64_def)

lemma f64_Fin_pos [simp]: "(0::f64) < Fin r \<longleftrightarrow> 0 < r" "(0::f64) < PInf"
    "\<not> (0::f64) < NInf" "\<not> (0::f64) < NaN"
  by (simp_all add: zero_f64_def)

lemma between_nonneg: "between lo hi x \<Longrightarrow> 0 \<le> lo \<Longrightarrow> (0::f64) \<le> x"
  by (auto elim!: betweenE)

lemma f64_mult_pos_nonneg: "between lo hi x \<Longrightarrow> 0 < lo \<Longrightarrow> (0::f64) \<le> y \<Longrightarrow> 0 \<le> x * y"
  by (auto elim!: betweenE f64_nonneg_cases simp: signed_inf_def intro!: rnd_nonneg0)

lemma f64_mult_nonneg_pos: "(0::f64) \<le> x \<Longrightarrow> between lo hi y \<Longrightarrow> 0 < lo \<Longrightarrow> 0 \<le> x * y"
  by (auto elim!: betweenE f64_nonneg_cases simp: signed_inf_def intro!: rnd_nonneg0)

lemma f64_divide_nonneg_pos: "(0::f64) \<le> x \<Longrightarrow> between lo hi y \<Longrightarrow> 0 < lo \<Longrightarrow> 0 \<le> x / y"
  by (auto elim!: betweenE f64_nonneg_cases simp: signed_inf_def intro!: rnd_nonneg0)

lemma f64_square_nonneg: "(0::f64) \<le> x \<Longrightarrow> 0 \<le> x * x"
  by (auto elim!: f64_nonneg_cases intro!: rnd_nonneg0)

lemma f64_max_ge_left: "0 \<le> a \<Longrightarrow> (0::f64) \<le> f64_max a b"
  by (cases a; cases b) (auto simp: f64_max_def zero_f64_def)

lemma f64_max_ge_right: "0 \<le> b \<Longrightarrow> (0::f64) \<le> f64_max a b"
  by (cases a; cases b) (auto simp: f64_max_def zero_f64_def)

lemma f64_of_i64_nonneg: "0 \<le> n \<Longrightarrow> n \<le> i64_max \<Longrightarrow> between 0 (2 ^ 63) (f64_of_int n)"
  unfolding f64_of_int_def
  by (rule between_rnd [OF _ representable_power2]) (auto simp: i64_max_def)

section \<open>Magnitudes\<close>

text \<open>A value between zero and a power of two; the exponent is all that has to be computed.\<close>

definition mag :: "nat \<Rightarrow> f64 \<Rightarrow> bool" where
  "mag k x \<longleftrightarrow> between 0 (2 ^ k) x"

lemma mag_mult: "mag j x \<Longrightarrow> mag k y \<Longrightarrow> j + k \<le> 971 \<Longrightarrow> mag (j + k) (x * y)"
  unfolding mag_def power_add
  by (erule (1) between_mult_nonneg) (auto simp flip: power_add)

lemma mag_add:
  assumes "mag j x" "mag k y" "j \<le> k" "k < 971"
  shows "mag (Suc k) (x + y)"
proof -
  have "(2::rat) ^ j \<le> 2 ^ k" using assms(3) by simp
  with assms show ?thesis
    unfolding mag_def by (intro between_add [OF assms(1) [unfolded mag_def] assms(2) [unfolded mag_def]])
      (auto simp del: power_Suc, simp)
qed

lemma mag_mono: "mag j x \<Longrightarrow> j \<le> k \<Longrightarrow> mag k x"
  unfolding mag_def by (erule between_weaken) simp_all

lemma mag_Fin: "0 \<le> r \<Longrightarrow> r \<le> 2 ^ k \<Longrightarrow> mag k (Fin r)"
  by (simp add: mag_def)

lemma mag_divide:
  assumes "mag j x" "k \<le> j" "2 ^ k \<le> r" "j - k \<le> 971"
  shows "mag (j - k) (x / Fin r)"
proof -
  have pos: "0 < r" using assms(3) by (rule less_le_trans [rotated]) simp
  have "(2::rat) ^ j = 2 ^ (j - k) * 2 ^ k" using assms(2) by (simp flip: power_add)
  also have "\<dots> \<le> 2 ^ (j - k) * r" using assms(3) by simp
  finally have "(2::rat) ^ j / r \<le> 2 ^ (j - k)" using pos by (simp add: divide_le_eq)
  with pos assms(4) show ?thesis
    unfolding mag_def
    by (intro between_divide_pos [OF assms(1) [unfolded mag_def], where c = r and d = r]) auto
qed

lemma mag_of_i64: "0 \<le> n \<Longrightarrow> n \<le> i64_max \<Longrightarrow> mag 63 (f64_of_int n)"
  unfolding mag_def by (rule f64_of_i64_nonneg)

lemma mag_nonneg: "mag k x \<Longrightarrow> 0 \<le> x"
  unfolding mag_def by (auto elim: between_nonneg)

lemma between_mag: "between 0 hi x \<Longrightarrow> hi \<le> 2 ^ k \<Longrightarrow> mag k x"
  unfolding mag_def by (auto elim: between_weaken)

lemma mag_capped: "mag k x \<Longrightarrow> 0 \<le> hi \<Longrightarrow> between 0 hi (f64_min x (Fin hi))"
  by (rule between_min_max) (auto simp: mag_def between_def)

end
