(* ===== verification/XFactor_Correct.thy ===== *)
theory XFactor_Correct
  imports XFactor F64_Bounds
begin

text \<open>
  What the capacity estimate promises: the filter stays inside its bounds whatever the usage
  polls say, the rolling window is exactly the last five hours, and what the estimate may not
  be relied on for.
\<close>

section \<open>The bounds of the estimator\<close>

definition kalman_ok :: "capacity_state \<Rightarrow> bool" where
  "kalman_ok s \<longleftrightarrow>
     kf_p10 s = kf_p01 s \<and> between 0 (10 ^ 14) (kf_p00 s) \<and> between 0 (10 ^ 14) (kf_p01 s) \<and>
     between 0 (10 ^ 14) (kf_p11 s)"

definition capacity_ok :: "capacity_state \<Rightarrow> bool" where
  "capacity_ok s \<longleftrightarrow>
     between (1 / 2 ^ 10) 4 (sigma_sq s) \<and> between 0 100 (n_eff s) \<and>
     0 \<le> proxy_tokens_5h_weighted s \<and> 0 \<le> ema_proxy_rate s \<and> 0 \<le> c_i_hard_lower s \<and>
     Fin (- 5000) \<le> kf_e s \<and> 0 \<le> kf_e_dot s \<and> kalman_ok s"

lemmas xfactor_constants =
  MIN_U_FOR_LB_def CENSORED_U_THRESHOLD_def KF_PROCESS_NOISE_RATE_def KF_INIT_VARIANCE_def
  STOP_ASSIGN_BUFFER_def C_BASE_PRO_def

lemma decay_between: "between (62 / 2 ^ 6) (63 / 2 ^ 6) DECAY_FACTOR"
  unfolding DECAY_FACTOR_def
  using representable_frac [of 62 6] representable_frac [of 63 6] by (intro between_lit) auto

lemma ema_alpha_between: "between (3 / 2 ^ 6) (4 / 2 ^ 6) EMA_ALPHA"
  unfolding EMA_ALPHA_def
  using representable_frac [of 3 6] representable_frac [of 4 6] by (intro between_lit) auto

lemma kalman_predict: "kalman_ok s \<Longrightarrow> kalman_ok (kf_predict_to now s)"
proof (cases "last_kf_predict_ms s = 0")
  case True
  assume "kalman_ok s"
  with True show ?thesis by (simp add: kf_predict_to_def kalman_ok_def)
next
  case False
  assume s: "kalman_ok s"
  define n where "n = max (i64_sub now (last_kf_predict_ms s)) 0"
  define dt where "dt = f64_of_int n / lit 1000"
  have "0 \<le> n" "n \<le> i64_max"
    using in_i64_wrap [of "now - last_kf_predict_ms s"]
    by (auto simp: n_def i64_sub_def in_i64_def i64_max_def)
  then have dt: "mag 54 dt"
    unfolding dt_def using mag_divide [OF mag_of_i64, of n 9 1000] by simp
  have p: "mag 47 (kf_p00 s)" "mag 47 (kf_p01 s)" "mag 47 (kf_p11 s)"
    using s by (auto simp: kalman_ok_def elim!: between_mag)
  have two: "mag 1 (Fin 2)" and noise: "mag 7 (Fin 100)"
    by (simp_all add: mag_Fin)
  have p00: "mag 156 (kf_p00 s + Fin 2 * dt * kf_p01 s + dt * dt * kf_p11 s)"
    using mag_add [OF mag_add [OF p(1) mag_mult [OF mag_mult [OF two dt] p(2)]]
        mag_mult [OF mag_mult [OF dt dt] p(3)]] by simp
  have p01: "mag 102 (kf_p01 s + dt * kf_p11 s)"
    using mag_add [OF p(2) mag_mult [OF dt p(3)]] by simp
  have p11: "mag 62 (kf_p11 s + Fin 100 * dt)"
    using mag_add [OF p(3) mag_mult [OF noise dt]] by simp
  have "f64_clamp (Fin (- (10 ^ 14))) (Fin (10 ^ 14)) x = f64_min x (Fin (10 ^ 14))" if "mag k x" for k x
    using that by (auto simp: mag_def f64_clamp_def f64_min_def elim!: betweenE)
  note clamp = this [OF p01]
  show ?thesis
    using False s mag_capped [OF p00] mag_capped [OF p01] mag_capped [OF p11] clamp
    by (auto simp: kf_predict_to_def kalman_ok_def Let_def xfactor_constants n_def dt_def)
qed

lemma kalman_update:
  assumes s: "kalman_ok s" and r: "0 \<le> r" "f64_ok r"
  shows "kalman_ok (kf_update e_obs r s)"
proof (cases "kf_p00 s + r \<le> 0 \<or> \<not> is_finite (kf_p00 s + r)")
  case True
  with s show ?thesis by (simp add: kf_update_def Let_def)
next
  case False
  let ?sv = "kf_p00 s + r"
  from s have p: "between 0 (10 ^ 14) (kf_p00 s)" "between 0 (10 ^ 14) (kf_p01 s)"
    "between 0 (10 ^ 14) (kf_p11 s)" by (auto simp: kalman_ok_def)
  from False obtain q where q: "?sv = Fin q" "0 < q"
    by (cases ?sv) (auto simp: zero_f64_def)
  have "r \<le> ?sv" using p(1) r by (intro f64_add_ge_right) (auto elim: between_nonneg)
  with q(1) r(1) obtain r0 where r0: "r = Fin r0" "0 \<le> r0" "r0 \<le> q" by (cases r) auto
  have "between 0 1 (r / ?sv)"
    using q r0 by (auto intro!: between_rnd simp: divide_le_eq)
  then have factor: "between 0 (10 ^ 14) (x * (r / ?sv))" if "between 0 (10 ^ 14) x" for x
    by (intro between_mult_nonneg [OF that]) auto
  have k1: "0 \<le> kf_p01 s / ?sv"
    using p(2) q by (auto elim!: betweenE intro!: rnd_nonneg0)
  have "0 \<le> kf_p01 s / ?sv * kf_p01 s"
  proof -
    from p(2) obtain a where a: "kf_p01 s = Fin a" "0 \<le> a" by (auto elim: betweenE)
    from k1 q a show ?thesis
      by (cases "a = 0") (auto elim!: f64_nonneg_cases intro!: rnd_nonneg0 simp: signed_inf_def)
  qed
  then have "kf_p11 s - kf_p01 s / ?sv * kf_p01 s \<noteq> NaN \<and>
      kf_p11 s - kf_p01 s / ?sv * kf_p01 s \<le> Fin (10 ^ 14)"
    using p(3) by (auto simp: minus_f64_def elim!: betweenE f64_nonneg_cases
        intro!: rnd_le_representable)
  then have p11: "between 0 (10 ^ 14) (f64_max (kf_p11 s - kf_p01 s / ?sv * kf_p01 s) 0)"
    using between_max_min [of 0 "10 ^ 14"] by (simp add: zero_f64_def)
  have floor: "f64_max x 0 = x" if "between 0 (10 ^ 14) x" for x
    using that by (auto elim!: betweenE simp: f64_max_def zero_f64_def)
  show ?thesis
    using False s factor [OF p(1)] factor [OF p(2)] p11 floor [OF factor [OF p(1)]]
    by (simp add: kf_update_def kalman_ok_def Let_def)
qed

lemma kf_predict_same [simp]:
  "sigma_sq (kf_predict_to now s) = sigma_sq s" "n_eff (kf_predict_to now s) = n_eff s"
  "proxy_tokens_5h_weighted (kf_predict_to now s) = proxy_tokens_5h_weighted s"
  "ema_proxy_rate (kf_predict_to now s) = ema_proxy_rate s"
  "c_i_hard_lower (kf_predict_to now s) = c_i_hard_lower s"
  "window_5h (kf_predict_to now s) = window_5h s" "cs_is_shared (kf_predict_to now s) = cs_is_shared s"
  by (simp_all add: kf_predict_to_def Let_def)

lemma kf_update_same [simp]:
  "sigma_sq (kf_update e r s) = sigma_sq s" "n_eff (kf_update e r s) = n_eff s"
  "proxy_tokens_5h_weighted (kf_update e r s) = proxy_tokens_5h_weighted s"
  "ema_proxy_rate (kf_update e r s) = ema_proxy_rate s"
  "c_i_hard_lower (kf_update e r s) = c_i_hard_lower s"
  "window_5h (kf_update e r s) = window_5h s" "cs_is_shared (kf_update e r s) = cs_is_shared s"
  by (simp_all add: kf_update_def Let_def)

lemma kalman_state:
  "kalman_ok (s\<lparr>kf_e := a, kf_e_dot := b\<rparr>) \<longleftrightarrow> kalman_ok s"
  "kalman_ok (s\<lparr>c_i_hard_lower := a\<rparr>) \<longleftrightarrow> kalman_ok s"
  by (simp_all add: kalman_ok_def)

lemma predict_ok: "capacity_ok s \<Longrightarrow> capacity_ok (kf_predict_to now s)"
  unfolding capacity_ok_def
  by (simp add: kalman_predict) (auto simp: kf_predict_to_def Let_def f64_max_floor f64_max_zero)

lemma evict_ok: "capacity_ok s \<Longrightarrow> capacity_ok (evict_old now s)"
  by (auto simp: capacity_ok_def kalman_ok_def evict_old_def f64_max_zero split: prod.split)

lemma request_ok:
  assumes "capacity_ok s" "w \<noteq> NaN"
  shows "capacity_ok (on_request now w s)"
proof (cases "w \<le> 0")
  case False
  with assms(2) have w: "0 \<le> w" by (cases w) (auto simp: zero_f64_def)
  have "between (60 / 2 ^ 6) (61 / 2 ^ 6) (1 - EMA_ALPHA)"
  proof -
    from ema_alpha_between obtain a where a: "EMA_ALPHA = Fin a" "3 / 2 ^ 6 \<le> a" "a \<le> 4 / 2 ^ 6"
      by (rule betweenE)
    show ?thesis
      unfolding a(1) one_f64_def minus_f64_def uminus_f64.simps plus_f64.simps
      by (rule between_rnd)
         (use a representable_frac [of 60 6] representable_frac [of 61 6] in auto)
  qed
  with w have "0 \<le> EMA_ALPHA * w + (1 - EMA_ALPHA) * ema_proxy_rate (evict_old now s)"
    using evict_ok [OF assms(1), of now] ema_alpha_between
    by (auto simp: capacity_ok_def intro!: f64_add_nonneg elim: f64_mult_pos_nonneg)
  with False w evict_ok [OF assms(1), of now] show ?thesis
    by (auto simp: on_request_def Let_def capacity_ok_def kalman_ok_def intro: f64_add_nonneg)
qed (use assms in \<open>simp add: on_request_def\<close>)

lemma c_estimate_nonneg: "0 \<le> c_i_hard_lower s \<Longrightarrow> 0 \<le> c_estimate lm s"
  unfolding c_estimate_def by (rule f64_max_ge_right)

lemma external_ok:
  assumes "capacity_ok s"
  shows "capacity_ok (external_update lm now u s)"
proof (cases "n_eff s \<ge> lit 5")
  case True
  let ?c = "c_estimate lm s"
  let ?r = "(?c * lit (1 / 100)) * (?c * lit (1 / 100)) / lit 12"
  have "0 \<le> ?c" using assms by (auto simp: capacity_ok_def intro: c_estimate_nonneg)
  moreover have "between (1 / 2 ^ 7) 1 (lit (1 / 100))"
    using representable_frac [of 1 7] by (intro between_lit) auto
  ultimately have "0 \<le> ?c * lit (1 / 100)" by (rule f64_mult_nonneg_pos) simp
  then have r: "0 \<le> ?r"
    by (intro f64_divide_nonneg_pos [of _ 12 12] f64_square_nonneg) auto
  show ?thesis
    using True assms kalman_update [of s ?r] r
    by (simp add: external_update_def capacity_ok_def kalman_state Let_def f64_max_floor f64_max_zero)
qed (use assms in \<open>simp add: external_update_def\<close>)

text \<open>
  The variance of the posterior: decayed, it leaves at least \<open>1 / 1024\<close> again, because the
  precision is at most \<open>0.98 * 1024 + 20\<close>.
\<close>

lemma observation_precision: "between (20 - 1 / 2 ^ 6) (20 + 1 / 2 ^ 6) (1 / SIGMA_SQ_OBS)"
proof -
  have s: "between (52428 / 2 ^ 20) (52429 / 2 ^ 20) SIGMA_SQ_OBS"
    unfolding SIGMA_SQ_OBS_def
    using representable_frac [of 52428 20] representable_frac [of 52429 20]
    by (intro between_lit) auto
  show ?thesis
    by (rule between_divide_pos [OF _ s, of 1 1])
       (use representable_frac [of 1279 6] representable_frac [of 1281 6] in
         \<open>auto simp: one_f64_def\<close>)
qed

lemma posterior_variance:
  assumes "between (1 / 2 ^ 10) 4 v"
  shows "between (1 / 2 ^ 10) (1 / 2 ^ 4)
    (1 / (1 / f64_min (v / DECAY_FACTOR) (lit 4) + 1 / SIGMA_SQ_OBS))"
proof -
  have d: "between (1 / 2) (1027605 / 2 ^ 20) DECAY_FACTOR"
    unfolding DECAY_FACTOR_def
    using representable_frac [of 1 1] representable_frac [of 1027605 20]
    by (intro between_lit) auto
  have "between (16718 / 2 ^ 24) 8 (v / DECAY_FACTOR)"
    by (rule between_divide_pos [OF assms d])
       (use representable_frac [of 16718 24] in auto)
  from between_min [OF this, of 4]
  have "between (16718 / 2 ^ 24) 4 (f64_min (v / DECAY_FACTOR) (lit 4))" by simp
  then have "between (1 / 2 ^ 2) (4015 / 2 ^ 2) (1 / f64_min (v / DECAY_FACTOR) (lit 4))"
    by (rule between_divide_pos [where a = 1 and b = 1, rotated])
       (use representable_frac [of 1 2] representable_frac [of 4015 2] in
         \<open>auto simp: one_f64_def\<close>)
  from between_add [OF this observation_precision, of 20 1024]
  have "between 20 1024 (1 / f64_min (v / DECAY_FACTOR) (lit 4) + 1 / SIGMA_SQ_OBS)" by simp
  then show ?thesis
    by (rule between_divide_pos [where a = 1 and b = 1, rotated])
       (use representable_frac [of 1 10] representable_frac [of 1 4] in
         \<open>auto simp: one_f64_def\<close>)
qed

lemma bayes_ok: "capacity_ok s \<Longrightarrow> 0 \<le> lb \<Longrightarrow> capacity_ok (bayes_update lm lb s)"
proof -
  assume s: "capacity_ok s" and lb: "0 \<le> lb"
  have v: "between (1 / 2 ^ 10) 4 (sigma_sq (bayes_update lm lb s))"
    using s posterior_variance [of "sigma_sq s"]
    by (auto simp: capacity_ok_def bayes_update_def Let_def elim: between_weaken)
  have "between 0 1 (lit (3 / 10))" by (intro between_lit) auto
  then have "0 \<le> n_eff s + lit (3 / 10)"
    using s by (auto simp: capacity_ok_def intro!: f64_add_nonneg elim: between_nonneg)
  then have n: "between 0 100 (n_eff (bayes_update lm lb s))"
    by (auto simp: bayes_update_def Let_def zero_f64_def intro!: between_min_max)
  from s v n show ?thesis
    by (simp add: capacity_ok_def kalman_ok_def)
       (simp add: bayes_update_def Let_def f64_max_ge_left)
qed

lemma poll_ok:
  assumes "capacity_ok s"
  shows "capacity_ok (on_usage_poll lm now u s)"
proof -
  let ?s = "(evict_old now s)\<lparr>last_poll_at_ms := Some now, updated_at_ms := now\<rparr>"
  have s: "capacity_ok ?s"
    using evict_ok [OF assms, of now] by (simp add: capacity_ok_def kalman_ok_def)
  then have cens: "capacity_ok (censored_poll now u ?s)"
    unfolding censored_poll_def Let_def
    by (intro predict_ok) (simp add: capacity_ok_def kalman_ok_def f64_max_ge_left)
  have bayes: "capacity_ok (external_update lm now u (kf_predict_to now (bayes_update lm lb ?s)))"
    if "\<not> (lb \<le> 0 \<or> \<not> is_finite lb)" for lb
  proof -
    from that have "0 \<le> lb" by (cases lb) (auto simp: zero_f64_def)
    with s show ?thesis by (intro external_ok predict_ok bayes_ok)
  qed
  show ?thesis
    using s cens bayes by (simp add: on_usage_poll_def Let_def predict_ok)
qed

lemma tier_prior_variance: "between (1 / 2 ^ 4) 1 (snd (tier_prior lm tier))"
proof -
  have "between (1 / 2 ^ 4) 1 (x * x)" if "between (1 / 2 ^ 2) 1 x" for x
    by (rule between_mult_nonneg [OF that that])
       (use representable_frac [of 1 4] in auto)
  moreover have "between (1 / 2 ^ 2) 1 (lit q)" if "1 / 4 \<le> q" "q \<le> 1" for q
    using representable_frac [of 1 2] that by (intro between_lit) auto
  ultimately have "between (1 / 2 ^ 4) 1 (lit q * lit q)" if "1 / 4 \<le> q" "q \<le> 1" for q
    using that by blast
  then show ?thesis by (auto simp: tier_prior_def Let_def split: option.split)
qed

lemma new_ok: "capacity_ok (capacity_new lm now i n tier shared)"
  using tier_prior_variance [of lm tier]
  by (auto simp: capacity_ok_def kalman_ok_def capacity_new_def xfactor_constants zero_f64_def
      split: prod.split intro: between_weaken [of "1 / 16" 1])

section \<open>The life of an estimate\<close>

text \<open>
  What happens to an account: a request completes (\<open>XFactorCache::on_request\<close>, with the tokens it
  used), a usage poll arrives, or the program is restarted on the state it persisted.
\<close>

datatype capacity_event =
  Completed i64 "string option" i64
| Polled i64 f64
| Restarted i64

fun capacity_step :: "libm \<Rightarrow> capacity_event \<Rightarrow> capacity_state \<Rightarrow> capacity_state" where
  "capacity_step lm (Completed now model tokens) s = xfactor_on_request model tokens now s"
| "capacity_step lm (Polled now u) s = on_usage_poll lm now u s"
| "capacity_step lm (Restarted now) s =
     restore_from_db (to_db_state s)
       (capacity_new lm now (cs_account_id s) (cs_account_name s) (cs_subscription_tier s)
          (cs_is_shared s))"

lemma model_weight_cases: "model_weight m \<in> {Fin 4, Fin (1 / 4), Fin 1}"
  using representable_frac [of 1 2]
  by (auto simp: model_weight_def Let_def one_f64_def lit_representable split: option.split)

lemma weighted_not_NaN: "f64_of_int n * model_weight m \<noteq> NaN"
  using model_weight_cases [of m] by (cases "f64_of_int n") (auto simp: signed_inf_def f64_of_int_def)

lemma restart_ok: "capacity_ok s \<Longrightarrow> capacity_ok (capacity_step lm (Restarted now) s)"
  using new_ok [of lm now "cs_account_id s" "cs_account_name s" "cs_subscription_tier s" "cs_is_shared s"]
  by (simp add: capacity_ok_def kalman_ok_def restore_from_db_def to_db_state_def)
     (simp add: xfactor_constants zero_f64_def)

lemma step_ok: "capacity_ok s \<Longrightarrow> capacity_ok (capacity_step lm e s)"
proof (cases e)
  case (Completed now m n)
  then show "capacity_ok s \<Longrightarrow> ?thesis"
    by (simp add: xfactor_on_request_def request_ok weighted_not_NaN)
qed (simp_all add: poll_ok restart_ok del: capacity_step.simps(3))

definition capacity_run :: "libm \<Rightarrow> capacity_event list \<Rightarrow> capacity_state \<Rightarrow> capacity_state" where
  "capacity_run lm es s = fold (capacity_step lm) es s"

lemma capacity_run_append [simp]:
  "capacity_run lm [] s = s" "capacity_run lm (es @ [e]) s = capacity_step lm e (capacity_run lm es s)"
  by (simp_all add: capacity_run_def)

lemma run_ok: "capacity_ok s \<Longrightarrow> capacity_ok (capacity_run lm es s)"
  by (induction es rule: rev_induct) (simp_all add: step_ok del: capacity_step.simps)

text \<open>
  The estimator stays inside its bounds, whatever requests, polls (any utilization, infinities
  and NaN included) and restarts do, in any order and with any clock: the variance of the
  posterior neither collapses (it leaves room for new data) nor explodes, the sample count is
  capped, no token count is negative, the covariance matrix of the filter is symmetric with
  bounded nonnegative entries, and the external usage never falls under its soft floor.
\<close>

theorem estimator_bounded:
  "let s = capacity_run lm es (capacity_new lm now i n tier shared)
   in Fin (1 / 1024) \<le> sigma_sq s \<and> sigma_sq s \<le> Fin 4 \<and> 0 \<le> n_eff s \<and> n_eff s \<le> Fin 100 \<and>
      0 \<le> proxy_tokens_5h_weighted s \<and> 0 \<le> ema_proxy_rate s \<and> 0 \<le> c_estimate lm s \<and>
      Fin (- 5000) \<le> kf_e s \<and> 0 \<le> kf_e_dot s \<and> kf_p10 s = kf_p01 s \<and>
      list_all (\<lambda>p. 0 \<le> p \<and> p \<le> Fin (10 ^ 14)) [kf_p00 s, kf_p01 s, kf_p11 s]"
  using run_ok [OF new_ok [of lm now i n tier shared], of lm es]
  by (auto simp: capacity_ok_def kalman_ok_def between_def Let_def f64_zero
      intro: c_estimate_nonneg)

section \<open>The rolling window is the last five hours\<close>

text \<open>
  The requests of a history with their exact weighted tokens, and those that are less than five
  hours old.
\<close>

definition weight_of :: "string option \<Rightarrow> rat" where
  "weight_of model = (case model_weight model of Fin w \<Rightarrow> w | _ \<Rightarrow> 0)"

fun logged_request :: "capacity_event \<Rightarrow> (i64 \<times> rat) list" where
  "logged_request (Completed now model tokens) =
     (if tokens \<le> 0 then [] else [(now, of_int tokens * weight_of model)])"
| "logged_request _ = []"

definition request_log :: "capacity_event list \<Rightarrow> (i64 \<times> rat) list" where
  "request_log es = concat (map logged_request es)"

definition recent :: "i64 \<Rightarrow> (i64 \<times> rat) list \<Rightarrow> (i64 \<times> rat) list" where
  "recent cutoff hist = filter (\<lambda>(t, _). cutoff \<le> t) hist"

definition exact_window :: "(i64 \<times> rat) list \<Rightarrow> capacity_state \<Rightarrow> bool" where
  "exact_window hist s \<longleftrightarrow>
     window_5h s = map (\<lambda>(t, w). (t, Fin w)) hist \<and>
     proxy_tokens_5h_weighted s = Fin (sum_list (map snd hist))"

text \<open>Weighted tokens are multiples of a quarter; below \<open>2 ^ 50\<close> their sums are exact.\<close>

definition quarter :: "rat \<Rightarrow> bool" where
  "quarter w \<longleftrightarrow> (\<exists>k::int. 0 \<le> k \<and> w = of_int k / 4)"

lemma quarter_add: "quarter a \<Longrightarrow> quarter b \<Longrightarrow> quarter (a + b)"
  unfolding quarter_def by (metis add_divide_distrib add_nonneg_nonneg of_int_add)

lemma quarter_nonneg: "quarter a \<Longrightarrow> 0 \<le> a"
  by (auto simp: quarter_def)

lemma quarter_sum: "list_all (\<lambda>(_, w). quarter w) hist \<Longrightarrow> quarter (sum_list (map snd hist))"
proof (induction hist)
  case Nil
  then show ?case by (auto simp: quarter_def intro: exI [of _ 0])
next
  case (Cons x hist)
  then show ?case by (cases x) (auto intro: quarter_add)
qed

lemma quarter_exact: "quarter a \<Longrightarrow> a \<le> 2 ^ 50 \<Longrightarrow> rnd a = Fin a"
proof -
  assume "quarter a" "a \<le> 2 ^ 50"
  then obtain k :: int where k: "0 \<le> k" "a = of_int k / 2 ^ 2" by (auto simp: quarter_def)
  with \<open>a \<le> 2 ^ 50\<close> have "of_int k \<le> (of_int (2 ^ 52) :: rat)" by simp
  then have "k \<le> 2 ^ 52" by (simp only: of_int_le_iff)
  with k(1) have "rnd (of_int k / 2 ^ 2) = Fin (of_int k / 2 ^ 2)" by (intro rnd_frac) auto
  then show ?thesis unfolding k(2) .
qed

lemma evict_loop_exact:
  assumes "list_all (\<lambda>(_, w). quarter w) xs" "sum_list (map snd xs) \<le> 2 ^ 50"
  shows "evict_loop c (map (\<lambda>(t, w). (t, Fin w)) xs) (Fin (sum_list (map snd xs))) =
    (map (\<lambda>(t, w). (t, Fin w)) (dropWhile (\<lambda>(t, _). t < c) xs),
     Fin (sum_list (map snd (dropWhile (\<lambda>(t, _). t < c) xs))))"
  using assms
proof (induction xs)
  case (Cons x xs)
  obtain t w where x: "x = (t, w)" by (cases x)
  from Cons.prems x have q: "quarter (sum_list (map snd xs))" "0 \<le> w"
    by (auto intro: quarter_sum quarter_nonneg)
  with Cons.prems(2) x have le: "sum_list (map snd xs) \<le> 2 ^ 50" by simp
  then have "Fin (w + sum_list (map snd xs)) - Fin w = Fin (sum_list (map snd xs))"
    using quarter_exact [OF q(1)] by (simp add: minus_f64_def)
  with Cons.IH Cons.prems le x show ?case by simp
qed simp

lemma dropWhile_older:
  "sorted (map fst xs) \<Longrightarrow> dropWhile (\<lambda>(t, _). t < (c::int)) xs = filter (\<lambda>(t, _). c \<le> t) xs"
proof (induction xs)
  case (Cons x xs)
  then show ?case by (cases x) (auto simp: filter_id_conv intro!: filter_True [symmetric])
qed simp

lemma recent_recent: "c \<le> d \<Longrightarrow> recent d (recent c hist) = recent d hist"
  by (auto simp: recent_def intro!: filter_cong)

lemma recent_quarter:
  "list_all (\<lambda>(_, w). quarter w) h \<Longrightarrow> list_all (\<lambda>(_, w). quarter w) (recent c h)"
  by (auto simp: recent_def list_all_iff)

lemma recent_sum_le:
  "list_all (\<lambda>(_, w). quarter w) h \<Longrightarrow> sum_list (map snd (recent c h)) \<le> sum_list (map snd h)"
  by (induction h) (auto simp: recent_def dest!: quarter_nonneg)

lemma evict_exact:
  assumes "exact_window (recent c hist) s" "c \<le> now - WINDOW_5H_MS" "moderate now"
    "sorted (map fst hist)" "list_all (\<lambda>(_, w). quarter w) hist" "sum_list (map snd hist) \<le> 2 ^ 50"
  shows "exact_window (recent (now - WINDOW_5H_MS) hist) (evict_old now s)"
proof -
  let ?r = "recent c hist" and ?c = "now - WINDOW_5H_MS"
  have q: "list_all (\<lambda>(_, w). quarter w) ?r" using assms(5) by (rule recent_quarter)
  have le: "sum_list (map snd ?r) \<le> 2 ^ 50"
    using recent_sum_le [OF assms(5)] assms(6) by (rule order_trans)
  have sub: "i64_sub now WINDOW_5H_MS = ?c"
    using assms(3) by (simp add: i64_sub_moderate moderate_def WINDOW_5H_MS_def)
  have sorted: "sorted (map fst ?r)"
    using assms(4) unfolding recent_def by (rule sorted_filter)
  have drop: "dropWhile (\<lambda>(t, _). t < ?c) ?r = recent ?c hist"
    using dropWhile_older [OF sorted] recent_recent [OF assms(2)] by (simp add: recent_def)
  have "0 \<le> sum_list (map snd (recent ?c hist))"
    using assms(5) by (intro quarter_nonneg quarter_sum recent_quarter)
  then show ?thesis
    using assms(1) evict_loop_exact [OF q le, of ?c]
    by (simp add: exact_window_def evict_old_def sub drop f64_max_def zero_f64_def)
qed

fun event_time :: "capacity_event \<Rightarrow> i64" where
  "event_time (Completed now _ _) = now"
| "event_time (Polled now _) = now"
| "event_time (Restarted now) = now"

fun is_restart :: "capacity_event \<Rightarrow> bool" where
  "is_restart (Restarted _) = True"
| "is_restart _ = False"

lemma exact_window_kf [simp]:
  "exact_window h (kf_predict_to now s) \<longleftrightarrow> exact_window h s"
  "exact_window h (kf_update e r s) \<longleftrightarrow> exact_window h s"
  "exact_window h (bayes_update lm lb s) \<longleftrightarrow> exact_window h s"
  by (simp_all add: exact_window_def bayes_update_def Let_def)

lemma exact_window_external [simp]:
  "exact_window h (external_update lm now u s) \<longleftrightarrow> exact_window h s"
  by (simp add: external_update_def exact_window_def Let_def)

lemma exact_window_poll [simp]:
  "exact_window h (on_usage_poll lm now u s) \<longleftrightarrow> exact_window h (evict_old now s)"
  by (simp add: on_usage_poll_def censored_poll_def Let_def)
     (simp add: exact_window_def)

lemma weight_of: "model_weight m = Fin (weight_of m)"
  using model_weight_cases [of m] by (auto simp: weight_of_def)

lemma weight_pos: "0 < weight_of m"
  using model_weight_cases [of m] weight_of [of m] by auto

lemma quarter_weighted: "0 < n \<Longrightarrow> quarter (of_int n * weight_of m)"
  using model_weight_cases [of m] weight_of [of m]
  by (auto simp: quarter_def intro: exI [of _ "16 * n"] exI [of _ n] exI [of _ "4 * n"])

lemma logged_request_mem: "(t, w) \<in> set (logged_request e) \<Longrightarrow> t = event_time e \<and> quarter w"
  by (cases e) (auto intro: quarter_weighted split: if_splits)

lemma request_log_quarter: "list_all (\<lambda>(_, w). quarter w) (request_log es)"
  by (auto simp: request_log_def list_all_iff dest: logged_request_mem)

lemma weighted_exact:
  assumes "0 < n" "of_int n * weight_of m \<le> 2 ^ 50"
  shows "f64_of_int n * model_weight m = Fin (of_int n * weight_of m)"
proof -
  have w: "1 / 4 \<le> weight_of m" using model_weight_cases [of m] weight_of [of m] by auto
  have "of_int n * (1 / 4) \<le> of_int n * weight_of m"
    using assms(1) w by (intro mult_left_mono) auto
  with assms(2) have "of_int n \<le> (of_int (2 ^ 52) :: rat)" by simp
  then have "n \<le> 2 ^ 52" by (simp only: of_int_le_iff)
  with assms show ?thesis
    using quarter_exact [OF quarter_weighted assms(2)]
    by (simp add: f64_of_int_exact weight_of)
qed

lemma request_log_append [simp]:
  "request_log [] = []" "request_log (es @ [e]) = request_log es @ logged_request e"
  by (simp_all add: request_log_def)

lemma request_log_times: "set (map fst (request_log es)) \<subseteq> event_time ` set es"
  by (auto simp: request_log_def dest: logged_request_mem)

lemma request_log_sorted: "sorted (map event_time es) \<Longrightarrow> sorted (map fst (request_log es))"
proof (induction es rule: rev_induct)
  case (snoc e es)
  then show ?case using request_log_times [of es]
    by (cases e) (auto simp: sorted_append)
qed simp

lemma window_exact_run:
  assumes "sorted (map event_time es)" "list_all (\<lambda>e. moderate (event_time e)) es"
    "\<not> list_ex is_restart es" "sum_list (map snd (request_log es)) \<le> 2 ^ 50"
  shows "\<exists>c. exact_window (recent c (request_log es)) (capacity_run lm es (capacity_new lm now i n tier shared)) \<and>
    (\<forall>t. moderate t \<and> (\<forall>e \<in> set es. event_time e \<le> t) \<longrightarrow> c \<le> t - WINDOW_5H_MS)"
  using assms
proof (induction es rule: rev_induct)
  case Nil
  have "exact_window (recent (- (2 ^ 62)) []) (capacity_new lm now i n tier shared)"
    by (simp add: exact_window_def recent_def capacity_new_def zero_f64_def split: prod.split)
  then show ?case
    by (intro exI [of _ "- (2 ^ 62)"]) (auto simp: moderate_def WINDOW_5H_MS_def)
next
  case (snoc e es)
  let ?s = "capacity_run lm es (capacity_new lm now i n tier shared)"
  let ?t = "event_time e" and ?log = "request_log es"
  have log: "sum_list (map snd ?log) \<le> 2 ^ 50"
    using snoc.prems(4) request_log_quarter [of "[e]"]
    by (cases e) (auto simp: request_log_def dest!: quarter_nonneg split: if_splits)
  have prefix: "sorted (map event_time es)" "list_all (\<lambda>e. moderate (event_time e)) es"
    "\<not> list_ex is_restart es" and last: "moderate ?t" "\<forall>e' \<in> set es. event_time e' \<le> ?t"
    using snoc.prems(1-3) by (auto simp: sorted_append)
  from snoc.IH [OF prefix log] obtain c where
    c: "exact_window (recent c ?log) ?s"
      "\<And>t. moderate t \<Longrightarrow> (\<forall>e \<in> set es. event_time e \<le> t) \<Longrightarrow> c \<le> t - WINDOW_5H_MS" by blast
  have evicted: "exact_window (recent (?t - WINDOW_5H_MS) ?log) (evict_old ?t ?s)"
    using c(1) c(2) [OF last] last(1) request_log_sorted [OF prefix(1)] request_log_quarter log
    by (rule evict_exact)
  show ?case
  proof (cases e)
    case (Polled t u)
    with evicted show ?thesis by (intro exI [of _ "t - WINDOW_5H_MS"]) (auto simp: request_log_def)
  next
    case (Restarted t)
    with snoc.prems(3) show ?thesis by simp
  next
    case (Completed t m k)
    show ?thesis
    proof (cases "k \<le> 0")
      case True
      with c Completed show ?thesis
        by (intro exI [of _ c]) (auto simp: xfactor_on_request_def)
    next
      case False
      let ?w = "of_int k * weight_of m"
      have w: "quarter ?w" using False by (intro quarter_weighted) simp
      have "0 \<le> sum_list (map snd ?log)"
        using quarter_sum [OF request_log_quarter] by (rule quarter_nonneg)
      with snoc.prems(4) Completed False have le: "?w \<le> 2 ^ 50"
        by simp
      have pos: "\<not> Fin ?w \<le> 0"
        using False weight_pos [of m] by (simp add: zero_f64_def mult_le_0_iff not_le)
      have "recent (t - WINDOW_5H_MS) [(t, ?w)] = [(t, ?w)]"
        by (simp add: recent_def WINDOW_5H_MS_def)
      then have app: "recent (t - WINDOW_5H_MS) (?log @ [(t, ?w)]) =
          recent (t - WINDOW_5H_MS) ?log @ [(t, ?w)]" by (simp add: recent_def)
      let ?all = "recent (t - WINDOW_5H_MS) (?log @ [(t, ?w)])"
      have all: "list_all (\<lambda>(_, w). quarter w) (?log @ [(t, ?w)])"
        using request_log_quarter [of es] w by simp
      have "sum_list (map snd (?log @ [(t, ?w)])) \<le> 2 ^ 50"
        using snoc.prems(4) Completed False by simp
      with recent_sum_le [OF all] have "sum_list (map snd ?all) \<le> 2 ^ 50" by (rule order_trans)
      with quarter_sum [OF recent_quarter [OF all]]
      have "rnd (sum_list (map snd ?all)) = Fin (sum_list (map snd ?all))" by (rule quarter_exact)
      with evicted Completed False pos weighted_exact [of k m] le show ?thesis
        by (intro exI [of _ "t - WINDOW_5H_MS"])
          (auto simp: xfactor_on_request_def on_request_def exact_window_def Let_def app)
    qed
  qed
qed

text \<open>
  C18. The running sum of the window, kept by additions and subtractions in binary64 and evicted
  lazily, is exact: after any history with a monotone clock, whenever old entries are evicted, the
  window holds precisely the requests of the last five hours and the sum is precisely the sum
  of their weighted tokens, as long as the tokens of the whole history stay under \<open>2 ^ 50\<close>.
\<close>

theorem window_is_last_five_hours:
  assumes "sorted (map event_time es)" "list_all (\<lambda>e. moderate (event_time e)) es"
    "\<not> list_ex is_restart es" "sum_list (map snd (request_log es)) \<le> 2 ^ 50"
    "moderate t" "list_all (\<lambda>e. event_time e \<le> t) es"
  shows "exact_window (recent (t - WINDOW_5H_MS) (request_log es))
    (evict_old t (capacity_run lm es (capacity_new lm now i n tier shared)))"
proof -
  from window_exact_run [OF assms(1-4)] obtain c where
    "exact_window (recent c (request_log es)) (capacity_run lm es (capacity_new lm now i n tier shared))"
    "c \<le> t - WINDOW_5H_MS"
    using assms(5,6) by (fastforce simp: list_all_iff)
  then show ?thesis
    using assms(5) request_log_sorted [OF assms(1)] request_log_quarter assms(4)
    by (rule evict_exact)
qed

section \<open>What the estimate does not promise\<close>

text \<open>
  A poll at 95 percent or more raises the hard lower bound of the capacity and leaves the
  posterior alone. The pessimistic and the expected estimate respect that bound, the optimistic
  one does not.
\<close>

theorem optimistic_below_pessimistic:
  assumes "moderate now" "c_optimistic lm (capacity_new lm t0 i n tier shared) \<le> Fin (10 ^ 8)"
  shows "let s = capacity_run lm [Completed now None (10 ^ 9), Polled now (Fin 96)]
           (capacity_new lm t0 i n tier shared);
         (pessimistic, expected, optimistic) = remaining_tokens_estimate lm s
     in optimistic = 0 \<and> Fin (4 * 10 ^ 7) \<le> pessimistic \<and> Fin (4 * 10 ^ 7) \<le> expected"
proof -
  let ?new = "capacity_new lm t0 i n tier shared"
  let ?final = "capacity_run lm [Completed now None (10 ^ 9), Polled now (Fin 96)] ?new"
  let ?lb = "Fin (10 ^ 9) / (Fin 96 / Fin 100)"
  have cut: "i64_sub now WINDOW_5H_MS < now"
    using assms(1) by (simp add: i64_sub_moderate moderate_def WINDOW_5H_MS_def)
  have cap: "between (104 / 100 * 10 ^ 9) (11 / 10 * 10 ^ 9) ?lb"
    by (rule between_divide_pos [where a = "10 ^ 9" and b = "10 ^ 9" and c = "245 / 2 ^ 8" and d = "246 / 2 ^ 8"])
       (use representable_frac [of 245 8] representable_frac [of 246 8] in
         \<open>auto intro!: between_rnd\<close>)
  then obtain h where h: "?lb = Fin h" "104 / 100 * 10 ^ 9 \<le> h" "h \<le> 11 / 10 * 10 ^ 9"
    by (rule betweenE)
  have new: "window_5h ?new = []" "proxy_tokens_5h_weighted ?new = 0" "c_i_hard_lower ?new = 0"
    "kf_e ?new = 0" "last_kf_predict_ms ?new = 0"
    by (simp_all add: capacity_new_def split: prod.split)
  have "evict_old now ?new = ?new"
    by (simp add: evict_old_def capacity_new_def f64_max_def zero_f64_def split: prod.split)
  then have request: "xfactor_on_request None (10 ^ 9) now ?new = ?new\<lparr>window_5h := [(now, Fin (10 ^ 9))],
      proxy_tokens_5h_weighted := Fin (10 ^ 9),
      ema_proxy_rate := EMA_ALPHA * Fin (10 ^ 9) + (1 - EMA_ALPHA) * ema_proxy_rate ?new,
      updated_at_ms := now\<rparr>" (is "_ = ?one")
    by (simp add: xfactor_on_request_def on_request_def model_weight_def f64_of_int_exact
        one_f64_def new zero_f64_def Let_def)
  have "evict_old now ?one = ?one"
    using cut by (simp add: evict_old_def f64_max_def zero_f64_def)
  then have poll: "on_usage_poll lm now (Fin 96) ?one = ?one\<lparr>last_poll_at_ms := Some now,
      updated_at_ms := now, c_i_hard_lower := f64_max 0 ?lb, last_kf_predict_ms := now\<rparr>"
    by (simp add: on_usage_poll_def censored_poll_def kf_predict_to_def xfactor_constants new
        zero_f64_def Let_def)
  have run: "?final = on_usage_poll lm now (Fin 96) ?one"
    using request by (simp add: capacity_run_def)
  have s: "mu ?final = mu ?new" "sigma_sq ?final = sigma_sq ?new" "kf_e ?final = 0"
    "proxy_tokens_5h_weighted ?final = Fin (10 ^ 9)" "c_i_hard_lower ?final = Fin h"
    unfolding run poll h(1) using h(2) by (simp_all add: new(4) f64_max_def zero_f64_def)
  have remaining: "Fin (4 * 10 ^ 7) \<le> f64_max (f64_max x (Fin h) - Fin (10 ^ 9)) 0" for x
  proof -
    have "Fin h \<le> f64_max x (Fin h)" by (rule f64_max_floor)
    then have "Fin (4 * 10 ^ 7) \<le> f64_max x (Fin h) - Fin (10 ^ 9)"
      using h(2) unfolding minus_f64_def
      by (cases "f64_max x (Fin h)") (auto intro!: rnd_ge_representable)
    then show ?thesis
      using f64_le_NaN_D f64_max_ge1 f64_le_trans by blast
  qed
  have "c_optimistic lm ?final \<le> Fin (10 ^ 8)"
    using assms(2) s by (simp add: c_optimistic_def)
  then have opt: "f64_max (c_optimistic lm ?final - Fin (10 ^ 9)) 0 = 0"
    by (cases "c_optimistic lm ?final")
       (auto simp: minus_f64_def f64_max_def zero_f64_def intro: rnd_le_representable)
  have used: "proxy_tokens_5h_weighted ?final + f64_max (kf_e ?final) 0 = Fin (10 ^ 9)"
    unfolding s by (simp add: f64_max_def zero_f64_def)
  show ?thesis
    unfolding remaining_tokens_estimate_def Let_def prod.case used opt c_pessimistic_def
      c_estimate_def s(5)
    using remaining by blast
qed

text \<open>
  No account is suspected of external use before 34 usable polls, about 50 minutes: every usable
  poll adds 0.3 to the sample count, which has to reach ten.
\<close>

fun is_poll :: "capacity_event \<Rightarrow> bool" where
  "is_poll (Polled _ _) = True"
| "is_poll _ = False"

lemma n_eff_request [simp]: "n_eff (xfactor_on_request m k now s) = n_eff s"
  by (simp add: xfactor_on_request_def on_request_def evict_old_def Let_def split: prod.split)

lemma n_eff_external [simp]: "n_eff (external_update lm now u s) = n_eff s"
  by (simp add: external_update_def Let_def)

lemma n_eff_poll: "n_eff (on_usage_poll lm now u s) = n_eff s \<or>
    n_eff (on_usage_poll lm now u s) = f64_min (n_eff s + lit (3 / 10)) (lit 100)"
  by (auto simp: on_usage_poll_def censored_poll_def bayes_update_def evict_old_def Let_def
      split: prod.split)

lemma n_eff_bound:
  "k = length (filter is_poll es) \<Longrightarrow> k \<le> 1000 \<Longrightarrow>
    between 0 (of_nat (77 * k) / 2 ^ 8) (n_eff (capacity_run lm es (capacity_new lm now i n tier shared)))"
proof (induction es arbitrary: k rule: rev_induct)
  case Nil
  then show ?case by (simp add: capacity_new_def zero_f64_def split: prod.split)
next
  case (snoc e es)
  let ?n = "n_eff (capacity_run lm es (capacity_new lm now i n tier shared))"
  show ?case
  proof (cases "is_poll e")
    case False
    with snoc show ?thesis by (cases e) (simp_all add: restore_from_db_def to_db_state_def)
  next
    case True
    then obtain t u where e: "e = Polled t u" by (cases e) auto
    let ?k = "length (filter is_poll es)"
    have IH: "between 0 (of_nat (77 * ?k) / 2 ^ 8) ?n" using snoc e by simp
    have "between 0 (77 / 2 ^ 8) (lit (3 / 10))"
      using representable_frac [of 77 8] by (intro between_lit) auto
    then have step: "between 0 (of_nat (77 * k) / 2 ^ 8) (?n + lit (3 / 10))"
      by (rule between_add [OF IH])
         (use snoc.prems e representable_frac [of "77 * int k" 8] in \<open>auto simp: add_divide_distrib\<close>)
    have "between 0 (of_nat (77 * k) / 2 ^ 8) (f64_min (?n + lit (3 / 10)) (lit 100))"
      using between_min [OF step, of 100] by (auto elim: between_weaken)
    moreover have "between 0 (of_nat (77 * k) / 2 ^ 8) ?n"
      using IH by (rule between_weaken) (use snoc.prems e in auto)
    ultimately show ?thesis
      using n_eff_poll [of lm t u "capacity_run lm es (capacity_new lm now i n tier shared)"] e by auto
  qed
qed

theorem no_early_suspicion:
  assumes "length (filter is_poll es) \<le> 33"
  shows "\<not> suspected_shared (capacity_run lm es (capacity_new lm now i n tier shared))"
proof -
  let ?n = "n_eff (capacity_run lm es (capacity_new lm now i n tier shared))"
  have "between 0 (of_nat (77 * length (filter is_poll es)) / 2 ^ 8) ?n"
    using assms by (intro n_eff_bound) auto
  moreover have "(of_nat (77 * length (filter is_poll es)) :: rat) \<le> of_nat (77 * 33)"
    using assms by (simp only: of_nat_le_iff)
  ultimately have "\<not> ?n \<ge> Fin 10" by (auto elim!: betweenE)
  then show ?thesis by (simp add: suspected_shared_def)
qed

section \<open>Witnesses\<close>

text \<open>A mathematical library in which every estimate of a new account is the one of its prior.\<close>

definition demo_libm :: libm where
  "demo_libm = \<lparr>f_ln = \<lambda>x. x, f_exp = \<lambda>x. Fin 88000, f_sqrt = \<lambda>x. 0\<rparr>"

theorem window_is_last_five_hours_witness:
  "exact_window [(40000000, 4000), (50000000, 7)]
     (evict_old 50000000 (capacity_run demo_libm
       [Completed 1 None 100, Polled 5 (Fin 50), Completed 40000000 (Some ''claude-opus-4'') 1000,
        Completed 50000000 None 7]
       (capacity_new demo_libm 0 ''a'' ''a'' None False)))"
proof -
  let ?es = "[Completed 1 None 100, Polled 5 (Fin 50),
    Completed 40000000 (Some ''claude-opus-4'') 1000, Completed 50000000 None 7]"
  have opus: "weight_of (Some ''claude-opus-4'') = 4" and none: "weight_of None = 1"
    by (simp_all add: weight_of_def model_weight_def to_ascii_lowercase_def to_ascii_lower_char_def
        is_ascii_upper_def one_f64_def)
  have log: "request_log ?es = [(1, 100), (40000000, 4000), (50000000, 7)]"
    by (simp add: request_log_def opus none)
  show ?thesis
    using window_is_last_five_hours [of ?es 50000000 demo_libm 0 "''a''" "''a''" None False]
    by (simp add: log recent_def moderate_def WINDOW_5H_MS_def)
qed

theorem no_early_suspicion_witness:
  "\<not> suspected_shared (capacity_run demo_libm (replicate 33 (Polled 5 (Fin 50)))
     (capacity_new demo_libm 0 ''a'' ''a'' None False))"
  by (rule no_early_suspicion) (simp add: filter_replicate)

theorem optimistic_below_pessimistic_witness:
  "fst (remaining_tokens_estimate demo_libm
     (capacity_run demo_libm [Completed 7 None (10 ^ 9), Polled 7 (Fin 96)]
       (capacity_new demo_libm 0 ''a'' ''a'' (Some ''Pro'') False))) \<ge> Fin (4 * 10 ^ 7)"
proof -
  have "c_optimistic demo_libm (capacity_new demo_libm 0 ''a'' ''a'' (Some ''Pro'') False) \<le> Fin (10 ^ 8)"
    by (simp add: c_optimistic_def demo_libm_def)
  from optimistic_below_pessimistic [OF _ this, of 7] show ?thesis
    by (simp add: moderate_def Let_def split: prod.splits)
qed

end
