(* ===== verification/Usage_Data.thy ===== *)
theory Usage_Data
  imports Eligibility Text_Json F64_Bounds
begin

text \<open>
  Usage data of the providers and what routing reads from it: the first part of
  \<open>providers/src/usage_polling.rs\<close>, the usage structures of \<open>providers/src/impls/nanogpt.rs\<close> and
  \<open>zai.rs\<close>, and the reading of \<open>proxy/src/xfactor/mod.rs\<close>. JSON text, RFC 3339 dates and the
  derived decoder of the NanoGPT structure are parameters where they occur.
\<close>

section \<open>The data\<close>

type_synonym anthropic_usage = "(string \<times> json) list"

record nanogpt_window =
  nw_used :: f64
  nw_remaining :: f64
  nw_percent_used :: f64
  nw_reset_at :: i64

record nanogpt_limits =
  nl_daily :: f64
  nl_monthly :: f64

record nanogpt_usage =
  ng_active :: bool
  ng_limits :: nanogpt_limits
  ng_enforce_daily :: bool
  ng_daily :: nanogpt_window
  ng_monthly :: nanogpt_window
  ng_state :: string
  ng_grace_until :: "string option"

record zai_window =
  zw_used :: f64
  zw_remaining :: f64
  zw_percentage :: f64
  zw_reset_at :: "i64 option"
  zw_limit_type :: string

record zai_usage =
  zai_time_limit :: "zai_window option"
  zai_tokens_limit :: "zai_window option"

datatype any_usage = AnthropicUsage anthropic_usage | NanoGptUsage nanogpt_usage | ZaiUsage zai_usage

section \<open>Parsing\<close>

definition zai_window_of :: "json \<Rightarrow> string \<Rightarrow> zai_window" where
  "zai_window_of l kind =
     (let number = (\<lambda>k. case Option.bind (json_get l k) as_f64 of Some x \<Rightarrow> x | None \<Rightarrow> 0)
      in \<lparr>zw_used = number ''currentValue'', zw_remaining = number ''remaining'',
          zw_percentage = number ''percentage'',
          zw_reset_at = Option.bind (json_get l ''nextResetTime'') as_i64, zw_limit_type = kind\<rparr>)"

definition zai_add_limit :: "json \<Rightarrow> zai_usage \<Rightarrow> zai_usage" where
  "zai_add_limit l data =
     (case get_str l ''type'' of
        None \<Rightarrow> data
      | Some kind \<Rightarrow>
          if kind = ''TIME_LIMIT'' then data\<lparr>zai_time_limit := Some (zai_window_of l kind)\<rparr>
          else if kind = ''TOKENS_LIMIT'' then data\<lparr>zai_tokens_limit := Some (zai_window_of l kind)\<rparr>
          else data)"

definition parse_zai_usage_response :: "(string \<Rightarrow> json option) \<Rightarrow> string \<Rightarrow> zai_usage option" where
  "parse_zai_usage_response from_slice body =
     Option.bind (from_slice body) (\<lambda>j.
     Option.bind (json_get j ''success'') (\<lambda>ok.
       if as_bool ok \<noteq> Some True then None
       else
         Option.bind (json_get j ''data'') (\<lambda>d.
         Option.bind (json_get d ''limits'') (\<lambda>l.
         Option.bind (as_array l) (\<lambda>limits.
           Some (fold zai_add_limit limits \<lparr>zai_time_limit = None, zai_tokens_limit = None\<rparr>))))))"

section \<open>Utilization\<close>

definition util_of :: "json \<Rightarrow> f64 option" where
  "util_of value = Option.bind (json_get value ''utilization'') as_f64"

definition utils :: "anthropic_usage \<Rightarrow> f64 list" where
  "utils data = List.map_filter (\<lambda>(_, value). util_of value) data"

definition anthropic_utilization :: "anthropic_usage \<Rightarrow> f64 option" where
  "anthropic_utilization data =
     (case fold (\<lambda>u m. Some (case m of None \<Rightarrow> u | Some m \<Rightarrow> f64_max m u)) (utils data) None of
        None \<Rightarrow> Some 0 | Some m \<Rightarrow> Some m)"

definition anthropic_representative_window :: "anthropic_usage \<Rightarrow> string option" where
  "anthropic_representative_window data =
     fst (fold (\<lambda>(key, value) (name, best).
            case util_of value of
              None \<Rightarrow> (name, best)
            | Some u \<Rightarrow> if best < u then (Some key, u) else (name, best)) data (None, NInf))"

definition nanogpt_utilization :: "nanogpt_usage \<Rightarrow> f64 option" where
  "nanogpt_utilization d =
     (if \<not> ng_active d then None
      else Some (f64_max (nw_percent_used (ng_daily d) * lit 100) (nw_percent_used (ng_monthly d) * lit 100)))"

definition nanogpt_representative_window :: "nanogpt_usage \<Rightarrow> string option" where
  "nanogpt_representative_window d =
     (if \<not> ng_active d then None
      else if nw_percent_used (ng_daily d) \<ge> nw_percent_used (ng_monthly d) then Some ''daily''
      else Some ''monthly'')"

definition zai_utilization :: "zai_usage \<Rightarrow> f64 option" where
  "zai_utilization d = map_option zw_percentage (zai_tokens_limit d)"

definition utilization :: "any_usage \<Rightarrow> f64 option" where
  "utilization u =
     (case u of
        AnthropicUsage d \<Rightarrow> anthropic_utilization d
      | NanoGptUsage d \<Rightarrow> nanogpt_utilization d
      | ZaiUsage d \<Rightarrow> zai_utilization d)"

definition representative_window :: "any_usage \<Rightarrow> string option" where
  "representative_window u =
     (case u of
        AnthropicUsage d \<Rightarrow> anthropic_representative_window d
      | NanoGptUsage d \<Rightarrow> nanogpt_representative_window d
      | ZaiUsage d \<Rightarrow> if zai_tokens_limit d \<noteq> None then Some ''five_hour'' else None)"

section \<open>Routing information\<close>

text \<open>Whether the payload counts in fractions of one or in percent, decided once for all windows.\<close>

definition fractional_mode :: "anthropic_usage \<Rightarrow> bool" where
  "fractional_mode data \<longleftrightarrow> list_ex (\<lambda>u. 0 < u) (utils data) \<and> list_all (\<lambda>u. u \<le> 1) (utils data)"

definition window_kind_of :: "string \<Rightarrow> window_kind" where
  "window_kind_of key =
     (if key = ''five_hour'' then FiveHour
      else if key \<in> {''seven_day'', ''seven_day_opus'', ''seven_day_sonnet''} then Weekly
      else Other)"

definition anthropic_window ::
  "(string \<Rightarrow> i64 option) \<Rightarrow> bool \<Rightarrow> string \<times> json \<Rightarrow> window_usage option" where
  "anthropic_window rfc3339 fractional kv =
     (case kv of (key, value) \<Rightarrow>
        map_option (\<lambda>util.
          \<lparr>w_kind = window_kind_of key,
           w_utilization_pct = (if fractional then util * lit 100 else util),
           w_resets_at_ms = Option.bind (get_str value ''resets_at'') rfc3339\<rparr>) (util_of value))"

definition best_step :: "window_usage \<Rightarrow> f64 \<times> i64 option \<Rightarrow> f64 \<times> i64 option" where
  "best_step w best =
     (if fst best < w_utilization_pct w then (w_utilization_pct w, w_resets_at_ms w) else best)"

definition anthropic_routing_info ::
  "(string \<Rightarrow> i64 option) \<Rightarrow> anthropic_usage \<Rightarrow> routing_usage_info option" where
  "anthropic_routing_info rfc3339 data =
     (let ws = List.map_filter (anthropic_window rfc3339 (fractional_mode data)) data;
          (best_util, best_reset) = fold best_step ws (0, None)
      in Some \<lparr>utilization_pct = best_util, resets_at_ms = best_reset, windows = ws\<rparr>)"

definition positive_reset :: "i64 \<Rightarrow> i64 option" where
  "positive_reset r = (if r > 0 then Some r else None)"

definition nanogpt_routing_info :: "nanogpt_usage \<Rightarrow> routing_usage_info option" where
  "nanogpt_routing_info d =
     (if \<not> ng_active d then None
      else
        (let daily_pct = nw_percent_used (ng_daily d) * lit 100;
             monthly_pct = nw_percent_used (ng_monthly d) * lit 100;
             (pct, reset) =
               (if daily_pct \<ge> monthly_pct then (daily_pct, nw_reset_at (ng_daily d))
                else (monthly_pct, nw_reset_at (ng_monthly d)))
         in Some \<lparr>utilization_pct = pct, resets_at_ms = positive_reset reset,
              windows =
                [\<lparr>w_kind = Other, w_utilization_pct = daily_pct,
                  w_resets_at_ms = positive_reset (nw_reset_at (ng_daily d))\<rparr>,
                 \<lparr>w_kind = Other, w_utilization_pct = monthly_pct,
                  w_resets_at_ms = positive_reset (nw_reset_at (ng_monthly d))\<rparr>]\<rparr>))"

definition zai_routing_info :: "zai_usage \<Rightarrow> routing_usage_info option" where
  "zai_routing_info d =
     map_option (\<lambda>w.
       \<lparr>utilization_pct = zw_percentage w, resets_at_ms = zw_reset_at w,
        windows = [\<lparr>w_kind = Other, w_utilization_pct = zw_percentage w,
                    w_resets_at_ms = zw_reset_at w\<rparr>]\<rparr>) (zai_tokens_limit d)"

definition routing_info :: "(string \<Rightarrow> i64 option) \<Rightarrow> any_usage \<Rightarrow> routing_usage_info option" where
  "routing_info rfc3339 u =
     (case u of
        AnthropicUsage d \<Rightarrow> anthropic_routing_info rfc3339 d
      | NanoGptUsage d \<Rightarrow> nanogpt_routing_info d
      | ZaiUsage d \<Rightarrow> zai_routing_info d)"

text \<open>The reading of the capacity estimator, which normalises the five-hour window by itself.\<close>

definition extract_5h_utilization :: "anthropic_usage \<Rightarrow> f64 option" where
  "extract_5h_utilization data =
     Option.bind (map_of data ''five_hour'') (\<lambda>window.
       map_option (\<lambda>util. if util < lit 2 then util * lit 100 else util) (util_of window))"

section \<open>What routing is told\<close>

lemma best_step_bound:
  "\<not> fst best < w_utilization_pct v \<Longrightarrow> \<not> fst (best_step w best) < w_utilization_pct v"
  by (cases "fst best"; cases "w_utilization_pct v"; cases "w_utilization_pct w")
     (auto simp: best_step_def less_f64_def)

lemma best_step_self: "\<not> fst (best_step w best) < w_utilization_pct w"
  by (simp add: best_step_def less_f64_def)

lemma best_bound:
  "\<not> fst best < w_utilization_pct v \<Longrightarrow> \<not> fst (fold best_step ws best) < w_utilization_pct v"
  by (induction ws arbitrary: best) (simp_all add: best_step_bound)

lemma best_upper: "list_all (\<lambda>v. \<not> fst (fold best_step ws best) < w_utilization_pct v) ws"
  by (induction ws arbitrary: best) (simp_all add: best_bound best_step_self)

lemma best_attained:
  "fold best_step ws best = best \<or>
   list_ex (\<lambda>w. fold best_step ws best = (w_utilization_pct w, w_resets_at_ms w)) ws"
proof (induction ws arbitrary: best)
  case (Cons w ws)
  show ?case using Cons.IH [of "best_step w best"] by (auto simp: best_step_def)
qed simp


text \<open>In fractional mode no window is above a hundred percent.\<close>

lemma times_100: "u \<le> 1 \<Longrightarrow> u * lit 100 \<le> Fin 100"
  by (cases u) (auto simp: lit_numeral one_f64_def signed_inf_def intro!: rnd_le_representable)

section \<open>Where the readings disagree\<close>

lemma anthropic_windows:
  "\<exists>info. anthropic_routing_info rfc3339 data = Some info \<and>
     windows info = List.map_filter (anthropic_window rfc3339 (fractional_mode data)) data"
  by (simp add: anthropic_routing_info_def Let_def split: prod.split)

lemma map_filter_mem: "x \<in> set xs \<Longrightarrow> f x = Some y \<Longrightarrow> y \<in> set (List.map_filter f xs)"
  by (induction xs) (auto simp: List.map_filter_simps split: option.split)

text \<open>
  The mode of a payload is decided to avoid reading one percent as a hundred. A payload in
  percent in which no window is above one percent is taken for fractions all the same: at one
  percent of its five-hour window an account with overage protection is taken out of routing.
\<close>

theorem one_percent_looks_exhausted:
  assumes "list_all (\<lambda>u. u \<le> 1) (utils data)"
    and "(''five_hour'', v) \<in> set data" "util_of v = Some 1"
    and "usage (acct_id a) = anthropic_routing_info rfc3339 data" "overage_protection a"
  shows "\<not> routable (evaluate_account_eligibility a usage now)"
proof -
  have "1 \<in> set (utils data)"
    unfolding utils_def by (rule map_filter_mem [OF assms(2)]) (simp add: assms(3))
  then have mode: "fractional_mode data"
    using assms(1) by (auto simp: fractional_mode_def list_ex_iff less_f64_def zero_f64_def one_f64_def
        intro!: bexI [of _ "Fin 1"])
  let ?w = "\<lparr>w_kind = FiveHour, w_utilization_pct = 1 * lit 100,
    w_resets_at_ms = Option.bind (get_str v ''resets_at'') rfc3339\<rparr>"
  obtain info where info: "anthropic_routing_info rfc3339 data = Some info"
    and ws: "windows info = List.map_filter (anthropic_window rfc3339 True) data"
    using anthropic_windows [of rfc3339 data] mode by auto
  have "?w \<in> set (List.map_filter (anthropic_window rfc3339 True) data)"
    by (rule map_filter_mem [OF assms(2)]) (simp add: anthropic_window_def assms(3) window_kind_of_def)
  then have w: "?w \<in> set (windows info)" by (simp add: ws)
  moreover have "saturated (w_utilization_pct ?w)"
    by (simp add: saturated_def lit_numeral one_f64_def rnd_numeral)
  ultimately have "is_at_overage a info"
    by (subst is_at_overage_windows) (auto intro!: bexI [OF _ w])
  then have "reason_holds a usage now OverageProtection"
    using assms(4,5) info by simp
  then show ?thesis by (metis routable_iff_no_reason)
qed

definition percent_window :: "string \<Rightarrow> f64 \<Rightarrow> string \<times> json" where
  "percent_window k u = (k, JObject [(''utilization'', JNumber (JFloat u))])"

lemma util_of_percent_window [simp]: "util_of (snd (percent_window k u)) = Some u"
  by (simp add: percent_window_def util_of_def json_get_def as_f64_def)

theorem one_percent_looks_exhausted_witness:
  "\<not> routable (evaluate_account_eligibility ((fresh_account ''a'' ''anthropic'')\<lparr>overage_protection := True\<rparr>)
     (\<lambda>_. anthropic_routing_info (\<lambda>_. None) [percent_window ''five_hour'' 1]) 0)"
proof (rule one_percent_looks_exhausted)
  show "list_all (\<lambda>u. u \<le> 1) (utils [percent_window ''five_hour'' 1])"
    by (simp add: utils_def percent_window_def util_of_def json_get_def as_f64_def
        List.map_filter_simps one_f64_def)
  show "(''five_hour'', JObject [(''utilization'', JNumber (JFloat 1))]) \<in> set [percent_window ''five_hour'' 1]"
    by (simp add: percent_window_def)
qed (simp_all add: util_of_def json_get_def as_f64_def)

text \<open>
  The capacity estimator does not know the mode: it takes anything below two for a fraction, so
  the same report of one and a half percent is a hundred and fifty percent to it.
\<close>

lemma readings_differ:
  "map_option utilization_pct (anthropic_routing_info rfc3339
      [percent_window ''five_hour'' (Fin (3 / 2))]) = Some (Fin (3 / 2)) \<and>
   extract_5h_utilization [percent_window ''five_hour'' (Fin (3 / 2))] = Some (Fin 150)"
  by (simp add: anthropic_routing_info_def anthropic_window_def percent_window_def util_of_def
      json_get_def as_f64_def extract_5h_utilization_def lit_numeral rnd_numeral fractional_mode_def
      utils_def List.map_filter_simps best_step_def less_f64_def zero_f64_def one_f64_def)

text \<open>The utilization of the dashboard is not normalised: a fraction is shown as it is.\<close>

lemma utilization_not_normalised:
  "utilization (AnthropicUsage [percent_window ''five_hour'' (Fin (1 / 2))]) = Some (Fin (1 / 2)) \<and>
   map_option utilization_pct (routing_info rfc3339
      (AnthropicUsage [percent_window ''five_hour'' (Fin (1 / 2))])) = Some (Fin 50)"
  by (simp add: routing_info_def utilization_def anthropic_utilization_def anthropic_routing_info_def
      anthropic_window_def percent_window_def util_of_def json_get_def as_f64_def lit_numeral
      rnd_numeral fractional_mode_def utils_def List.map_filter_simps best_step_def less_f64_def
      zero_f64_def one_f64_def)

end
