(* ===== verification/Usage_Polling.thy ===== *)
theory Usage_Polling
  imports Usage_Data Account_Store Provider_Impls
begin

text \<open>
  The usage cache and the polling service of \<open>providers/src/usage_polling.rs\<close>, with the account
  source that \<open>main.rs\<close> gives it. HTTP, time and the JSON decoders are an environment over a
  world of any type; the rows of the accounts table and the cache are explicit. A poll of one
  account is a loop that may run forever: not returning is \<open>None\<close>.
\<close>

section \<open>The cache\<close>

record cache_entry =
  ue_data :: any_usage
  ue_timestamp :: i64

type_synonym usage_cache = "(string, cache_entry) hash_map"

definition MAX_CACHE_AGE_MS :: i64 where "MAX_CACHE_AGE_MS = 10 * 60 * 1000"

definition usage_get :: "i64 \<Rightarrow> string \<Rightarrow> usage_cache \<Rightarrow> any_usage option \<times> usage_cache" where
  "usage_get now i c =
     (case hm_get c i of
        None \<Rightarrow> (None, c)
      | Some e \<Rightarrow>
          if i64_sub now (ue_timestamp e) > MAX_CACHE_AGE_MS then (None, hm_remove i c)
          else (Some (ue_data e), c))"

definition usage_set :: "i64 \<Rightarrow> string \<Rightarrow> any_usage \<Rightarrow> usage_cache \<Rightarrow> usage_cache" where
  "usage_set now i data c = hm_insert i \<lparr>ue_data = data, ue_timestamp = now\<rparr> c"

definition usage_remove :: "string \<Rightarrow> usage_cache \<Rightarrow> usage_cache" where
  "usage_remove i c = hm_remove i c"

definition usage_clear :: "usage_cache \<Rightarrow> usage_cache" where
  "usage_clear c = []"

definition cleanup_stale :: "i64 \<Rightarrow> usage_cache \<Rightarrow> usage_cache" where
  "cleanup_stale now c = hm_retain (\<lambda>_ e. i64_sub now (ue_timestamp e) \<le> MAX_CACHE_AGE_MS) c"

section \<open>Accounts and collaborators\<close>

record pollable_account =
  pa_id :: string
  pa_provider :: string
  pa_access_token :: "string option"
  pa_refresh_token :: "string option"
  pa_client_id :: "string option"
  pa_api_key :: "string option"
  pa_custom_endpoint :: "string option"
  pa_paused :: bool

record refreshed_token =
  rt_access_token :: string
  rt_refresh_token :: string
  rt_expires_at :: "i64 option"

record http_call =
  hc_method :: string
  hc_url :: string
  hc_headers :: header_map
  hc_json :: "json option"

text \<open>A reply whose body cannot be read has none; no reply at all is a transport error.\<close>

record http_reply =
  hr_status :: nat
  hr_headers :: header_map
  hr_body :: "string option"

record 'w poll_env =
  pe_send :: "http_call \<Rightarrow> 'w \<Rightarrow> http_reply option \<times> 'w"
  pe_sleep :: "nat \<Rightarrow> 'w \<Rightarrow> 'w"
  pe_now :: "'w \<Rightarrow> i64"
  pe_db :: "'w \<Rightarrow> bool"
  pe_json :: "string \<Rightarrow> json option"
  pe_nanogpt :: "string \<Rightarrow> nanogpt_usage option"
  pe_oauth_client :: string

record 'w poll_state =
  po_rows :: "account list"
  po_cache :: usage_cache
  po_world :: 'w

definition reply_ok :: "http_reply \<Rightarrow> bool" where
  "reply_ok r \<longleftrightarrow> 200 \<le> hr_status r \<and> hr_status r < 300"

definition reply_text :: "http_reply \<Rightarrow> string" where
  "reply_text r = (case hr_body r of None \<Rightarrow> [] | Some b \<Rightarrow> from_utf8_lossy b)"

definition parse_u64 :: "string \<Rightarrow> nat option" where
  "parse_u64 s =
     (let ds = (case s of c # cs \<Rightarrow> if c = CHR ''+'' then cs else s | [] \<Rightarrow> s)
      in if ds = [] then None
         else Option.bind (digits_value 0 ds) (\<lambda>n. if n < 2 ^ 64 then Some n else None))"

section \<open>The database side\<close>

definition supports_usage_tracking :: "string \<Rightarrow> bool" where
  "supports_usage_tracking p \<longleftrightarrow>
     p \<in> {''claude-oauth'', ''anthropic'', ''nanogpt'', ''zai''}"

definition is_oauth :: "string \<Rightarrow> bool" where
  "is_oauth p \<longleftrightarrow> p = ''claude-oauth'' \<or> p = ''anthropic''"

definition pollable_of :: "string \<Rightarrow> account \<Rightarrow> pollable_account" where
  "pollable_of client a =
     \<lparr>pa_id = acct_id a, pa_provider = provider a, pa_access_token = access_token a,
      pa_refresh_token = (if refresh_token a = [] then None else Some (refresh_token a)),
      pa_client_id = (if is_oauth (provider a) then Some client else None),
      pa_api_key = api_key a, pa_custom_endpoint = custom_endpoint a, pa_paused = paused a\<rparr>"

definition get_pollable_accounts :: "'w poll_env \<Rightarrow> 'w poll_state \<Rightarrow> pollable_account list" where
  "get_pollable_accounts env st =
     (if \<not> pe_db env (po_world st) then []
      else map (pollable_of (pe_oauth_client env))
        (filter (\<lambda>a. supports_usage_tracking (provider a))
          (filter (\<lambda>a. \<not> paused a) (find_all_accounts (po_rows st)))))"

definition persist_refreshed_token ::
  "'w poll_env \<Rightarrow> string \<Rightarrow> refreshed_token \<Rightarrow> 'w poll_state \<Rightarrow> 'w poll_state" where
  "persist_refreshed_token env i t st =
     (if \<not> pe_db env (po_world st) then st
      else st\<lparr>po_rows :=
        update_tokens (pe_now env (po_world st)) (rt_access_token t)
          (case rt_expires_at t of None \<Rightarrow> 0 | Some e \<Rightarrow> e)
          (if rt_refresh_token t = [] then None else Some (rt_refresh_token t)) i (po_rows st)\<rparr>)"

definition mark_token_revoked :: "'w poll_env \<Rightarrow> string \<Rightarrow> 'w poll_state \<Rightarrow> 'w poll_state" where
  "mark_token_revoked env i st =
     (if \<not> pe_db env (po_world st) then st
      else st\<lparr>po_rows :=
        on_row i (\<lambda>a. a\<lparr>refresh_token := [], access_token := None, expires_at := None\<rparr>) (po_rows st)\<rparr>)"

section \<open>Fetching\<close>

datatype anthropic_result =
  UsageOk anthropic_usage | UsageUnauthorized | UsageRateLimited nat | UsageError

definition usage_call :: "string \<Rightarrow> http_call" where
  "usage_call token =
     \<lparr>hc_method = ''GET'', hc_url = ''https://api.anthropic.com/api/oauth/usage'',
      hc_headers = [(''authorization'', ''Bearer '' @ token), (''anthropic-beta'', ''oauth-2025-04-20''),
        (''accept'', ''application/json'')], hc_json = None\<rparr>"

definition retry_backoff :: "http_reply \<Rightarrow> nat" where
  "retry_backoff r =
     max (case Option.bind (header_str (hr_headers r) ''retry-after'') parse_u64 of
            Some n \<Rightarrow> n | None \<Rightarrow> 30) 60"

definition fetch_anthropic_usage ::
  "'w poll_env \<Rightarrow> string \<Rightarrow> 'w \<Rightarrow> anthropic_result \<times> 'w" where
  "fetch_anthropic_usage env token w =
     (case pe_send env (usage_call token) w of
        (None, w) \<Rightarrow> (UsageError, w)
      | (Some r, w) \<Rightarrow>
          if reply_ok r then
            (case Option.bind (Option.bind (hr_body r) (pe_json env)) as_object of
               Some data \<Rightarrow> (UsageOk data, w) | None \<Rightarrow> (UsageError, w))
          else if hr_status r = 401 then (UsageUnauthorized, w)
          else if hr_status r = 429 then (UsageRateLimited (retry_backoff r), w)
          else (UsageError, w))"

datatype refresh_error = PermanentlyRevoked | Transient

definition TOKEN_URL :: string where "TOKEN_URL = ''https://console.anthropic.com/v1/oauth/token''"

definition refresh_call :: "string \<Rightarrow> string \<Rightarrow> http_call" where
  "refresh_call rt cid =
     \<lparr>hc_method = ''POST'', hc_url = TOKEN_URL,
      hc_headers = [(''content-type'', ''application/json'')],
      hc_json = Some (JObject [(''grant_type'', JString ''refresh_token''),
        (''refresh_token'', JString rt), (''client_id'', JString cid)])\<rparr>"

definition refreshed_of :: "i64 \<Rightarrow> string \<Rightarrow> json \<Rightarrow> refreshed_token option" where
  "refreshed_of now rt j =
     map_option (\<lambda>access.
       \<lparr>rt_access_token = access,
        rt_refresh_token = (case get_str j ''refresh_token'' of Some r \<Rightarrow> r | None \<Rightarrow> rt),
        rt_expires_at =
          map_option (\<lambda>secs. i64_add now (i64_mul secs 1000))
            (Option.bind (json_get j ''expires_in'') as_i64)\<rparr>) (get_str j ''access_token'')"

definition refresh_oauth_token ::
  "'w poll_env \<Rightarrow> string \<Rightarrow> string \<Rightarrow> 'w \<Rightarrow> (refresh_error + refreshed_token) \<times> 'w" where
  "refresh_oauth_token env rt cid w =
     (case pe_send env (refresh_call rt cid) w of
        (None, w) \<Rightarrow> (Inl Transient, w)
      | (Some r, w) \<Rightarrow>
          if reply_ok r then
            (case Option.bind (Option.bind (hr_body r) (pe_json env)) (refreshed_of (pe_now env w) rt) of
               Some t \<Rightarrow> (Inr t, w) | None \<Rightarrow> (Inl Transient, w))
          else if Option.bind (pe_json env (reply_text r)) (\<lambda>j. get_str j ''error'')
                    = Some ''invalid_grant''
          then (Inl PermanentlyRevoked, w) else (Inl Transient, w))"

definition fetch_body :: "'w poll_env \<Rightarrow> string \<Rightarrow> string \<Rightarrow> 'w \<Rightarrow> string option \<times> 'w" where
  "fetch_body env url key w =
     (case pe_send env \<lparr>hc_method = ''GET'', hc_url = url,
             hc_headers = [(''x-api-key'', key), (''accept'', ''application/json'')], hc_json = None\<rparr> w of
        (None, w) \<Rightarrow> (None, w)
      | (Some r, w) \<Rightarrow> (if reply_ok r then hr_body r else None, w))"

definition fetch_nanogpt_usage ::
  "'w poll_env \<Rightarrow> string \<Rightarrow> string option \<Rightarrow> 'w \<Rightarrow> nanogpt_usage option \<times> 'w" where
  "fetch_nanogpt_usage env key endpoint w =
     (let base = (case endpoint of Some e \<Rightarrow> e | None \<Rightarrow> ''https://nano-gpt.com/api'');
          url = trim_end_matches (CHR ''/'') base @ ''/subscription/v1/usage''
      in case fetch_body env url key w of (body, w) \<Rightarrow> (Option.bind body (pe_nanogpt env), w))"

definition fetch_zai_usage :: "'w poll_env \<Rightarrow> string \<Rightarrow> 'w \<Rightarrow> zai_usage option \<times> 'w" where
  "fetch_zai_usage env key w =
     (case fetch_body env ''https://api.z.ai/api/monitor/usage/quota/limit'' key w of
        (body, w) \<Rightarrow> (Option.bind body (parse_zai_usage_response (pe_json env)), w))"

definition fetch_usage_for_provider ::
  "'w poll_env \<Rightarrow> string \<Rightarrow> string \<Rightarrow> string option \<Rightarrow> 'w \<Rightarrow> any_usage option \<times> 'w" where
  "fetch_usage_for_provider env p token endpoint w =
     (if p = ''nanogpt'' then
        (case fetch_nanogpt_usage env token endpoint w of (d, w) \<Rightarrow> (map_option NanoGptUsage d, w))
      else if p = ''zai'' then
        (case fetch_zai_usage env token w of (d, w) \<Rightarrow> (map_option ZaiUsage d, w))
      else (None, w))"

section \<open>Polling one account\<close>

text \<open>One turn of the loop over an OAuth account: an answer, or another turn with a new token.\<close>

datatype turn = Finished bool | Again string

definition on_unauthorized ::
  "'w poll_env \<Rightarrow> pollable_account \<Rightarrow> 'w poll_state \<Rightarrow> turn \<times> 'w poll_state" where
  "on_unauthorized env account st =
     (case (pa_refresh_token account, pa_client_id account) of
        (Some rt, Some cid) \<Rightarrow>
          (case refresh_oauth_token env rt cid (po_world st) of
             (Inr t, w) \<Rightarrow>
               (Again (rt_access_token t),
                persist_refreshed_token env (pa_id account) t (st\<lparr>po_world := w\<rparr>))
           | (Inl PermanentlyRevoked, w) \<Rightarrow>
               (Finished False,
                (let st = mark_token_revoked env (pa_id account) (st\<lparr>po_world := w\<rparr>)
                 in st\<lparr>po_cache := usage_remove (pa_id account) (po_cache st)\<rparr>))
           | (Inl Transient, w) \<Rightarrow> (Finished False, st\<lparr>po_world := w\<rparr>))
      | _ \<Rightarrow> (Finished False, st))"

definition poll_turn ::
  "'w poll_env \<Rightarrow> pollable_account \<Rightarrow> string \<Rightarrow> 'w poll_state \<Rightarrow> turn \<times> 'w poll_state" where
  "poll_turn env account token st =
     (case fetch_anthropic_usage env token (po_world st) of
        (UsageOk data, w) \<Rightarrow>
          (Finished False,
           st\<lparr>po_world := w,
              po_cache := usage_set (pe_now env w) (pa_id account) (AnthropicUsage data) (po_cache st)\<rparr>)
      | (UsageRateLimited _, w) \<Rightarrow> (Finished True, st\<lparr>po_world := w\<rparr>)
      | (UsageUnauthorized, w) \<Rightarrow> on_unauthorized env account (st\<lparr>po_world := w\<rparr>)
      | (UsageError, w) \<Rightarrow> (Finished False, st\<lparr>po_world := w\<rparr>))"

partial_function (option) poll_oauth ::
  "'w poll_env \<Rightarrow> pollable_account \<Rightarrow> string \<Rightarrow> 'w poll_state \<Rightarrow> (bool \<times> 'w poll_state) option" where
  "poll_oauth env account token st =
     (case poll_turn env account token st of
        (Finished limited, st) \<Rightarrow> Some (limited, st)
      | (Again token, st) \<Rightarrow> poll_oauth env account token st)"

definition MAX_RETRIES :: nat where "MAX_RETRIES = 2"

text \<open>The attempts that are left; the code counts them up to \<open>MAX_RETRIES\<close>.\<close>

fun poll_attempts ::
  "'w poll_env \<Rightarrow> pollable_account \<Rightarrow> string \<Rightarrow> nat \<Rightarrow> 'w poll_state \<Rightarrow> 'w poll_state" where
  "poll_attempts env account token 0 st = st"
| "poll_attempts env account token (Suc n) st =
     (case fetch_usage_for_provider env (pa_provider account) token (pa_custom_endpoint account)
             (po_world st) of
        (Some data, w) \<Rightarrow>
          st\<lparr>po_world := w, po_cache := usage_set (pe_now env w) (pa_id account) data (po_cache st)\<rparr>
      | (None, w) \<Rightarrow>
          poll_attempts env account token n
            (st\<lparr>po_world := if n > 0 then pe_sleep env 2 w else w\<rparr>))"

definition poll_single_account ::
  "'w poll_env \<Rightarrow> pollable_account \<Rightarrow> 'w poll_state \<Rightarrow> (bool \<times> 'w poll_state) option" where
  "poll_single_account env account st =
     (case first_some (pa_access_token account) (pa_api_key account) of
        None \<Rightarrow> Some (False, st)
      | Some token \<Rightarrow>
          if trim token = [] then Some (False, st)
          else if is_oauth (pa_provider account) then poll_oauth env account token st
          else Some (False, poll_attempts env account token MAX_RETRIES st))"

section \<open>Polling all accounts\<close>

fun poll_each ::
  "'w poll_env \<Rightarrow> pollable_account list \<Rightarrow> nat \<Rightarrow> nat \<Rightarrow> 'w poll_state \<Rightarrow> (nat \<times> 'w poll_state) option" where
  "poll_each env [] i limited st = Some (limited, st)"
| "poll_each env (a # as) i limited st =
     (let st = (if i > 0 then st\<lparr>po_world := pe_sleep env 15 (po_world st)\<rparr> else st)
      in case poll_single_account env a st of
           None \<Rightarrow> None
         | Some (was_limited, st) \<Rightarrow>
             poll_each env as (Suc i) (if was_limited then Suc limited else limited) st)"

definition poll_all_accounts :: "'w poll_env \<Rightarrow> 'w poll_state \<Rightarrow> (bool \<times> 'w poll_state) option" where
  "poll_all_accounts env st =
     (let accounts = get_pollable_accounts env st
      in if accounts = [] then Some (False, st)
         else case poll_each env accounts 0 0 st of
             None \<Rightarrow> None
           | Some (limited, st) \<Rightarrow>
               Some (limited = length accounts \<and> length accounts > 0, st))"

definition DEFAULT_POLL_SECS :: nat where "DEFAULT_POLL_SECS = 300"
definition STARTUP_DELAY_SECS :: nat where "STARTUP_DELAY_SECS = 60"

text \<open>One cycle of the service: poll, clean up, and the pause until the next.\<close>

definition poll_cycle ::
  "'w poll_env \<Rightarrow> nat \<Rightarrow> 'w poll_state \<Rightarrow> (nat \<times> nat \<times> 'w poll_state) option" where
  "poll_cycle env multiplier st =
     (case poll_all_accounts env st of
        None \<Rightarrow> None
      | Some (all_limited, st) \<Rightarrow>
          (let st = st\<lparr>po_cache := cleanup_stale (pe_now env (po_world st)) (po_cache st)\<rparr>;
               multiplier = (if all_limited then min (multiplier * 2) 7 else 1)
           in Some (DEFAULT_POLL_SECS * multiplier, multiplier, st)))"

text \<open>The service for a number of cycles; the shutdown signal ends it between two of them.\<close>

fun service_run :: "'w poll_env \<Rightarrow> nat \<Rightarrow> nat \<Rightarrow> 'w poll_state \<Rightarrow> (nat list \<times> 'w poll_state) option" where
  "service_run env multiplier 0 st = Some ([], st)"
| "service_run env multiplier (Suc n) st =
     (case poll_cycle env multiplier st of
        None \<Rightarrow> None
      | Some (secs, multiplier, st) \<Rightarrow>
          (case service_run env multiplier n (st\<lparr>po_world := pe_sleep env secs (po_world st)\<rparr>) of
             None \<Rightarrow> None
           | Some (pauses, st) \<Rightarrow> Some (secs # pauses, st)))"

definition start_polling :: "'w poll_env \<Rightarrow> nat \<Rightarrow> 'w poll_state \<Rightarrow> (nat list \<times> 'w poll_state) option" where
  "start_polling env n st =
     service_run env 1 n (st\<lparr>po_world := pe_sleep env STARTUP_DELAY_SECS (po_world st)\<rparr>)"

end
