(* ===== verification/XFactor_Service.thy ===== *)
theory XFactor_Service
  imports XFactor_Correct Usage_Polling
begin

text \<open>
  The service around the capacity estimator: \<open>proxy/src/xfactor/mod.rs\<close> (the cache of one
  estimator per account, its start from the database, the update from the usage cache, the
  snapshots), the table \<open>account_xfactor_state\<close> of \<open>database/src/repositories/xfactor.rs\<close>, and the
  analysis of \<open>proxy/src/handlers/xfactor.rs\<close>. Entries of the concurrent map are independent, so
  their order does not matter; it is the order of the list.
\<close>

section \<open>The tables\<close>

type_synonym xfactor_table = "(string, xfactor_db_state) hash_map"

definition save_state :: "xfactor_db_state \<Rightarrow> xfactor_table \<Rightarrow> xfactor_table" where
  "save_state s t = hm_insert (db_account_id s) s t"

definition load_state :: "string \<Rightarrow> xfactor_table \<Rightarrow> xfactor_db_state option" where
  "load_state i t = hm_get t i"

definition load_all_states :: "xfactor_table \<Rightarrow> xfactor_db_state list" where
  "load_all_states t = map snd t"

definition save_all_states :: "xfactor_db_state list \<Rightarrow> xfactor_table \<Rightarrow> xfactor_table" where
  "save_all_states states t = fold save_state states t"

text \<open>The columns of the table \<open>requests\<close> that the service reads.\<close>

record request_row =
  rr_timestamp :: i64
  rr_account_used :: "string option"
  rr_model :: "string option"
  rr_input_tokens :: "i64 option"
  rr_output_tokens :: "i64 option"
  rr_cache_creation :: "i64 option"
  rr_cache_read :: "i64 option"

definition coalesce :: "i64 option \<Rightarrow> i64" where
  "coalesce v = (case v of Some n \<Rightarrow> n | None \<Rightarrow> 0)"

definition row_tokens :: "request_row \<Rightarrow> int" where
  "row_tokens r =
     coalesce (rr_input_tokens r) + coalesce (rr_output_tokens r) + coalesce (rr_cache_creation r) +
     coalesce (rr_cache_read r)"

definition account_rows :: "request_row list \<Rightarrow> string \<Rightarrow> i64 \<Rightarrow> request_row list" where
  "account_rows requests i since_ms =
     sort_by (\<lambda>a b. cmp_of (rr_timestamp a) (rr_timestamp b))
       (filter (\<lambda>r. rr_account_used r = Some i \<and> since_ms \<le> rr_timestamp r) requests)"

definition recent_requests_for_account ::
  "request_row list \<Rightarrow> string \<Rightarrow> i64 \<Rightarrow> (i64 \<times> f64 \<times> string option) list" where
  "recent_requests_for_account requests i since_ms =
     map (\<lambda>r. (rr_timestamp r, f64_of_int (row_tokens r), rr_model r))
       (account_rows requests i since_ms)"

section \<open>The cache\<close>

type_synonym xfactor_cache = "(string, capacity_state) hash_map"

definition cache_on_request ::
  "string \<Rightarrow> string option \<Rightarrow> i64 \<Rightarrow> i64 \<Rightarrow> xfactor_cache \<Rightarrow> xfactor_cache" where
  "cache_on_request i model total_tokens now_ms c =
     (case hm_get c i of
        None \<Rightarrow> c
      | Some s \<Rightarrow> hm_insert i (xfactor_on_request model total_tokens now_ms s) c)"

definition new_state :: "libm \<Rightarrow> i64 \<Rightarrow> account \<Rightarrow> capacity_state" where
  "new_state lm now a =
     capacity_new lm now (acct_id a) (acct_name a) (subscription_tier a) (is_shared a)"

text \<open>One row of the history goes into the window.\<close>

definition rebuild_step :: "i64 \<times> f64 \<times> string option \<Rightarrow> capacity_state \<Rightarrow> capacity_state" where
  "rebuild_step row s =
     (case row of (ts_ms, raw_tokens, model) \<Rightarrow>
        let wt = raw_tokens * model_weight model
        in if 0 < wt then
             s\<lparr>window_5h := window_5h s @ [(ts_ms, wt)],
               proxy_tokens_5h_weighted := proxy_tokens_5h_weighted s + wt\<rparr>
           else s)"

definition initial_state ::
  "libm \<Rightarrow> i64 \<Rightarrow> xfactor_table \<Rightarrow> (string \<Rightarrow> (i64 \<times> f64 \<times> string option) list option) \<Rightarrow>
     account \<Rightarrow> capacity_state" where
  "initial_state lm now table requests_of a =
     (let s = new_state lm now a;
          s = (case load_state (acct_id a) table of Some db \<Rightarrow> restore_from_db db s | None \<Rightarrow> s)
      in case requests_of (acct_id a) of
           None \<Rightarrow> s
         | Some rows \<Rightarrow> fold rebuild_step rows s)"

definition initialize_cache ::
  "libm \<Rightarrow> i64 \<Rightarrow> account list \<Rightarrow> xfactor_table \<Rightarrow>
     (string \<Rightarrow> (i64 \<times> f64 \<times> string option) list option) \<Rightarrow> xfactor_cache \<Rightarrow> xfactor_cache" where
  "initialize_cache lm now accounts table requests_of c =
     fold (\<lambda>a c. hm_insert (acct_id a) (initial_state lm now table requests_of a) c) accounts c"

definition add_new_accounts :: "libm \<Rightarrow> i64 \<Rightarrow> account list \<Rightarrow> xfactor_cache \<Rightarrow> xfactor_cache" where
  "add_new_accounts lm now accounts c =
     fold (\<lambda>a c. if hm_get c (acct_id a) = None then hm_insert (acct_id a) (new_state lm now a) c
                 else c) accounts c"

definition poll_from_usage :: "libm \<Rightarrow> i64 \<Rightarrow> any_usage option \<Rightarrow> capacity_state \<Rightarrow> capacity_state" where
  "poll_from_usage lm now usage s =
     (case usage of
        Some (AnthropicUsage data) \<Rightarrow>
          (case extract_5h_utilization data of Some u \<Rightarrow> on_usage_poll lm now u s | None \<Rightarrow> s)
      | _ \<Rightarrow> s)"

text \<open>The clock is read again for the age of every usage entry.\<close>

fun update_entries ::
  "libm \<Rightarrow> i64 \<Rightarrow> (string \<Rightarrow> i64) \<Rightarrow> xfactor_cache \<Rightarrow> usage_cache \<Rightarrow> xfactor_cache \<times> usage_cache" where
  "update_entries lm now clock [] uc = ([], uc)"
| "update_entries lm now clock ((i, s) # es) uc =
     (case usage_get (clock i) i uc of
        (usage, uc) \<Rightarrow>
          (case update_entries lm now clock es uc of
             (es, uc) \<Rightarrow> ((i, poll_from_usage lm now usage s) # es, uc)))"

definition update_from_usage_cache ::
  "libm \<Rightarrow> i64 \<Rightarrow> (string \<Rightarrow> i64) \<Rightarrow> account list option \<Rightarrow> xfactor_cache \<Rightarrow> usage_cache \<Rightarrow>
     xfactor_cache \<times> usage_cache" where
  "update_from_usage_cache lm now clock accounts c uc =
     update_entries lm now clock
       (case accounts of Some as \<Rightarrow> add_new_accounts lm now as c | None \<Rightarrow> c) uc"

definition persist_to_db :: "bool \<Rightarrow> xfactor_cache \<Rightarrow> xfactor_table \<Rightarrow> xfactor_table" where
  "persist_to_db db_ok c table =
     (if c = [] \<or> \<not> db_ok then table else save_all_states (map (to_db_state \<circ> snd) c) table)"

section \<open>Snapshots\<close>

record capacity_snapshot =
  sn_account_id :: string
  sn_account_name :: string
  sn_subscription_tier :: "string option"
  sn_is_shared :: bool
  sn_proxy_tokens :: f64
  sn_c_estimate :: f64
  sn_remaining :: "f64 \<times> f64 \<times> f64"
  sn_tte_minutes :: f64
  sn_tte_with_recovery :: f64
  sn_window_recovery_15min :: f64
  sn_utilization_pct :: f64
  sn_x_factor :: "f64 \<times> f64 \<times> f64"
  sn_n_eff :: f64
  sn_confidence :: string
  sn_should_stop_assign :: bool
  sn_poll_age :: "f64 option"
  sn_ema_proxy_rate :: f64
  sn_kf_e :: f64
  sn_kf_e_dot :: f64
  sn_shared_score :: f64
  sn_suspected_shared :: bool

definition build_snapshot :: "libm \<Rightarrow> i64 \<Rightarrow> capacity_state \<Rightarrow> capacity_snapshot" where
  "build_snapshot lm now_ms s =
     \<lparr>sn_account_id = cs_account_id s, sn_account_name = cs_account_name s,
      sn_subscription_tier = cs_subscription_tier s, sn_is_shared = cs_is_shared s,
      sn_proxy_tokens = proxy_tokens_5h_weighted s, sn_c_estimate = c_estimate lm s,
      sn_remaining = remaining_tokens_estimate lm s, sn_tte_minutes = tte_minutes lm s,
      sn_tte_with_recovery = tte_minutes_with_recovery lm now_ms s,
      sn_window_recovery_15min = window_recovery_tokens now_ms (15 * 60 * 1000) s,
      sn_utilization_pct = XFactor.utilization_pct lm s, sn_x_factor = x_factor lm s,
      sn_n_eff = n_eff s, sn_confidence = confidence s,
      sn_should_stop_assign = should_stop_assign lm s, sn_poll_age = poll_age_seconds now_ms s,
      sn_ema_proxy_rate = ema_proxy_rate s, sn_kf_e = kf_e s, sn_kf_e_dot = kf_e_dot s,
      sn_shared_score = shared_score s, sn_suspected_shared = suspected_shared s\<rparr>"

definition snapshot :: "libm \<Rightarrow> (string \<Rightarrow> i64) \<Rightarrow> xfactor_cache \<Rightarrow> (string, capacity_snapshot) hash_map" where
  "snapshot lm clock c = map (\<lambda>(i, s). (i, build_snapshot lm (clock i) s)) c"

definition get_snapshot :: "libm \<Rightarrow> i64 \<Rightarrow> string \<Rightarrow> xfactor_cache \<Rightarrow> capacity_snapshot option" where
  "get_snapshot lm now i c = map_option (build_snapshot lm now) (hm_get c i)"

section \<open>The life of the service\<close>

text \<open>
  What happens: the program starts (with what the database gives, or an error), a request
  completes, the update timer fires, the persistence timer fires (and the write succeeds or not).
\<close>

record xf_service =
  xs_cache :: xfactor_cache
  xs_table :: xfactor_table

datatype xf_event =
  Started i64 "(account list \<times> (string \<Rightarrow> (i64 \<times> f64 \<times> string option) list option)) option"
| RequestDone string "string option" i64 i64
| UpdateTick i64 "string \<Rightarrow> i64" "account list option" usage_cache
| PersistTick bool

fun xf_step :: "libm \<Rightarrow> xf_event \<Rightarrow> xf_service \<Rightarrow> xf_service" where
  "xf_step lm (Started now None) st = st\<lparr>xs_cache := []\<rparr>"
| "xf_step lm (Started now (Some (accounts, requests_of))) st =
     st\<lparr>xs_cache := initialize_cache lm now accounts (xs_table st) requests_of []\<rparr>"
| "xf_step lm (RequestDone i model tokens now) st =
     st\<lparr>xs_cache := cache_on_request i model tokens now (xs_cache st)\<rparr>"
| "xf_step lm (UpdateTick now clock accounts uc) st =
     st\<lparr>xs_cache := fst (update_from_usage_cache lm now clock accounts (xs_cache st) uc)\<rparr>"
| "xf_step lm (PersistTick db_ok) st =
     st\<lparr>xs_table := persist_to_db db_ok (xs_cache st) (xs_table st)\<rparr>"

definition xf_run :: "libm \<Rightarrow> xf_event list \<Rightarrow> xf_service" where
  "xf_run lm es = fold (xf_step lm) es \<lparr>xs_cache = [], xs_table = []\<rparr>"

text \<open>A stored row from which an estimator may be restored.\<close>

definition row_ok :: "xfactor_db_state \<Rightarrow> bool" where
  "row_ok db \<longleftrightarrow>
     between (1 / 2 ^ 10) 4 (db_sigma_sq db) \<and> between 0 100 (db_n_eff db) \<and>
     0 \<le> db_ema_proxy_rate db \<and> 0 \<le> db_c_i_hard_lower db"

definition entry_ok :: "string \<times> capacity_state \<Rightarrow> bool" where
  "entry_ok e \<longleftrightarrow> capacity_ok (snd e) \<and> cs_account_id (snd e) = fst e"

definition table_ok :: "xfactor_table \<Rightarrow> bool" where
  "table_ok t \<longleftrightarrow> hm_ok t \<and> list_all (\<lambda>(i, db). row_ok db \<and> db_account_id db = i) t"

definition service_ok :: "xf_service \<Rightarrow> bool" where
  "service_ok st \<longleftrightarrow> hm_ok (xs_cache st) \<and> list_all entry_ok (xs_cache st) \<and> table_ok (xs_table st)"

lemma list_all_insert: "list_all P m \<Longrightarrow> P (k, v) \<Longrightarrow> list_all P (hm_insert k v m)"
  by (induction m) auto

lemma list_all_get: "list_all P m \<Longrightarrow> hm_get m k = Some v \<Longrightarrow> P (k, v)"
  by (auto simp: list_all_iff dest: map_of_SomeD)

lemma row_ok_to_db: "capacity_ok s \<Longrightarrow> row_ok (to_db_state s)"
  by (simp add: row_ok_def to_db_state_def capacity_ok_def)

lemma restore_ok: "row_ok db \<Longrightarrow> capacity_ok s \<Longrightarrow> capacity_ok (restore_from_db db s)"
  by (simp add: row_ok_def capacity_ok_def kalman_ok_def restore_from_db_def)
     (simp add: xfactor_constants zero_f64_def)

lemma rebuild_ok: "capacity_ok s \<Longrightarrow> capacity_ok (rebuild_step r s)"
  by (cases r) (auto simp: rebuild_step_def Let_def capacity_ok_def kalman_ok_def less_f64_def
      intro: f64_add_nonneg)

lemma rebuild_same: "cs_account_id (rebuild_step r s) = cs_account_id s"
  by (cases r) (simp add: rebuild_step_def Let_def)

lemma rebuild_rows_ok:
  "capacity_ok s \<Longrightarrow> capacity_ok (fold rebuild_step rows s) \<and>
     cs_account_id (fold rebuild_step rows s) = cs_account_id s"
  by (induction rows arbitrary: s) (simp_all add: rebuild_ok rebuild_same)

lemma id_new: "cs_account_id (new_state lm now a) = acct_id a"
  by (simp add: new_state_def capacity_new_def split: prod.split)

lemma id_restore: "cs_account_id (restore_from_db db s) = cs_account_id s"
  by (simp add: restore_from_db_def)

lemma initial_ok:
  assumes "table_ok t"
  shows "entry_ok (acct_id a, initial_state lm now t requests_of a)"
proof -
  let ?s = "case load_state (acct_id a) t of
    Some db \<Rightarrow> restore_from_db db (new_state lm now a) | None \<Rightarrow> new_state lm now a"
  have new: "capacity_ok (new_state lm now a)" by (simp add: new_state_def new_ok)
  have "capacity_ok ?s" "cs_account_id ?s = acct_id a"
    using assms new restore_ok [OF _ new]
    by (auto simp: id_new id_restore load_state_def table_ok_def
        split: option.split dest: list_all_get)
  with rebuild_rows_ok [of ?s] show ?thesis
    by (auto simp: initial_state_def entry_ok_def Let_def split: option.split)
qed

lemma cache_fold_ok:
  assumes "\<And>a c. hm_ok c \<Longrightarrow> list_all entry_ok c \<Longrightarrow> hm_ok (f a c) \<and> list_all entry_ok (f a c)"
  shows "hm_ok c \<Longrightarrow> list_all entry_ok c \<Longrightarrow>
    hm_ok (fold f accounts c) \<and> list_all entry_ok (fold f accounts c)"
  using assms by (induction accounts arbitrary: c) auto

lemma initialize_ok:
  "table_ok t \<Longrightarrow> hm_ok (initialize_cache lm now accounts t requests_of []) \<and>
     list_all entry_ok (initialize_cache lm now accounts t requests_of [])"
  unfolding initialize_cache_def
  by (rule cache_fold_ok) (auto intro: list_all_insert initial_ok)

lemma new_entry_ok: "entry_ok (acct_id a, new_state lm now a)"
  by (simp add: entry_ok_def id_new) (simp add: new_state_def new_ok)

lemma add_new_ok:
  assumes "hm_ok c" "list_all entry_ok c"
  shows "hm_ok (add_new_accounts lm now accounts c) \<and> list_all entry_ok (add_new_accounts lm now accounts c)"
  unfolding add_new_accounts_def
  by (rule cache_fold_ok [OF _ assms])
     (auto intro!: list_all_insert simp: new_entry_ok)

lemma id_predict: "cs_account_id (kf_predict_to now s) = cs_account_id s"
  by (simp add: kf_predict_to_def Let_def)

lemma id_poll: "cs_account_id (on_usage_poll lm now u s) = cs_account_id s"
  by (simp add: on_usage_poll_def censored_poll_def external_update_def bayes_update_def
      kf_update_def evict_old_def id_predict Let_def split: prod.split)

lemma id_request: "cs_account_id (xfactor_on_request m n now s) = cs_account_id s"
  by (simp add: xfactor_on_request_def on_request_def evict_old_def Let_def split: prod.split)

lemma poll_from_usage_ok: "entry_ok (i, s) \<Longrightarrow> entry_ok (i, poll_from_usage lm now usage s)"
  by (auto simp: entry_ok_def poll_from_usage_def poll_ok id_poll
      split: option.split any_usage.split)

lemma update_entries_ok:
  "list_all entry_ok c \<Longrightarrow> list_all entry_ok (fst (update_entries lm now clock c uc)) \<and>
     map fst (fst (update_entries lm now clock c uc)) = map fst c"
proof (induction c arbitrary: uc)
  case (Cons e es)
  obtain i s where e: "e = (i, s)" by (cases e)
  obtain usage uc1 where get: "usage_get (clock i) i uc = (usage, uc1)" by fastforce
  obtain es1 uc2 where upd: "update_entries lm now clock es uc1 = (es1, uc2)" by fastforce
  from Cons.IH [of uc1] Cons.prems show ?case
    by (simp add: e get upd poll_from_usage_ok)
qed simp

lemma save_state_ok: "table_ok t \<Longrightarrow> row_ok db \<Longrightarrow> table_ok (save_state db t)"
  by (auto simp: save_state_def table_ok_def intro!: list_all_insert)

lemma save_all_ok: "table_ok t \<Longrightarrow> list_all row_ok states \<Longrightarrow> table_ok (fold save_state states t)"
  by (induction states arbitrary: t) (simp_all add: save_state_ok)

lemma persist_ok: "table_ok t \<Longrightarrow> list_all entry_ok c \<Longrightarrow> table_ok (persist_to_db b c t)"
  by (auto simp: persist_to_db_def save_all_states_def list_all_iff entry_ok_def
      intro!: save_all_ok row_ok_to_db)

lemma request_entry_ok: "entry_ok (i, s) \<Longrightarrow> entry_ok (i, xfactor_on_request m n now s)"
  using id_request [of m n now s] by (simp add: entry_ok_def)
     (simp add: xfactor_on_request_def request_ok weighted_not_NaN)

lemma xf_step_ok: "service_ok st \<Longrightarrow> service_ok (xf_step lm e st)"
proof (induction lm e st rule: xf_step.induct)
  case (3 lm i model tokens now st)
  then show ?case
    by (auto simp: service_ok_def cache_on_request_def
        intro!: list_all_insert request_entry_ok dest: list_all_get split: option.split)
next
  case (4 lm now clock accounts uc st)
  then show ?case
    using update_entries_ok add_new_ok
    by (auto simp: service_ok_def update_from_usage_cache_def hm_ok_def split: option.split)
qed (auto simp: service_ok_def initialize_ok persist_ok)

lemma xf_run_ok: "service_ok (xf_run lm es)"
  unfolding xf_run_def
  by (induction es rule: rev_induct) (simp_all add: xf_step_ok, simp add: service_ok_def table_ok_def)

text \<open>
  C22. The bounds of the estimator hold for every account of the running service, through all starts
  from the database (failed reads included), requests, updates, and persistences.
\<close>

theorem service_bounded:
  "list_all (\<lambda>(i, s). cs_account_id s = i \<and>
      Fin (1 / 1024) \<le> sigma_sq s \<and> sigma_sq s \<le> Fin 4 \<and> 0 \<le> n_eff s \<and> n_eff s \<le> Fin 100 \<and>
      0 \<le> proxy_tokens_5h_weighted s \<and> 0 \<le> ema_proxy_rate s \<and> 0 \<le> c_estimate lm s \<and>
      Fin (- 5000) \<le> kf_e s \<and> 0 \<le> kf_e_dot s \<and> kf_p10 s = kf_p01 s \<and>
      list_all (\<lambda>p. 0 \<le> p \<and> p \<le> Fin (10 ^ 14)) [kf_p00 s, kf_p01 s, kf_p11 s])
    (xs_cache (xf_run lm es))"
proof -
  have "list_all entry_ok (xs_cache (xf_run lm es))"
    using xf_run_ok [of lm es] by (simp add: service_ok_def)
  then show ?thesis
    by (rule list.pred_mono_strong)
       (auto simp: entry_ok_def capacity_ok_def kalman_ok_def between_def f64_zero
         intro!: c_estimate_nonneg)
qed

section \<open>Restarts\<close>

definition posterior :: "capacity_state \<Rightarrow> f64 \<times> f64 \<times> f64 \<times> f64 \<times> f64 \<times> i64" where
  "posterior s = (mu s, sigma_sq s, n_eff s, ema_proxy_rate s, c_i_hard_lower s, lag_estimate_ms s)"

lemma persisted_row:
  assumes "list_all entry_ok c" "hm_ok c" "hm_get c i = Some s"
  shows "load_state i (persist_to_db True c t) = Some (to_db_state s)"
proof -
  have "hm_get (fold save_state (map (to_db_state \<circ> snd) c) t) i =
      (case hm_get c i of Some s \<Rightarrow> Some (to_db_state s) | None \<Rightarrow> hm_get t i)"
    using assms(1,2)
  proof (induction c arbitrary: t)
    case (Cons e c)
    obtain k v where e: "e = (k, v)" by (cases e)
    have "k \<notin> fst ` set c" "hm_ok c" using Cons.prems(2) by (auto simp: hm_ok_def e)
    moreover from this have "hm_get c k = None" by (simp add: map_of_eq_None_iff)
    moreover have "db_account_id (to_db_state v) = k"
      using Cons.prems(1) by (simp add: e entry_ok_def to_db_state_def)
    ultimately show ?case
      using Cons.IH [of "save_state (to_db_state v) t"] Cons.prems(1)
      by (auto simp: e save_state_def split: option.split)
  qed simp
  moreover have "c \<noteq> []" using assms(3) by auto
  ultimately show ?thesis
    using assms(3) by (simp add: load_state_def persist_to_db_def save_all_states_def)
qed

lemma initialized_entry:
  assumes "a \<in> set accounts"
  shows "\<exists>b. acct_id b = acct_id a \<and>
    hm_get (initialize_cache lm now accounts t requests_of c) (acct_id a) =
      Some (initial_state lm now t requests_of b)"
  using assms unfolding initialize_cache_def
  by (induction accounts rule: rev_induct) auto

lemma posterior_rebuild: "posterior (fold rebuild_step rows s) = posterior s \<and>
    kf_e (fold rebuild_step rows s) = kf_e s \<and> kf_e_dot (fold rebuild_step rows s) = kf_e_dot s"
  by (induction rows arbitrary: s) (auto simp: rebuild_step_def posterior_def Let_def split: prod.split)

text \<open>
  What was persisted survives a restart: after any run, once the states are written, a start of
  the program restores every account's posterior (mean, variance, sample count, rate, lower
  bound, lag) as it was, and only the external-usage filter begins anew.
\<close>

theorem restart_keeps_posterior:
  assumes "hm_get (xs_cache (xf_run lm es)) (acct_id a) = Some s" "a \<in> set accounts"
  shows "\<exists>s'. hm_get (xs_cache (xf_run lm (es @ [PersistTick True, Started now (Some (accounts, requests_of))])))
      (acct_id a) = Some s' \<and> posterior s' = posterior s \<and> kf_e s' = 0 \<and> kf_e_dot s' = 0"
proof -
  have ok: "hm_ok (xs_cache (xf_run lm es))" "list_all entry_ok (xs_cache (xf_run lm es))"
    using xf_run_ok [of lm es] by (simp_all add: service_ok_def)
  let ?t = "persist_to_db True (xs_cache (xf_run lm es)) (xs_table (xf_run lm es))"
  have row: "load_state (acct_id a) ?t = Some (to_db_state s)"
    by (rule persisted_row [OF ok(2,1) assms(1)])
  obtain b where b: "acct_id b = acct_id a"
    "hm_get (initialize_cache lm now accounts ?t requests_of []) (acct_id a) =
      Some (initial_state lm now ?t requests_of b)"
    using initialized_entry [OF assms(2)] by blast
  let ?restored = "restore_from_db (to_db_state s) (new_state lm now b)"
  have "posterior ?restored = posterior s" "kf_e ?restored = 0" "kf_e_dot ?restored = 0"
    by (simp_all add: restore_from_db_def to_db_state_def posterior_def)
  then have "posterior (initial_state lm now ?t requests_of b) = posterior s \<and>
      kf_e (initial_state lm now ?t requests_of b) = 0 \<and>
      kf_e_dot (initial_state lm now ?t requests_of b) = 0"
    using row b(1) by (simp add: initial_state_def posterior_rebuild Let_def split: option.split)
  then show ?thesis using b(2) by (simp add: xf_run_def)
qed

text \<open>A row of the request table as the event that wrote it.\<close>

definition row_event :: "request_row \<Rightarrow> capacity_event" where
  "row_event r = Completed (rr_timestamp r) (rr_model r) (row_tokens r)"

lemma nonpos_weighted: "n \<le> 0 \<Longrightarrow> \<not> 0 < f64_of_int n * model_weight m"
proof -
  assume "n \<le> 0"
  then have "rnd (of_int n) \<le> rnd 0" by (intro rnd_mono) simp
  then have "f64_of_int n \<le> Fin 0" by (simp add: f64_of_int_def)
  then show ?thesis
    using weight_pos [of m] weight_of [of m] rnd_mono [of "x * weight_of m" 0 for x]
    by (cases "f64_of_int n")
       (auto simp: less_f64_def zero_f64_def signed_inf_def mult_nonpos_nonneg)
qed

lemma rebuild_exact:
  assumes "exact_window hist s" "list_all (\<lambda>(_, w). quarter w) hist"
    and "sum_list (map snd (hist @ request_log (map row_event rows))) \<le> 2 ^ 50"
  shows "exact_window (hist @ request_log (map row_event rows))
    (fold rebuild_step (map (\<lambda>r. (rr_timestamp r, f64_of_int (row_tokens r), rr_model r)) rows) s)"
  using assms
proof (induction rows arbitrary: hist s)
  case Nil
  then show ?case by (simp add: request_log_def)
next
  case (Cons r rows)
  let ?row = "(rr_timestamp r, f64_of_int (row_tokens r), rr_model r)"
  show ?case
  proof (cases "row_tokens r \<le> 0")
    case True
    with Cons show ?thesis
      by (simp add: request_log_def row_event_def rebuild_step_def nonpos_weighted)
  next
    case False
    define w where "w = of_int (row_tokens r) * weight_of (rr_model r)"
    have q: "quarter w" using False by (simp add: w_def quarter_weighted)
    have log: "request_log (map row_event (r # rows)) = (rr_timestamp r, w) # request_log (map row_event rows)"
      using False by (simp add: request_log_def row_event_def w_def)
    have later: "0 \<le> sum_list (map snd (request_log (map row_event rows)))"
      by (intro quarter_nonneg quarter_sum request_log_quarter)
    have hist: "quarter (sum_list (map snd hist))" using Cons.prems(2) by (rule quarter_sum)
    have le: "w \<le> 2 ^ 50" "sum_list (map snd hist) + w \<le> 2 ^ 50"
      using Cons.prems(3) later quarter_nonneg [OF hist] unfolding log by simp_all
    have "0 < w" using False weight_pos by (simp add: w_def)
    moreover have "f64_of_int (row_tokens r) * model_weight (rr_model r) = Fin w"
      unfolding w_def by (rule weighted_exact) (use False le in \<open>auto simp: w_def\<close>)
    ultimately have "exact_window (hist @ [(rr_timestamp r, w)]) (rebuild_step ?row s)"
      using Cons.prems(1) quarter_exact [OF quarter_add [OF hist q] le(2)]
      by (simp add: rebuild_step_def exact_window_def less_f64_def zero_f64_def)
    from Cons.IH [OF this] Cons.prems(2,3) q show ?thesis unfolding log by simp
  qed
qed

text \<open>
  And the window is rebuilt exactly: after a start it holds the weighted tokens of the account's
  requests of the last five hours as the request table has them, and their exact sum.
\<close>

theorem restart_rebuilds_window:
  assumes "sum_list (map snd (request_log (map row_event (account_rows requests (acct_id a) since)))) \<le> 2 ^ 50"
  shows "exact_window (request_log (map row_event (account_rows requests (acct_id a) since)))
    (initial_state lm now table (\<lambda>i. Some (recent_requests_for_account requests i since)) a)"
proof -
  have "exact_window [] (case load_state (acct_id a) table of
      Some db \<Rightarrow> restore_from_db db (new_state lm now a) | None \<Rightarrow> new_state lm now a)"
    by (auto simp: exact_window_def restore_from_db_def new_state_def capacity_new_def zero_f64_def
        split: option.split prod.split)
  from rebuild_exact [OF this] assms show ?thesis
    by (simp add: initial_state_def recent_requests_for_account_def Let_def)
qed

section \<open>Witnesses\<close>

theorem restart_keeps_posterior_witness:
  "\<exists>s s'. hm_get (xs_cache (xf_run demo_libm [UpdateTick 5 (\<lambda>_. 5) (Some [fresh_account ''a'' ''anthropic'']) []])) ''a'' = Some s \<and>
     hm_get (xs_cache (xf_run demo_libm
       ([UpdateTick 5 (\<lambda>_. 5) (Some [fresh_account ''a'' ''anthropic'']) []] @
        [PersistTick True, Started 9 (Some ([fresh_account ''a'' ''anthropic''], \<lambda>_. None))]))) ''a'' = Some s' \<and>
     posterior s' = posterior s"
proof -
  let ?es = "[UpdateTick 5 (\<lambda>_. 5) (Some [fresh_account ''a'' ''anthropic'']) []]"
  obtain s where s: "hm_get (xs_cache (xf_run demo_libm ?es)) (acct_id (fresh_account ''a'' ''anthropic'')) = Some s"
    by (simp add: xf_run_def update_from_usage_cache_def add_new_accounts_def usage_get_def)
  have mem: "fresh_account ''a'' ''anthropic'' \<in> set [fresh_account ''a'' ''anthropic'']" by simp
  from restart_keeps_posterior [OF s mem, of 9 "\<lambda>_. None"] s show ?thesis by auto
qed

definition demo_request :: request_row where
  "demo_request = \<lparr>rr_timestamp = 40, rr_account_used = Some ''a'', rr_model = None,
     rr_input_tokens = Some 100, rr_output_tokens = Some 20, rr_cache_creation = None,
     rr_cache_read = None\<rparr>"

theorem restart_rebuilds_window_witness:
  "exact_window [(40, 120)] (initial_state demo_libm 50 []
     (\<lambda>i. Some (recent_requests_for_account [demo_request] i 0)) (fresh_account ''a'' ''anthropic''))"
proof -
  have log: "request_log (map row_event (account_rows [demo_request] (acct_id (fresh_account ''a'' ''anthropic'')) 0)) =
      [(40, 120)]"
    by (simp add: account_rows_def demo_request_def request_log_def row_event_def row_tokens_def
        coalesce_def weight_of_def model_weight_def one_f64_def)
  show ?thesis
    using restart_rebuilds_window [of "[demo_request]" "fresh_account ''a'' ''anthropic''" 0 demo_libm 50 "[]"]
    unfolding log by simp
qed

end
