(* ===== verification/Request_Store.thy ===== *)
theory Request_Store
  imports Account_Store
begin

text \<open>
  The tables \<open>requests\<close> and \<open>request_payloads\<close>: \<open>database/src/repositories/request.rs\<close>, the errors
  of \<open>database/src/error.rs\<close>, and the clean-up of old rows, \<open>database/src/retention.rs\<close>. Connections
  are opened with \<open>PRAGMA foreign_keys = ON\<close>, and \<open>request_payloads.request_id\<close> refers to
  \<open>requests.id\<close>: a statement that would leave a payload without its request fails and changes
  nothing. \<open>INSERT OR REPLACE\<close> removes the row with the key and appends the new one. Which rows a
  \<open>LIMIT\<close> without an order takes is unspecified in SQL; it is the first ones here.
\<close>

section \<open>Errors\<close>

datatype sqlite_code = DatabaseBusy | DatabaseLocked | ConstraintViolation string | OtherCode

datatype db_error =
  SqliteError sqlite_code
| PoolError
| MigrationError string
| IoError
| BusyTimeout
| OtherError string

definition is_busy :: "db_error \<Rightarrow> bool" where
  "is_busy e \<longleftrightarrow> e = SqliteError DatabaseBusy \<or> e = SqliteError DatabaseLocked"

definition foreign_key_failed :: db_error where
  "foreign_key_failed = SqliteError (ConstraintViolation ''FOREIGN KEY constraint failed'')"

section \<open>Rows\<close>

record request_rec =
  pr_id :: string
  pr_timestamp :: i64
  pr_method :: string
  pr_path :: string
  pr_account_used :: "string option"
  pr_status_code :: "i64 option"
  pr_success :: bool
  pr_error_message :: "string option"
  pr_response_time_ms :: "i64 option"
  pr_failover_attempts :: i64
  pr_model :: "string option"
  pr_prompt_tokens :: "i64 option"
  pr_completion_tokens :: "i64 option"
  pr_total_tokens :: "i64 option"
  pr_cost_usd :: "f64 option"
  pr_input_tokens :: "i64 option"
  pr_cache_read_input_tokens :: "i64 option"
  pr_cache_creation_input_tokens :: "i64 option"
  pr_output_tokens :: "i64 option"
  pr_agent_used :: "string option"
  pr_tokens_per_second :: "f64 option"
  pr_project :: "string option"
  pr_api_key_id :: "string option"
  pr_api_key_name :: "string option"

record payload_row =
  pl_request_id :: string
  pl_request_body :: "string option"
  pl_response_body :: "string option"

record request_tables =
  t_requests :: "request_rec list"
  t_payloads :: "payload_row list"

definition request_ids :: "request_tables \<Rightarrow> string list" where
  "request_ids t = map pr_id (t_requests t)"

definition payload_ids :: "request_tables \<Rightarrow> string list" where
  "payload_ids t = map pl_request_id (t_payloads t)"

text \<open>What the schema guarantees: the two keys, and the reference.\<close>

definition tables_ok :: "request_tables \<Rightarrow> bool" where
  "tables_ok t \<longleftrightarrow> distinct (request_ids t) \<and> distinct (payload_ids t) \<and>
     set (payload_ids t) \<subseteq> set (request_ids t)"

section \<open>Writes\<close>

definition save_meta ::
  "string \<Rightarrow> string \<Rightarrow> string \<Rightarrow> string option \<Rightarrow> i64 option \<Rightarrow> i64 \<Rightarrow> string option \<Rightarrow>
     string option \<Rightarrow> request_tables \<Rightarrow> db_error + request_tables" where
  "save_meta i meth path acct status timestamp key_id key_name t =
     (if i \<in> set (request_ids t) then Inl (SqliteError (ConstraintViolation ''requests.id''))
      else Inr (t\<lparr>t_requests := t_requests t @
        [\<lparr>pr_id = i, pr_timestamp = timestamp, pr_method = meth, pr_path = path,
          pr_account_used = acct, pr_status_code = status, pr_success = False,
          pr_error_message = None, pr_response_time_ms = Some 0, pr_failover_attempts = 0,
          pr_model = None, pr_prompt_tokens = None, pr_completion_tokens = None,
          pr_total_tokens = None, pr_cost_usd = None, pr_input_tokens = None,
          pr_cache_read_input_tokens = None, pr_cache_creation_input_tokens = None,
          pr_output_tokens = None, pr_agent_used = None, pr_tokens_per_second = None,
          pr_project = None, pr_api_key_id = key_id, pr_api_key_name = key_name\<rparr>]\<rparr>))"

definition save_request :: "request_rec \<Rightarrow> request_tables \<Rightarrow> request_tables" where
  "save_request r t =
     t\<lparr>t_requests := filter (\<lambda>q. pr_id q \<noteq> pr_id r) (t_requests t) @ [r]\<rparr>"

record usage_update =
  uu_model :: "string option"
  uu_prompt_tokens :: "i64 option"
  uu_completion_tokens :: "i64 option"
  uu_total_tokens :: "i64 option"
  uu_cost_usd :: "f64 option"
  uu_input_tokens :: "i64 option"
  uu_cache_read_input_tokens :: "i64 option"
  uu_cache_creation_input_tokens :: "i64 option"
  uu_output_tokens :: "i64 option"
  uu_tokens_per_second :: "f64 option"

definition coalesce2 :: "'a option \<Rightarrow> 'a option \<Rightarrow> 'a option" where
  "coalesce2 a b = (case a of Some v \<Rightarrow> Some v | None \<Rightarrow> b)"

definition on_request_row ::
  "string \<Rightarrow> (request_rec \<Rightarrow> request_rec) \<Rightarrow> request_tables \<Rightarrow> request_tables" where
  "on_request_row i f t =
     t\<lparr>t_requests := map (\<lambda>r. if pr_id r = i then f r else r) (t_requests t)\<rparr>"

definition update_request_usage :: "string \<Rightarrow> usage_update \<Rightarrow> request_tables \<Rightarrow> request_tables" where
  "update_request_usage i u t =
     on_request_row i (\<lambda>r. r
       \<lparr>pr_model := coalesce2 (uu_model u) (pr_model r),
        pr_prompt_tokens := coalesce2 (uu_prompt_tokens u) (pr_prompt_tokens r),
        pr_completion_tokens := coalesce2 (uu_completion_tokens u) (pr_completion_tokens r),
        pr_total_tokens := coalesce2 (uu_total_tokens u) (pr_total_tokens r),
        pr_cost_usd := coalesce2 (uu_cost_usd u) (pr_cost_usd r),
        pr_input_tokens := coalesce2 (uu_input_tokens u) (pr_input_tokens r),
        pr_cache_read_input_tokens :=
          coalesce2 (uu_cache_read_input_tokens u) (pr_cache_read_input_tokens r),
        pr_cache_creation_input_tokens :=
          coalesce2 (uu_cache_creation_input_tokens u) (pr_cache_creation_input_tokens r),
        pr_output_tokens := coalesce2 (uu_output_tokens u) (pr_output_tokens r),
        pr_tokens_per_second := coalesce2 (uu_tokens_per_second u) (pr_tokens_per_second r)\<rparr>) t"

definition update_request_result ::
  "string \<Rightarrow> bool \<Rightarrow> string option \<Rightarrow> i64 \<Rightarrow> i64 \<Rightarrow> request_tables \<Rightarrow> request_tables" where
  "update_request_result i ok err response_ms attempts t =
     on_request_row i (\<lambda>r. r\<lparr>pr_success := ok, pr_error_message := err,
       pr_response_time_ms := Some response_ms, pr_failover_attempts := attempts\<rparr>) t"

definition save_payload ::
  "string \<Rightarrow> string option \<Rightarrow> string option \<Rightarrow> request_tables \<Rightarrow> db_error + request_tables" where
  "save_payload i req resp t =
     (if i \<notin> set (request_ids t) then Inl foreign_key_failed
      else Inr (t\<lparr>t_payloads := filter (\<lambda>p. pl_request_id p \<noteq> i) (t_payloads t) @
        [\<lparr>pl_request_id = i, pl_request_body = req, pl_response_body = resp\<rparr>]\<rparr>))"

definition get_payload :: "string \<Rightarrow> request_tables \<Rightarrow> (string option \<times> string option) option" where
  "get_payload i t =
     map_option (\<lambda>p. (pl_request_body p, pl_response_body p))
       (find (\<lambda>p. pl_request_id p = i) (t_payloads t))"

definition old_request_ids :: "i64 \<Rightarrow> request_tables \<Rightarrow> string set" where
  "old_request_ids cutoff t = set (map pr_id (filter (\<lambda>r. pr_timestamp r < cutoff) (t_requests t)))"

definition delete_payloads_older_than :: "i64 \<Rightarrow> request_tables \<Rightarrow> nat \<times> request_tables" where
  "delete_payloads_older_than cutoff t =
     (let old = (\<lambda>p. pl_request_id p \<in> old_request_ids cutoff t)
      in (length (filter old (t_payloads t)),
          t\<lparr>t_payloads := filter (\<lambda>p. \<not> old p) (t_payloads t)\<rparr>))"

definition delete_orphaned_payloads :: "request_tables \<Rightarrow> nat \<times> request_tables" where
  "delete_orphaned_payloads t =
     (let orphan = (\<lambda>p. pl_request_id p \<notin> set (request_ids t))
      in (length (filter orphan (t_payloads t)),
          t\<lparr>t_payloads := filter (\<lambda>p. \<not> orphan p) (t_payloads t)\<rparr>))"

text \<open>The deletion of the requests in \<open>P\<close>, refused when one of them has a payload.\<close>

definition delete_requests :: "(request_rec \<Rightarrow> bool) \<Rightarrow> request_tables \<Rightarrow> db_error + nat \<times> request_tables" where
  "delete_requests P t =
     (if list_ex (\<lambda>r. P r \<and> pr_id r \<in> set (payload_ids t)) (t_requests t)
      then Inl foreign_key_failed
      else Inr (length (filter P (t_requests t)),
        t\<lparr>t_requests := filter (\<lambda>r. \<not> P r) (t_requests t)\<rparr>))"

definition delete_older_than :: "i64 \<Rightarrow> request_tables \<Rightarrow> db_error + nat \<times> request_tables" where
  "delete_older_than cutoff t = delete_requests (\<lambda>r. pr_timestamp r < cutoff) t"

section \<open>Reads\<close>

definition find_request :: "string \<Rightarrow> request_tables \<Rightarrow> request_rec option" where
  "find_request i t = find (\<lambda>r. pr_id r = i) (t_requests t)"

definition sql_limit :: "i64 \<Rightarrow> 'a list \<Rightarrow> 'a list" where
  "sql_limit n xs = (if n < 0 then xs else take (nat n) xs)"

definition newest_first :: "request_rec list \<Rightarrow> request_rec list" where
  "newest_first rs = sort_by (\<lambda>a b. cmp_of (pr_timestamp b) (pr_timestamp a)) rs"

definition get_recent :: "i64 \<Rightarrow> request_tables \<Rightarrow> request_rec list" where
  "get_recent n t = sql_limit n (newest_first (t_requests t))"

definition get_recent_errors :: "i64 \<Rightarrow> request_tables \<Rightarrow> string list" where
  "get_recent_errors n t =
     sql_limit n (map (\<lambda>r. the (pr_error_message r))
       (filter (\<lambda>r. \<not> pr_success r \<and> pr_error_message r \<noteq> None) (newest_first (t_requests t))))"

record request_stats =
  rs_total :: i64
  rs_successful :: i64
  rs_failed :: i64
  rs_avg_response_time :: "f64 option"

definition get_request_stats :: "i64 option \<Rightarrow> request_tables \<Rightarrow> request_stats" where
  "get_request_stats since t =
     (let rows = (case since of
             None \<Rightarrow> t_requests t
           | Some ts \<Rightarrow> filter (\<lambda>r. pr_timestamp r > ts) (t_requests t));
          measured = List.map_filter pr_response_time_ms rows
      in \<lparr>rs_total = int (length rows),
          rs_successful = int (length (filter pr_success rows)),
          rs_failed = int (length (filter (\<lambda>r. \<not> pr_success r) rows)),
          rs_avg_response_time =
            (if measured = [] then None
             else Some (f64_of_int (sum_list measured) / f64_of_int (int (length measured))))\<rparr>)"

section \<open>Retention\<close>

definition RETENTION_BATCH :: nat where "RETENTION_BATCH = 1000"
definition MS_PER_DAY :: int where "MS_PER_DAY = 24 * 60 * 60 * 1000"

record retention_config =
  data_retention_days :: nat
  request_retention_days :: nat
  xfactor_retention_days :: nat

definition retention_config_default :: retention_config where
  "retention_config_default =
     \<lparr>data_retention_days = 7, request_retention_days = 365, xfactor_retention_days = 30\<rparr>"

text \<open>The first \<open>n\<close> rows that satisfy \<open>P\<close> go.\<close>

fun drop_first :: "nat \<Rightarrow> ('a \<Rightarrow> bool) \<Rightarrow> 'a list \<Rightarrow> 'a list" where
  "drop_first n P [] = []"
| "drop_first n P (x # xs) =
     (if P x then (if n = 0 then x # xs else drop_first (n - 1) P xs) else x # drop_first n P xs)"

text \<open>A loop of batches: it ends at an error or when a batch deletes nothing.\<close>

function batched :: "('a \<Rightarrow> bool) \<Rightarrow> ('a list \<Rightarrow> bool) \<Rightarrow> 'a list \<Rightarrow> 'a list" where
  "batched P refused rows =
     (let rows' = drop_first RETENTION_BATCH P rows
      in if refused rows' \<or> length rows' = length rows then rows
         else batched P refused rows')"
  by pat_completeness auto

lemma length_drop_first: "length (drop_first n P xs) \<le> length xs"
  by (induction n P xs rule: drop_first.induct) (auto intro: le_SucI)

termination batched
proof (relation "measure (\<lambda>(P, refused, rows). length rows)", simp)
  fix P :: "'a \<Rightarrow> bool" and refused :: "'a list \<Rightarrow> bool" and rows x :: "'a list"
  assume "x = drop_first RETENTION_BATCH P rows" "\<not> (refused x \<or> length x = length rows)"
  then show "((P, refused, x), P, refused, rows) \<in> measure (\<lambda>(P, refused, rows). length rows)"
    using length_drop_first [of RETENTION_BATCH P rows] by auto
qed

declare batched.simps [simp del]

definition batched_delete_payloads :: "i64 \<Rightarrow> request_tables \<Rightarrow> request_tables" where
  "batched_delete_payloads cutoff t =
     t\<lparr>t_payloads := batched (\<lambda>p. pl_request_id p \<in> old_request_ids cutoff t) (\<lambda>_. False) (t_payloads t)\<rparr>"

definition batched_delete_requests :: "i64 \<Rightarrow> request_tables \<Rightarrow> request_tables" where
  "batched_delete_requests cutoff t =
     t\<lparr>t_requests := batched (\<lambda>r. pr_timestamp r < cutoff)
       (\<lambda>rows. \<not> set (payload_ids t) \<subseteq> pr_id ` set rows) (t_requests t)\<rparr>"

definition delete_orphaned_payloads_batched :: "request_tables \<Rightarrow> request_tables" where
  "delete_orphaned_payloads_batched t =
     t\<lparr>t_payloads := batched (\<lambda>p. pl_request_id p \<notin> set (request_ids t)) (\<lambda>_. False) (t_payloads t)\<rparr>"

text \<open>The observations of the estimator are rows with a time; nothing refers to them.\<close>

definition batched_delete_xfactor_observations :: "i64 \<Rightarrow> i64 list \<Rightarrow> i64 list" where
  "batched_delete_xfactor_observations cutoff stamps = batched (\<lambda>ms. ms < cutoff) (\<lambda>_. False) stamps"

definition run_cleanup ::
  "bool \<Rightarrow> i64 \<Rightarrow> retention_config \<Rightarrow> request_tables \<times> i64 list \<Rightarrow> request_tables \<times> i64 list" where
  "run_cleanup pool_ok now cfg s =
     (if \<not> pool_ok then s
      else
        (let t = fst s;
             t = batched_delete_payloads (now - int (data_retention_days cfg) * MS_PER_DAY) t;
             t = batched_delete_requests (now - int (request_retention_days cfg) * MS_PER_DAY) t;
             t = delete_orphaned_payloads_batched t
         in (t, batched_delete_xfactor_observations
                  (now - int (xfactor_retention_days cfg) * MS_PER_DAY) (snd s))))"

section \<open>The schema is kept\<close>

lemma ids_simps [simp]:
  "request_ids (t\<lparr>t_payloads := ps\<rparr>) = request_ids t"
  "payload_ids (t\<lparr>t_requests := rs\<rparr>) = payload_ids t"
  by (simp_all add: request_ids_def payload_ids_def)

lemma filter_ids: "map f (filter (\<lambda>x. f x \<noteq> i) xs) = removeAll i (map f xs)"
  by (induction xs) auto

lemma tables_okI:
  "distinct (request_ids t) \<Longrightarrow> distinct (payload_ids t) \<Longrightarrow>
     (\<And>i. i \<in> set (payload_ids t) \<Longrightarrow> i \<in> set (request_ids t)) \<Longrightarrow> tables_ok t"
  by (auto simp: tables_ok_def)

lemma tables_okD:
  assumes "tables_ok t"
  shows "distinct (request_ids t)" "distinct (payload_ids t)"
    "i \<in> set (payload_ids t) \<Longrightarrow> i \<in> set (request_ids t)"
  using assms by (auto simp: tables_ok_def)

lemma save_request_ids: "request_ids (save_request r t) = removeAll (pr_id r) (request_ids t) @ [pr_id r]"
  by (simp add: save_request_def request_ids_def filter_ids)

lemma save_request_ok: "tables_ok t \<Longrightarrow> tables_ok (save_request r t)"
  by (rule tables_okI)
     (auto simp: save_request_ids distinct_removeAll tables_okD, auto simp: save_request_def dest: tables_okD)

lemma save_meta_ok:
  "save_meta i meth path acct status ts key_id key_name t = Inr t' \<Longrightarrow> tables_ok t \<Longrightarrow> tables_ok t'"
  by (rule tables_okI)
     (auto simp: save_meta_def request_ids_def [of "t\<lparr>t_requests := rs\<rparr>" for rs] tables_okD
        request_ids_def [symmetric] dest: tables_okD(3) split: if_splits)

lemma on_request_row_ok:
  "(\<And>r. pr_id (f r) = pr_id r) \<Longrightarrow> tables_ok (on_request_row i f t) \<longleftrightarrow> tables_ok t"
proof -
  assume "\<And>r. pr_id (f r) = pr_id r"
  then have "request_ids (on_request_row i f t) = request_ids t"
    by (simp add: request_ids_def on_request_row_def comp_def cong: if_cong)
  then show ?thesis
    by (simp add: tables_ok_def payload_ids_def on_request_row_def)
qed

lemma update_request_ok:
  "tables_ok (update_request_usage i u t) \<longleftrightarrow> tables_ok t"
  "tables_ok (update_request_result i ok err ms n t) \<longleftrightarrow> tables_ok t"
  by (simp_all add: update_request_usage_def update_request_result_def on_request_row_ok)

lemma save_payload_ids:
  "save_payload i req resp t = Inr t' \<Longrightarrow>
     i \<in> set (request_ids t) \<and> request_ids t' = request_ids t \<and>
     payload_ids t' = removeAll i (payload_ids t) @ [i]"
  by (auto simp: save_payload_def payload_ids_def filter_ids split: if_splits)

lemma save_payload_ok: "save_payload i req resp t = Inr t' \<Longrightarrow> tables_ok t \<Longrightarrow> tables_ok t'"
  by (rule tables_okI) (auto dest!: save_payload_ids simp: distinct_removeAll tables_okD dest: tables_okD(3))

lemma payloads_filter_ok: "tables_ok t \<Longrightarrow> tables_ok (t\<lparr>t_payloads := filter P (t_payloads t)\<rparr>)"
  by (auto simp: tables_ok_def payload_ids_def distinct_map_filter)

lemma delete_requests_ok:
  assumes "delete_requests P t = Inr (n, t')" "tables_ok t"
  shows "tables_ok t'"
proof (rule tables_okI)
  have t': "t' = t\<lparr>t_requests := filter (\<lambda>r. \<not> P r) (t_requests t)\<rparr>"
    and free: "\<And>r. r \<in> set (t_requests t) \<Longrightarrow> P r \<Longrightarrow> pr_id r \<notin> set (payload_ids t)"
    using assms(1) by (auto simp: delete_requests_def list_ex_iff split: if_splits)
  show "distinct (request_ids t')" "distinct (payload_ids t')"
    using assms(2) by (auto simp: t' tables_ok_def request_ids_def distinct_map_filter)
  fix i assume "i \<in> set (payload_ids t')"
  with tables_okD(3) [OF assms(2), of i] free show "i \<in> set (request_ids t')"
    by (auto simp: t' request_ids_def)
qed

section \<open>What the clean-up keeps\<close>

lemma filter_drop_first: "filter (\<lambda>x. \<not> P x) (drop_first n P xs) = filter (\<lambda>x. \<not> P x) xs"
  by (induction n P xs rule: drop_first.induct) auto

lemma drop_first_none:
  "0 < n \<Longrightarrow> length (drop_first n P xs) = length xs \<Longrightarrow> filter (\<lambda>x. \<not> P x) xs = xs"
proof (induction n P xs rule: drop_first.induct)
  case (2 n P x xs)
  then show ?case
    using length_drop_first [of "n - 1" P xs] by (auto split: if_splits)
qed simp

lemma drop_first_all: "length (filter P xs) \<le> n \<Longrightarrow> drop_first n P xs = filter (\<lambda>x. \<not> P x) xs"
  by (induction n P xs rule: drop_first.induct) auto

text \<open>Where no batch that keeps the rest is refused, the loop deletes exactly the rows in question.\<close>

lemma batched_filter:
  assumes "\<And>rows'. filter (\<lambda>x. \<not> P x) rows' = filter (\<lambda>x. \<not> P x) rows \<Longrightarrow> \<not> refused rows'"
  shows "batched P refused rows = filter (\<lambda>x. \<not> P x) rows"
  using assms
proof (induction P refused rows rule: batched.induct)
  case (1 P refused rows)
  let ?rows' = "drop_first RETENTION_BATCH P rows"
  have ok: "\<not> refused ?rows'"
    using "1.prems" filter_drop_first by blast
  show ?case
  proof (cases "length ?rows' = length rows")
    case True
    then show ?thesis
      using drop_first_none [of RETENTION_BATCH P rows]
      by (subst batched.simps) (simp add: Let_def RETENTION_BATCH_def)
  next
    case False
    with ok "1.IH" [OF refl] "1.prems" show ?thesis
      by (subst batched.simps) (simp add: Let_def filter_drop_first)
  qed
qed

lemma cleanup_result:
  assumes "tables_ok t" "data_retention_days cfg \<le> request_retention_days cfg"
  shows "run_cleanup True now cfg (t, obs) =
    (t\<lparr>t_requests := filter (\<lambda>r. now - int (request_retention_days cfg) * MS_PER_DAY \<le> pr_timestamp r)
         (t_requests t),
       t_payloads := filter (\<lambda>p. pl_request_id p \<notin>
           old_request_ids (now - int (data_retention_days cfg) * MS_PER_DAY) t) (t_payloads t)\<rparr>,
     filter (\<lambda>ms. now - int (xfactor_retention_days cfg) * MS_PER_DAY \<le> ms) obs)"
proof -
  let ?pc = "now - int (data_retention_days cfg) * MS_PER_DAY"
  let ?rc = "now - int (request_retention_days cfg) * MS_PER_DAY"
  define t1 where "t1 = t\<lparr>t_payloads := filter (\<lambda>p. pl_request_id p \<notin> old_request_ids ?pc t) (t_payloads t)\<rparr>"
  define t2 where "t2 = t1\<lparr>t_requests := filter (\<lambda>r. \<not> pr_timestamp r < ?rc) (t_requests t)\<rparr>"
  have le: "?rc \<le> ?pc"
    using assms(2) by (simp add: MS_PER_DAY_def)
  have kept: "set (payload_ids t1) \<subseteq> pr_id ` set (filter (\<lambda>r. \<not> pr_timestamp r < ?rc) (t_requests t))"
  proof
    fix i assume "i \<in> set (payload_ids t1)"
    then have "i \<in> set (payload_ids t)" "i \<notin> old_request_ids ?pc t"
      by (auto simp: t1_def payload_ids_def)
    with assms(1) obtain r where "r \<in> set (t_requests t)" "pr_id r = i" "\<not> pr_timestamp r < ?pc"
      by (fastforce simp: tables_ok_def request_ids_def old_request_ids_def)
    with le show "i \<in> pr_id ` set (filter (\<lambda>r. \<not> pr_timestamp r < ?rc) (t_requests t))"
      by auto
  qed
  have 1: "batched_delete_payloads ?pc t = t1"
    by (simp add: batched_delete_payloads_def batched_filter t1_def)
  have 2: "batched_delete_requests ?rc t1 = t2"
  proof -
    have "set (payload_ids t1) \<subseteq> pr_id ` set rows'"
      if "filter (\<lambda>r. \<not> pr_timestamp r < ?rc) rows' = filter (\<lambda>r. \<not> pr_timestamp r < ?rc) (t_requests t1)"
      for rows'
    proof -
      have "set (filter (\<lambda>r. \<not> pr_timestamp r < ?rc) rows') \<subseteq> set rows'" by auto
      with kept that show ?thesis by (fastforce simp: t1_def)
    qed
    then show ?thesis
      by (simp add: batched_delete_requests_def batched_filter t2_def) (simp add: t1_def)
  qed
  have "filter (\<lambda>p. pl_request_id p \<in> set (request_ids t2)) (t_payloads t2) = t_payloads t2"
    using kept by (auto simp: t2_def payload_ids_def request_ids_def filter_id_conv image_iff)
  then have 3: "delete_orphaned_payloads_batched t2 = t2"
    by (simp add: delete_orphaned_payloads_batched_def batched_filter)
  have "run_cleanup True now cfg (t, obs) =
      (t2, filter (\<lambda>ms. now - int (xfactor_retention_days cfg) * MS_PER_DAY \<le> ms) obs)"
    by (simp add: run_cleanup_def Let_def 1 2 3 batched_delete_xfactor_observations_def batched_filter
        linorder_not_less)
  then show ?thesis
    by (simp add: t2_def t1_def linorder_not_less)
qed


text \<open>
  When requests are to be kept for a shorter time than payloads, one request between the two
  limits that has a payload stops the deletion of requests altogether: the batch it is in
  violates the foreign key, and the loop gives up.
\<close>

theorem cleanup_blocked:
  assumes "tables_ok t" "r \<in> set (t_requests t)" "pr_id r \<in> set (payload_ids t)"
    and "now - int (data_retention_days cfg) * MS_PER_DAY \<le> pr_timestamp r"
    and "pr_timestamp r < now - int (request_retention_days cfg) * MS_PER_DAY"
    and "length (filter (\<lambda>r. pr_timestamp r < now - int (request_retention_days cfg) * MS_PER_DAY)
      (t_requests t)) \<le> RETENTION_BATCH"
  shows "t_requests (fst (run_cleanup True now cfg (t, obs))) = t_requests t"
proof -
  let ?pc = "now - int (data_retention_days cfg) * MS_PER_DAY"
  let ?rc = "now - int (request_retention_days cfg) * MS_PER_DAY"
  define t1 where "t1 = batched_delete_payloads ?pc t"
  have t1: "t1 = t\<lparr>t_payloads := filter (\<lambda>p. pl_request_id p \<notin> old_request_ids ?pc t) (t_payloads t)\<rparr>"
    by (simp add: t1_def batched_delete_payloads_def batched_filter)
  have unique: "q = r" if "q \<in> set (t_requests t)" "pr_id q = pr_id r" for q
    using that assms(1,2) by (auto simp: tables_ok_def request_ids_def distinct_map dest: inj_onD)
  have "pr_id r \<notin> old_request_ids ?pc t"
    using assms(4) unique by (fastforce simp: old_request_ids_def)
  then have payload: "pr_id r \<in> set (payload_ids t1)"
    using assms(3) by (auto simp: t1 payload_ids_def)
  have "pr_id r \<notin> pr_id ` set (filter (\<lambda>r. \<not> pr_timestamp r < ?rc) (t_requests t))"
    using unique assms(5) by fastforce
  with payload have "\<not> set (payload_ids t1) \<subseteq>
      pr_id ` set (drop_first RETENTION_BATCH (\<lambda>r. pr_timestamp r < ?rc) (t_requests t))"
    using drop_first_all [OF assms(6)] by auto
  then have "batched_delete_requests ?rc t1 = t1"
    by (simp add: batched_delete_requests_def t1) (subst batched.simps, simp add: Let_def)
  then show ?thesis
    by (simp add: run_cleanup_def Let_def t1_def [symmetric] delete_orphaned_payloads_batched_def) (simp add: t1)
qed

definition demo_request_row :: "string \<Rightarrow> i64 \<Rightarrow> request_rec" where
  "demo_request_row i ts = hd (t_requests (projr (save_meta i ''POST'' ''/v1/messages'' None None ts None None
     \<lparr>t_requests = [], t_payloads = []\<rparr>)))"

lemma demo_request_row [simp]:
  "pr_id (demo_request_row i ts) = i" "pr_timestamp (demo_request_row i ts) = ts"
  by (simp_all add: demo_request_row_def save_meta_def request_ids_def)

text \<open>A request of ten days ago with its payload, and one of today.\<close>

definition demo_tables :: request_tables where
  "demo_tables =
     \<lparr>t_requests = [demo_request_row ''a'' 0, demo_request_row ''b'' 864000000],
      t_payloads = [\<lparr>pl_request_id = ''a'', pl_request_body = None, pl_response_body = None\<rparr>]\<rparr>"

lemma demo_tables_ok: "tables_ok demo_tables"
  by (simp add: tables_ok_def demo_tables_def request_ids_def payload_ids_def)


theorem cleanup_blocked_witness:
  "t_requests (fst (run_cleanup True 864000000
     (retention_config_default\<lparr>data_retention_days := 30, request_retention_days := 7\<rparr>)
     (demo_tables, []))) = t_requests demo_tables"
  by (rule cleanup_blocked [OF demo_tables_ok, of "demo_request_row ''a'' 0"])
     (simp_all add: retention_config_default_def demo_tables_def MS_PER_DAY_def payload_ids_def
       RETENTION_BATCH_def)

end
