(* ===== verification/Models.thy ===== *)
theory Models
  imports Text_Json
begin

text \<open>
  The models the program knows and the mapping of their names: \<open>core/src/models.rs\<close>.
  \<open>str::to_lowercase\<close> needs the Unicode tables and is the parameter \<open>lower\<close>; the deserialisation of
  the two JSON texts is a parameter as well.
\<close>

definition HAIKU_3_5 :: string where "HAIKU_3_5 = ''claude-3-5-haiku-20241022''"
definition SONNET_3_5 :: string where "SONNET_3_5 = ''claude-3-5-sonnet-20241022''"
definition SONNET_4 :: string where "SONNET_4 = ''claude-sonnet-4-20250514''"
definition SONNET_4_5 :: string where "SONNET_4_5 = ''claude-sonnet-4-5-20250929''"
definition SONNET_4_6 :: string where "SONNET_4_6 = ''claude-sonnet-4-6''"
definition HAIKU_4_5 :: string where "HAIKU_4_5 = ''claude-haiku-4-5-20251001''"
definition OPUS_4 :: string where "OPUS_4 = ''claude-opus-4-20250514''"
definition OPUS_4_1 :: string where "OPUS_4_1 = ''claude-opus-4-1-20250805''"
definition OPUS_4_5 :: string where "OPUS_4_5 = ''claude-opus-4-5-20251101''"
definition OPUS_4_6 :: string where "OPUS_4_6 = ''claude-opus-4-6''"
definition OPUS_3 :: string where "OPUS_3 = ''claude-3-opus-20240229''"
definition SONNET_3 :: string where "SONNET_3 = ''claude-3-sonnet-20240229''"

lemmas model_ids =
  HAIKU_3_5_def SONNET_3_5_def SONNET_4_def SONNET_4_5_def SONNET_4_6_def HAIKU_4_5_def
  OPUS_4_def OPUS_4_1_def OPUS_4_5_def OPUS_4_6_def OPUS_3_def SONNET_3_def

definition DEFAULT_MODEL :: string where "DEFAULT_MODEL = SONNET_4_6"
definition DEFAULT_AGENT_MODEL :: string where "DEFAULT_AGENT_MODEL = SONNET_4_6"

definition ALL_MODEL_IDS :: "string list" where
  "ALL_MODEL_IDS =
     [HAIKU_3_5, SONNET_3_5, SONNET_4, SONNET_4_5, SONNET_4_6, HAIKU_4_5, OPUS_4, OPUS_4_1,
      OPUS_4_5, OPUS_4_6, OPUS_3, SONNET_3]"

definition display_names :: "(string \<times> string) list" where
  "display_names =
     [(HAIKU_3_5, ''Claude Haiku 3.5''), (SONNET_3_5, ''Claude Sonnet 3.5 v2''),
      (SONNET_4, ''Claude Sonnet 4''), (SONNET_4_5, ''Claude Sonnet 4.5''),
      (SONNET_4_6, ''Claude Sonnet 4.6''), (HAIKU_4_5, ''Claude Haiku 4.5''),
      (OPUS_4, ''Claude Opus 4''), (OPUS_4_1, ''Claude Opus 4.1''),
      (OPUS_4_5, ''Claude Opus 4.5''), (OPUS_4_6, ''Claude Opus 4.6''),
      (OPUS_3, ''Claude Opus 3''), (SONNET_3, ''Claude Sonnet 3'')]"

definition get_model_display_name :: "string \<Rightarrow> string" where
  "get_model_display_name i = (case map_of display_names i of Some name \<Rightarrow> name | None \<Rightarrow> i)"

definition short_names :: "(string \<times> string) list" where
  "short_names =
     [(HAIKU_3_5, ''claude-3.5-haiku''), (SONNET_3_5, ''claude-3.5-sonnet''),
      (SONNET_4, ''claude-sonnet-4''), (SONNET_4_5, ''claude-sonnet-4.5''),
      (SONNET_4_6, ''claude-sonnet-4.6''), (HAIKU_4_5, ''claude-haiku-4.5''),
      (OPUS_4, ''claude-opus-4''), (OPUS_4_1, ''claude-opus-4.1''),
      (OPUS_4_5, ''claude-opus-4.5''), (OPUS_4_6, ''claude-opus-4.6''),
      (OPUS_3, ''claude-3-opus''), (SONNET_3, ''claude-3-sonnet'')]"

definition get_model_short_name :: "string \<Rightarrow> string" where
  "get_model_short_name i = (case map_of short_names i of Some name \<Rightarrow> name | None \<Rightarrow> i)"

definition is_valid_model_id :: "string \<Rightarrow> bool" where
  "is_valid_model_id i \<longleftrightarrow> i \<in> set ALL_MODEL_IDS"

section \<open>Mappings to other providers\<close>

definition model_families :: "string list" where
  "model_families = [''opus'', ''haiku'', ''sonnet'']"

definition default_model_mappings :: "(string, string) hash_map" where
  "default_model_mappings =
     [(''opus'', ''openai/gpt-5''), (''sonnet'', ''openai/gpt-5''), (''haiku'', ''openai/gpt-5-mini'')]"

fun family_mapping :: "(string, string) hash_map \<Rightarrow> string \<Rightarrow> string list \<Rightarrow> string option" where
  "family_mapping mappings normalized [] = None"
| "family_mapping mappings normalized (p # ps) =
     (if contains_str normalized p
      then (case hm_get mappings p of
              Some mapped \<Rightarrow> Some mapped
            | None \<Rightarrow> family_mapping mappings normalized ps)
      else family_mapping mappings normalized ps)"

definition map_model_name ::
  "(string \<Rightarrow> string) \<Rightarrow> string \<Rightarrow> (string, string) hash_map \<Rightarrow> string" where
  "map_model_name lower model mappings =
     (case hm_get mappings model of
        Some mapped \<Rightarrow> mapped
      | None \<Rightarrow>
          (case family_mapping mappings (lower model) model_families of
             Some mapped \<Rightarrow> mapped
           | None \<Rightarrow>
               (case hm_get mappings ''sonnet'' of
                  Some mapped \<Rightarrow> mapped
                | None \<Rightarrow> ''openai/gpt-5'')))"

definition parse_custom_endpoint_data ::
  "(string \<Rightarrow> (string option \<times> (string, string) hash_map option) option) \<Rightarrow> string \<Rightarrow>
     string option \<times> (string, string) hash_map option" where
  "parse_custom_endpoint_data endpoint_data custom_endpoint =
     (let trimmed = trim custom_endpoint
      in if trimmed = [] then (None, None)
         else if \<not> starts_with trimmed ''{'' then (Some trimmed, None)
         else (case endpoint_data trimmed of
                 Some d \<Rightarrow> d
               | None \<Rightarrow> (Some trimmed, None)))"

section \<open>What the tables promise\<close>

lemma ALL_MODEL_IDS_distinct: "distinct ALL_MODEL_IDS"
  by code_simp

text \<open>Every known model has a name of its own, and no name of a model is the id of another.\<close>

theorem model_names_unique:
  "map fst display_names = ALL_MODEL_IDS \<and> map fst short_names = ALL_MODEL_IDS \<and>
   distinct (map get_model_display_name ALL_MODEL_IDS) \<and>
   distinct (map get_model_short_name ALL_MODEL_IDS) \<and>
   set (map get_model_display_name ALL_MODEL_IDS) \<inter> set ALL_MODEL_IDS = {}"
  by code_simp

text \<open>A mapped name is one of the configured ones or the built-in last resort.\<close>

lemma family_mapping_ran: "family_mapping mappings n ps = Some m \<Longrightarrow> m \<in> snd ` set mappings"
  by (induction ps) (auto split: if_splits option.splits dest!: map_of_SomeD intro: rev_image_eqI)

theorem map_model_name_configured:
  "map_model_name lower model mappings \<in> insert ''openai/gpt-5'' (snd ` set mappings)"
  by (auto simp: map_model_name_def dest!: map_of_SomeD family_mapping_ran intro: rev_image_eqI
      split: option.split)

end
