(* ===== verification/Pricing.thy ===== *)
theory Pricing
  imports XFactor_Service Proxy_Handler Request_Store Models
begin

text \<open>
  What a request costs: \<open>proxy/src/pricing.rs\<close>. Prices come from a remote table that is fetched
  at start-up, from a table in the program, and, for a name that neither holds, from the first
  entry whose key contains the name or is contained in it. Such a match is cached. A hash map is
  the list of its entries in the order in which it iterates. \<open>str::to_lowercase\<close> needs the Unicode
  tables; it is the parameter \<open>lower\<close>.
\<close>

section \<open>Prices\<close>

record model_cost =
  mc_input :: f64
  mc_output :: f64
  mc_cache_read :: f64
  mc_cache_write :: f64

record token_breakdown =
  tb_input_tokens :: i64
  tb_output_tokens :: i64
  tb_cache_read_input_tokens :: i64
  tb_cache_creation_input_tokens :: i64

definition token_breakdown_of :: "stream_usage \<Rightarrow> token_breakdown" where
  "token_breakdown_of u =
     \<lparr>tb_input_tokens = coalesce (su_input_tokens u),
      tb_output_tokens = coalesce (su_output_tokens u),
      tb_cache_read_input_tokens = coalesce (su_cache_read_input_tokens u),
      tb_cache_creation_input_tokens = coalesce (su_cache_creation_input_tokens u)\<rparr>"

definition price :: "rat \<Rightarrow> rat \<Rightarrow> rat \<Rightarrow> rat \<Rightarrow> model_cost" where
  "price i out r w =
     \<lparr>mc_input = lit i, mc_output = lit out, mc_cache_read = lit r, mc_cache_write = lit w\<rparr>"

type_synonym price_table = "(string, model_cost) hash_map"

definition bundled_pricing :: price_table where
  "bundled_pricing =
     [(''claude-3-haiku-20240307'', price (1 / 4) (5 / 4) (3 / 100) (3 / 10)),
      (''claude-3-5-haiku-20241022'', price (8 / 10) 4 (8 / 100) 1),
      (''claude-3-5-haiku-latest'', price (8 / 10) 4 (8 / 100) 1),
      (''claude-3-5-sonnet-20241022'', price 3 15 (3 / 10) (15 / 4)),
      (''claude-3-5-sonnet-latest'', price 3 15 (3 / 10) (15 / 4)),
      (''claude-haiku-4-5-20251001'', price 1 5 (1 / 10) (5 / 4)),
      (''claude-3-7-sonnet-20250219'', price 3 15 (3 / 10) (15 / 4)),
      (''claude-sonnet-4-20250514'', price 3 15 (3 / 10) (15 / 4)),
      (''claude-sonnet-4-5-20250929'', price 3 15 (3 / 10) (15 / 4)),
      (''claude-opus-4-20250514'', price 15 75 (3 / 2) (75 / 4)),
      (''claude-opus-4-5-20250414'', price 5 25 (1 / 2) (25 / 4)),
      (''claude-opus-4-6'', price 5 25 (1 / 2) (25 / 4)),
      (''claude-3-opus-20240229'', price 15 75 (3 / 2) (75 / 4)),
      (''glm-4.5'', price (6 / 10) (22 / 10) 0 0),
      (''glm-4.5-air'', price (2 / 10) (11 / 10) 0 0),
      (''glm-4.6'', price (6 / 10) (22 / 10) 0 0),
      (''glm-4.6-air'', price (2 / 10) (11 / 10) 0 0),
      (''MiniMax-M2'', price (3 / 10) (12 / 10) 0 0)]"

section \<open>The remote table\<close>

definition per_token_to_per_mtok :: "f64 \<Rightarrow> f64" where
  "per_token_to_per_mtok per_token = per_token * lit 1000000"

definition get_f64 :: "json \<Rightarrow> string \<Rightarrow> f64 option" where
  "get_f64 j k = Option.bind (json_get j k) as_f64"

definition remote_cost :: "json \<Rightarrow> model_cost option" where
  "remote_cost obj =
     map_option (\<lambda>input.
         let field = (\<lambda>k. case get_f64 obj k of Some v \<Rightarrow> v | None \<Rightarrow> lit 0)
         in \<lparr>mc_input = per_token_to_per_mtok input,
             mc_output = per_token_to_per_mtok (field ''output_cost_per_token''),
             mc_cache_read = per_token_to_per_mtok (field ''cache_read_input_token_cost''),
             mc_cache_write = per_token_to_per_mtok (field ''cache_creation_input_token_cost'')\<rparr>)
       (get_f64 obj ''input_cost_per_token'')"

definition bare_key :: "string \<Rightarrow> bool" where
  "bare_key key \<longleftrightarrow> CHR ''/'' \<notin> set key \<and> CHR ''.'' \<notin> set key"

fun remote_table :: "(string \<times> json) list \<Rightarrow> price_table \<Rightarrow> price_table" where
  "remote_table [] pricing = pricing"
| "remote_table ((key, obj) # raw) pricing =
     (if \<not> bare_key key then remote_table raw pricing
      else case remote_cost obj of
          None \<Rightarrow> remote_table raw pricing
        | Some cost \<Rightarrow> remote_table raw (hm_insert key cost pricing))"

text \<open>
  What a fetch may give: no answer at all, or a status with a body that may be unreadable.
  \<open>px_bundled\<close> is the table of the program, in the order of its hash map.
\<close>

type_synonym fetched = "(nat \<times> string option) option"

record pricing =
  px_remote :: price_table
  px_bundled :: price_table
  px_fuzzy :: "(string, model_cost option) hash_map"
  px_warned :: "string list"

definition pricing_start :: "price_table \<Rightarrow> pricing" where
  "pricing_start bundled =
     \<lparr>px_remote = [], px_bundled = bundled, px_fuzzy = [], px_warned = []\<rparr>"

text \<open>\<open>arrange\<close> is the order in which the hash map built from the body iterates.\<close>

definition refresh_remote_pricing ::
  "(string \<Rightarrow> json option) \<Rightarrow> (price_table \<Rightarrow> price_table) \<Rightarrow> fetched \<Rightarrow> pricing \<Rightarrow> pricing" where
  "refresh_remote_pricing from_str arrange fetched s =
     (case fetched of
        None \<Rightarrow> s
      | Some (status, body) \<Rightarrow>
          if \<not> (200 \<le> status \<and> status < 300) then s
          else case Option.bind (Option.bind body from_str) as_object of
              None \<Rightarrow> s
            | Some raw \<Rightarrow> s\<lparr>px_remote := arrange (remote_table raw []), px_fuzzy := []\<rparr>)"

section \<open>Lookups\<close>

definition fuzzy_match :: "(string \<Rightarrow> string) \<Rightarrow> string \<Rightarrow> string \<Rightarrow> bool" where
  "fuzzy_match lower model key \<longleftrightarrow>
     contains_str (lower model) key \<or> contains_str key (lower model)"

definition fuzzy_find :: "(string \<Rightarrow> string) \<Rightarrow> string \<Rightarrow> price_table \<Rightarrow> model_cost option" where
  "fuzzy_find lower model table =
     map_option snd (find (\<lambda>(key, cost). fuzzy_match lower model key) table)"

definition fuzzy_scan ::
  "(string \<Rightarrow> string) \<Rightarrow> string \<Rightarrow> price_table \<Rightarrow> price_table \<Rightarrow> model_cost option" where
  "fuzzy_scan lower model remote bundled =
     (case fuzzy_find lower model remote of
        Some cost \<Rightarrow> Some cost
      | None \<Rightarrow> fuzzy_find lower model bundled)"

definition exact_price :: "pricing \<Rightarrow> string \<Rightarrow> model_cost option" where
  "exact_price s model =
     (case hm_get (px_remote s) model of
        Some cost \<Rightarrow> Some cost
      | None \<Rightarrow> hm_get (px_bundled s) model)"

definition get_model_pricing ::
  "(string \<Rightarrow> string) \<Rightarrow> string \<Rightarrow> pricing \<Rightarrow> model_cost option \<times> pricing" where
  "get_model_pricing lower model s =
     (case exact_price s model of
        Some cost \<Rightarrow> (Some cost, s)
      | None \<Rightarrow>
          (case hm_get (px_fuzzy s) model of
             Some cached \<Rightarrow> (cached, s)
           | None \<Rightarrow>
               (let found = fuzzy_scan lower model (px_remote s) (px_bundled s)
                in (found, s\<lparr>px_fuzzy := hm_insert model found (px_fuzzy s)\<rparr>))))"

text \<open>
  The lookup holds no lock while it scans: it reads the tables and the cache, and inserts what it
  found later. These are its two halves.
\<close>

datatype lookup_state = Known "model_cost option" | Scanned string "model_cost option"

definition lookup_begin :: "(string \<Rightarrow> string) \<Rightarrow> string \<Rightarrow> pricing \<Rightarrow> lookup_state" where
  "lookup_begin lower model s =
     (case exact_price s model of
        Some cost \<Rightarrow> Known (Some cost)
      | None \<Rightarrow>
          (case hm_get (px_fuzzy s) model of
             Some cached \<Rightarrow> Known cached
           | None \<Rightarrow> Scanned model (fuzzy_scan lower model (px_remote s) (px_bundled s))))"

fun lookup_end :: "lookup_state \<Rightarrow> pricing \<Rightarrow> model_cost option \<times> pricing" where
  "lookup_end (Known found) s = (found, s)"
| "lookup_end (Scanned model found) s =
     (found, s\<lparr>px_fuzzy := hm_insert model found (px_fuzzy s)\<rparr>)"

definition token_cost :: "model_cost \<Rightarrow> token_breakdown \<Rightarrow> f64" where
  "token_cost cost t =
     (let per_token = lit 1000000 in
      f64_of_int (tb_input_tokens t) * mc_input cost / per_token +
      f64_of_int (tb_output_tokens t) * mc_output cost / per_token +
      f64_of_int (tb_cache_read_input_tokens t) * mc_cache_read cost / per_token +
      f64_of_int (tb_cache_creation_input_tokens t) * mc_cache_write cost / per_token)"

definition estimate_cost_usd ::
  "(string \<Rightarrow> string) \<Rightarrow> string \<Rightarrow> token_breakdown \<Rightarrow> pricing \<Rightarrow> f64 \<times> pricing" where
  "estimate_cost_usd lower model tokens s =
     (case get_model_pricing lower model s of
        (Some cost, s) \<Rightarrow> (token_cost cost tokens, s)
      | (None, s) \<Rightarrow> (lit 0, s\<lparr>px_warned := List.insert model (px_warned s)\<rparr>))"

section \<open>The cache is transparent\<close>

text \<open>The price without a cache.\<close>

definition price_of :: "(string \<Rightarrow> string) \<Rightarrow> pricing \<Rightarrow> string \<Rightarrow> model_cost option" where
  "price_of lower s model =
     (case exact_price s model of
        Some cost \<Rightarrow> Some cost
      | None \<Rightarrow> fuzzy_scan lower model (px_remote s) (px_bundled s))"

definition cache_sound :: "(string \<Rightarrow> string) \<Rightarrow> pricing \<Rightarrow> bool" where
  "cache_sound lower s \<longleftrightarrow>
     (\<forall>model found. hm_get (px_fuzzy s) model = Some found \<longrightarrow>
        found = fuzzy_scan lower model (px_remote s) (px_bundled s))"

definition same_tables :: "pricing \<Rightarrow> pricing \<Rightarrow> bool" where
  "same_tables s s' \<longleftrightarrow> px_remote s = px_remote s' \<and> px_bundled s = px_bundled s'"

lemma same_tables_exact: "same_tables s s' \<Longrightarrow> exact_price s = exact_price s'"
  by (rule ext) (auto simp: same_tables_def exact_price_def split: option.split)

lemma same_tables_price: "same_tables s s' \<Longrightarrow> price_of lower s = price_of lower s'"
  by (rule ext) (simp add: price_of_def same_tables_exact [of s s'] same_tables_def
      split: option.split)

lemma price_of_fuzzy [simp]: "price_of lower (s\<lparr>px_fuzzy := c\<rparr>) = price_of lower s"
  by (rule same_tables_price) (simp add: same_tables_def)

lemma price_of_warned [simp]: "price_of lower (s\<lparr>px_warned := w\<rparr>) = price_of lower s"
  by (rule same_tables_price) (simp add: same_tables_def)

lemma cache_sound_start [simp]: "cache_sound lower (pricing_start bundled)"
  by (simp add: cache_sound_def pricing_start_def)

lemma cache_sound_warned [simp]: "cache_sound lower (s\<lparr>px_warned := w\<rparr>) = cache_sound lower s"
  by (simp add: cache_sound_def)

lemma get_model_pricing_spec:
  assumes "cache_sound lower s" and "get_model_pricing lower model s = (found, s')"
  shows "found = price_of lower s model \<and> cache_sound lower s' \<and> price_of lower s' = price_of lower s"
proof (cases "exact_price s model")
  case None
  show ?thesis
  proof (cases "hm_get (px_fuzzy s) model")
    case None
    with assms \<open>exact_price s model = None\<close> show ?thesis
      by (auto simp: get_model_pricing_def price_of_def cache_sound_def Let_def split: if_splits)
  next
    case (Some r)
    with assms None show ?thesis
      by (auto simp: get_model_pricing_def price_of_def cache_sound_def)
  qed
next
  case (Some c)
  with assms show ?thesis by (auto simp: get_model_pricing_def price_of_def split: option.split)
qed

lemma estimate_cost_spec:
  assumes "cache_sound lower s" and "estimate_cost_usd lower model tokens s = (cost, s')"
  shows "cost = (case price_of lower s model of Some c \<Rightarrow> token_cost c tokens | None \<Rightarrow> lit 0) \<and>
    cache_sound lower s' \<and> price_of lower s' = price_of lower s"
proof -
  obtain found s1 where g: "get_model_pricing lower model s = (found, s1)"
    by fastforce
  show ?thesis
    using get_model_pricing_spec [OF assms(1) g] assms(2) g
    by (auto simp: estimate_cost_usd_def split: option.splits)
qed

lemma refresh_sound: "cache_sound lower s \<Longrightarrow> cache_sound lower (refresh_remote_pricing f arr x s)"
  by (auto simp: refresh_remote_pricing_def cache_sound_def split: option.split)

lemma lookup_halves: "lookup_end (lookup_begin lower model s) s = get_model_pricing lower model s"
  by (simp add: lookup_begin_def get_model_pricing_def Let_def split: option.split)

datatype pricing_event = Estimate string token_breakdown | Refresh "price_table \<Rightarrow> price_table" fetched

text \<open>A run of whole operations, with the costs that were answered.\<close>

fun pricing_run ::
  "(string \<Rightarrow> string) \<Rightarrow> (string \<Rightarrow> json option) \<Rightarrow> pricing_event list \<Rightarrow> pricing \<Rightarrow> f64 list" where
  "pricing_run lower f [] s = []"
| "pricing_run lower f (Estimate model tokens # es) s =
     (case estimate_cost_usd lower model tokens s of
        (cost, s) \<Rightarrow> cost # pricing_run lower f es s)"
| "pricing_run lower f (Refresh arr x # es) s =
     pricing_run lower f es (refresh_remote_pricing f arr x s)"

text \<open>The same run without a cache: each cost depends on the last table fetched alone.\<close>

fun uncached_run ::
  "(string \<Rightarrow> string) \<Rightarrow> (string \<Rightarrow> json option) \<Rightarrow> pricing_event list \<Rightarrow> pricing \<Rightarrow> f64 list" where
  "uncached_run lower f [] s = []"
| "uncached_run lower f (Estimate model tokens # es) s =
     (case price_of lower s model of Some c \<Rightarrow> token_cost c tokens | None \<Rightarrow> lit 0)
       # uncached_run lower f es s"
| "uncached_run lower f (Refresh arr x # es) s =
     uncached_run lower f es (refresh_remote_pricing f arr x s)"

lemma same_tables_refresh:
  "same_tables s s' \<Longrightarrow>
     same_tables (refresh_remote_pricing f arr x s) (refresh_remote_pricing f arr x s')"
  by (auto simp: refresh_remote_pricing_def same_tables_def split: option.split)

lemma estimate_same_tables: "same_tables (snd (estimate_cost_usd lower m t s)) s"
  by (auto simp: estimate_cost_usd_def get_model_pricing_def same_tables_def Let_def
      split: option.split)

lemma pricing_run_uncached:
  "cache_sound lower s \<Longrightarrow> same_tables s s' \<Longrightarrow>
     pricing_run lower f es s = uncached_run lower f es s'"
proof (induction es arbitrary: s s')
  case Nil
  then show ?case by simp
next
  case (Cons e es)
  show ?case
  proof (cases e)
    case (Estimate model tokens)
    obtain cost s1 where e1: "estimate_cost_usd lower model tokens s = (cost, s1)"
      by fastforce
    have "same_tables s1 s'"
      using estimate_same_tables [of lower model tokens s] e1 Cons.prems(2)
      by (simp add: same_tables_def)
    then show ?thesis
      using Cons.IH estimate_cost_spec [OF Cons.prems(1) e1] same_tables_price [OF Cons.prems(2)]
      by (simp add: Estimate e1)
  next
    case (Refresh arr x)
    then show ?thesis
      using Cons.IH refresh_sound [OF Cons.prems(1)] same_tables_refresh [OF Cons.prems(2)] by simp
  qed
qed


section \<open>Bounds\<close>

definition cost_ok :: "model_cost \<Rightarrow> bool" where
  "cost_ok c \<longleftrightarrow> mag 7 (mc_input c) \<and> mag 7 (mc_output c) \<and> mag 7 (mc_cache_read c) \<and>
     mag 7 (mc_cache_write c)"

definition tokens_ok :: "token_breakdown \<Rightarrow> bool" where
  "tokens_ok t \<longleftrightarrow>
     list_all (\<lambda>n. 0 \<le> n \<and> n \<le> i64_max)
       [tb_input_tokens t, tb_output_tokens t, tb_cache_read_input_tokens t,
        tb_cache_creation_input_tokens t]"

lemma mag_lit: "0 \<le> r \<Longrightarrow> r \<le> 2 ^ k \<Longrightarrow> k \<le> 971 \<Longrightarrow> mag k (lit r)"
  unfolding mag_def by (rule between_lit) simp_all

lemma price_ok: "list_all (\<lambda>r. 0 \<le> r \<and> r \<le> 2 ^ 7) [i, out, r, w] \<Longrightarrow> cost_ok (price i out r w)"
  by (simp add: cost_ok_def price_def mag_lit)

lemma bundled_ok: "(k, c) \<in> set bundled_pricing \<Longrightarrow> cost_ok c"
  unfolding bundled_pricing_def by (auto intro!: price_ok)

lemma term_ok: "0 \<le> n \<Longrightarrow> n \<le> i64_max \<Longrightarrow> mag 7 p \<Longrightarrow> mag 51 (f64_of_int n * p / lit 1000000)"
  using mag_divide [OF mag_mult [OF mag_of_i64, of n 7 p], of 19 1000000] by simp

lemma mag_add_same: "mag k x \<Longrightarrow> mag k y \<Longrightarrow> k < 971 \<Longrightarrow> mag (Suc k) (x + y)"
  by (rule mag_add [OF _ _ order_refl])

lemma token_cost_ok:
  assumes "cost_ok c" "tokens_ok t"
  shows "mag 54 (token_cost c t)"
proof -
  have t: "mag 51 (f64_of_int n * p / lit 1000000)"
    if "(n, p) \<in> {(tb_input_tokens t, mc_input c), (tb_output_tokens t, mc_output c),
        (tb_cache_read_input_tokens t, mc_cache_read c),
        (tb_cache_creation_input_tokens t, mc_cache_write c)}" for n p
    using that assms by (auto simp: cost_ok_def tokens_ok_def simp del: lit_numeral intro!: term_ok)
  have two: "mag 52 (x + y)" if "mag 51 x" "mag 51 y" for x y
    using mag_add_same [OF that] by simp
  have three: "mag 53 (x + y)" if "mag 52 x" "mag 51 y" for x y
    using mag_add_same [OF that(1) mag_mono [OF that(2)]] by simp
  have four: "mag 54 (x + y)" if "mag 53 x" "mag 51 y" for x y
    using mag_add_same [OF that(1) mag_mono [OF that(2)]] by simp
  show ?thesis
    unfolding token_cost_def Let_def by (intro four three two t) simp_all
qed

lemma find_Some_mem: "find P xs = Some x \<Longrightarrow> x \<in> set xs"
  by (auto simp: find_Some_iff)

lemma price_of_ran:
  "price_of lower s m = Some c \<Longrightarrow> c \<in> snd ` (set (px_remote s) \<union> set (px_bundled s))"
  by (auto simp: price_of_def exact_price_def fuzzy_scan_def fuzzy_find_def
      split: option.splits dest!: map_of_SomeD find_Some_mem intro: rev_image_eqI)

text \<open>
  While only the bundled prices are known, the cost of a request is a finite, non-negative
  number below 2 to the 54th dollars, whatever the model and the token counts.
\<close>

theorem bundled_cost_bounded:
  assumes "cache_sound lower s" "px_remote s = []" "set (px_bundled s) = set bundled_pricing"
    and "tokens_ok t"
  shows "Fin 0 \<le> fst (estimate_cost_usd lower model t s) \<and>
    fst (estimate_cost_usd lower model t s) \<le> Fin (2 ^ 54)"
proof -
  obtain cost s' where e: "estimate_cost_usd lower model t s = (cost, s')"
    by fastforce
  have "mag 54 cost"
  proof (cases "price_of lower s model")
    case None
    then show ?thesis
      using estimate_cost_spec [OF assms(1) e] by (simp add: lit_def mag_def)
  next
    case (Some c)
    then have "cost_ok c"
      using price_of_ran [OF Some] assms(2,3) bundled_ok by auto
    then show ?thesis
      using estimate_cost_spec [OF assms(1) e] token_cost_ok assms(4) by (simp add: Some)
  qed
  then show ?thesis
    by (auto simp: e mag_def elim!: betweenE)
qed

theorem bundled_cost_bounded_witness:
  "Fin 0 \<le> fst (estimate_cost_usd id ''glm-4.6'' \<lparr>tb_input_tokens = 5, tb_output_tokens = 7,
      tb_cache_read_input_tokens = 0, tb_cache_creation_input_tokens = 1\<rparr> (pricing_start bundled_pricing)) \<and>
   fst (estimate_cost_usd id ''glm-4.6'' \<lparr>tb_input_tokens = 5, tb_output_tokens = 7,
      tb_cache_read_input_tokens = 0, tb_cache_creation_input_tokens = 1\<rparr> (pricing_start bundled_pricing))
     \<le> Fin (2 ^ 54)"
  by (rule bundled_cost_bounded) (simp_all add: pricing_start_def tokens_ok_def i64_max_def cache_sound_def)

section \<open>What has no price\<close>

lemma fuzzy_find_None:
  "fuzzy_find lower m table = None \<longleftrightarrow> (\<forall>k \<in> fst ` set table. \<not> fuzzy_match lower m k)"
  by (auto simp: fuzzy_find_def find_None_iff)

lemma start_price_None:
  "price_of lower (pricing_start bundled) m = None \<longleftrightarrow>
     (\<forall>k \<in> fst ` set bundled. k \<noteq> m \<and> \<not> fuzzy_match lower m k)"
proof (cases "map_of bundled m")
  case None
  then have "price_of lower (pricing_start bundled) m = fuzzy_find lower m bundled"
    by (simp add: price_of_def exact_price_def fuzzy_scan_def pricing_start_def
        fuzzy_find_def [of lower m "[]"])
  moreover have "m \<notin> fst ` set bundled"
    using None by (simp add: map_of_eq_None_iff)
  ultimately show ?thesis
    by (auto simp: fuzzy_find_None)
next
  case (Some c)
  then have "m \<in> fst ` set bundled"
    by (auto dest: map_of_SomeD intro: rev_image_eqI)
  then show ?thesis
    by (auto simp: price_of_def exact_price_def pricing_start_def Some)
qed

definition bundled_keys :: "string list" where
  "bundled_keys =
     [''claude-3-haiku-20240307'', ''claude-3-5-haiku-20241022'', ''claude-3-5-haiku-latest'',
      ''claude-3-5-sonnet-20241022'', ''claude-3-5-sonnet-latest'', ''claude-haiku-4-5-20251001'',
      ''claude-3-7-sonnet-20250219'', ''claude-sonnet-4-20250514'', ''claude-sonnet-4-5-20250929'',
      ''claude-opus-4-20250514'', ''claude-opus-4-5-20250414'', ''claude-opus-4-6'',
      ''claude-3-opus-20240229'', ''glm-4.5'', ''glm-4.5-air'', ''glm-4.6'', ''glm-4.6-air'',
      ''MiniMax-M2'']"

lemma bundled_keys: "map fst bundled_pricing = bundled_keys"
  by (simp add: bundled_pricing_def bundled_keys_def)

lemma fuzzy_find_keys:
  "fuzzy_find lower m table = Option.bind (find (fuzzy_match lower m) (map fst table)) (map_of table)"
proof (induction table)
  case (Cons e table)
  have "map_of table k = map_of (e # table) k"
    if "\<not> fuzzy_match lower m (fst e)" "find (fuzzy_match lower m) (map fst table) = Some k" for k
    using that by (auto simp: find_Some_iff)
  then show ?case
    using Cons by (cases "find (fuzzy_match lower m) (map fst table)") (auto simp: fuzzy_find_def)
qed (simp add: fuzzy_find_def)

lemmas lower_ascii = to_ascii_lowercase_def to_ascii_lower_char_def is_ascii_upper_def

lemma known_lower: "m \<in> set ALL_MODEL_IDS \<Longrightarrow> to_ascii_lowercase m = m"
  by (auto simp: ALL_MODEL_IDS_def model_ids lower_ascii)

lemma lower_opus_4: "to_ascii_lowercase ''claude-opus-4'' = ''claude-opus-4''"
  by (simp add: lower_ascii)

lemma start_price_perm:
  "set bundled = set bundled_pricing \<Longrightarrow>
     price_of lower (pricing_start bundled) m = None \<longleftrightarrow>
       list_all (\<lambda>k. k \<noteq> m \<and> \<not> fuzzy_match lower m k) bundled_keys"
  by (simp add: start_price_None list_all_iff flip: bundled_keys)

text \<open>
  Without a fetched table, four of the twelve models the program knows have no price, the
  default model among them: their requests are recorded as free.
\<close>

theorem known_models_unpriced:
  assumes "set bundled = set bundled_pricing"
  shows "filter (\<lambda>m. price_of to_ascii_lowercase (pricing_start bundled) m = None) ALL_MODEL_IDS =
    [DEFAULT_MODEL, OPUS_4_1, OPUS_4_5, SONNET_3]"
proof -
  have "filter (\<lambda>m. price_of to_ascii_lowercase (pricing_start bundled) m = None) ALL_MODEL_IDS =
      filter (\<lambda>m. list_all (\<lambda>k. k \<noteq> m \<and> \<not> contains_str m k \<and> \<not> contains_str k m) bundled_keys)
        ALL_MODEL_IDS"
    by (rule filter_cong) (simp_all add: start_price_perm [OF assms] fuzzy_match_def known_lower)
  also have "\<dots> = [DEFAULT_MODEL, OPUS_4_1, OPUS_4_5, SONNET_3]"
    by code_simp
  finally show ?thesis .
qed

theorem known_models_unpriced_witness:
  "filter (\<lambda>m. price_of to_ascii_lowercase (pricing_start bundled_pricing) m = None) ALL_MODEL_IDS =
    [DEFAULT_MODEL, OPUS_4_1, OPUS_4_5, SONNET_3]"
  by (rule known_models_unpriced [OF refl])

text \<open>
  The keys are not turned into lower case: a name that contains \<open>MiniMax-M2\<close> finds no price.
\<close>

theorem minimax_never_contained:
  "set bundled = set bundled_pricing \<Longrightarrow>
     price_of to_ascii_lowercase (pricing_start bundled) ''minimax/MiniMax-M2'' = None \<and>
     price_of to_ascii_lowercase (pricing_start bundled) ''minimax-m2'' = None"
  by (simp add: start_price_perm fuzzy_match_def bundled_keys_def lower_ascii char_of_eq_iff
      eq_commute [of "CHR ''M''"])

theorem minimax_never_contained_witness:
  "price_of to_ascii_lowercase (pricing_start bundled_pricing) ''minimax/MiniMax-M2'' = None \<and>
   price_of to_ascii_lowercase (pricing_start bundled_pricing) ''minimax-m2'' = None"
  by (rule minimax_never_contained [OF refl])

text \<open>The order of the hash map decides the price of a name that several keys contain.\<close>

theorem fuzzy_order_matters:
  "mset (rev bundled_pricing) = mset bundled_pricing \<and>
   price_of to_ascii_lowercase (pricing_start bundled_pricing) ''claude-opus-4'' = Some (price 15 75 (3 / 2) (75 / 4)) \<and>
   price_of to_ascii_lowercase (pricing_start (rev bundled_pricing)) ''claude-opus-4'' = Some (price 5 25 (1 / 2) (25 / 4))"
proof -
  have n: "exact_price (pricing_start t) ''claude-opus-4'' = None" if "set (map fst t) = set bundled_keys" for t
  proof -
    have "''claude-opus-4'' \<notin> set bundled_keys"
      by (simp add: bundled_keys_def)
    then show ?thesis
      by (simp add: exact_price_def pricing_start_def map_of_eq_None_iff flip: that)
  qed
  have f: "find (fuzzy_match to_ascii_lowercase ''claude-opus-4'') bundled_keys = Some ''claude-opus-4-20250514''"
    "find (fuzzy_match to_ascii_lowercase ''claude-opus-4'') (rev bundled_keys) = Some ''claude-opus-4-6''"
    by (simp_all add: fuzzy_match_def bundled_keys_def lower_opus_4)
  have m: "map_of bundled_pricing ''claude-opus-4-20250514'' = Some (price 15 75 (3 / 2) (75 / 4))"
    "map_of (rev bundled_pricing) ''claude-opus-4-6'' = Some (price 5 25 (1 / 2) (25 / 4))"
    by (simp_all add: bundled_pricing_def)
  show ?thesis
    by (simp add: price_of_def n rev_map [symmetric] bundled_keys fuzzy_scan_def)
       (simp add: fuzzy_find_keys pricing_start_def bundled_keys rev_map [symmetric] f m)
qed

section \<open>A lookup that overlaps a fetch\<close>

text \<open>
  A scan of the old table that ends after a fetch puts its result into the cleared cache. From
  then on, until the next fetch, the price is the one of the table that is gone.
\<close>

theorem overlapped_lookup_stale:
  assumes "lookup_begin lower model s = Scanned model found"
    and "exact_price s' model = None"
  shows "fst (get_model_pricing lower model (snd (lookup_end (Scanned model found) s'))) = found \<and>
    found = fuzzy_scan lower model (px_remote s) (px_bundled s)"
proof -
  have "exact_price (s'\<lparr>px_fuzzy := c\<rparr>) model = None" for c
    using assms(2) same_tables_exact [of "s'\<lparr>px_fuzzy := c\<rparr>" s'] by (simp add: same_tables_def)
  then show ?thesis
    using assms(1) by (auto simp: get_model_pricing_def lookup_begin_def split: option.splits)
qed

definition demo_price_json :: json where
  "demo_price_json =
     JObject [(''claude-sonnet-4'', JObject [(''input_cost_per_token'', JNumber (PosInt 1))])]"

definition demo_fetched :: pricing where
  "demo_fetched =
     refresh_remote_pricing (\<lambda>b. Some demo_price_json) id (Some (200, Some [])) (pricing_start [])"

theorem overlapped_lookup_stale_witness:
  "fst (get_model_pricing id ''claude-sonnet-4-6''
      (snd (lookup_end (Scanned ''claude-sonnet-4-6'' None) demo_fetched))) = None \<and>
   price_of id demo_fetched ''claude-sonnet-4-6'' \<noteq> None"
proof
  have b: "lookup_begin id ''claude-sonnet-4-6'' (pricing_start []) = Scanned ''claude-sonnet-4-6'' None"
    by (simp add: lookup_begin_def pricing_start_def exact_price_def fuzzy_scan_def fuzzy_find_def)
  have d: "px_remote demo_fetched = [(''claude-sonnet-4'', model)]" if
      "model = \<lparr>mc_input = per_token_to_per_mtok (f64_of_int 1), mc_output = per_token_to_per_mtok (lit 0),
        mc_cache_read = per_token_to_per_mtok (lit 0), mc_cache_write = per_token_to_per_mtok (lit 0)\<rparr>" for model
    by (simp add: that demo_fetched_def refresh_remote_pricing_def as_object_def demo_price_json_def
        bare_key_def remote_cost_def get_f64_def json_get_def as_f64_def)
  have b2: "px_bundled demo_fetched = []"
    by (simp add: demo_fetched_def refresh_remote_pricing_def as_object_def demo_price_json_def pricing_start_def)
  have e: "exact_price demo_fetched ''claude-sonnet-4-6'' = None"
    by (simp add: exact_price_def d [OF refl] b2)
  from overlapped_lookup_stale [OF b e]
  show "fst (get_model_pricing id ''claude-sonnet-4-6''
      (snd (lookup_end (Scanned ''claude-sonnet-4-6'' None) demo_fetched))) = None"
    by simp
  show "price_of id demo_fetched ''claude-sonnet-4-6'' \<noteq> None"
    by (simp add: price_of_def e fuzzy_scan_def fuzzy_find_def d [OF refl] fuzzy_match_def
        contains_str_iff_sublist)
qed

end
