(* ===== verification/Edit_Distance.thy ===== *)
theory Edit_Distance
  imports Text_Json
begin

text \<open>
  Spelling suggestions: \<open>cli/src/levenshtein.rs\<close> (two rows, over bytes) and
  \<open>core/src/utils.rs\<close> (a full matrix, over characters). Both are shown to compute the least
  number of single edits. Lengths and costs are natural numbers: no string is long enough for
  the \<open>usize\<close> additions to wrap around.
\<close>

section \<open>The two routines\<close>

text \<open>
  One pass of the inner loop of \<open>distance\<close>: row \<open>i\<close> is written over \<open>curr\<close>, whose old contents
  are those of row \<open>i - 2\<close>.
\<close>

definition distance_row :: "'a list \<Rightarrow> 'a list \<Rightarrow> nat \<Rightarrow> nat list \<Rightarrow> nat list \<Rightarrow> nat list" where
  "distance_row a b i prev cur =
     fold (\<lambda>j cur.
         let cost = (if a ! (i - 1) = b ! (j - 1) then 0 else 1)
         in cur[j := min (min (prev ! j + 1) (cur ! (j - 1) + 1)) (prev ! (j - 1) + cost)])
       [1..<Suc (length b)] (cur[0 := i])"

definition distance :: "'a list \<Rightarrow> 'a list \<Rightarrow> nat" where
  "distance a b =
     (let m = length a; n = length b
      in if m = 0 then n
         else if n = 0 then m
         else
           (let (prev, cur) = fold (\<lambda>i (prev, cur). (distance_row a b i prev cur, prev))
                  [1..<Suc m] ([0..<Suc n], replicate (n + 1) 0)
            in prev ! n))"

text \<open>The characters of a string, as their encodings: a byte \<open>10xxxxxx\<close> continues a character.\<close>

function str_chars :: "string \<Rightarrow> string list" where
  "str_chars [] = []"
| "str_chars (c # s) =
     (c # takeWhile is_continuation s) # str_chars (dropWhile is_continuation s)"
  by pat_completeness auto
termination by (relation "measure length") (auto simp: le_imp_less_Suc length_dropWhile_le)

definition set_cell :: "nat list list \<Rightarrow> nat \<Rightarrow> nat \<Rightarrow> nat \<Rightarrow> nat list list" where
  "set_cell matrix j i v = matrix[j := (matrix ! j)[i := v]]"

definition matrix_row :: "'a list \<Rightarrow> 'a list \<Rightarrow> nat \<Rightarrow> nat list list \<Rightarrow> nat list list" where
  "matrix_row s1 s2 j matrix =
     fold (\<lambda>i matrix.
         let cost = (if s1 ! (i - 1) = s2 ! (j - 1) then 0 else 1)
         in set_cell matrix j i
              (min (min (matrix ! j ! (i - 1) + 1) (matrix ! (j - 1) ! i + 1))
                 (matrix ! (j - 1) ! (i - 1) + cost)))
       [1..<Suc (length s1)] matrix"

definition matrix_distance :: "'a list \<Rightarrow> 'a list \<Rightarrow> nat" where
  "matrix_distance s1 s2 =
     (let len1 = length s1; len2 = length s2;
          matrix = replicate (len2 + 1) (replicate (len1 + 1) 0);
          matrix = fold (\<lambda>i matrix. set_cell matrix 0 i i) [0..<Suc len1] matrix;
          matrix = fold (\<lambda>j matrix. set_cell matrix j 0 j) [0..<Suc len2] matrix;
          matrix = fold (matrix_row s1 s2) [1..<Suc len2] matrix
      in matrix ! len2 ! len1)"

definition levenshtein_distance :: "string \<Rightarrow> string \<Rightarrow> nat" where
  "levenshtein_distance s1 s2 = matrix_distance (str_chars s1) (str_chars s2)"

text \<open>
  \<open>str::to_lowercase\<close> needs the Unicode tables; it is the parameter \<open>lower\<close>.
\<close>

definition suggest ::
  "(string \<Rightarrow> string) \<Rightarrow> string \<Rightarrow> string list \<Rightarrow> nat \<Rightarrow> nat \<Rightarrow> string list" where
  "suggest lower input candidates threshold limit =
     (let input_lower = lower input;
          suggestions = List.map_filter (\<lambda>c.
            let c_lower = lower c
            in if c_lower = input_lower then None
               else (let d = distance input_lower c_lower
                     in if d \<le> threshold then Some (d, c) else None)) candidates
      in map snd (take limit (sort_by (\<lambda>p q. cmp_of (fst p) (fst q)) suggestions)))"

fun closest_loop ::
  "string \<Rightarrow> nat \<Rightarrow> string list \<Rightarrow> string option \<Rightarrow> nat \<Rightarrow> string option" where
  "closest_loop input max_distance [] best best_distance = best"
| "closest_loop input max_distance (candidate # cs) best best_distance =
     (let d = levenshtein_distance input candidate
      in if d < best_distance \<and> d \<le> max_distance
         then closest_loop input max_distance cs (Some candidate) d
         else closest_loop input max_distance cs best best_distance)"

definition usize_max :: nat where "usize_max = 2 ^ 64 - 1"

definition find_closest_match :: "string \<Rightarrow> string list \<Rightarrow> nat \<Rightarrow> string option" where
  "find_closest_match input candidates max_distance =
     closest_loop input max_distance candidates None usize_max"

section \<open>The specification: single edits\<close>

text \<open>One edit deletes, inserts or replaces one element.\<close>

inductive edit_step :: "'a list \<Rightarrow> 'a list \<Rightarrow> bool" where
  delete: "edit_step (us @ x # vs) (us @ vs)"
| insert: "edit_step (us @ vs) (us @ x # vs)"
| replace: "edit_step (us @ x # vs) (us @ y # vs)"

definition edit_distance :: "'a list \<Rightarrow> 'a list \<Rightarrow> nat" where
  "edit_distance xs ys = (LEAST n. (edit_step ^^ n) xs ys)"

text \<open>An alignment of two lists and what it costs.\<close>

inductive align :: "'a list \<Rightarrow> 'a list \<Rightarrow> nat \<Rightarrow> bool" where
  align_nil: "align [] [] 0"
| align_keep: "align xs ys k \<Longrightarrow> align (x # xs) (x # ys) k"
| align_replace: "align xs ys k \<Longrightarrow> align (x # xs) (y # ys) (Suc k)"
| align_delete: "align xs ys k \<Longrightarrow> align (x # xs) ys (Suc k)"
| align_insert: "align xs ys k \<Longrightarrow> align xs (y # ys) (Suc k)"

inductive_cases align_NilE: "align xs [] k"
inductive_cases align_ConsE: "align xs (y # ys) k"

fun lev :: "'a list \<Rightarrow> 'a list \<Rightarrow> nat" where
  "lev [] ys = length ys"
| "lev xs [] = length xs"
| "lev (x # xs) (y # ys) =
     min (min (lev xs (y # ys) + 1) (lev (x # xs) ys + 1))
       (lev xs ys + (if x = y then 0 else 1))"

section \<open>Alignments and edits\<close>

lemma align_refl: "align xs xs 0"
  by (induction xs) (auto intro: align.intros)

lemma align_sym: "align xs ys k \<Longrightarrow> align ys xs k"
  by (induction rule: align.induct) (auto intro: align.intros)

lemma align_append: "align xs ys k \<Longrightarrow> align us vs l \<Longrightarrow> align (xs @ us) (ys @ vs) (k + l)"
  by (induction rule: align.induct) (auto intro: align.intros)

lemma align_rev: "align xs ys k \<Longrightarrow> align (rev xs) (rev ys) k"
proof (induction rule: align.induct)
  case (align_keep xs ys k x)
  then show ?case
    using align_append [OF align_keep.IH align.align_keep [OF align_nil, of x]] by simp
next
  case (align_replace xs ys k x y)
  then show ?case
    using align_append [OF align_replace.IH align.align_replace [OF align_nil, of x y]] by simp
next
  case (align_delete xs ys k x)
  then show ?case
    using align_append [OF align_delete.IH align.align_delete [OF align_nil, of x]] by simp
next
  case (align_insert xs ys k y)
  then show ?case
    using align_append [OF align_insert.IH align.align_insert [OF align_nil, of y]] by simp
qed (simp add: align_nil)

lemma align_length: "align xs ys k \<Longrightarrow> length xs \<le> length ys + k \<and> length ys \<le> length xs + k"
  by (induction rule: align.induct) auto

lemma align_split:
  "align xs (us @ vs) k \<Longrightarrow>
     \<exists>xs1 xs2 k1 k2. xs = xs1 @ xs2 \<and> k = k1 + k2 \<and> align xs1 us k1 \<and> align xs2 vs k2"
proof (induction xs "us @ vs" k arbitrary: us rule: align.induct)
  case align_nil
  then show ?case by (metis align.align_nil append_is_Nil_conv add_0)
next
  case (align_keep xs ys k x)
  show ?case
  proof (cases us)
    case Nil
    with align_keep(1,3) show ?thesis
      by (metis add_0 align.align_keep align_nil append_Nil)
  next
    case (Cons u us')
    with align_keep.hyps(3) have "u = x" "ys = us' @ vs" by auto
    with align_keep.hyps(2) [of us'] Cons show ?thesis
      by (metis align.align_keep append_Cons)
  qed
next
  case (align_replace xs ys k x y)
  show ?case
  proof (cases us)
    case Nil
    with align_replace(1,3) show ?thesis
      by (metis add_0 align.align_replace align_nil append_Nil)
  next
    case (Cons u us')
    with align_replace.hyps(3) have "u = y" "ys = us' @ vs" by auto
    with align_replace.hyps(2) [of us'] Cons show ?thesis
      by (metis align.align_replace append_Cons add_Suc)
  qed
next
  case (align_delete xs k x)
  then show ?case by (metis align.align_delete append_Cons add_Suc)
next
  case (align_insert xs ys k y)
  show ?case
  proof (cases us)
    case Nil
    with align_insert(1,3) show ?thesis
      by (metis add_0 align.align_insert align_nil append_Nil)
  next
    case (Cons u us')
    with align_insert.hyps(3) have "u = y" "ys = us' @ vs" by auto
    with align_insert.hyps(2) [of us'] Cons show ?thesis
      by (metis align.align_insert append_Cons add_Suc)
  qed
qed

lemma align_all_deleted: "align xs [] (length xs)"
  by (induction xs) (auto intro: align.intros)

lemma align_single: "xs \<noteq> [] \<Longrightarrow> align xs [y] (length xs)"
  by (cases xs) (auto intro: align.intros align_all_deleted)

text \<open>What is aligned with at most one element can be aligned with at most one other.\<close>

lemma align_middle:
  assumes "align xs vs k" "length vs \<le> 1" "length vs' \<le> 1" "vs \<noteq> [] \<or> vs' \<noteq> []"
  shows "\<exists>k' \<le> Suc k. align xs vs' k'"
proof -
  have len: "length xs \<le> length vs + k" using align_length [OF assms(1)] by simp
  show ?thesis
  proof (cases vs')
    case Nil
    with len assms(2) align_all_deleted [of xs] show ?thesis by (intro exI [of _ "length xs"]) auto
  next
    case (Cons y ys)
    with assms(3) have v: "vs' = [y]" by simp
    show ?thesis
    proof (cases "xs = []")
      case True
      then show ?thesis using align_insert [OF align_nil, of y] v by (intro exI [of _ 1]) auto
    next
      case False
      with len assms(2) align_single [OF this, of y] v show ?thesis
        by (intro exI [of _ "length xs"]) auto
    qed
  qed
qed

lemma edit_stepE:
  assumes "edit_step ys zs"
  obtains us vs vs' ws where "ys = us @ vs @ ws" "zs = us @ vs' @ ws" "length vs \<le> 1"
    "length vs' \<le> 1" "vs \<noteq> [] \<or> vs' \<noteq> []"
  using assms
proof cases
  case (delete us x vs)
  then show ?thesis using that [of us "[x]" vs "[]"] by simp
next
  case (insert us vs x)
  then show ?thesis using that [of us "[]" vs "[x]"] by simp
next
  case (replace us x vs y)
  then show ?thesis using that [of us "[x]" vs "[y]"] by simp
qed

lemma align_edit_step:
  assumes "align xs ys k" "edit_step ys zs"
  shows "\<exists>k' \<le> Suc k. align xs zs k'"
proof -
  from assms(2) obtain us vs vs' ws where *: "ys = us @ vs @ ws" "zs = us @ vs' @ ws"
    "length vs \<le> 1" "length vs' \<le> 1" "vs \<noteq> [] \<or> vs' \<noteq> []"
    by (rule edit_stepE)
  from align_split [of xs us "vs @ ws" k] assms(1) *(1) obtain x1 x23 k1 k23
    where 1: "xs = x1 @ x23" "k = k1 + k23" "align x1 us k1" "align x23 (vs @ ws) k23" by auto
  from align_split [OF 1(4)] obtain x2 x3 k2 k3
    where 2: "x23 = x2 @ x3" "k23 = k2 + k3" "align x2 vs k2" "align x3 ws k3" by auto
  from align_middle [OF 2(3) *(3-5)] obtain k' where 3: "k' \<le> Suc k2" "align x2 vs' k'" by auto
  have "align xs zs (k1 + (k' + k3))"
    using align_append [OF 1(3) align_append [OF 3(2) 2(4)]] 1(1) 2(1) *(2) by simp
  with 1(2) 2(2) 3(1) show ?thesis by (intro exI [of _ "k1 + (k' + k3)"]) simp
qed

lemma edits_align: "(edit_step ^^ n) xs ys \<Longrightarrow> \<exists>k \<le> n. align xs ys k"
proof (induction n arbitrary: ys)
  case 0
  then show ?case using align_refl by auto
next
  case (Suc n)
  then obtain zs where "(edit_step ^^ n) xs zs" "edit_step zs ys" by auto
  with Suc.IH [of zs] align_edit_step show ?case by (meson Suc_le_mono le_trans)
qed

lemma edit_step_append: "edit_step xs ys \<Longrightarrow> edit_step (us @ xs) (us @ ys)"
proof (induction rule: edit_step.induct)
  case (delete ws x vs)
  show ?case using edit_step.delete [of "us @ ws" x vs] by simp
next
  case (insert ws vs x)
  show ?case using edit_step.insert [of "us @ ws" vs x] by simp
next
  case (replace ws x vs y)
  show ?case using edit_step.replace [of "us @ ws" x vs y] by simp
qed

lemma edits_Cons: "(edit_step ^^ n) xs ys \<Longrightarrow> (edit_step ^^ n) (x # xs) (x # ys)"
proof (induction n arbitrary: ys)
  case (Suc n)
  then show ?case using edit_step_append [of _ _ "[x]"] by fastforce
qed simp

lemma align_edits: "align xs ys k \<Longrightarrow> (edit_step ^^ k) xs ys"
proof (induction rule: align.induct)
  case (align_replace xs ys k x y)
  then show ?case using edits_Cons replace [of "[]" x ys y] by fastforce
next
  case (align_delete xs ys k x)
  then have "edit_step (x # xs) xs" using delete [of "[]" x xs] by simp
  with align_delete show ?case by (metis relpowp_Suc_I2)
next
  case (align_insert xs ys k y)
  then show ?case using insert [of "[]" ys y] by fastforce
qed (auto intro: edits_Cons)

section \<open>The recurrence\<close>

lemma lev_align: "align xs ys (lev xs ys)"
proof (induction xs ys rule: lev.induct)
  case (1 ys)
  then show ?case using align_sym [OF align_all_deleted] by simp
next
  case (2 x xs)
  then show ?case using align_all_deleted [of "x # xs"] by simp
next
  case (3 x xs y ys)
  have "align (x # xs) (y # ys) (Suc (lev xs (y # ys)))"
    "align (x # xs) (y # ys) (Suc (lev (x # xs) ys))"
    "align (x # xs) (y # ys) (lev xs ys + (if x = y then 0 else 1))"
    using 3 by (auto intro: align.intros)
  then show ?case by (auto simp: min_def)
qed

lemma lev_Nil2 [simp]: "lev xs [] = length xs"
  by (cases xs) auto

lemma lev_least: "align xs ys k \<Longrightarrow> lev xs ys \<le> k"
proof (induction rule: align.induct)
  case (align_delete xs ys k x)
  show ?case by (cases ys) (use align_delete.IH in simp_all)
next
  case (align_insert xs ys k y)
  show ?case by (cases xs) (use align_insert.IH in simp_all)
qed (auto simp: min_le_iff_disj)

lemma lev_edit_distance: "lev (rev xs) (rev ys) = edit_distance xs ys"
proof -
  have "(edit_step ^^ lev (rev xs) (rev ys)) xs ys"
    using align_edits [OF align_rev [OF lev_align [of "rev xs" "rev ys"]]] by simp
  moreover have "lev (rev xs) (rev ys) \<le> n" if n: "(edit_step ^^ n) xs ys" for n
  proof -
    from edits_align [OF n] obtain k where "k \<le> n" "align xs ys k" by blast
    with lev_least [OF align_rev] show ?thesis by (blast intro: le_trans)
  qed
  ultimately show ?thesis
    unfolding edit_distance_def by (rule Least_equality [symmetric])
qed

text \<open>The cell \<open>(i, j)\<close> of either table: the distance of the two prefixes.\<close>

definition cell :: "'a list \<Rightarrow> 'a list \<Rightarrow> nat \<Rightarrow> nat \<Rightarrow> nat" where
  "cell a b i j = edit_distance (take i a) (take j b)"

lemma cell_border:
  "i \<le> length a \<Longrightarrow> cell a b i 0 = i" "j \<le> length b \<Longrightarrow> cell a b 0 j = j"
  by (simp_all add: cell_def flip: lev_edit_distance)

lemma cell_Suc:
  assumes "i < length a" "j < length b"
  shows "cell a b (Suc i) (Suc j) =
    min (min (cell a b i (Suc j) + 1) (cell a b (Suc i) j + 1))
      (cell a b i j + (if a ! i = b ! j then 0 else 1))"
  using assms by (simp add: cell_def take_Suc_conv_app_nth flip: lev_edit_distance)

text \<open>A loop over the indices keeps what holds of the cells written so far.\<close>

lemma fold_upt_invariant:
  assumes "P l s" "\<And>i s. l \<le> i \<Longrightarrow> i < u \<Longrightarrow> P i s \<Longrightarrow> P (Suc i) (f i s)" "l \<le> u"
  shows "P u (fold f [l..<u] s)"
  using assms(3,2)
proof (induction rule: dec_induct)
  case base
  then show ?case using assms(1) by simp
next
  case (step n)
  then show ?case by simp
qed

lemma distance_row:
  assumes "0 < i" "i \<le> length a" "length prev = Suc (length b)" "length cur = Suc (length b)"
    "\<And>j. j \<le> length b \<Longrightarrow> prev ! j = cell a b (i - 1) j"
  shows "length (distance_row a b i prev cur) = Suc (length b) \<and>
    (\<forall>j \<le> length b. distance_row a b i prev cur ! j = cell a b i j)"
proof -
  let ?P = "\<lambda>l c. length c = Suc (length b) \<and> (\<forall>j < l. c ! j = cell a b i j)"
  obtain k where i: "i = Suc k" using assms(1) by (cases i) auto
  have "?P (Suc (length b)) (distance_row a b i prev cur)"
    unfolding distance_row_def
  proof (rule fold_upt_invariant [where P = ?P])
    show "?P 1 (cur[0 := i])"
      using assms(2,4) by (simp add: cell_border)
  next
    fix l c assume l: "1 \<le> l" "l < Suc (length b)" and P: "?P l c"
    then obtain m where m: "l = Suc m" by (cases l) auto
    from l m P i assms cell_Suc [of k a m b]
    show "?P (Suc l) (let cost = if a ! (i - 1) = b ! (l - 1) then 0 else 1
        in c[l := min (min (prev ! l + 1) (c ! (l - 1) + 1)) (prev ! (l - 1) + cost)])"
      by (auto simp: less_Suc_eq Let_def)
  qed simp
  then show ?thesis by (simp add: less_Suc_eq_le)
qed

lemma distance_correct: "distance a b = edit_distance a b"
proof (cases "a = [] \<or> b = []")
  case True
  then show ?thesis by (auto simp: distance_def Let_def simp flip: lev_edit_distance)
next
  case False
  let ?P = "\<lambda>i (prev :: nat list, cur :: nat list). length prev = Suc (length b) \<and> length cur = Suc (length b) \<and>
    (\<forall>j \<le> length b. prev ! j = cell a b (i - 1) j)"
  let ?final = "fold (\<lambda>i (prev, cur). (distance_row a b i prev cur, prev))
    [1..<Suc (length a)] ([0..<Suc (length b)], replicate (length b + 1) 0)"
  have "?P (Suc (length a)) ?final"
  proof (rule fold_upt_invariant [where P = ?P])
    show "?P 1 ([0..<Suc (length b)], replicate (length b + 1) 0)"
      by (simp add: cell_border del: upt_Suc)
  next
    fix i s assume "1 \<le> i" "i < Suc (length a)" "?P i s"
    then show "?P (Suc i) (case s of (prev, cur) \<Rightarrow> (distance_row a b i prev cur, prev))"
      using distance_row [of i a "fst s" b "snd s"] by (auto split: prod.splits)
  qed simp
  then show ?thesis
    using False by (auto simp: distance_def cell_def Let_def split: prod.splits)
qed

lemma set_cell_length [simp]: "length (set_cell m j i v) = length m"
  by (simp add: set_cell_def)

lemma set_cell_nth:
  assumes "j < length m" "i < length (m ! j)"
  shows "set_cell m j i v ! j' ! i' = (if j' = j \<and> i' = i then v else m ! j' ! i')"
  using assms by (auto simp: set_cell_def nth_list_update)

lemma set_cell_row_length [simp]: "length (set_cell m j i v ! j') = length (m ! j')"
  by (cases "j < length m") (auto simp: set_cell_def nth_list_update list_update_beyond not_less)

text \<open>The matrix has its shape, its borders, and the cells of the rows and columns done.\<close>

definition filled :: "'a list \<Rightarrow> 'a list \<Rightarrow> nat \<Rightarrow> nat \<Rightarrow> nat list list \<Rightarrow> bool" where
  "filled s1 s2 j i m \<longleftrightarrow>
     length m = Suc (length s2) \<and> (\<forall>r \<le> length s2. length (m ! r) = Suc (length s1)) \<and>
     (\<forall>r \<le> length s2. \<forall>c \<le> length s1. r < j \<or> c = 0 \<or> r = j \<and> c < i \<longrightarrow>
        m ! r ! c = cell s1 s2 c r)"

lemma filledD:
  assumes "filled s1 s2 j i m" "r \<le> length s2" "c \<le> length s1" "r < j \<or> c = 0 \<or> r = j \<and> c < i"
  shows "m ! r ! c = cell s1 s2 c r"
  using assms by (auto simp: filled_def)

lemma filled_set_cell:
  assumes "filled s1 s2 j i m" "j \<le> length s2" "i \<le> length s1" "v = cell s1 s2 i j"
  shows "filled s1 s2 j (Suc i) (set_cell m j i v)"
proof -
  have len: "j < length m" "i < length (m ! j)" using assms(1-3) by (auto simp: filled_def)
  have "set_cell m j i v ! r ! c = cell s1 s2 c r"
    if "r \<le> length s2" "c \<le> length s1" "r < j \<or> c = 0 \<or> r = j \<and> c < Suc i" for r c
    using that filledD [OF assms(1) that(1,2)] assms(4)
    by (auto simp: set_cell_nth [OF len] less_Suc_eq)
  with assms(1) show ?thesis by (simp add: filled_def)
qed

lemma filled_matrix_row:
  assumes "filled s1 s2 j 1 m" "0 < j" "j \<le> length s2"
  shows "filled s1 s2 (Suc j) 1 (matrix_row s1 s2 j m)"
proof -
  obtain r where j: "j = Suc r" using assms(2) by (cases j) auto
  have "filled s1 s2 j (Suc (length s1)) (matrix_row s1 s2 j m)"
    unfolding matrix_row_def
  proof (rule fold_upt_invariant [where P = "filled s1 s2 j"])
    show "filled s1 s2 j 1 m" by (rule assms(1))
  next
    fix i m assume i: "1 \<le> i" "i < Suc (length s1)" and m: "filled s1 s2 j i m"
    then obtain c where c: "i = Suc c" by (cases i) auto
    have cells: "m ! j ! c = cell s1 s2 c j" "m ! r ! i = cell s1 s2 i r" "m ! r ! c = cell s1 s2 c r"
      using i assms(3) c j by (auto intro!: filledD [OF m])
    show "filled s1 s2 j (Suc i)
        (let cost = if s1 ! (i - 1) = s2 ! (j - 1) then 0 else 1
         in set_cell m j i (min (min (m ! j ! (i - 1) + 1) (m ! (j - 1) ! i + 1))
              (m ! (j - 1) ! (i - 1) + cost)))"
      unfolding Let_def
      by (rule filled_set_cell [OF m])
         (use i assms(3) c j cells cell_Suc [of c s1 r s2] in \<open>auto simp: min.commute min.left_commute\<close>)
  qed simp
  then show ?thesis
    unfolding filled_def by (metis One_nat_def less_SucE less_Suc_eq_le less_one)
qed

lemma matrix_distance_correct: "matrix_distance s1 s2 = edit_distance s1 s2"
proof -
  let ?m0 = "fold (\<lambda>i m. set_cell m 0 i i) [0..<Suc (length s1)]
    (replicate (length s2 + 1) (replicate (length s1 + 1) 0))"
  let ?Q = "\<lambda>n m. length m = Suc (length s2) \<and> (\<forall>r \<le> length s2. length (m ! r) = Suc (length s1)) \<and>
    (\<forall>i < n. m ! 0 ! i = i)"
  have m0: "?Q (Suc (length s1)) ?m0"
  proof (rule fold_upt_invariant [where P = ?Q])
    show "?Q 0 (replicate (length s2 + 1) (replicate (length s1 + 1) 0))"
      by (simp add: less_Suc_eq_le del: replicate.simps)
  qed (auto simp: set_cell_nth less_Suc_eq)
  let ?P = "\<lambda>n m. length m = Suc (length s2) \<and> (\<forall>r \<le> length s2. length (m ! r) = Suc (length s1)) \<and>
    (\<forall>i \<le> length s1. m ! 0 ! i = i) \<and> (\<forall>j < n. m ! j ! 0 = j)"
  let ?m1 = "fold (\<lambda>j m. set_cell m j 0 j) [0..<Suc (length s2)] ?m0"
  have "?P (Suc (length s2)) ?m1"
  proof (rule fold_upt_invariant [where P = ?P])
    show "?P 0 ?m0" using m0 by (simp add: less_Suc_eq_le)
  qed (auto simp: set_cell_nth less_Suc_eq)
  then have m1: "filled s1 s2 1 1 ?m1"
    by (auto simp: filled_def cell_border less_Suc_eq_le)
  have "filled s1 s2 (Suc (length s2)) 1 (fold (matrix_row s1 s2) [1..<Suc (length s2)] ?m1)"
  proof (rule fold_upt_invariant [where P = "\<lambda>j. filled s1 s2 j 1"])
    show "filled s1 s2 1 1 ?m1" by (rule m1)
  next
    fix j m assume "1 \<le> j" "j < Suc (length s2)" "filled s1 s2 j 1 m"
    then show "filled s1 s2 (Suc j) 1 (matrix_row s1 s2 j m)" by (intro filled_matrix_row) auto
  qed simp
  from filledD [OF this, of "length s2" "length s1"] show ?thesis
    by (simp add: matrix_distance_def cell_def Let_def del: upt_Suc replicate.simps)
qed

section \<open>Both measure the same\<close>

text \<open>The contract of a string distance.\<close>

locale string_metric =
  fixes dist :: "'a list \<Rightarrow> 'a list \<Rightarrow> nat"
  assumes dist_zero: "dist xs ys = 0 \<longleftrightarrow> xs = ys"
    and dist_sym: "dist xs ys = dist ys xs"
    and dist_triangle: "dist xs zs \<le> dist xs ys + dist ys zs"
begin

lemma dist_self [simp]: "dist xs xs = 0"
  by (simp add: dist_zero)

text \<open>Two strings near a third one are near each other.\<close>

lemma common_neighbour: "dist xs ys \<le> k \<Longrightarrow> dist xs zs \<le> k \<Longrightarrow> dist ys zs \<le> 2 * k"
  using dist_triangle [of ys zs xs] dist_sym [of ys xs] by linarith

end

lemma relpowp_sym:
  assumes "\<And>x y. R x y \<Longrightarrow> R y x" "(R ^^ n) x y"
  shows "(R ^^ n) y x"
  using assms(2)
proof (induction n arbitrary: y)
  case (Suc n)
  then obtain z where "(R ^^ n) x z" "R z y" by auto
  with Suc.IH [of z] assms(1) show ?case by (metis relpowp_Suc_I2)
qed simp

lemma edit_distance_steps: "(edit_step ^^ edit_distance xs ys) xs ys"
  unfolding edit_distance_def
  by (rule LeastI) (rule align_edits [OF align_rev [OF lev_align [of "rev xs" "rev ys"]], simplified])

lemma edit_distance_le: "(edit_step ^^ n) xs ys \<Longrightarrow> edit_distance xs ys \<le> n"
  unfolding edit_distance_def by (rule Least_le)

lemma edit_step_sym: "edit_step xs ys \<Longrightarrow> edit_step ys xs"
  by (induction rule: edit_step.induct) (rule edit_step.intros)+

lemma edit_distance_sym_le: "edit_distance ys xs \<le> edit_distance xs ys"
  by (rule edit_distance_le, rule relpowp_sym [of edit_step])
     (erule edit_step_sym, rule edit_distance_steps)

interpretation edits: string_metric edit_distance
proof
  fix xs ys zs :: "'a list"
  show "edit_distance xs ys = 0 \<longleftrightarrow> xs = ys"
    using edit_distance_steps [of xs ys] edit_distance_le [of 0 xs ys] by auto
  show "edit_distance xs ys = edit_distance ys xs"
    by (intro le_antisym edit_distance_sym_le)
  show "edit_distance xs zs \<le> edit_distance xs ys + edit_distance ys zs"
    by (rule edit_distance_le)
       (use edit_distance_steps [of xs ys] edit_distance_steps [of ys zs] in
         \<open>auto simp: relpowp_add intro: relcomppI\<close>)
qed

interpretation rows: string_metric distance
  by unfold_locales (simp_all add: distance_correct edits.dist_zero edits.dist_triangle,
     rule edits.dist_sym)

interpretation matrix: string_metric matrix_distance
  by unfold_locales (simp_all add: matrix_distance_correct edits.dist_zero edits.dist_triangle,
     rule edits.dist_sym)

lemma str_chars_ascii: "is_ascii s \<Longrightarrow> str_chars s = map (\<lambda>c. [c]) s"
proof (induction s)
  case (Cons c s)
  then have "\<not> is_continuation (hd s)" if "s \<noteq> []"
    using that by (cases s) (auto simp: is_ascii_def is_continuation_def in_range_def)
  then have "takeWhile is_continuation s = [] \<and> dropWhile is_continuation s = s"
    by (cases s) auto
  with Cons show ?case by (simp add: is_ascii_def)
qed simp

text \<open>
  C21. Both distances are the edit distance, the least number of deletions, insertions and
  replacements of single elements: the command line's on the bytes of the strings, with two
  rows that are swapped and overwritten; the core's on their characters, with a full matrix.
\<close>

theorem distances_correct:
  "distance a b = edit_distance a b \<and>
   levenshtein_distance s t = edit_distance (str_chars s) (str_chars t)"
  by (simp add: distance_correct levenshtein_distance_def matrix_distance_correct)

text \<open>On ASCII strings the two routines agree; a character of two bytes counts twice for the first.\<close>

lemma edit_distance_map:
  assumes "inj f"
  shows "edit_distance (map f xs) (map f ys) = edit_distance xs ys"
proof -
  have "lev (map f us) (map f vs) = lev us vs" for us vs
    by (induction us vs rule: lev.induct) (auto simp: inj_eq [OF assms])
  then show ?thesis by (simp add: rev_map flip: lev_edit_distance)
qed

lemma distances_agree_ascii:
  "is_ascii s \<Longrightarrow> is_ascii t \<Longrightarrow> levenshtein_distance s t = distance s t"
  by (simp add: distances_correct [of s t s t] str_chars_ascii edit_distance_map inj_def)

lemma distances_differ:
  "distance [char_of (195 :: nat), char_of (169 :: nat)] ''e'' = 2 \<and>
   levenshtein_distance [char_of (195 :: nat), char_of (169 :: nat)] ''e'' = 1"
  by (simp add: distance_correct levenshtein_distance_def matrix_distance_correct
      is_continuation_def in_range_def byte_def char_of_eq_iff flip: lev_edit_distance)

section \<open>Suggestions\<close>

definition suggestable :: "(string \<Rightarrow> string) \<Rightarrow> string \<Rightarrow> nat \<Rightarrow> string \<Rightarrow> bool" where
  "suggestable lower input threshold c \<longleftrightarrow>
     lower c \<noteq> lower input \<and> edit_distance (lower input) (lower c) \<le> threshold"

interpretation by_distance: comparator "\<lambda>p q. cmp_of (fst p) (fst (q :: nat \<times> string))"
  by (rule comparator_cmp_of_key)

lemma suggestions_filter:
  "List.map_filter (\<lambda>c. if lower c = input_lower then None
       else if distance input_lower (lower c) \<le> threshold
            then Some (distance input_lower (lower c), c) else None) cs =
   map (\<lambda>c. (edit_distance input_lower (lower c), c))
     (filter (\<lambda>c. lower c \<noteq> input_lower \<and> edit_distance input_lower (lower c) \<le> threshold) cs)"
  by (induction cs) (auto simp: List.map_filter_def distance_correct Let_def)

text \<open>
  What the command line suggests for a mistyped word: candidates that differ from it by at most
  the threshold, nearest first, and as many of them as the limit allows.
\<close>

theorem suggest_correct:
  "list_all (\<lambda>c. c \<in> set candidates \<and> suggestable lower input threshold c)
     (suggest lower input candidates threshold limit) \<and>
   sorted (map (\<lambda>c. edit_distance (lower input) (lower c))
     (suggest lower input candidates threshold limit)) \<and>
   length (suggest lower input candidates threshold limit) =
     min (length (filter (suggestable lower input threshold) candidates)) limit"
proof -
  let ?d = "\<lambda>c. edit_distance (lower input) (lower c)"
  let ?found = "map (\<lambda>c. (?d c, c)) (filter (suggestable lower input threshold) candidates)"
  let ?sorted = "sort_by (\<lambda>p q. cmp_of (fst p) (fst q)) ?found"
  have eq: "suggest lower input candidates threshold limit = map snd (take limit ?sorted)"
    unfolding suggest_def Let_def suggestions_filter suggestable_def [abs_def] by simp
  have in_found: "fst p = ?d (snd p) \<and> snd p \<in> set candidates \<and>
      suggestable lower input threshold (snd p)" if "p \<in> set (take limit ?sorted)" for p
    using in_set_takeD [OF that] by auto
  have "sorted_wrt (\<lambda>p q. fst p \<le> fst q) ?sorted"
    using by_distance.sorted_sort_by [of ?found]
    by (auto simp: sorted_by_def le_by_def cmp_of_def intro: sorted_wrt_mono_rel [rotated]
        split: if_splits)
  then have 1: "sorted (map fst (take limit ?sorted))"
    by (simp add: sorted_map sorted_wrt_take)
  have 2: "map fst (take limit ?sorted) = map ?d (map snd (take limit ?sorted))"
    unfolding list.map_comp
  proof (rule map_cong [OF refl])
    fix p assume "p \<in> set (take limit ?sorted)"
    from in_found [OF this] show "fst p = (?d \<circ> snd) p"
      unfolding comp_apply by (rule conjunct1)
  qed
  have 3: "list_all (\<lambda>c. c \<in> set candidates \<and> suggestable lower input threshold c)
      (map snd (take limit ?sorted))"
    unfolding list_all_iff set_map using in_found by blast
  have 4: "length (map snd (take limit ?sorted)) =
      min (length (filter (suggestable lower input threshold) candidates)) limit"
    by simp
  show ?thesis unfolding eq by (intro conjI 3 1 [unfolded 2] 4)
qed

text \<open>The core's helper returns a nearest candidate within the limit, if there is one.\<close>

lemma closest_loop_correct:
  assumes "list_all (\<lambda>c. levenshtein_distance input c < usize_max) cs"
    "best_distance = (case best of None \<Rightarrow> usize_max | Some b \<Rightarrow> levenshtein_distance input b)"
  shows "case closest_loop input k cs best best_distance of
      None \<Rightarrow> best = None \<and> list_all (\<lambda>c. k < levenshtein_distance input c) cs
    | Some r \<Rightarrow> (best = Some r \<or> r \<in> set cs \<and> levenshtein_distance input r \<le> k) \<and>
        levenshtein_distance input r \<le> best_distance \<and>
        list_all (\<lambda>c. levenshtein_distance input c \<le> k \<longrightarrow>
          levenshtein_distance input r \<le> levenshtein_distance input c) cs"
  using assms
proof (induction cs arbitrary: best best_distance)
  case Nil
  then show ?case by (auto split: option.splits)
next
  case (Cons c cs)
  from Cons.prems(1) have cs: "list_all (\<lambda>c. levenshtein_distance input c < usize_max) cs"
    and c: "levenshtein_distance input c < usize_max" by simp_all
  show ?case
  proof (cases "levenshtein_distance input c < best_distance \<and> levenshtein_distance input c \<le> k")
    case True
    show ?thesis
      using Cons.IH [OF cs, of "levenshtein_distance input c" "Some c"] True
      by (auto simp: Let_def split: option.splits)
  next
    case False
    show ?thesis
      using Cons.IH [OF cs Cons.prems(2)] False c Cons.prems(2)
      by (auto simp: Let_def split: option.splits)
  qed
qed

lemma find_closest_match_correct:
  assumes "list_all (\<lambda>c. levenshtein_distance input c < usize_max) cs"
  shows "case find_closest_match input cs k of
      None \<Rightarrow> list_all (\<lambda>c. k < levenshtein_distance input c) cs
    | Some r \<Rightarrow> r \<in> set cs \<and> levenshtein_distance input r \<le> k \<and>
        list_all (\<lambda>c. levenshtein_distance input r \<le> levenshtein_distance input c) cs"
  using closest_loop_correct [OF assms, of usize_max None k]
  by (auto simp: find_closest_match_def list_all_iff split: option.splits)

end
