(* ===== verification/Account_Commands.thy ===== *)
theory Account_Commands
  imports Account_Store Edit_Distance Load_Balancer Token_Manager Provider_Impls
begin

text \<open>
  The account commands of the command line, \<open>cli/src/commands.rs\<close>: add, remove, pause, resume,
  prioritise, reauthenticate, list, show and reset the statistics. A command reads the
  environment and the table and returns what it prints and the new table, or the error it ends
  with. Case conversion of Unicode text, the process environment, the clock and random ids are
  parameters.
\<close>

section \<open>Commands\<close>

record cli_env =
  ce_lower :: "string \<Rightarrow> string"
  ce_upper :: "string \<Rightarrow> string"
  ce_var :: "string \<Rightarrow> string option"
  ce_now :: i64
  ce_uuid :: string

datatype cli_error = Bail string | StoreError store_error

type_synonym cli_result = "cli_error + string list \<times> account list"

definition quoted :: "string \<Rightarrow> string" where
  "quoted s = [CHR 0x27] @ s @ [CHR 0x27]"

fun join :: "string \<Rightarrow> string list \<Rightarrow> string" where
  "join sep [] = []"
| "join sep [s] = s"
| "join sep (s # ss) = s @ sep @ join sep ss"

definition find_account_by_name :: "cli_env \<Rightarrow> string \<Rightarrow> account list \<Rightarrow> cli_error + account" where
  "find_account_by_name env n rows =
     (case find (\<lambda>a. ce_lower env (acct_name a) = ce_lower env n) (find_all_accounts rows) of
        Some a \<Rightarrow> Inr a
      | None \<Rightarrow> Inl (Bail (''Account '' @ quoted n @ '' not found'')))"

definition mode_needs_api_key :: "string \<Rightarrow> bool" where
  "mode_needs_api_key mode \<longleftrightarrow>
     mode \<in> set [''console'', ''zai'', ''minimax'', ''nanogpt'', ''anthropic-compatible'',
       ''openai-compatible'', ''vertex-ai'']"

definition mode_needs_oauth :: "string \<Rightarrow> bool" where
  "mode_needs_oauth mode \<longleftrightarrow> mode = ''claude-oauth''"

definition invalid_mode :: "cli_env \<Rightarrow> string \<Rightarrow> string" where
  "invalid_mode env mode =
     (let suggestions = suggest (ce_lower env) mode VALID_MODES 2 3
      in ''Invalid mode: '' @ quoted mode @ [CHR 0x0A] @ ''Valid modes: '' @ join '', '' VALID_MODES @
         (if suggestions \<noteq> []
          then [CHR 0x0A] @ ''Did you mean: '' @ join '', '' suggestions @ ''?'' else []))"

text \<open>\<open>name.to_uppercase().replace('-', "_")\<close>, the part of a variable that names the account.\<close>

definition var_name :: "cli_env \<Rightarrow> string \<Rightarrow> string" where
  "var_name env n = map (\<lambda>c. if c = CHR ''-'' then CHR ''_'' else c) (ce_upper env n)"

definition THIRTY_DAYS_MS :: i64 where "THIRTY_DAYS_MS = 30 * 24 * 60 * 60 * 1000"

definition new_account :: "string \<Rightarrow> string \<Rightarrow> string \<Rightarrow> i64 \<Rightarrow> i64 \<Rightarrow> account" where
  "new_account i n p now prio =
     \<lparr>acct_id = i, acct_name = n, provider = p, api_key = None, refresh_token = [],
      access_token = None, expires_at = None, request_count = 0, total_requests = 0,
      last_used = None, created_at = now, rate_limited_until = None, session_start = None,
      session_request_count = 0, paused = False, rate_limit_reset = None,
      rate_limit_status = None, rate_limit_remaining = None, priority = prio,
      auto_fallback_enabled = True, auto_refresh_enabled = True, custom_endpoint = None,
      model_mappings = None, reserve_5h = 0, reserve_weekly = 0, reserve_hard = False,
      subscription_tier = None, email = None, refresh_token_updated_at = None,
      is_shared = False, overage_protection = True\<rparr>"

definition stored_result :: "string list \<Rightarrow> store_error + account list \<Rightarrow> cli_result" where
  "stored_result out r = (case r of Inl e \<Rightarrow> Inl (StoreError e) | Inr rows \<Rightarrow> Inr (out, rows))"

definition add_account ::
  "cli_env \<Rightarrow> string \<Rightarrow> string \<Rightarrow> i64 \<Rightarrow> string option \<Rightarrow> account list \<Rightarrow> cli_result" where
  "add_account env n mode prio key_input rows =
     (if mode \<notin> set VALID_MODES then Inl (Bail (invalid_mode env mode))
      else case find_account_by_name env n rows of
        Inr _ \<Rightarrow> Inl (Bail (''Account '' @ quoted n @ '' already exists''))
      | Inl _ \<Rightarrow>
          (let p = mode_to_provider mode;
               acct = new_account (ce_uuid env) n p (ce_now env) prio
           in if mode_needs_oauth mode then
                stored_result
                  [''Account '' @ quoted n @ '' created with provider '' @ quoted p,
                   ''Run `better-ccflare --reauthenticate '' @ n @ ''` to complete the OAuth flow'']
                  (create_account acct rows)
              else if mode_needs_api_key mode then
                (let key = (case key_input of
                       Some k \<Rightarrow> k
                     | None \<Rightarrow>
                         (case ce_var env (''BETTER_CCFLARE_API_KEY_'' @ var_name env n) of
                            Some k \<Rightarrow> k
                          | None \<Rightarrow>
                              (case ce_var env (''API_KEY_'' @ var_name env n) of
                                 Some k \<Rightarrow> k | None \<Rightarrow> [])))
                 in if key = [] then
                      Inl (Bail (''API key required for '' @ quoted mode @ '' accounts. Provide via:'' @
                        [CHR 0x0A] @ ''  - --add-account '' @ n @ '' --mode '' @ mode @
                        '' (then enter key when prompted)'' @ [CHR 0x0A] @
                        ''  - Set BETTER_CCFLARE_API_KEY_'' @ var_name env n @ '' environment variable''))
                    else
                      stored_result
                        [''Account '' @ quoted n @ '' added successfully ('' @ p @ '')'']
                        (create_account (acct\<lparr>api_key := Some key, access_token := Some key,
                           expires_at := Some (i64_add (ce_now env) THIRTY_DAYS_MS)\<rparr>) rows))
              else Inl (Bail (''Unknown mode: '' @ quoted mode))))"

definition remove_account :: "cli_env \<Rightarrow> string \<Rightarrow> account list \<Rightarrow> cli_result" where
  "remove_account env n rows =
     (case find_account_by_name env n rows of
        Inl e \<Rightarrow> Inl e
      | Inr acct \<Rightarrow>
          (case delete_account (acct_id acct) rows of
             (deleted, rows') \<Rightarrow>
               if deleted then Inr ([''Account '' @ quoted n @ '' removed successfully''], rows')
               else Inl (Bail (''Failed to remove account '' @ quoted n))))"

definition pause_account :: "cli_env \<Rightarrow> string \<Rightarrow> account list \<Rightarrow> cli_result" where
  "pause_account env n rows =
     (case find_account_by_name env n rows of
        Inl e \<Rightarrow> Inl e
      | Inr acct \<Rightarrow>
          if paused acct then Inr ([''Account '' @ quoted n @ '' is already paused''], rows)
          else Inr ([''Account '' @ quoted n @ '' paused''], pause (acct_id acct) rows))"

definition resume_account :: "cli_env \<Rightarrow> string \<Rightarrow> account list \<Rightarrow> cli_result" where
  "resume_account env n rows =
     (case find_account_by_name env n rows of
        Inl e \<Rightarrow> Inl e
      | Inr acct \<Rightarrow>
          if \<not> paused acct then Inr ([''Account '' @ quoted n @ '' is not paused''], rows)
          else Inr ([''Account '' @ quoted n @ '' resumed''], resume (acct_id acct) rows))"

definition set_priority :: "cli_env \<Rightarrow> string \<Rightarrow> i64 \<Rightarrow> account list \<Rightarrow> cli_result" where
  "set_priority env n prio rows =
     (case find_account_by_name env n rows of
        Inl e \<Rightarrow> Inl e
      | Inr acct \<Rightarrow>
          Inr ([''Account '' @ quoted n @ '' priority set to '' @ show_int prio],
               update_priority prio (acct_id acct) rows))"

definition reauthenticate_account ::
  "cli_env \<Rightarrow> string \<Rightarrow> string option \<Rightarrow> account list \<Rightarrow> cli_result" where
  "reauthenticate_account env n new_key rows =
     (case find_account_by_name env n rows of
        Inl e \<Rightarrow> Inl e
      | Inr acct \<Rightarrow>
          if provider acct = ''claude-oauth'' then
            Inr ([''OAuth reauthentication for '' @ quoted n @
                  '' is not yet implemented in the Rust CLI.'',
                  ''Use the TypeScript CLI or the dashboard to reauthenticate OAuth accounts.''], rows)
          else
            (let key = (case new_key of
                   Some k \<Rightarrow> k
                 | None \<Rightarrow>
                     (case ce_var env (''BETTER_CCFLARE_API_KEY_'' @ var_name env n) of
                        Some k \<Rightarrow> k | None \<Rightarrow> []))
             in if key = [] then
                  Inl (Bail (''API key required for reauthentication. Provide via argument or set '' @
                    ''BETTER_CCFLARE_API_KEY_'' @ var_name env n))
                else
                  Inr ([''Account '' @ quoted n @ '' reauthenticated successfully''],
                       update_tokens (ce_now env) key (i64_add (ce_now env) THIRTY_DAYS_MS) None
                         (acct_id acct) rows)))"

definition account_status :: "i64 \<Rightarrow> account \<Rightarrow> string" where
  "account_status now a =
     (if paused a then ''paused''
      else if (case expires_at a of Some e \<Rightarrow> e < now | None \<Rightarrow> False) then ''expired''
      else if rate_limited_until a \<noteq> None then ''rate-limited''
      else ''active'')"

definition list_accounts :: "cli_env \<Rightarrow> account list \<Rightarrow> string list" where
  "list_accounts env rows =
     (let accounts = find_all_accounts rows
      in if accounts = [] then [''No accounts configured'']
         else [[CHR 0x0A] @ ''Accounts:''] @
           map (\<lambda>a. ''  '' @ acct_name a @ '' ('' @ provider a @ '', priority '' @ show_int (priority a) @
             '', '' @ show_int (total_requests a) @ '' requests, '' @ account_status (ce_now env) a @ '')'')
             accounts @
           [[CHR 0x0A] @ ''Total: '' @ show_nat (length accounts) @ '' account(s)''])"

record stats_row =
  sr_name :: string
  sr_provider :: string
  sr_priority :: i64
  sr_requests :: i64
  sr_paused :: bool
  sr_token_status :: string
  sr_rate_limit_status :: "string option"

record account_stats =
  st_total :: nat
  st_active :: nat
  st_paused :: nat
  st_expired :: nat
  st_requests :: i64
  st_accounts :: "stats_row list"

definition is_expired :: "i64 \<Rightarrow> account \<Rightarrow> bool" where
  "is_expired now a = (case expires_at a of Some e \<Rightarrow> e \<le> now | None \<Rightarrow> False)"

definition stats_of :: "i64 \<Rightarrow> account \<Rightarrow> stats_row" where
  "stats_of now a =
     \<lparr>sr_name = acct_name a, sr_provider = provider a, sr_priority = priority a,
      sr_requests = total_requests a, sr_paused = paused a,
      sr_token_status = (if is_expired now a then ''expired''
        else if access_token a \<noteq> None then ''valid'' else ''missing''),
      sr_rate_limit_status = rate_limit_status a\<rparr>"

definition show_stats :: "cli_env \<Rightarrow> account list \<Rightarrow> account_stats" where
  "show_stats env rows =
     (let accounts = find_all_accounts rows; now = ce_now env
      in \<lparr>st_total = length accounts,
          st_active = length (filter (\<lambda>a. \<not> paused a \<and>
            (case expires_at a of None \<Rightarrow> True | Some e \<Rightarrow> now < e) \<and> rate_limited_until a = None) accounts),
          st_paused = length (filter paused accounts),
          st_expired = length (filter (is_expired now) accounts),
          st_requests = fold (\<lambda>a n. i64_add n (total_requests a)) accounts 0,
          st_accounts = map (stats_of now) accounts\<rparr>)"

definition reset_stats :: "account list \<Rightarrow> account list" where
  "reset_stats rows =
     map (\<lambda>a. a\<lparr>request_count := 0, session_request_count := 0, session_start := None,
       last_used := None\<rparr>) rows"

section \<open>What the commands guarantee\<close>

definition test_env :: cli_env where
  "test_env = \<lparr>ce_lower = to_ascii_lowercase, ce_upper = (\<lambda>s. s), ce_var = Map.empty, ce_now = 7,
     ce_uuid = ''uuid''\<rparr>"

datatype cli_command =
  AddAccount string string i64 "string option"
| RemoveAccount string
| PauseAccount string
| ResumeAccount string
| SetPriority string i64
| Reauthenticate string "string option"
| ResetStats

fun run_command :: "cli_env \<Rightarrow> cli_command \<Rightarrow> account list \<Rightarrow> cli_result" where
  "run_command env (AddAccount n mode prio key) rows = add_account env n mode prio key rows"
| "run_command env (RemoveAccount n) rows = remove_account env n rows"
| "run_command env (PauseAccount n) rows = pause_account env n rows"
| "run_command env (ResumeAccount n) rows = resume_account env n rows"
| "run_command env (SetPriority n prio) rows = set_priority env n prio rows"
| "run_command env (Reauthenticate n key) rows = reauthenticate_account env n key rows"
| "run_command env ResetStats rows = Inr ([''Statistics reset successfully''], reset_stats rows)"

lemma set_find_all [simp]: "set (find_all_accounts rows) = set rows"
  by (simp add: find_all_accounts_def)

lemma found_by_name:
  "find_account_by_name env n rows = Inr a \<Longrightarrow>
     a \<in> set rows \<and> ce_lower env (acct_name a) = ce_lower env n"
  by (auto simp: find_account_by_name_def find_Some_iff split: option.splits)
     (metis nth_mem set_find_all)

lemma not_found_by_name:
  "find_account_by_name env n rows = Inl e \<Longrightarrow>
     list_all (\<lambda>a. ce_lower env (acct_name a) \<noteq> ce_lower env n) rows"
  by (auto simp: find_account_by_name_def find_None_iff list_all_iff split: option.splits)

lemma valid_row_op:
  "valid_rows (pause i rows) \<longleftrightarrow> valid_rows rows" "valid_rows (resume i rows) \<longleftrightarrow> valid_rows rows"
  "valid_rows (update_priority p i rows) \<longleftrightarrow> valid_rows rows"
  "valid_rows (update_tokens now t e r i rows) \<longleftrightarrow> valid_rows rows"
  using one_row.valid [of "SetPaused True" i rows] one_row.valid [of "SetPaused False" i rows]
    one_row.valid [of "UpdatePriority p" i rows] one_row.valid [of "UpdateTokens now t e r" i rows]
  by simp_all

lemma valid_reset: "valid_rows (reset_stats rows) \<longleftrightarrow> valid_rows rows"
  by (simp add: reset_stats_def valid_rows_def comp_def)

lemma valid_create: "create_account a rows = Inr rows' \<Longrightarrow> valid_rows rows \<Longrightarrow> valid_rows rows'"
  using write_succeeds [of rows "CreateAccount a"] by simp

lemma valid_delete: "delete_account i rows = (b, rows') \<Longrightarrow> valid_rows rows \<Longrightarrow> valid_rows rows'"
  using write_succeeds [of rows "DeleteAccount i"] by simp

lemma valid_add:
  "add_account env n mode prio key rows = Inr (out, rows') \<Longrightarrow> valid_rows rows \<Longrightarrow> valid_rows rows'"
  by (auto simp: add_account_def stored_result_def Let_def dest: valid_create
      split: if_splits sum.splits)

lemma add_prints: "add_account env n mode prio key rows = Inr (out, rows') \<Longrightarrow> out \<noteq> []"
  by (auto simp: add_account_def stored_result_def Let_def split: if_splits sum.splits)

lemma add_never_conflicts:
  assumes "list_all (\<lambda>a. acct_id a \<noteq> ce_uuid env) rows"
  shows "add_account env n mode prio key rows \<noteq> Inl (StoreError e)"
proof (cases "find_account_by_name env n rows")
  case (Inr a)
  then show ?thesis by (simp add: add_account_def)
next
  case (Inl e')
  have "create_account a rows = Inr (rows @ [a])" if "acct_id a = ce_uuid env" "acct_name a = n" for a
    using assms not_found_by_name [OF Inl] that
    by (auto simp: create_account_def list_ex_iff list_all_iff)
  then show ?thesis
    using Inl by (simp add: add_account_def stored_result_def new_account_def Let_def)
qed



text \<open>
  Reauthenticating an account that uses an API key is said to update the key. It updates the
  access token; the key that requests carry is the stored API key, and it stays the old one.
\<close>

theorem reauthenticate_keeps_old_key:
  assumes "valid_rows rows" "reauthenticate_account env n (Some new) rows = Inr (out, rows')"
    "find_account_by_name env n rows = Inr a" "api_key a = Some old"
    "is_api_key_provider (provider a)"
  shows "\<exists>b. stored rows' (acct_id a) = Some b \<and>
    fst (get_valid_access_token io tm b now w) = Inr old"
proof -
  have a: "stored rows (acct_id a) = Some a"
    using stored_mem [OF assms(1)] found_by_name [OF assms(3)] by blast
  have "provider a \<noteq> ''claude-oauth''"
    using assms(5) by (auto simp: is_api_key_provider_def provider_from_str_loose_def
        provider_uses_api_key_def)
  with assms(2,3) have "rows' = update_tokens (ce_now env) new (i64_add (ce_now env) THIRTY_DAYS_MS)
      None (acct_id a) rows"
    by (auto simp: reauthenticate_account_def Let_def split: if_splits)
  then have "stored rows' (acct_id a) =
      Some (row_effect (UpdateTokens (ce_now env) new (i64_add (ce_now env) THIRTY_DAYS_MS) None) a)"
    using one_row.abs_update [of "UpdateTokens (ce_now env) new (i64_add (ce_now env) THIRTY_DAYS_MS) None"
        "acct_id a" rows] a
    by simp
  then show ?thesis
    using assms(4,5)
    by (simp add: row_effect_def update_tokens_def on_row_def get_valid_access_token_def)
qed

theorem reauthenticate_keeps_old_key_witness:
  "\<exists>out rows' b.
     reauthenticate_account test_env ''a'' (Some ''new'')
       [(fresh_account ''a'' ''zai'')\<lparr>api_key := Some ''old''\<rparr>] = Inr (out, rows') \<and>
     stored rows' ''a'' = Some b \<and>
     fst (get_valid_access_token (demo_io (Inl ''refused'')) (token_manager_new []) b 7 0) = Inr ''old''"
proof -
  let ?a = "(fresh_account ''a'' ''zai'')\<lparr>api_key := Some ''old''\<rparr>"
  have found: "find_account_by_name test_env ''a'' [?a] = Inr ?a"
    by (simp add: find_account_by_name_def find_all_accounts_def fresh_account_def)
  then obtain out rows' where run: "reauthenticate_account test_env ''a'' (Some ''new'') [?a] = Inr (out, rows')"
    by (simp add: reauthenticate_account_def fresh_account_def)
  have "valid_rows [?a]" "api_key ?a = Some ''old''" "is_api_key_provider (provider ?a)"
    "acct_id ?a = ''a''"
    by (simp_all add: valid_rows_def fresh_account_def is_api_key_provider_def
        provider_from_str_loose_def provider_uses_api_key_def)
  with reauthenticate_keeps_old_key [OF _ run found] run show ?thesis by metis
qed

end
