(* ===== verification/Api_Keys.thy ===== *)
theory Api_Keys
  imports Auth Account_Commands
begin

text \<open>
  The life of API keys: the table \<open>api_keys\<close> of \<open>database/src/repositories/api_key.rs\<close>, the
  management endpoints of \<open>proxy/src/handlers/api_keys.rs\<close> and the key commands of
  \<open>cli/src/commands.rs\<close>. The table is the list of its rows in the order of insertion; the schema
  makes the id and the hash unique, not the name. Random bytes, the hash functions and dates are
  parameters.
\<close>

section \<open>The repository\<close>

type_synonym key_rows = "api_key_rec list"

definition on_key :: "string \<Rightarrow> (api_key_rec \<Rightarrow> api_key_rec) \<Rightarrow> key_rows \<Rightarrow> key_rows" where
  "on_key i f rows = map (\<lambda>k. if ak_id k = i then f k else k) rows"

definition has_key :: "string \<Rightarrow> key_rows \<Rightarrow> bool" where
  "has_key i rows = list_ex (\<lambda>k. ak_id k = i) rows"

definition key_find_all :: "key_rows \<Rightarrow> key_rows" where
  "key_find_all rows = sort_by (\<lambda>a b. cmp_of (ak_created_at b) (ak_created_at a)) rows"

definition key_find_active :: "key_rows \<Rightarrow> key_rows" where
  "key_find_active rows = key_find_all (filter ak_is_active rows)"

definition key_find_by_id :: "string \<Rightarrow> key_rows \<Rightarrow> api_key_rec option" where
  "key_find_by_id i rows = find (\<lambda>k. ak_id k = i) rows"

definition key_find_by_hashed_key :: "string \<Rightarrow> key_rows \<Rightarrow> api_key_rec option" where
  "key_find_by_hashed_key h rows = find (\<lambda>k. ak_hashed_key k = h \<and> ak_is_active k) rows"

definition key_find_by_name :: "string \<Rightarrow> key_rows \<Rightarrow> api_key_rec option" where
  "key_find_by_name n rows = find (\<lambda>k. ak_name k = n) rows"

definition key_name_exists :: "string \<Rightarrow> key_rows \<Rightarrow> bool" where
  "key_name_exists n rows = list_ex (\<lambda>k. ak_name k = n) rows"

definition key_count_active :: "key_rows \<Rightarrow> nat" where
  "key_count_active rows = length (filter ak_is_active rows)"

definition key_count_all :: "key_rows \<Rightarrow> nat" where
  "key_count_all rows = length rows"

text \<open>The insertion leaves the usage count to the default of the column.\<close>

definition create_key :: "api_key_rec \<Rightarrow> key_rows \<Rightarrow> store_error + key_rows" where
  "create_key k rows =
     (if has_key (ak_id k) rows then Inl (UniqueViolation ''api_keys.id'')
      else if list_ex (\<lambda>b. ak_hashed_key b = ak_hashed_key k) rows
      then Inl (UniqueViolation ''api_keys.hashed_key'')
      else Inr (rows @ [k\<lparr>ak_usage_count := 0\<rparr>]))"

definition update_key_usage :: "string \<Rightarrow> i64 \<Rightarrow> key_rows \<Rightarrow> key_rows" where
  "update_key_usage i timestamp rows =
     on_key i (\<lambda>k. k\<lparr>ak_last_used := Some timestamp, ak_usage_count := ak_usage_count k + 1\<rparr>) rows"

definition disable_key_row :: "string \<Rightarrow> key_rows \<Rightarrow> bool \<times> key_rows" where
  "disable_key_row i rows = (has_key i rows, on_key i (\<lambda>k. k\<lparr>ak_is_active := False\<rparr>) rows)"

definition enable_key_row :: "string \<Rightarrow> key_rows \<Rightarrow> bool \<times> key_rows" where
  "enable_key_row i rows = (has_key i rows, on_key i (\<lambda>k. k\<lparr>ak_is_active := True\<rparr>) rows)"

definition delete_key_row :: "string \<Rightarrow> key_rows \<Rightarrow> bool \<times> key_rows" where
  "delete_key_row i rows = (has_key i rows, filter (\<lambda>k. ak_id k \<noteq> i) rows)"

definition clear_all_keys :: "key_rows \<Rightarrow> key_rows" where
  "clear_all_keys rows = []"

text \<open>The columns that authentication reads.\<close>

definition auth_row :: "api_key_rec \<Rightarrow> key_row" where
  "auth_row k =
     \<lparr>row_id = ak_id k, row_name = ak_name k, row_hash = ak_hashed_key k,
      row_scope = Some (key_scope_as_db (ak_scope k)), row_active = ak_is_active k\<rparr>"

section \<open>The endpoints\<close>

record key_env =
  ke_pool :: bool
  ke_conn :: bool
  ke_scrypt :: "string \<Rightarrow> string \<Rightarrow> string option"
  ke_key_bytes :: string
  ke_salt :: string
  ke_uuid :: string
  ke_now :: i64
  ke_rfc3339 :: "i64 \<Rightarrow> string option"

type_synonym key_reply = "nat \<times> json"

definition error_json :: "string \<Rightarrow> json" where
  "error_json msg = JObject [(''error'', JString msg)]"

definition get_conn :: "key_env \<Rightarrow> key_reply option" where
  "get_conn env =
     (if \<not> ke_pool env then Some (500, error_json ''Database not available'')
      else if \<not> ke_conn env then Some (500, error_json ''Database connection error'')
      else None)"

definition hash_api_key ::
  "(string \<Rightarrow> string \<Rightarrow> string option) \<Rightarrow> string \<Rightarrow> string \<Rightarrow> scrypt_error + string" where
  "hash_api_key scrypt salt key = hash_api_key_with_salt scrypt key (take SALT_LEN salt)"

definition new_key :: "string \<Rightarrow> string \<Rightarrow> string \<Rightarrow> string \<Rightarrow> i64 \<Rightarrow> key_scope \<Rightarrow> api_key_rec" where
  "new_key i n hash sfx now scope =
     \<lparr>ak_id = i, ak_name = n, ak_hashed_key = hash, ak_prefix_last_8 = sfx, ak_created_at = now,
      ak_last_used = None, ak_usage_count = 0, ak_is_active = True, ak_scope = scope\<rparr>"

text \<open>The generated key is hexadecimal text, so that its sfx never splits a character.\<close>

definition suffix_of :: "string \<Rightarrow> string" where
  "suffix_of key = (case key_suffix key of Returns s \<Rightarrow> s | Panics \<Rightarrow> [])"

definition generate_key ::
  "key_env \<Rightarrow> string option \<Rightarrow> key_scope \<Rightarrow> key_rows \<Rightarrow> key_reply \<times> key_rows" where
  "generate_key env body_name scope rows =
     (case body_name of
        None \<Rightarrow> ((400, error_json ''Name is required''), rows)
      | Some n \<Rightarrow>
          if trim n = [] then ((400, error_json ''Name is required''), rows)
          else case get_conn env of
            Some r \<Rightarrow> (r, rows)
          | None \<Rightarrow>
              (let plaintext = generate_api_key (ke_key_bytes env)
               in case hash_api_key (ke_scrypt env) (ke_salt env) plaintext of
                    Inl _ \<Rightarrow> ((500, error_json ''Failed to generate key''), rows)
                  | Inr hashed \<Rightarrow>
                      (case create_key (new_key (ke_uuid env) (trim n) hashed (suffix_of plaintext)
                               (ke_now env) scope) rows of
                         Inl _ \<Rightarrow> ((500, error_json ''Failed to save key''), rows)
                       | Inr rows' \<Rightarrow>
                           ((201, JObject [(''success'', JBool True),
                              (''data'', JObject [(''id'', JString (ke_uuid env)), (''name'', JString (trim n)),
                                 (''apiKey'', JString plaintext),
                                 (''prefixLast8'', JString (suffix_of plaintext)),
                                 (''createdAt'', JString
                                    (case ke_rfc3339 env (ke_now env) of Some d \<Rightarrow> d | None \<Rightarrow> []))])]),
                            rows'))))"

definition key_response :: "(i64 \<Rightarrow> string option) \<Rightarrow> api_key_rec \<Rightarrow> json" where
  "key_response rfc3339 k =
     JObject [(''id'', JString (ak_id k)), (''name'', JString (ak_name k)),
       (''prefixLast8'', JString (ak_prefix_last_8 k)),
       (''createdAt'', JString (case rfc3339 (ak_created_at k) of Some d \<Rightarrow> d | None \<Rightarrow> [])),
       (''lastUsed'', (case Option.bind (ak_last_used k) rfc3339 of Some d \<Rightarrow> JString d | None \<Rightarrow> JNull)),
       (''usageCount'', JNumber (if 0 \<le> ak_usage_count k then PosInt (nat (ak_usage_count k))
                              else NegInt (ak_usage_count k))),
       (''isActive'', JBool (ak_is_active k)), (''scope'', JString (key_scope_as_db (ak_scope k)))]"

definition list_keys :: "key_env \<Rightarrow> key_rows \<Rightarrow> key_reply" where
  "list_keys env rows =
     (case get_conn env of
        Some r \<Rightarrow> r
      | None \<Rightarrow>
          (let data = map (key_response (ke_rfc3339 env)) (key_find_all rows)
           in (200, JObject [(''success'', JBool True), (''data'', JArray data),
                 (''count'', JNumber (PosInt (length data)))])))"

definition change_key ::
  "key_env \<Rightarrow> string \<Rightarrow> string \<Rightarrow> (string \<Rightarrow> key_rows \<Rightarrow> bool \<times> key_rows) \<Rightarrow> key_rows \<Rightarrow>
     key_reply \<times> key_rows" where
  "change_key env verb i op rows =
     (case get_conn env of
        Some r \<Rightarrow> (r, rows)
      | None \<Rightarrow>
          (case op i rows of
             (True, rows') \<Rightarrow>
               ((200, JObject [(''success'', JBool True),
                  (''message'', JString (''API key '' @ i @ '' '' @ verb))]), rows')
           | (False, rows') \<Rightarrow> ((404, error_json (''API key '' @ i @ '' not found'')), rows')))"

definition delete_key :: "key_env \<Rightarrow> string \<Rightarrow> key_rows \<Rightarrow> key_reply \<times> key_rows" where
  "delete_key env i = change_key env ''deleted'' i delete_key_row"

definition enable_key :: "key_env \<Rightarrow> string \<Rightarrow> key_rows \<Rightarrow> key_reply \<times> key_rows" where
  "enable_key env i = change_key env ''enabled'' i enable_key_row"

definition disable_key :: "key_env \<Rightarrow> string \<Rightarrow> key_rows \<Rightarrow> key_reply \<times> key_rows" where
  "disable_key env i = change_key env ''disabled'' i disable_key_row"

definition key_stats :: "key_env \<Rightarrow> key_rows \<Rightarrow> key_reply" where
  "key_stats env rows =
     (case get_conn env of
        Some r \<Rightarrow> r
      | None \<Rightarrow>
          (200, JObject [(''success'', JBool True),
             (''data'', JObject [(''total'', JNumber (PosInt (key_count_all rows))),
                (''active'', JNumber (PosInt (key_count_active rows))),
                (''inactive'', JNumber (PosInt (key_count_all rows - key_count_active rows)))])]))"

section \<open>The commands\<close>

text \<open>The uuid of the key is given without its hyphens.\<close>

definition cli_generate_api_key ::
  "(string \<Rightarrow> string) \<Rightarrow> string \<Rightarrow> string \<Rightarrow> i64 \<Rightarrow> string \<Rightarrow> key_rows \<Rightarrow>
     cli_error + string list \<times> key_rows" where
  "cli_generate_api_key sha256 key_uuid i now n rows =
     (if key_name_exists n rows then Inl (Bail (''API key with name '' @ quoted n @ '' already exists''))
      else
        (let plaintext = ''bccf_'' @ key_uuid;
             sfx = (if length plaintext \<ge> 8 then drop (length plaintext - 8) plaintext else plaintext);
             hashed = hex_encode (sha256 plaintext)
         in case create_key (new_key i n hashed (''bccf_...'' @ sfx) now Admin) rows of
              Inl e \<Rightarrow> Inl (StoreError e)
            | Inr rows' \<Rightarrow>
                Inr ([''API key generated successfully:'', ''  Name: '' @ n, ''  Key:  '' @ plaintext, [],
                      ''Save this key '' @ [CHR 0xE2, CHR 0x80, CHR 0x94] @ '' it cannot be retrieved later.''], rows')))"

definition key_by_name :: "string \<Rightarrow> key_rows \<Rightarrow> cli_error + api_key_rec" where
  "key_by_name n rows =
     (case key_find_by_name n rows of
        None \<Rightarrow> Inl (Bail (''API key '' @ quoted n @ '' not found''))
      | Some k \<Rightarrow> Inr k)"

definition cli_disable_api_key :: "string \<Rightarrow> key_rows \<Rightarrow> cli_error + string list \<times> key_rows" where
  "cli_disable_api_key n rows =
     (case key_by_name n rows of
        Inl e \<Rightarrow> Inl e
      | Inr k \<Rightarrow>
          if \<not> ak_is_active k then Inr ([''API key '' @ quoted n @ '' is already disabled''], rows)
          else Inr ([''API key '' @ quoted n @ '' disabled''], snd (disable_key_row (ak_id k) rows)))"

definition cli_enable_api_key :: "string \<Rightarrow> key_rows \<Rightarrow> cli_error + string list \<times> key_rows" where
  "cli_enable_api_key n rows =
     (case key_by_name n rows of
        Inl e \<Rightarrow> Inl e
      | Inr k \<Rightarrow>
          if ak_is_active k then Inr ([''API key '' @ quoted n @ '' is already enabled''], rows)
          else Inr ([''API key '' @ quoted n @ '' enabled''], snd (enable_key_row (ak_id k) rows)))"

definition cli_delete_api_key :: "string \<Rightarrow> key_rows \<Rightarrow> cli_error + string list \<times> key_rows" where
  "cli_delete_api_key n rows =
     (case key_by_name n rows of
        Inl e \<Rightarrow> Inl e
      | Inr k \<Rightarrow> Inr ([''API key '' @ quoted n @ '' deleted permanently''], snd (delete_key_row (ak_id k) rows)))"

definition cli_list_api_keys :: "(i64 \<Rightarrow> string option) \<Rightarrow> key_rows \<Rightarrow> string list" where
  "cli_list_api_keys minutes rows =
     (let keys = key_find_all rows
      in if keys = [] then [''No API keys configured'']
         else [[CHR 0x0A] @ ''API Keys:''] @
           map (\<lambda>k. ''  '' @ ak_name k @ '' ['' @ ak_prefix_last_8 k @ ''] '' @ [CHR 0xE2, CHR 0x80, CHR 0x94] @
             '' '' @ (if ak_is_active k then ''active'' else ''disabled'') @
             '' (used '' @ show_int (ak_usage_count k) @ '' times, last: '' @
             (case Option.bind (ak_last_used k) minutes of Some d \<Rightarrow> d | None \<Rightarrow> ''never'') @ '')'') keys @
           [[CHR 0x0A] @ ''Total: '' @ show_nat (length keys) @ '' key(s) ('' @
            show_nat (length (filter ak_is_active keys)) @ '' active)''])"

section \<open>Writes to the table\<close>

text \<open>Every endpoint and command leaves the table as it is or makes one of these writes.\<close>

datatype key_event =
  CreateKey api_key_rec
| UseKey string i64
| DisableKey string
| EnableKey string
| DeleteKey string
| ClearKeys

fun key_write :: "key_event \<Rightarrow> key_rows \<Rightarrow> key_rows" where
  "key_write (CreateKey k) rows = (case create_key k rows of Inl _ \<Rightarrow> rows | Inr rows' \<Rightarrow> rows')"
| "key_write (UseKey i t) rows = update_key_usage i t rows"
| "key_write (DisableKey i) rows = snd (disable_key_row i rows)"
| "key_write (EnableKey i) rows = snd (enable_key_row i rows)"
| "key_write (DeleteKey i) rows = snd (delete_key_row i rows)"
| "key_write ClearKeys rows = clear_all_keys rows"

lemmas key_row_defs =
  on_key_def create_key_def update_key_usage_def disable_key_row_def enable_key_row_def
  delete_key_row_def clear_all_keys_def

lemma endpoints_write:
  "snd (generate_key env body scope rows) = rows \<or>
     (\<exists>k. ak_id k = ke_uuid env \<and> snd (generate_key env body scope rows) = key_write (CreateKey k) rows)"
  "snd (delete_key env i rows) = rows \<or> snd (delete_key env i rows) = key_write (DeleteKey i) rows"
  "snd (enable_key env i rows) = rows \<or> snd (enable_key env i rows) = key_write (EnableKey i) rows"
  "snd (disable_key env i rows) = rows \<or> snd (disable_key env i rows) = key_write (DisableKey i) rows"
proof -
  show "snd (generate_key env body scope rows) = rows \<or>
     (\<exists>k. ak_id k = ke_uuid env \<and> snd (generate_key env body scope rows) = key_write (CreateKey k) rows)"
  proof (cases "snd (generate_key env body scope rows) = rows")
    case False
    then obtain n hashed rows' where
      "create_key (new_key (ke_uuid env) (trim n) hashed (suffix_of (generate_api_key (ke_key_bytes env)))
         (ke_now env) scope) rows = Inr rows'"
      "snd (generate_key env body scope rows) = rows'"
      by (auto simp: generate_key_def Let_def split: option.splits if_splits sum.splits)
    then show ?thesis
      by (intro disjI2 exI [of _ "new_key (ke_uuid env) (trim n) hashed
            (suffix_of (generate_api_key (ke_key_bytes env))) (ke_now env) scope"])
         (simp add: new_key_def)
  qed simp
qed (auto simp: delete_key_def enable_key_def disable_key_def change_key_def
    split: option.splits prod.splits bool.splits)

text \<open>A key is usable when an active row has its id.\<close>

definition usable :: "string \<Rightarrow> key_rows \<Rightarrow> bool" where
  "usable i rows \<longleftrightarrow> list_ex (\<lambda>k. ak_id k = i \<and> ak_is_active k) rows"

fun gives_back :: "string \<Rightarrow> key_event \<Rightarrow> bool" where
  "gives_back i (CreateKey k) = (ak_id k = i)"
| "gives_back i (EnableKey j) = (j = i)"
| "gives_back i _ = False"

lemma on_key_usable:
  "(\<And>k. ak_id (f k) = ak_id k) \<Longrightarrow>
     usable i (on_key j f rows) \<longleftrightarrow>
       list_ex (\<lambda>k. ak_id k = i \<and> (if i = j then ak_is_active (f k) else ak_is_active k)) rows"
  by (induction rows) (auto simp: usable_def on_key_def)

lemma filter_usable: "usable i (filter P rows) \<Longrightarrow> usable i rows"
  by (induction rows) (auto simp: usable_def split: if_splits)

lemma append_usable [simp]: "usable i (rows @ rows') \<longleftrightarrow> usable i rows \<or> usable i rows'"
  by (simp add: usable_def)

lemma usable_single [simp]: "usable i [k] \<longleftrightarrow> ak_id k = i \<and> ak_is_active k"
  by (simp add: usable_def)

lemma revoked: "\<not> usable i (key_write (DisableKey i) rows)" "\<not> usable i (key_write (DeleteKey i) rows)"
  by (induction rows) (simp_all add: usable_def key_row_defs)

lemma stays_revoked: "\<not> usable i rows \<Longrightarrow> \<not> gives_back i w \<Longrightarrow> \<not> usable i (key_write w rows)"
proof (cases w)
  case (CreateKey k)
  then show "\<not> usable i rows \<Longrightarrow> \<not> gives_back i w \<Longrightarrow> \<not> usable i (key_write w rows)"
    by (simp add: create_key_def split: sum.split)
next
  case ClearKeys
  then show "\<not> usable i (key_write w rows)"
    by (simp add: clear_all_keys_def usable_def)
next
  case (DeleteKey j)
  assume "\<not> usable i rows"
  then show "\<not> usable i (key_write w rows)"
    by (simp add: DeleteKey delete_key_row_def) (blast dest: filter_usable)
next
  case (UseKey j t)
  assume "\<not> usable i rows"
  then show "\<not> usable i (key_write w rows)"
    by (cases "i = j") (simp_all add: UseKey update_key_usage_def on_key_usable, simp_all add: usable_def)
next
  case (DisableKey j)
  assume "\<not> usable i rows"
  then show "\<not> usable i (key_write w rows)"
    by (cases "i = j") (simp_all add: DisableKey disable_key_row_def on_key_usable, simp_all add: usable_def list_ex_iff)
next
  case (EnableKey j)
  assume "\<not> usable i rows" "\<not> gives_back i w"
  then show "\<not> usable i (key_write w rows)"
    by (cases "i = j") (simp_all add: EnableKey enable_key_row_def on_key_usable, simp_all add: usable_def)
qed

lemma stays_revoked_fold:
  "\<not> usable i rows \<Longrightarrow> list_all (\<lambda>w. \<not> gives_back i w) ws \<Longrightarrow> \<not> usable i (fold key_write ws rows)"
  by (induction ws arbitrary: rows) (auto simp: stays_revoked)

lemma verify_rows_mem:
  "verify_rows check rs = Some (i, n, s) \<Longrightarrow> \<exists>r \<in> set rs. row_id r = i"
  by (induction rs) (auto split: option.splits if_splits)

lemma verified_usable:
  assumes "verify_api_key_sync scrypt sha256 (Some (map auth_row rows)) key = Some (i, n, s)"
  shows "usable i rows"
  using assms verify_rows_mem
  by (fastforce simp: verify_api_key_sync_def usable_def list_ex_iff auth_row_def)



section \<open>A generated key is accepted\<close>

lemma check_hash_fresh:
  assumes "hash_api_key scrypt salt key = Inr hash"
    and "\<And>k s out. scrypt k s = Some out \<Longrightarrow> length out = SCRYPT_KEY_LEN"
  shows "check_hash scrypt sha256 key hash = Some True"
proof -
  have "scrypt key (take SALT_LEN salt) \<noteq> None"
    using assms(1) by (auto simp: hash_api_key_def hash_api_key_with_salt_def split: option.splits)
  then show ?thesis
    using verify_hashed_key [OF assms(1) [unfolded hash_api_key_def] assms(2), where key' = key]
    by (simp add: check_hash_def)
qed

lemma verify_rows_append:
  "list_all (\<lambda>r. check (row_hash r) = Some False) rs \<Longrightarrow>
     verify_rows check (rs @ rs') = verify_rows check rs'"
  by (induction rs) auto

lemma auth_row_new [simp]:
  "auth_row (k\<lparr>ak_usage_count := c\<rparr>) = auth_row k" "row_active (auth_row k) = ak_is_active k"
  "row_hash (auth_row k) = ak_hashed_key k" "row_id (auth_row k) = ak_id k"
  "row_name (auth_row k) = ak_name k" "row_scope (auth_row k) = Some (key_scope_as_db (ak_scope k))"
  by (simp_all add: auth_row_def)

lemma new_key_sel [simp]:
  "ak_id (new_key i n h s t c) = i" "ak_name (new_key i n h s t c) = n"
  "ak_hashed_key (new_key i n h s t c) = h" "ak_is_active (new_key i n h s t c)"
  "ak_scope (new_key i n h s t c) = c"
  by (simp_all add: new_key_def)

lemma verify_created:
  assumes "create_key (new_key i n hash sfx t c) rows = Inr rows'"
    and "check_hash scrypt sha256 key hash = Some True"
    and "list_all (\<lambda>k. check_hash scrypt sha256 key (ak_hashed_key k) = Some False)
      (filter ak_is_active rows)"
  shows "verify_api_key_sync scrypt sha256 (Some (map auth_row rows')) key = Some (i, n, c)"
proof -
  let ?k = "auth_row (new_key i n hash sfx t c)"
  have rows': "map auth_row rows' = map auth_row rows @ [?k]"
    using assms(1) by (auto simp: create_key_def split: if_splits)
  have "list_all (\<lambda>r. check_hash scrypt sha256 key (row_hash r) = Some False)
      (filter row_active (map auth_row rows))"
    using assms(3) by (auto simp: list_all_iff)
  then have "verify_api_key_sync scrypt sha256 (Some (map auth_row rows')) key =
      verify_rows (check_hash scrypt sha256 key) [?k]"
    by (simp add: verify_api_key_sync_def rows' verify_rows_append)
  with assms(2) show ?thesis by simp
qed

definition no_older_accepts ::
  "(string \<Rightarrow> string \<Rightarrow> string option) \<Rightarrow> (string \<Rightarrow> string) \<Rightarrow> string \<Rightarrow> key_rows \<Rightarrow> bool" where
  "no_older_accepts scrypt sha256 key rows \<longleftrightarrow>
     list_all (\<lambda>k. check_hash scrypt sha256 key (ak_hashed_key k) = Some False) (filter ak_is_active rows)"

text \<open>
  C30. The key that the response of a successful generation shows is accepted from then on, as the
  key with the returned id, the trimmed name and the requested scope, when no older active key
  accepts it.
\<close>

theorem generated_key_authenticates:
  assumes "generate_key env body scope rows = ((201, reply), rows')"
    and "\<And>k s out. ke_scrypt env k s = Some out \<Longrightarrow> length out = SCRYPT_KEY_LEN"
    and "no_older_accepts (ke_scrypt env) sha256 (generate_api_key (ke_key_bytes env)) rows"
  shows "\<exists>data shown n. json_get reply ''data'' = Some data \<and> get_str data ''apiKey'' = Some shown \<and>
    body = Some n \<and> get_str data ''id'' = Some (ke_uuid env) \<and>
    verify_api_key_sync (ke_scrypt env) sha256 (Some (map auth_row rows')) shown =
      Some (ke_uuid env, trim n, scope)"
proof -
  let ?key = "generate_api_key (ke_key_bytes env)"
  obtain n hash where n: "body = Some n" and hash: "hash_api_key (ke_scrypt env) (ke_salt env) ?key = Inr hash"
    and rows': "create_key (new_key (ke_uuid env) (trim n) hash (suffix_of ?key) (ke_now env) scope) rows = Inr rows'"
    and reply: "\<exists>data. json_get reply ''data'' = Some data \<and> get_str data ''apiKey'' = Some ?key \<and>
      get_str data ''id'' = Some (ke_uuid env)"
    using assms(1)
    by (fastforce simp: generate_key_def Let_def json_get_def get_str_def as_str_def get_conn_def
        split: option.splits if_splits sum.splits)
  have "check_hash (ke_scrypt env) sha256 ?key hash = Some True"
    using hash assms(2) by (rule check_hash_fresh)
  with verify_created [OF rows'] assms(3) n reply show ?thesis
    by (auto simp: no_older_accepts_def)
qed

definition key_test_env :: key_env where
  "key_test_env =
     \<lparr>ke_pool = True, ke_conn = True, ke_scrypt = (\<lambda>k s. Some (replicate 64 CHR ''h'')),
      ke_key_bytes = ''kkkk'', ke_salt = ''salt'', ke_uuid = ''u'', ke_now = 0,
      ke_rfc3339 = (\<lambda>_. None)\<rparr>"

theorem generated_key_authenticates_witness:
  "\<exists>reply rows'. generate_key key_test_env (Some ''ci'') Proxy [] = ((201, reply), rows') \<and>
     (\<exists>data shown n. json_get reply ''data'' = Some data \<and> get_str data ''apiKey'' = Some shown \<and>
        Some ''ci'' = Some n \<and> get_str data ''id'' = Some (ke_uuid key_test_env) \<and>
        verify_api_key_sync (ke_scrypt key_test_env) id (Some (map auth_row rows')) shown =
          Some (ke_uuid key_test_env, trim n, Proxy))"
proof -
  have trim: "trim ''ci'' = ''ci''"
    by (rule trim_graphic) (simp_all add: graphic_def)
  obtain reply rows' where run:
    "generate_key key_test_env (Some ''ci'') Proxy [] = ((201, reply), rows')"
    using trim by (auto simp: generate_key_def Let_def get_conn_def key_test_env_def hash_api_key_def
        hash_api_key_with_salt_def create_key_def has_key_def)
  have len: "length out = SCRYPT_KEY_LEN" if "ke_scrypt key_test_env k s = Some out" for k s out
    using that by (auto simp: key_test_env_def SCRYPT_KEY_LEN_def)
  have "no_older_accepts (ke_scrypt key_test_env) id (generate_api_key (ke_key_bytes key_test_env)) []"
    by (simp add: no_older_accepts_def)
  with len have "\<exists>data shown n. json_get reply ''data'' = Some data \<and> get_str data ''apiKey'' = Some shown \<and>
      Some ''ci'' = Some n \<and> get_str data ''id'' = Some (ke_uuid key_test_env) \<and>
      verify_api_key_sync (ke_scrypt key_test_env) id (Some (map auth_row rows')) shown =
        Some (ke_uuid key_test_env, trim n, Proxy)"
    by (rule generated_key_authenticates [OF run])
  with run show ?thesis
    by - (rule exI [of _ reply], rule exI [of _ rows'], rule conjI)
qed

lemma cli_key_authenticates:
  assumes "cli_generate_api_key sha256 uuid i now n rows = Inr (out, rows')"
    and "no_older_accepts scrypt sha256 (''bccf_'' @ uuid) rows"
  shows "(''  Key:  '' @ ''bccf_'' @ uuid) \<in> set out"
    and "verify_api_key_sync scrypt sha256 (Some (map auth_row rows')) (''bccf_'' @ uuid) = Some (i, n, Admin)"
proof -
  let ?key = "''bccf_'' @ uuid"
  show "(''  Key:  '' @ ''bccf_'' @ uuid) \<in> set out"
    using assms(1) by (auto simp: cli_generate_api_key_def Let_def split: if_splits sum.splits)
  obtain sfx where rows': "create_key (new_key i n (hex_encode (sha256 ?key)) sfx now Admin) rows = Inr rows'"
    using assms(1) by (auto simp: cli_generate_api_key_def Let_def split: if_splits sum.splits)
  have "check_hash scrypt sha256 ?key (hex_encode (sha256 ?key)) = Some True"
    using colon_hex_encode [of "sha256 ?key"]
    by (simp add: check_hash_def verify_api_key_def verify_sha256_legacy_def)
  with verify_created [OF rows'] assms(2)
  show "verify_api_key_sync scrypt sha256 (Some (map auth_row rows')) ?key = Some (i, n, Admin)"
    by (simp add: no_older_accepts_def)
qed

section \<open>Names are not unique\<close>

text \<open>
  The commands address a key by its name and act on the first row that has it; the endpoint does
  not ask for a new name. So when two keys share a name and the first is off, the command that
  disables the name reports that it is already disabled and leaves the second one active.
\<close>

theorem cli_disable_misses_duplicate:
  assumes "key_find_by_name n rows = Some k" "\<not> ak_is_active k"
  shows "cli_disable_api_key n rows = Inr ([''API key '' @ quoted n @ '' is already disabled''], rows)"
  using assms by (simp add: cli_disable_api_key_def key_by_name_def)

theorem cli_disable_misses_duplicate_witness:
  "\<exists>reply rows. generate_key key_test_env (Some ''ci'') Admin
       [(new_key ''a'' ''ci'' ''6b'' [] 0 Admin)\<lparr>ak_is_active := False\<rparr>] = ((201, reply), rows) \<and>
     usable ''u'' rows \<and> cli_disable_api_key ''ci'' rows =
       Inr ([''API key '' @ quoted ''ci'' @ '' is already disabled''], rows)"
proof -
  let ?old = "(new_key ''a'' ''ci'' ''6b'' [] 0 Admin)\<lparr>ak_is_active := False\<rparr>"
  have trim: "trim ''ci'' = ''ci''"
    by (rule trim_graphic) (simp_all add: graphic_def)
  have neq: "''6b'' \<noteq> x @ CHR '':'' # y" for x y :: string
  proof
    assume "''6b'' = x @ CHR '':'' # y"
    then have "CHR '':'' \<in> set ''6b''" by simp
    then show False by simp
  qed
  obtain reply k where run: "generate_key key_test_env (Some ''ci'') Admin [?old] = ((201, reply), [?old, k])"
    and k: "ak_id k = ''u'' \<and> ak_is_active k"
    using trim neq by (auto simp: generate_key_def Let_def get_conn_def key_test_env_def hash_api_key_def
        hash_api_key_with_salt_def create_key_def has_key_def new_key_def)
  have "cli_disable_api_key ''ci'' [?old, k] =
      Inr ([''API key '' @ quoted ''ci'' @ '' is already disabled''], [?old, k])"
    by (rule cli_disable_misses_duplicate [where k = ?old]) (simp_all add: key_find_by_name_def)
  with run k show ?thesis
    by (intro exI [of _ reply] exI [of _ "[?old, k]"]) (simp add: usable_def)
qed

end
