(* ===== verification/Db_Writer.thy ===== *)
theory Db_Writer
  imports Request_Store Api_Keys XFactor_Service
begin

text \<open>
  The database as a whole with the references between its tables, the retry of busy statements,
  \<open>database/src/retry.rs\<close>, and the writer that takes the writes of the hot path through a bounded
  channel and runs them in batches, \<open>database/src/async_writer.rs\<close>. The foreign keys are those of
  \<open>database/src/schema.rs\<close>: payloads refer to requests, states of the estimator to accounts.
\<close>

section \<open>The database\<close>

record database =
  db_accounts :: "account list"
  db_keys :: key_rows
  db_tables :: request_tables
  db_xfactor :: xfactor_table

definition keys_ok :: "key_rows \<Rightarrow> bool" where
  "keys_ok rows \<longleftrightarrow> distinct (map ak_id rows) \<and> distinct (map ak_hashed_key rows)"

definition db_ok :: "database \<Rightarrow> bool" where
  "db_ok db \<longleftrightarrow> valid_rows (db_accounts db) \<and> keys_ok (db_keys db) \<and> tables_ok (db_tables db) \<and>
     hm_ok (db_xfactor db) \<and> fst ` set (db_xfactor db) \<subseteq> acct_id ` set (db_accounts db)"

text \<open>The deletion of an account, refused while a state of the estimator refers to it.\<close>

definition db_delete_account :: "string \<Rightarrow> database \<Rightarrow> db_error + bool \<times> database" where
  "db_delete_account i db =
     (if list_ex (\<lambda>a. acct_id a = i) (db_accounts db) \<and> hm_get (db_xfactor db) i \<noteq> None
      then Inl foreign_key_failed
      else (case delete_account i (db_accounts db) of
              (changed, rows) \<Rightarrow> Inr (changed, db\<lparr>db_accounts := rows\<rparr>)))"

section \<open>Retry\<close>

record retry_config =
  max_attempts :: nat
  initial_delay_ms :: nat
  backoff_factor :: f64
  max_delay_ms :: nat
  jitter_factor :: f64

definition retry_config_default :: retry_config where
  "retry_config_default =
     \<lparr>max_attempts = 3, initial_delay_ms = 100, backoff_factor = lit 2, max_delay_ms = 5000,
      jitter_factor = lit (1 / 10)\<rparr>"

text \<open>\<open>powi\<close> and the remainder of binary64 numbers are parameters.\<close>

definition delay_for_attempt ::
  "(f64 \<Rightarrow> nat \<Rightarrow> f64) \<Rightarrow> (f64 \<Rightarrow> f64 \<Rightarrow> f64) \<Rightarrow> retry_config \<Rightarrow> nat \<Rightarrow> int" where
  "delay_for_attempt pow_i frem cfg attempt =
     (let base = f64_of_int (int (initial_delay_ms cfg)) * pow_i (backoff_factor cfg) attempt;
          capped = f64_min base (f64_of_int (int (max_delay_ms cfg)));
          jitter_range = capped * jitter_factor cfg;
          jitter = jitter_range * (frem (f64_of_int (int attempt) * lit 7) (lit 20) / lit 10 - lit 1);
          final_ms = f64_max (capped + jitter) (lit 0)
      in case final_ms of Fin x \<Rightarrow> min \<lfloor>x\<rfloor> (2 ^ 64 - 1) | PInf \<Rightarrow> 2 ^ 64 - 1 | _ \<Rightarrow> 0)"

text \<open>
  The attempts from number \<open>attempt\<close> on, \<open>left\<close> of them; \<open>slept\<close> are the delays so far. The
  operation acts on a world of its own.
\<close>

fun retry_loop ::
  "(nat \<Rightarrow> int) \<Rightarrow> ('w \<Rightarrow> (db_error + 'a) \<times> 'w) \<Rightarrow> nat \<Rightarrow> nat \<Rightarrow> db_error option \<Rightarrow> int list \<Rightarrow> 'w \<Rightarrow>
     (db_error + 'a) \<times> int list \<times> 'w" where
  "retry_loop delay f attempt 0 last_err slept w =
     (Inl (case last_err of Some e \<Rightarrow> e | None \<Rightarrow> BusyTimeout), slept, w)"
| "retry_loop delay f attempt (Suc left) last_err slept w =
     (case f w of
        (Inr v, w) \<Rightarrow> (Inr v, slept, w)
      | (Inl e, w) \<Rightarrow>
          if is_busy e \<and> left \<noteq> 0
          then retry_loop delay f (Suc attempt) left (Some e) (slept @ [delay attempt]) w
          else (Inl e, slept, w))"

definition with_retry ::
  "(nat \<Rightarrow> int) \<Rightarrow> retry_config \<Rightarrow> ('w \<Rightarrow> (db_error + 'a) \<times> 'w) \<Rightarrow> 'w \<Rightarrow>
     (db_error + 'a) \<times> int list \<times> 'w" where
  "with_retry delay cfg f w = retry_loop delay f 0 (max_attempts cfg) None [] w"

text \<open>The results of the operation when it is called again and again.\<close>

fun nth_result :: "('w \<Rightarrow> (db_error + 'a) \<times> 'w) \<Rightarrow> 'w \<Rightarrow> nat \<Rightarrow> (db_error + 'a) \<times> 'w" where
  "nth_result f w 0 = f w"
| "nth_result f w (Suc n) = nth_result f (snd (f w)) n"

fun busy_result :: "(db_error + 'a) \<times> 'w \<Rightarrow> bool" where
  "busy_result (Inl e, w) = is_busy e"
| "busy_result (Inr v, w) = False"

lemma retry_loop_spec:
  "\<exists>n \<le> left. (\<forall>k < n. busy_result (nth_result f w k)) \<and>
     (n = left \<or> \<not> busy_result (nth_result f w n)) \<and>
     retry_loop delay f attempt (Suc left) last_err slept w =
       (fst (nth_result f w n), slept @ map (\<lambda>k. delay (attempt + k)) [0..<n], snd (nth_result f w n))"
proof (induction left arbitrary: attempt last_err slept w)
  case 0
  then show ?case
    by (cases "f w"; cases "fst (f w)") auto
next
  case (Suc left)
  obtain r w' where f: "f w = (r, w')" by (cases "f w")
  show ?case
  proof (cases "busy_result (f w)")
    case False
    then show ?thesis
      by (intro exI [of _ 0]) (cases r; auto simp: f)
  next
    case True
    then obtain e where e: "r = Inl e" "is_busy e" by (cases r) (auto simp: f)
    from Suc.IH [of w' "Suc attempt" "Some e" "slept @ [delay attempt]"] obtain n where n:
      "n \<le> left" "\<forall>k < n. busy_result (nth_result f w' k)"
      "n = left \<or> \<not> busy_result (nth_result f w' n)"
      "retry_loop delay f (Suc attempt) (Suc left) (Some e) (slept @ [delay attempt]) w' =
        (fst (nth_result f w' n), (slept @ [delay attempt]) @ map (\<lambda>k. delay (Suc attempt + k)) [0..<n],
         snd (nth_result f w' n))"
      by blast
    have "\<forall>k < Suc n. busy_result (nth_result f w k)"
      using True n(2) by (auto simp: less_Suc_eq_0_disj f)
    moreover have "[0..<Suc n] = 0 # map Suc [0..<n]"
      by (simp only: upt_conv_Cons map_Suc_upt zero_less_Suc)
    ultimately show ?thesis
      using n e by (intro exI [of _ "Suc n"]) (simp add: f comp_def del: upt_Suc)
  qed
qed

text \<open>
  A statement is tried until it succeeds or fails with an error that is not about a lock, three
  times at most by default; the result is that of the last try, and between two tries there is one
  pause, for the delay of the number of the failed one.
\<close>

theorem with_retry_correct:
  "\<exists>n < max 1 (max_attempts cfg).
     if max_attempts cfg = 0 then with_retry delay cfg f w = (Inl BusyTimeout, [], w)
     else (\<forall>k < n. busy_result (nth_result f w k)) \<and>
       (Suc n = max_attempts cfg \<or> \<not> busy_result (nth_result f w n)) \<and>
       with_retry delay cfg f w = (fst (nth_result f w n), map delay [0..<n], snd (nth_result f w n))"
proof (cases "max_attempts cfg")
  case (Suc left)
  with retry_loop_spec [of left f w delay 0 None "[]"] show ?thesis
    by (auto simp: with_retry_def less_Suc_eq_le)
qed (simp add: with_retry_def)

section \<open>Write operations\<close>

datatype write_op =
  SaveRequest request_rec
| SavePayload string "string option" "string option"
| UpdateRequestUsage string usage_update
| UpdateRequestResult string bool "string option" i64 i64
| IncrementAccountUsage string i64 i64
| SetRateLimitedOp string i64
| UpdateRateLimitMetaOp string string "i64 option" "i64 option"
| UpdateApiKeyUsage string i64
| Shutdown

fun execute_op :: "write_op \<Rightarrow> database \<Rightarrow> db_error + database" where
  "execute_op (SaveRequest r) db = Inr (db\<lparr>db_tables := save_request r (db_tables db)\<rparr>)"
| "execute_op (SavePayload i req resp) db =
     (case save_payload i req resp (db_tables db) of
        Inl e \<Rightarrow> Inl e | Inr t \<Rightarrow> Inr (db\<lparr>db_tables := t\<rparr>))"
| "execute_op (UpdateRequestUsage i u) db =
     Inr (db\<lparr>db_tables := update_request_usage i u (db_tables db)\<rparr>)"
| "execute_op (UpdateRequestResult i ok err ms n) db =
     Inr (db\<lparr>db_tables := update_request_result i ok err ms n (db_tables db)\<rparr>)"
| "execute_op (IncrementAccountUsage i now dur) db =
     Inr (db\<lparr>db_accounts := increment_usage now dur i (db_accounts db)\<rparr>)"
| "execute_op (SetRateLimitedOp i until) db =
     Inr (db\<lparr>db_accounts := set_rate_limited until i (db_accounts db)\<rparr>)"
| "execute_op (UpdateRateLimitMetaOp i status reset left) db =
     Inr (db\<lparr>db_accounts := update_rate_limit_meta status reset left i (db_accounts db)\<rparr>)"
| "execute_op (UpdateApiKeyUsage i t) db =
     Inr (db\<lparr>db_keys := update_key_usage i t (db_keys db)\<rparr>)"
| "execute_op Shutdown db = Inr db"

text \<open>A statement that fails is logged and the transaction goes on.\<close>

definition run_op :: "write_op \<Rightarrow> database \<Rightarrow> database" where
  "run_op w db = (case execute_op w db of Inl _ \<Rightarrow> db | Inr db' \<Rightarrow> db')"

datatype flush_outcome = NoConnection | NoTransaction | CommitFailed | Committed

definition flush_batch :: "flush_outcome \<Rightarrow> write_op list \<Rightarrow> database \<Rightarrow> database" where
  "flush_batch result batch db = (if result = Committed then fold run_op batch db else db)"

section \<open>The schema is kept\<close>

lemma row_op_ids: "map acct_id (row_op w i rows) = map acct_id rows"
  by (rule one_row.ids)

lemma account_op_ok:
  assumes "db_ok db"
  shows "db_ok (db\<lparr>db_accounts := row_op w i (db_accounts db)\<rparr>)"
proof -
  have "acct_id ` set (row_op w i (db_accounts db)) = acct_id ` set (db_accounts db)"
    using row_op_ids [of w i "db_accounts db"] by (metis set_map)
  with assms show ?thesis
    by (simp add: db_ok_def one_row.valid)
qed

lemma update_key_usage_ok: "keys_ok (update_key_usage i t rows) \<longleftrightarrow> keys_ok rows"
  by (simp add: keys_ok_def update_key_usage_def on_key_def comp_def if_distrib cong: if_cong)

lemma run_op_ok: "db_ok db \<Longrightarrow> db_ok (run_op w db)"
proof (cases w)
  case (IncrementAccountUsage i now dur)
  assume "db_ok db"
  then show ?thesis
    using account_op_ok [of db "IncrementUsage now dur" i] by (simp add: IncrementAccountUsage run_op_def)
next
  case (SetRateLimitedOp i until)
  assume "db_ok db"
  then show ?thesis
    using account_op_ok [of db "SetRateLimited until" i] by (simp add: SetRateLimitedOp run_op_def)
next
  case (UpdateRateLimitMetaOp i st reset left)
  assume "db_ok db"
  then show ?thesis
    using account_op_ok [of db "UpdateRateLimitMeta st reset left" i]
    by (simp add: UpdateRateLimitMetaOp run_op_def)
next
  case (SavePayload i req resp)
  assume "db_ok db"
  then show ?thesis
    using save_payload_ok [of i req resp "db_tables db"]
    by (auto simp: SavePayload run_op_def db_ok_def split: sum.split)
qed (simp_all add: run_op_def db_ok_def save_request_ok update_request_ok update_key_usage_ok)

lemma flush_ok: "db_ok db \<Longrightarrow> db_ok (flush_batch result batch db)"
proof -
  assume "db_ok db"
  moreover have "db_ok db \<Longrightarrow> db_ok (fold run_op batch db)" for db
    by (induction batch arbitrary: db) (simp_all add: run_op_ok)
  ultimately show ?thesis by (simp add: flush_batch_def)
qed

section \<open>The channel and the loop\<close>

definition CHANNEL_CAPACITY :: nat where "CHANNEL_CAPACITY = 1000"
definition WRITE_BATCH :: nat where "WRITE_BATCH = 100"

text \<open>
  The loop fills a batch, drains the channel after the sentinel or the end of all senders, or has
  stopped. \<open>aw_flushed\<close> records the batches handed to the database, with what became of them.
\<close>

datatype loop_phase = Filling | Draining | Stopped

record async_writer =
  aw_queue :: "write_op list"
  aw_senders :: bool
  aw_dropped :: nat
  aw_batch :: "write_op list"
  aw_phase :: loop_phase
  aw_flushed :: "(flush_outcome \<times> write_op list) list"

definition spawn_writer :: async_writer where
  "spawn_writer =
     \<lparr>aw_queue = [], aw_senders = True, aw_dropped = 0, aw_batch = [], aw_phase = Filling,
      aw_flushed = []\<rparr>"

text \<open>\<open>AsyncDbWriter::send\<close>; a channel whose receiver is gone is closed.\<close>

definition send_op :: "write_op \<Rightarrow> async_writer \<Rightarrow> async_writer" where
  "send_op w s =
     (if aw_phase s = Stopped then s
      else if length (aw_queue s) < CHANNEL_CAPACITY then s\<lparr>aw_queue := aw_queue s @ [w]\<rparr>
      else s\<lparr>aw_dropped := aw_dropped s + 1\<rparr>)"

definition queued :: "async_writer \<Rightarrow> nat" where
  "queued s = length (aw_queue s)"

text \<open>\<open>WriterTask::shutdown\<close> waits for room, so the sentinel is sent when there is some.\<close>

definition send_shutdown :: "async_writer \<Rightarrow> async_writer" where
  "send_shutdown s =
     (if aw_phase s \<noteq> Stopped \<and> length (aw_queue s) < CHANNEL_CAPACITY
      then s\<lparr>aw_queue := aw_queue s @ [Shutdown]\<rparr> else s)"

definition flush_now :: "flush_outcome \<Rightarrow> async_writer \<Rightarrow> async_writer" where
  "flush_now result s =
     (if aw_batch s = [] then s
      else s\<lparr>aw_batch := [], aw_flushed := aw_flushed s @ [(result, aw_batch s)]\<rparr>)"

text \<open>
  One step of \<open>flush_loop\<close>: the select in \<open>fill_batch\<close> is biased, so the timer is looked at when the
  channel is empty. Without work and timer the loop waits.
\<close>

definition loop_step :: "bool \<Rightarrow> flush_outcome \<Rightarrow> async_writer \<Rightarrow> async_writer" where
  "loop_step tick result s =
     (case aw_phase s of
        Filling \<Rightarrow>
          if length (aw_batch s) \<ge> WRITE_BATCH then flush_now result s
          else (case aw_queue s of
                  w # ws \<Rightarrow>
                    if w = Shutdown then (flush_now result (s\<lparr>aw_queue := ws\<rparr>))\<lparr>aw_phase := Draining\<rparr>
                    else s\<lparr>aw_queue := ws, aw_batch := aw_batch s @ [w]\<rparr>
                | [] \<Rightarrow>
                    if \<not> aw_senders s then (flush_now result s)\<lparr>aw_phase := Draining\<rparr>
                    else if tick then flush_now result s else s)
      | Draining \<Rightarrow>
          (case aw_queue s of
             w # ws \<Rightarrow>
               if w = Shutdown then s\<lparr>aw_queue := ws\<rparr>
               else s\<lparr>aw_queue := ws, aw_batch := aw_batch s @ [w]\<rparr>
           | [] \<Rightarrow> (flush_now result s)\<lparr>aw_phase := Stopped\<rparr>)
      | Stopped \<Rightarrow> s)"

datatype writer_event = SendOp write_op | SendShutdown | DropSenders | LoopStep bool flush_outcome

fun writer_step :: "writer_event \<Rightarrow> async_writer \<Rightarrow> async_writer" where
  "writer_step (SendOp w) s = (if aw_senders s then send_op w s else s)"
| "writer_step SendShutdown s = (if aw_senders s then send_shutdown s else s)"
| "writer_step DropSenders s = s\<lparr>aw_senders := False\<rparr>"
| "writer_step (LoopStep tick result) s = loop_step tick result s"

definition writer_run :: "writer_event list \<Rightarrow> async_writer \<Rightarrow> async_writer" where
  "writer_run evs s = fold writer_step evs s"

text \<open>What the database is after the flushed batches.\<close>

definition written :: "async_writer \<Rightarrow> database \<Rightarrow> database" where
  "written s db = fold (\<lambda>(result, batch). flush_batch result batch) (aw_flushed s) db"

text \<open>The operations sent while the channel had room, and the number of those it had not.\<close>

fun accepted :: "writer_event list \<Rightarrow> async_writer \<Rightarrow> write_op list" where
  "accepted [] s = []"
| "accepted (ev # evs) s =
     (case ev of
        SendOp w \<Rightarrow> if aw_senders s \<and> aw_phase s \<noteq> Stopped \<and> length (aw_queue s) < CHANNEL_CAPACITY
                    then [w] else []
      | _ \<Rightarrow> []) @ accepted evs (writer_step ev s)"

fun refused :: "writer_event list \<Rightarrow> async_writer \<Rightarrow> nat" where
  "refused [] s = 0"
| "refused (ev # evs) s =
     (case ev of
        SendOp w \<Rightarrow> if aw_senders s \<and> aw_phase s \<noteq> Stopped \<and> \<not> length (aw_queue s) < CHANNEL_CAPACITY
                    then 1 else 0
      | _ \<Rightarrow> 0) + refused evs (writer_step ev s)"

definition real_ops :: "write_op list \<Rightarrow> write_op list" where
  "real_ops ws = filter (\<lambda>w. w \<noteq> Shutdown) ws"

definition in_hand :: "async_writer \<Rightarrow> write_op list" where
  "in_hand s = concat (map snd (aw_flushed s)) @ aw_batch s @ real_ops (aw_queue s)"

lemma in_hand_flush: "in_hand (flush_now result s) = in_hand s"
  by (simp add: in_hand_def flush_now_def)

lemma flush_now_other [simp]:
  "aw_queue (flush_now result s) = aw_queue s" "aw_dropped (flush_now result s) = aw_dropped s"
  "aw_senders (flush_now result s) = aw_senders s" "aw_phase (flush_now result s) = aw_phase s" "aw_batch (flush_now result s) = []"
  by (simp_all add: flush_now_def)

lemma in_hand_phase [simp]: "in_hand (s\<lparr>aw_phase := p\<rparr>) = in_hand s"
  by (simp add: in_hand_def)

lemma in_hand_loop: "in_hand (loop_step tick result s) = in_hand s"
  by (cases "aw_phase s"; cases "aw_queue s")
     (auto simp: loop_step_def in_hand_flush, auto simp: in_hand_def real_ops_def flush_now_def)

text \<open>The bounds of the queue and the batch, and the end.\<close>

definition writer_ok :: "async_writer \<Rightarrow> bool" where
  "writer_ok s \<longleftrightarrow> length (aw_queue s) \<le> CHANNEL_CAPACITY \<and>
     (case aw_phase s of
        Filling \<Rightarrow> length (aw_batch s) \<le> WRITE_BATCH
      | Draining \<Rightarrow> True
      | Stopped \<Rightarrow> aw_batch s = [] \<and> aw_queue s = [])"

lemma loop_ok: "writer_ok s \<Longrightarrow> writer_ok (loop_step tick result s)"
  by (cases "aw_phase s"; cases "aw_queue s") (auto simp: writer_ok_def loop_step_def)

lemma writer_step_ok: "writer_ok s \<Longrightarrow> writer_ok (writer_step ev s)"
proof (cases ev)
  case (LoopStep tick result)
  assume "writer_ok s"
  then show ?thesis by (simp add: LoopStep loop_ok)
qed (auto simp: writer_ok_def send_op_def send_shutdown_def split: loop_phase.splits)

lemma loop_step_dropped [simp]:
  "aw_dropped (loop_step tick result s) = aw_dropped s"
  by (simp add: loop_step_def split: loop_phase.split list.split)

lemma writer_step_in_hand:
  "in_hand (writer_step ev s) = in_hand s @ real_ops (accepted [ev] s)"
  by (cases ev)
     (auto simp: in_hand_loop, auto simp: in_hand_def send_op_def send_shutdown_def real_ops_def)

lemma writer_step_dropped: "aw_dropped (writer_step ev s) = aw_dropped s + refused [ev] s"
  by (cases ev) (auto simp: send_op_def send_shutdown_def)

lemma writer_run_all:
  "writer_ok s \<Longrightarrow> writer_ok (writer_run evs s) \<and>
     in_hand (writer_run evs s) = in_hand s @ real_ops (accepted evs s) \<and>
     aw_dropped (writer_run evs s) = aw_dropped s + refused evs s"
proof (induction evs arbitrary: s)
  case (Cons ev evs)
  from Cons.IH [OF writer_step_ok [OF Cons.prems, of ev]]
  show ?case
    using writer_step_in_hand [of ev s] writer_step_dropped [of ev s]
    by (auto simp: writer_run_def real_ops_def)
qed (simp_all add: writer_run_def real_ops_def)

lemma writer_from_spawn:
  "in_hand (writer_run evs spawn_writer) = real_ops (accepted evs spawn_writer) \<and>
   aw_dropped (writer_run evs spawn_writer) = refused evs spawn_writer \<and>
   writer_ok (writer_run evs spawn_writer)"
proof -
  have "writer_ok spawn_writer" "in_hand spawn_writer = []" "aw_dropped spawn_writer = 0"
    by (simp_all add: writer_ok_def spawn_writer_def in_hand_def real_ops_def)
  with writer_run_all [of spawn_writer evs] show ?thesis by simp
qed


section \<open>The loop ends after the sentinel\<close>

definition closing :: "async_writer \<Rightarrow> bool" where
  "closing s \<longleftrightarrow> aw_phase s \<noteq> Filling \<or> Shutdown \<in> set (aw_queue s) \<or> \<not> aw_senders s"

definition steps_left :: "async_writer \<Rightarrow> nat" where
  "steps_left s =
     (case aw_phase s of
        Filling \<Rightarrow> 2 * length (aw_queue s) + (if length (aw_batch s) \<ge> WRITE_BATCH then 3 else 2)
      | Draining \<Rightarrow> length (aw_queue s) + 1
      | Stopped \<Rightarrow> 0)"

lemma loop_progress:
  assumes "closing s"
  shows "closing (loop_step tick result s) \<and>
    steps_left (loop_step tick result s) \<le> steps_left s - 1"
proof (cases "aw_phase s")
  case Filling
  show ?thesis
  proof (cases "length (aw_batch s) \<ge> WRITE_BATCH")
    case True
    then have "loop_step tick result s = flush_now result s" "aw_phase (flush_now result s) = Filling"
      by (simp_all add: loop_step_def Filling flush_now_def)
    with True assms Filling show ?thesis
      by (auto simp: closing_def steps_left_def WRITE_BATCH_def)
  next
    case False
    show ?thesis
    proof (cases "aw_queue s")
      case Nil
      with False assms Filling show ?thesis
        by (simp add: loop_step_def closing_def steps_left_def)
    next
      case (Cons w ws)
      with False assms Filling show ?thesis
        by (auto simp: loop_step_def closing_def steps_left_def)
    qed
  qed
next
  case Draining
  then show ?thesis
    by (cases "aw_queue s") (auto simp: loop_step_def closing_def steps_left_def)
qed (simp add: loop_step_def closing_def steps_left_def)

lemma loop_stops:
  "closing s \<Longrightarrow> steps_left s \<le> length rs \<Longrightarrow>
     aw_phase (fold (\<lambda>(tick, result). loop_step tick result) rs s) = Stopped"
proof (induction rs arbitrary: s)
  case Nil
  then show ?case by (simp add: steps_left_def split: loop_phase.splits if_splits)
next
  case (Cons r rs)
  obtain tick result where r: "r = (tick, result)" by (cases r)
  from loop_progress [OF Cons.prems(1), of tick result] Cons.prems(2)
  have "closing (loop_step tick result s)" "steps_left (loop_step tick result s) \<le> length rs"
    by auto
  from Cons.IH [OF this] show ?case by (simp add: r)
qed

lemma in_hand_steps: "in_hand (fold (\<lambda>(tick, result). loop_step tick result) rs s) = in_hand s"
  by (induction rs arbitrary: s) (auto simp: in_hand_loop)

lemma ok_steps: "writer_ok s \<Longrightarrow> writer_ok (fold (\<lambda>(tick, result). loop_step tick result) rs s)"
  by (induction rs arbitrary: s) (auto simp: loop_ok)

text \<open>
  C28. A shutdown loses nothing that was accepted: once the sentinel is in the channel, or the senders
  are gone, the loop stops after at most 2003 steps, and then everything accepted so far has been
  handed to the database, in order.
\<close>

theorem shutdown_flushes_all:
  assumes "s = writer_run evs spawn_writer" "closing s"
    and "length rs = 2 * CHANNEL_CAPACITY + 3"
  shows "aw_phase (fold (\<lambda>(tick, result). loop_step tick result) rs s) = Stopped \<and>
    concat (map snd (aw_flushed (fold (\<lambda>(tick, result). loop_step tick result) rs s))) =
      real_ops (accepted evs spawn_writer)"
proof -
  let ?fin = "fold (\<lambda>(tick, result). loop_step tick result) rs s"
  have s: "writer_ok s" "in_hand s = real_ops (accepted evs spawn_writer)"
    using writer_from_spawn [of evs] assms(1) by simp_all
  then have "steps_left s \<le> length rs"
    using assms(3) by (auto simp: steps_left_def writer_ok_def split: loop_phase.splits)
  with assms(2) have stop: "aw_phase ?fin = Stopped" by (rule loop_stops)
  with ok_steps [OF s(1), of rs] have "aw_batch ?fin = []" "aw_queue ?fin = []"
    by (simp_all add: writer_ok_def)
  then show ?thesis
    using stop in_hand_steps [of rs s] s(2) by (simp add: in_hand_def real_ops_def)
qed

theorem shutdown_flushes_all_witness:
  "\<exists>s. s = writer_run [SendOp (UpdateApiKeyUsage ''k'' 1), SendShutdown, SendOp (UpdateApiKeyUsage ''k'' 2)] spawn_writer \<and>
     concat (map snd (aw_flushed (fold (\<lambda>(tick, result). loop_step tick result)
       (replicate 2003 (True, Committed)) s))) = [UpdateApiKeyUsage ''k'' 1, UpdateApiKeyUsage ''k'' 2]"
proof -
  let ?evs = "[SendOp (UpdateApiKeyUsage ''k'' 1), SendShutdown, SendOp (UpdateApiKeyUsage ''k'' 2)]"
  have "closing (writer_run ?evs spawn_writer)"
    by (simp add: writer_run_def closing_def spawn_writer_def send_op_def send_shutdown_def CHANNEL_CAPACITY_def)
  from shutdown_flushes_all [OF refl this, of "replicate 2003 (True, Committed)"] show ?thesis
    by (simp add: CHANNEL_CAPACITY_def real_ops_def spawn_writer_def send_op_def send_shutdown_def)
qed

text \<open>A batch that cannot be committed is lost: nothing puts it back.\<close>

lemma failed_flush_lost:
  "result \<noteq> Committed \<Longrightarrow> flush_batch result batch db = db \<and> aw_batch (flush_now result s) = []"
  by (simp add: flush_batch_def)

section \<open>Accounts that cannot be deleted\<close>

text \<open>
  An account whose state of the estimator was persisted cannot be deleted: the state refers to
  it, the foreign keys are checked, and nothing deletes the state first.
\<close>

theorem persisted_account_undeletable:
  assumes "db_ok db" "hm_get (db_xfactor db) i = Some s"
  shows "db_delete_account i db = Inl foreign_key_failed"
proof -
  have "i \<in> fst ` set (db_xfactor db)"
    using map_of_SomeD [OF assms(2)] by force
  then have "list_ex (\<lambda>a. acct_id a = i) (db_accounts db)"
    using assms(1) by (force simp: db_ok_def list_ex_iff)
  with assms(2) show ?thesis by (simp add: db_delete_account_def)
qed

theorem persisted_account_undeletable_witness:
  "\<forall>s. db_delete_account ''a'' \<lparr>db_accounts = [fresh_account ''a'' ''zai''], db_keys = [],
     db_tables = \<lparr>t_requests = [], t_payloads = []\<rparr>, db_xfactor = [(''a'', s)]\<rparr> = Inl foreign_key_failed"
  by (intro allI persisted_account_undeletable)
     (simp_all add: db_ok_def valid_rows_def keys_ok_def tables_ok_def request_ids_def payload_ids_def
       hm_ok_def fresh_account_def)

end
