(* ===== verification/Post_Processor.thy ===== *)
theory Post_Processor
  imports Pricing Db_Writer
begin

text \<open>
  The background recording of requests: \<open>proxy/src/post_processor.rs\<close>. The handler of requests and
  the tasks that wait for a stream post messages into a bounded queue; one task takes them in
  order, reads the usage out of the answer, prices it, and hands a summary to a blocking thread
  that writes the row and notifies the capacity estimator. Blocking threads run in any order.
\<close>

section \<open>Messages and summaries\<close>

datatype post_processor_msg =
    StreamComplete analytics_msg analytics_buffer
  | ResponseComplete analytics_msg string
  | Shutdown

text \<open>The messages of \<open>Proxy_Handler\<close> carry their content as an option.\<close>

definition posted :: "analytics_msg \<Rightarrow> post_processor_msg option" where
  "posted m =
     (case am_content m of
        None \<Rightarrow> None
      | Some (WholeBody body) \<Rightarrow> Some (ResponseComplete m body)
      | Some (StreamBuffer b) \<Rightarrow> Some (StreamComplete m b))"

record request_summary =
  rs_request_id :: string
  rs_account_id :: "string option"
  rs_path :: string
  rs_status_code :: nat
  rs_success :: bool
  rs_response_time_ms :: nat
  rs_model :: "string option"
  rs_input_tokens :: "i64 option"
  rs_output_tokens :: "i64 option"
  rs_cache_read_input_tokens :: "i64 option"
  rs_cache_creation_input_tokens :: "i64 option"
  rs_total_tokens :: "i64 option"
  rs_cost_usd :: "f64 option"
  rs_agent_used :: "string option"
  rs_project :: "string option"
  rs_api_key_id :: "string option"
  rs_api_key_name :: "string option"
  rs_failover_attempts :: nat
  rs_tokens_per_second :: "f64 option"

text \<open>The milliseconds between two instants, which are nanoseconds; the clock is monotonic.\<close>

definition elapsed_ms :: "instant \<Rightarrow> instant \<Rightarrow> nat" where
  "elapsed_ms start now = nat ((now - start) div 1000000)"

definition total_of :: "token_breakdown \<Rightarrow> i64" where
  "total_of t =
     (let prompt_tokens = i64_add (i64_add (tb_input_tokens t) (tb_cache_read_input_tokens t))
        (tb_cache_creation_input_tokens t)
      in i64_add prompt_tokens (tb_output_tokens t))"

definition model_cost_of ::
  "(string \<Rightarrow> string) \<Rightarrow> string option \<Rightarrow> token_breakdown \<Rightarrow> pricing \<Rightarrow> f64 option \<times> pricing" where
  "model_cost_of lower model t px =
     (case model of
        None \<Rightarrow> (None, px)
      | Some model \<Rightarrow> (case estimate_cost_usd lower model t px of (cost, px) \<Rightarrow> (Some cost, px)))"

definition rate_per_second :: "i64 option \<Rightarrow> nat \<Rightarrow> f64 option" where
  "rate_per_second output ms =
     (if ms > 0
      then map_option (\<lambda>n. f64_of_int n / (f64_of_int (int ms) / lit 1000)) output
      else None)"

definition build_summary ::
  "(string \<Rightarrow> string) \<Rightarrow> analytics_msg \<Rightarrow> instant \<Rightarrow> stream_usage \<Rightarrow> pricing \<Rightarrow>
     request_summary \<times> pricing" where
  "build_summary lower m now usage px =
     (let response_time_ms = elapsed_ms (am_start m) now;
          tokens = token_breakdown_of usage;
          total_tokens = total_of tokens
      in case model_cost_of lower (su_model usage) tokens px of
        (cost, px) \<Rightarrow>
          (\<lparr>rs_request_id = am_request_id m, rs_account_id = am_account_id m,
            rs_path = am_path m, rs_status_code = am_status m,
            rs_success = (200 \<le> am_status m \<and> am_status m < 300),
            rs_response_time_ms = response_time_ms, rs_model = su_model usage,
            rs_input_tokens = su_input_tokens usage, rs_output_tokens = su_output_tokens usage,
            rs_cache_read_input_tokens = su_cache_read_input_tokens usage,
            rs_cache_creation_input_tokens = su_cache_creation_input_tokens usage,
            rs_total_tokens = (if total_tokens > 0 then Some total_tokens else None),
            rs_cost_usd = cost, rs_agent_used = am_agent m, rs_project = am_project m,
            rs_api_key_id = am_key_id m, rs_api_key_name = am_key_name m,
            rs_failover_attempts = am_attempts m,
            rs_tokens_per_second = rate_per_second (su_output_tokens usage) response_time_ms\<rparr>,
           px))"

section \<open>The receiver\<close>

definition summary_row :: "i64 \<Rightarrow> request_summary \<Rightarrow> request_rec" where
  "summary_row now s =
     \<lparr>pr_id = rs_request_id s, pr_timestamp = now, pr_method = ''POST'', pr_path = rs_path s,
      pr_account_used = rs_account_id s, pr_status_code = Some (int (rs_status_code s)),
      pr_success = rs_success s, pr_error_message = None,
      pr_response_time_ms = Some (i64_wrap (int (rs_response_time_ms s))),
      pr_failover_attempts = int (rs_failover_attempts s), pr_model = rs_model s,
      pr_prompt_tokens = rs_input_tokens s, pr_completion_tokens = rs_output_tokens s,
      pr_total_tokens = rs_total_tokens s, pr_cost_usd = rs_cost_usd s,
      pr_input_tokens = rs_input_tokens s,
      pr_cache_read_input_tokens = rs_cache_read_input_tokens s,
      pr_cache_creation_input_tokens = rs_cache_creation_input_tokens s,
      pr_output_tokens = rs_output_tokens s, pr_agent_used = rs_agent_used s,
      pr_tokens_per_second = rs_tokens_per_second s, pr_project = rs_project s,
      pr_api_key_id = rs_api_key_id s, pr_api_key_name = rs_api_key_name s\<rparr>"

text \<open>
  What the receiver meets: whether the pool gives a connection, whether the row is accepted, the
  time of the row and the time of the notification.
\<close>

record receiver_env =
  re_pool :: bool
  re_saved :: bool
  re_row_ms :: i64
  re_notify_ms :: i64

definition notify_xfactor :: "request_summary \<Rightarrow> i64 \<Rightarrow> xfactor_cache \<Rightarrow> xfactor_cache" where
  "notify_xfactor s now c =
     (case (rs_account_id s, rs_total_tokens s) of
        (Some i, Some total_tokens) \<Rightarrow> cache_on_request i (rs_model s) total_tokens now c
      | _ \<Rightarrow> c)"

definition on_summary ::
  "receiver_env \<Rightarrow> request_summary \<Rightarrow> database \<times> xfactor_cache \<Rightarrow> database \<times> xfactor_cache" where
  "on_summary env s st =
     (if \<not> re_pool env then st
      else case st of (db, xf) \<Rightarrow>
        ((if re_saved env then run_op (SaveRequest (summary_row (re_row_ms env) s)) db else db),
         notify_xfactor s (re_notify_ms env) xf))"

section \<open>The task\<close>

definition POST_CAPACITY :: nat where "POST_CAPACITY = 1024"

text \<open>\<open>pp_blocking\<close> are the summaries handed to blocking threads that have not run yet.\<close>

record post_processor =
  pp_queue :: "post_processor_msg list"
  pp_running :: bool
  pp_pricing :: pricing
  pp_blocking :: "request_summary list"
  pp_database :: database
  pp_xfactor :: xfactor_cache

definition spawn_post_processor :: "pricing \<Rightarrow> database \<Rightarrow> xfactor_cache \<Rightarrow> post_processor" where
  "spawn_post_processor px db xf =
     \<lparr>pp_queue = [], pp_running = True, pp_pricing = px, pp_blocking = [], pp_database = db,
      pp_xfactor = xf\<rparr>"

text \<open>
  A send never waits: with a full queue, or after the task has ended, the message is lost. The
  shutdown message waits for room.
\<close>

definition pp_accepts :: "post_processor \<Rightarrow> bool" where
  "pp_accepts s \<longleftrightarrow> pp_running s \<and> length (pp_queue s) < POST_CAPACITY"

definition pp_send :: "post_processor_msg \<Rightarrow> post_processor \<Rightarrow> post_processor" where
  "pp_send m s = (if pp_accepts s then s\<lparr>pp_queue := pp_queue s @ [m]\<rparr> else s)"

definition usage_of_msg :: "(string \<Rightarrow> json option) \<Rightarrow> post_processor_msg \<Rightarrow> stream_usage" where
  "usage_of_msg from_str msg =
     (case msg of
        StreamComplete m b \<Rightarrow> extract_usage_from_buffer from_str b
      | ResponseComplete m body \<Rightarrow>
          (case extract_usage_from_response from_str body of
             Some u \<Rightarrow> u
           | None \<Rightarrow> stream_usage_default)
      | Shutdown \<Rightarrow> stream_usage_default)"

definition pp_summary ::
  "(string \<Rightarrow> string) \<Rightarrow> analytics_msg \<Rightarrow> instant \<Rightarrow> stream_usage \<Rightarrow> post_processor \<Rightarrow>
     post_processor" where
  "pp_summary lower m now usage s =
     (case build_summary lower m now usage (pp_pricing s) of
        (summary, px) \<Rightarrow> s\<lparr>pp_pricing := px, pp_blocking := pp_blocking s @ [summary]\<rparr>)"

definition pp_take ::
  "(string \<Rightarrow> string) \<Rightarrow> (string \<Rightarrow> json option) \<Rightarrow> instant \<Rightarrow> post_processor \<Rightarrow> post_processor" where
  "pp_take lower from_str now s =
     (if \<not> pp_running s then s
      else case pp_queue s of
          [] \<Rightarrow> s
        | msg # queue \<Rightarrow>
            (case msg of
               StreamComplete m b \<Rightarrow>
                 pp_summary lower m now (usage_of_msg from_str msg) (s\<lparr>pp_queue := queue\<rparr>)
             | ResponseComplete m body \<Rightarrow>
                 pp_summary lower m now (usage_of_msg from_str msg) (s\<lparr>pp_queue := queue\<rparr>)
             | Shutdown \<Rightarrow> s\<lparr>pp_queue := [], pp_running := False\<rparr>))"

definition pp_receive :: "nat \<Rightarrow> receiver_env \<Rightarrow> post_processor \<Rightarrow> post_processor" where
  "pp_receive k env s =
     (if k < length (pp_blocking s)
      then (case on_summary env (pp_blocking s ! k) (pp_database s, pp_xfactor s) of
              (db, xf) \<Rightarrow>
                s\<lparr>pp_blocking := take k (pp_blocking s) @ drop (Suc k) (pp_blocking s),
                  pp_database := db, pp_xfactor := xf\<rparr>)
      else s)"

datatype pp_event =
    Post post_processor_msg
  | Take instant
  | Receive nat receiver_env

fun pp_step ::
  "(string \<Rightarrow> string) \<Rightarrow> (string \<Rightarrow> json option) \<Rightarrow> pp_event \<Rightarrow> post_processor \<Rightarrow> post_processor" where
  "pp_step lower f (Post m) s = pp_send m s"
| "pp_step lower f (Take now) s = pp_take lower f now s"
| "pp_step lower f (Receive k env) s = pp_receive k env s"

definition pp_run ::
  "(string \<Rightarrow> string) \<Rightarrow> (string \<Rightarrow> json option) \<Rightarrow> pp_event list \<Rightarrow> post_processor \<Rightarrow> post_processor" where
  "pp_run lower f es s = fold (pp_step lower f) es s"

section \<open>Every message accepted becomes a row\<close>

definition meta_of :: "post_processor_msg \<Rightarrow> analytics_msg option" where
  "meta_of msg =
     (case msg of StreamComplete m b \<Rightarrow> Some m | ResponseComplete m body \<Rightarrow> Some m | Shutdown \<Rightarrow> None)"

definition msg_id :: "post_processor_msg \<Rightarrow> string" where
  "msg_id msg = (case meta_of msg of Some m \<Rightarrow> am_request_id m | None \<Rightarrow> [])"

text \<open>A row without what the clock decides, and the row a message should give.\<close>

definition timeless :: "request_rec \<Rightarrow> request_rec" where
  "timeless r = r\<lparr>pr_timestamp := 0, pr_response_time_ms := None, pr_tokens_per_second := None\<rparr>"

definition expected_row ::
  "(string \<Rightarrow> string) \<Rightarrow> (string \<Rightarrow> json option) \<Rightarrow> pricing \<Rightarrow> post_processor_msg \<Rightarrow> request_rec" where
  "expected_row lower f px msg =
     (case meta_of msg of
        None \<Rightarrow> undefined
      | Some m \<Rightarrow>
          (let u = usage_of_msg f msg;
               t = token_breakdown_of u
           in \<lparr>pr_id = am_request_id m, pr_timestamp = 0, pr_method = ''POST'', pr_path = am_path m,
               pr_account_used = am_account_id m, pr_status_code = Some (int (am_status m)),
               pr_success = (200 \<le> am_status m \<and> am_status m < 300), pr_error_message = None,
               pr_response_time_ms = None, pr_failover_attempts = int (am_attempts m),
               pr_model = su_model u, pr_prompt_tokens = su_input_tokens u,
               pr_completion_tokens = su_output_tokens u,
               pr_total_tokens = (if total_of t > 0 then Some (total_of t) else None),
               pr_cost_usd = map_option (\<lambda>model. case price_of lower px model of
                   Some c \<Rightarrow> token_cost c t | None \<Rightarrow> lit 0) (su_model u),
               pr_input_tokens = su_input_tokens u,
               pr_cache_read_input_tokens = su_cache_read_input_tokens u,
               pr_cache_creation_input_tokens = su_cache_creation_input_tokens u,
               pr_output_tokens = su_output_tokens u, pr_agent_used = am_agent m,
               pr_tokens_per_second = None, pr_project = am_project m,
               pr_api_key_id = am_key_id m, pr_api_key_name = am_key_name m\<rparr>))"

lemma timeless_id [simp]: "pr_id (timeless r) = pr_id r"
  by (simp add: timeless_def)

lemma timeless_summary_row: "timeless (summary_row now s) = timeless (summary_row 0 s)"
  by (simp add: timeless_def summary_row_def)

lemma expected_row_id: "meta_of msg \<noteq> None \<Longrightarrow> pr_id (expected_row lower f px msg) = msg_id msg"
  by (auto simp: expected_row_def msg_id_def Let_def)

lemma model_cost_of_spec:
  assumes "cache_sound lower px" and "model_cost_of lower model t px = (cost, px')"
  shows "cost = map_option (\<lambda>model. case price_of lower px model of
      Some c \<Rightarrow> token_cost c t | None \<Rightarrow> lit 0) model \<and>
    cache_sound lower px' \<and> price_of lower px' = price_of lower px"
proof (cases model)
  case None
  then show ?thesis using assms by (auto simp: model_cost_of_def)
next
  case (Some mo)
  obtain c px1 where e: "estimate_cost_usd lower mo t px = (c, px1)"
    by fastforce
  with assms(2) have "cost = Some c" "px' = px1"
    by (simp_all add: model_cost_of_def Some)
  with estimate_cost_spec [OF assms(1) e] show ?thesis
    by (simp add: Some)
qed

lemma build_summary_spec:
  assumes "cache_sound lower px" and "meta_of msg = Some m"
    and "build_summary lower m now (usage_of_msg f msg) px = (summary, px')"
  shows "timeless (summary_row 0 summary) = expected_row lower f px msg \<and>
    cache_sound lower px' \<and> price_of lower px' = price_of lower px"
proof -
  obtain cost px1 where c: "model_cost_of lower (su_model (usage_of_msg f msg))
      (token_breakdown_of (usage_of_msg f msg)) px = (cost, px1)"
    by fastforce
  from assms(3) model_cost_of_spec [OF assms(1) c] show ?thesis
    by (auto simp: build_summary_def Let_def c timeless_def summary_row_def expected_row_def assms(2))
qed

text \<open>
  The invariant of the rows: \<open>X\<close> are the rows of the messages taken so far, \<open>P\<close> those whose summary
  waits for its thread, \<open>ids\<close> the requests that were posted.
\<close>

definition rows_inv ::
  "request_rec set \<Rightarrow> request_rec set \<Rightarrow> string set \<Rightarrow> request_rec list \<Rightarrow> request_rec list \<Rightarrow> bool" where
  "rows_inv X P ids rows0 rows \<longleftrightarrow>
     P \<subseteq> X \<and> X \<subseteq> P \<union> timeless ` set rows \<and> set rows \<subseteq> set rows0 \<union> {r. timeless r \<in> X} \<and>
     (\<forall>r \<in> set rows0. pr_id r \<notin> ids \<longrightarrow> r \<in> set rows)"

lemma rows_inv_start: "rows_inv {} {} ids rows rows"
  by (simp add: rows_inv_def)

lemma rows_inv_take: "rows_inv X P ids rows0 rows \<Longrightarrow> rows_inv (insert x X) (insert x P) ids rows0 rows"
  unfolding rows_inv_def by blast

lemma rows_inv_more: "rows_inv X P ids rows0 rows \<Longrightarrow> ids \<subseteq> ids' \<Longrightarrow> rows_inv X P ids' rows0 rows"
  unfolding rows_inv_def by blast

lemma rows_inv_receive:
  assumes inv: "rows_inv X (insert (timeless row) P) ids rows0 rows"
    and inj: "inj_on pr_id X" and i: "pr_id row \<in> ids"
  shows "rows_inv X P ids rows0 (filter (\<lambda>q. pr_id q \<noteq> pr_id row) rows @ [row])"
proof -
  have x: "timeless row \<in> X"
    using inv by (simp add: rows_inv_def)
  have "y \<in> P \<union> timeless ` set (filter (\<lambda>q. pr_id q \<noteq> pr_id row) rows @ [row])" if y: "y \<in> X" for y
  proof (cases "y = timeless row")
    case False
    then have "pr_id y \<noteq> pr_id row"
      using inj_onD [OF inj _ y x] by auto
    moreover have "y \<in> insert (timeless row) P \<union> timeless ` set rows"
      using inv y unfolding rows_inv_def by blast
    ultimately show ?thesis
      using False by auto
  qed simp
  then show ?thesis
    using inv x i unfolding rows_inv_def by auto
qed

text \<open>
  A run: \<open>got\<close> are the messages accepted so far, \<open>took\<close> those the task has taken.
\<close>

definition pending_rows :: "post_processor \<Rightarrow> request_rec set" where
  "pending_rows s = (\<lambda>su. timeless (summary_row 0 su)) ` set (pp_blocking s)"

definition stored_rows :: "post_processor \<Rightarrow> request_rec list" where
  "stored_rows s = t_requests (db_tables (pp_database s))"

definition pp_inv ::
  "(string \<Rightarrow> string) \<Rightarrow> (string \<Rightarrow> json option) \<Rightarrow> pricing \<Rightarrow> request_rec list \<Rightarrow> string set \<Rightarrow>
     post_processor_msg list \<Rightarrow> post_processor_msg list \<Rightarrow> post_processor \<Rightarrow> bool" where
  "pp_inv lower f px rows0 ids got took s \<longleftrightarrow>
     pp_running s \<and> got = took @ pp_queue s \<and>
     cache_sound lower (pp_pricing s) \<and> price_of lower (pp_pricing s) = price_of lower px \<and>
     rows_inv (expected_row lower f px ` set took) (pending_rows s) ids rows0 (stored_rows s)"

lemma expected_row_price:
  assumes "price_of lower px' = price_of lower px"
  shows "expected_row lower f px' = expected_row lower f px"
  unfolding expected_row_def assms ..

lemma pp_inv_send:
  assumes "pp_inv lower f px rows0 ids got took s"
  shows "pp_inv lower f px rows0 ids (if pp_accepts s then got @ [msg] else got) took (pp_send msg s)"
  using assms by (simp add: pp_inv_def pp_send_def pending_rows_def stored_rows_def)

lemma pp_inv_taken:
  assumes inv: "pp_inv lower f px rows0 ids got took s" and m: "meta_of msg = Some m"
    and q: "pp_queue s = msg # queue"
  shows "pp_inv lower f px rows0 ids got (took @ [msg])
    (pp_summary lower m now (usage_of_msg f msg) (s\<lparr>pp_queue := queue\<rparr>))"
proof -
  obtain summary px' where b: "build_summary lower m now (usage_of_msg f msg) (pp_pricing s) = (summary, px')"
    by fastforce
  have "cache_sound lower (pp_pricing s)" and p: "price_of lower (pp_pricing s) = price_of lower px"
    and r: "rows_inv (expected_row lower f px ` set took) (pending_rows s) ids rows0 (stored_rows s)"
    using inv by (simp_all add: pp_inv_def)
  note bs = build_summary_spec [OF this(1) m b]
  have "timeless (summary_row 0 summary) = expected_row lower f px msg"
    using bs expected_row_price [OF p] by simp
  with rows_inv_take [OF r] inv bs p show ?thesis
    by (simp add: pp_inv_def pp_summary_def b q pending_rows_def stored_rows_def)
qed

lemma pp_inv_take:
  assumes inv: "pp_inv lower f px rows0 ids got took s"
    and ok: "\<forall>msg \<in> set got. meta_of msg \<noteq> None"
  shows "\<exists>took. pp_inv lower f px rows0 ids got took (pp_take lower f now s)"
proof (cases "pp_queue s")
  case Nil
  then show ?thesis using inv by (auto simp: pp_take_def)
next
  case (Cons msg queue)
  have run: "pp_running s" and "msg \<in> set got"
    using inv Cons by (simp_all add: pp_inv_def)
  then obtain m where m: "meta_of msg = Some m"
    using ok by blast
  then have "pp_take lower f now s =
      pp_summary lower m now (usage_of_msg f msg) (s\<lparr>pp_queue := queue\<rparr>)"
    using run Cons by (cases msg) (simp_all add: pp_take_def meta_of_def)
  then show ?thesis
    using pp_inv_taken [OF inv m Cons] by auto
qed

lemma set_take_drop_nth: "k < length xs \<Longrightarrow> set xs = insert (xs ! k) (set (take k xs @ drop (Suc k) xs))"
  by (subst id_take_nth_drop [of k xs]) auto

lemma expected_inj:
  assumes "\<forall>msg \<in> set got. meta_of msg \<noteq> None" "distinct (map msg_id got)" "set took \<subseteq> set got"
  shows "inj_on pr_id (expected_row lower f px ` set took)"
proof (rule inj_onI)
  fix x y
  assume "x \<in> expected_row lower f px ` set took" "y \<in> expected_row lower f px ` set took" "pr_id x = pr_id y"
  then obtain a b where x: "a \<in> set took" "b \<in> set took" "x = expected_row lower f px a"
    "y = expected_row lower f px b" and "pr_id x = pr_id y"
    by blast
  moreover have g: "a \<in> set got" "b \<in> set got"
    using x assms(3) by auto
  ultimately have "msg_id a = msg_id b"
    using expected_row_id [of a lower f px] expected_row_id [of b lower f px] assms(1) by simp
  with x g show "x = y"
    using assms(2) by (auto simp: distinct_map inj_on_def)
qed

lemma pp_inv_receive:
  assumes inv: "pp_inv lower f px rows0 ids got took s"
    and env: "re_pool env" "re_saved env"
    and ok: "\<forall>msg \<in> set got. meta_of msg \<noteq> None" "distinct (map msg_id got)" "msg_id ` set got \<subseteq> ids"
  shows "pp_inv lower f px rows0 ids got took (pp_receive k env s)"
proof (cases "k < length (pp_blocking s)")
  case False
  then show ?thesis using inv by (simp add: pp_receive_def)
next
  case True
  let ?row = "summary_row (re_row_ms env) (pp_blocking s ! k)"
  let ?s' = "pp_receive k env s"
  have s': "pp_running ?s' = pp_running s" "pp_queue ?s' = pp_queue s" "pp_pricing ?s' = pp_pricing s"
    "pp_blocking ?s' = take k (pp_blocking s) @ drop (Suc k) (pp_blocking s)"
    "stored_rows ?s' = filter (\<lambda>q. pr_id q \<noteq> pr_id ?row) (stored_rows s) @ [?row]"
    using True env
    by (simp_all add: pp_receive_def on_summary_def run_op_def save_request_def stored_rows_def)
  have sub: "set took \<subseteq> set got"
    and r: "rows_inv (expected_row lower f px ` set took) (pending_rows s) ids rows0 (stored_rows s)"
    using inv by (auto simp: pp_inv_def)
  have pend: "pending_rows s = insert (timeless ?row) (pending_rows ?s')"
    unfolding pending_rows_def s' set_take_drop_nth [OF True] by (simp add: timeless_summary_row [of "re_row_ms env"])
  then have "timeless ?row \<in> expected_row lower f px ` set took"
    using r by (simp add: rows_inv_def)
  then obtain msg where "msg \<in> set took" "timeless ?row = expected_row lower f px msg"
    by auto
  then have "pr_id ?row \<in> ids"
    using expected_row_id [of msg lower f px] sub ok by (metis image_subset_iff subsetD timeless_id)
  from rows_inv_receive [OF r [unfolded pend] expected_inj [OF ok(1,2) sub] this] inv show ?thesis
    by (simp add: pp_inv_def s')
qed

section \<open>Runs\<close>

text \<open>The messages accepted in a run.\<close>

fun pp_got ::
  "(string \<Rightarrow> string) \<Rightarrow> (string \<Rightarrow> json option) \<Rightarrow> pp_event list \<Rightarrow> post_processor \<Rightarrow>
     post_processor_msg list" where
  "pp_got lower f [] s = []"
| "pp_got lower f (e # es) s =
     (case e of Post m \<Rightarrow> if pp_accepts s then [m] else [] | _ \<Rightarrow> [])
       @ pp_got lower f es (pp_step lower f e s)"

text \<open>No shutdown is posted, and the database takes what it is given.\<close>

fun smooth :: "pp_event \<Rightarrow> bool" where
  "smooth (Post m) \<longleftrightarrow> meta_of m \<noteq> None"
| "smooth (Take now) \<longleftrightarrow> True"
| "smooth (Receive k env) \<longleftrightarrow> re_pool env \<and> re_saved env"

lemma pp_got_meta: "list_all smooth es \<Longrightarrow> msg \<in> set (pp_got lower f es s) \<Longrightarrow> meta_of msg \<noteq> None"
  by (induction es arbitrary: s) (auto split: pp_event.splits if_splits)

lemma pp_run_Cons [simp]: "pp_run lower f (e # es) s = pp_run lower f es (pp_step lower f e s)"
  by (simp add: pp_run_def)

lemma pp_run_Nil [simp]: "pp_run lower f [] s = s"
  by (simp add: pp_run_def)

lemma pp_run_append [simp]: "pp_run lower f (es @ es') s = pp_run lower f es' (pp_run lower f es s)"
  by (simp add: pp_run_def)

lemma pp_got_append [simp]:
  "pp_got lower f (es @ es') s = pp_got lower f es s @ pp_got lower f es' (pp_run lower f es s)"
  by (induction es arbitrary: s) simp_all

lemma pp_inv_run:
  assumes "pp_inv lower f px rows0 ids got took s" "list_all smooth es"
    and "\<forall>msg \<in> set (got @ pp_got lower f es s). meta_of msg \<noteq> None"
    and "distinct (map msg_id (got @ pp_got lower f es s))"
    and "msg_id ` set (got @ pp_got lower f es s) \<subseteq> ids"
  shows "\<exists>took. pp_inv lower f px rows0 ids (got @ pp_got lower f es s) took (pp_run lower f es s)"
  using assms
proof (induction es arbitrary: s got took)
  case Nil
  then show ?case by auto
next
  case (Cons e es)
  show ?case
  proof (cases e)
    case (Post m)
    have "pp_inv lower f px rows0 ids (got @ (if pp_accepts s then [m] else [])) took (pp_send m s)"
      using pp_inv_send [OF Cons.prems(1), of m] by (simp split: if_splits)
    from Cons.IH [OF this] Cons.prems(2-) show ?thesis by (simp only: Post) simp
  next
    case (Take now)
    obtain took' where "pp_inv lower f px rows0 ids got took' (pp_take lower f now s)"
      using pp_inv_take [OF Cons.prems(1)] Cons.prems(3) by auto
    from Cons.IH [OF this] Cons.prems(2-) show ?thesis by (simp add: Take)
  next
    case (Receive k env)
    have "msg_id ` set got \<subseteq> ids"
      using Cons.prems(5) by (simp add: image_Un)
    then have "pp_inv lower f px rows0 ids got took (pp_receive k env s)"
      using pp_inv_receive [OF Cons.prems(1)] Cons.prems(2-4) by (simp add: Receive)
    from Cons.IH [OF this] Cons.prems(2-) show ?thesis by (simp add: Receive)
  qed
qed

lemma pp_send_db [simp]: "pp_database (pp_send m s) = pp_database s"
  by (simp add: pp_send_def)

lemma pp_take_db [simp]: "pp_database (pp_take lower f now s) = pp_database s"
  by (auto simp: pp_take_def pp_summary_def split: list.split post_processor_msg.split prod.split)

lemma pp_receive_db_ok: "db_ok (pp_database s) \<Longrightarrow> db_ok (pp_database (pp_receive k env s))"
  by (auto simp: pp_receive_def on_summary_def intro: run_op_ok split: prod.splits if_splits)

lemma pp_run_db_ok: "db_ok (pp_database s) \<Longrightarrow> db_ok (pp_database (pp_run lower f es s))"
proof (induction es arbitrary: s)
  case (Cons e es)
  then show ?case by (cases e) (simp_all add: pp_receive_db_ok)
qed simp

text \<open>A task left alone empties its queue, and the threads run.\<close>

definition drain :: "instant \<Rightarrow> receiver_env \<Rightarrow> post_processor \<Rightarrow> pp_event list" where
  "drain now env s =
     replicate (length (pp_queue s)) (Take now)
       @ replicate (length (pp_queue s) + length (pp_blocking s)) (Receive 0 env)"

lemma take_lengths:
  "pp_running s \<Longrightarrow> \<forall>msg \<in> set (pp_queue s). meta_of msg \<noteq> None \<Longrightarrow> length (pp_queue s) = n \<Longrightarrow>
     pp_queue (pp_run lower f (replicate n (Take now)) s) = [] \<and>
     length (pp_blocking (pp_run lower f (replicate n (Take now)) s)) = n + length (pp_blocking s)"
proof (induction n arbitrary: s)
  case (Suc n)
  then obtain msg queue m where q: "pp_queue s = msg # queue" and m: "meta_of msg = Some m"
    by (cases "pp_queue s") auto
  have "pp_take lower f now s = pp_summary lower m now (usage_of_msg f msg) (s\<lparr>pp_queue := queue\<rparr>)"
    using Suc.prems(1) q m by (cases msg) (simp_all add: pp_take_def meta_of_def)
  then have t: "pp_running (pp_take lower f now s)" "pp_queue (pp_take lower f now s) = queue"
    "length (pp_blocking (pp_take lower f now s)) = Suc (length (pp_blocking s))"
    using Suc.prems(1) by (simp_all add: pp_summary_def split: prod.split)
  have "length queue = n" "\<forall>msg \<in> set queue. meta_of msg \<noteq> None"
    using Suc.prems(2,3) by (auto simp: q)
  with Suc.IH [of "pp_take lower f now s"] t show ?case
    by simp
qed simp

lemma receive_lengths:
  "pp_queue (pp_run lower f (replicate n (Receive 0 env)) s) = pp_queue s \<and>
   length (pp_blocking (pp_run lower f (replicate n (Receive 0 env)) s)) = length (pp_blocking s) - n"
proof (induction n arbitrary: s)
  case (Suc n)
  have "pp_queue (pp_receive 0 env s) = pp_queue s"
    "length (pp_blocking (pp_receive 0 env s)) = length (pp_blocking s) - 1"
    by (auto simp: pp_receive_def split: prod.split)
  with Suc [of "pp_receive 0 env s"] show ?case by simp
qed simp

lemma drained:
  assumes "pp_running s" "\<forall>msg \<in> set (pp_queue s). meta_of msg \<noteq> None"
  shows "pp_queue (pp_run lower f (drain now env s) s) = [] \<and>
    pp_blocking (pp_run lower f (drain now env s) s) = []"
  using take_lengths [OF assms refl, of lower f now]
    receive_lengths [of lower f "length (pp_queue s) + length (pp_blocking s)" env
      "pp_run lower f (replicate (length (pp_queue s)) (Take now)) s"]
  by (simp add: drain_def flip: length_0_conv)

lemma got_drain [simp]: "pp_got lower f (drain now env s) s' = []"
proof -
  have "pp_got lower f (replicate n (Take now)) s = []" for n s
    by (induction n arbitrary: s) simp_all
  moreover have "pp_got lower f (replicate n (Receive 0 env)) s = []" for n s
    by (induction n arbitrary: s) simp_all
  ultimately show ?thesis by (simp add: drain_def)
qed

lemma stored_row:
  assumes "distinct (map pr_id rows)" "r \<in> set rows"
  shows "filter (\<lambda>q. pr_id q = pr_id r) rows = [r]"
  using assms
proof (induction rows)
  case (Cons a rows)
  show ?case
  proof (cases "r = a")
    case True
    have "filter (\<lambda>q. pr_id q = pr_id a) rows = []"
      using Cons.prems(1) by (auto simp: filter_empty_conv image_iff)
    then show ?thesis by (simp add: True)
  next
    case False
    then have "r \<in> set rows" using Cons.prems(2) by simp
    then have "pr_id a \<noteq> pr_id r" using Cons.prems(1) by (auto simp: image_iff)
    with Cons \<open>r \<in> set rows\<close> show ?thesis by simp
  qed
qed simp

lemma recorded_rows:
  assumes inv: "pp_inv lower f px rows0 (msg_id ` set got) got took s"
    and idle: "pp_queue s = []" "pp_blocking s = []"
    and meta: "\<forall>msg \<in> set got. meta_of msg \<noteq> None" and ok: "db_ok (pp_database s)"
  shows "(\<forall>msg \<in> set got. map timeless (filter (\<lambda>r. pr_id r = msg_id msg) (stored_rows s)) =
      [expected_row lower f px msg]) \<and>
    (\<forall>r. pr_id r \<notin> msg_id ` set got \<longrightarrow> (r \<in> set (stored_rows s) \<longleftrightarrow> r \<in> set rows0))"
proof -
  have r: "rows_inv (expected_row lower f px ` set got) {} (msg_id ` set got) rows0 (stored_rows s)"
    using inv idle unfolding pp_inv_def pending_rows_def by (elim conjE) (simp del: set_map)
  have dist: "distinct (map pr_id (stored_rows s))"
    using ok by (simp add: db_ok_def tables_ok_def request_ids_def stored_rows_def)
  have "map timeless (filter (\<lambda>r. pr_id r = msg_id msg) (stored_rows s)) = [expected_row lower f px msg]"
    if m: "msg \<in> set got" for msg
  proof -
    have "expected_row lower f px ` set got \<subseteq> {} \<union> timeless ` set (stored_rows s)"
      using r by (simp only: rows_inv_def)
    then have "expected_row lower f px msg \<in> timeless ` set (stored_rows s)"
      using imageI [OF m] by (simp only: Un_empty_left) (rule subsetD)
    then obtain row where row: "row \<in> set (stored_rows s)" "timeless row = expected_row lower f px msg"
      by (elim imageE) (simp only:)
    have "pr_id row = pr_id (timeless row)"
      by simp
    also have "\<dots> = msg_id msg"
      unfolding row(2) using meta m by (intro expected_row_id) blast
    finally have i: "pr_id row = msg_id msg" .
    have "filter (\<lambda>r. pr_id r = msg_id msg) (stored_rows s) = [row]"
      using stored_row [OF dist row(1)] unfolding i .
    then show ?thesis by (simp only: list.map row(2))
  qed
  moreover have "r \<in> set (stored_rows s) \<longleftrightarrow> r \<in> set rows0" if "pr_id r \<notin> msg_id ` set got" for r
  proof -
    have "timeless r \<notin> expected_row lower f px ` set got"
    proof
      assume "timeless r \<in> expected_row lower f px ` set got"
      then obtain msg where m: "msg \<in> set got" "timeless r = expected_row lower f px msg"
        by (elim imageE)
      then have "pr_id r = msg_id msg"
        using expected_row_id [of msg lower f px] meta timeless_id [of r] by simp
      with that m(1) show False by simp
    qed
    with r that show ?thesis unfolding rows_inv_def by blast
  qed
  ultimately show ?thesis by blast
qed

text \<open>
  C36. Every request whose message is accepted is recorded, once: after any sequence of posts,
  takes and writes by threads in any order, once the task has been left alone to drain, the table
  holds for each accepted message exactly one row with what the message, its usage and the price
  of its model determine, and every row of another request is as it was.
\<close>

theorem every_accepted_recorded:
  assumes "cache_sound lower px" "db_ok db" "list_all smooth es" "re_pool env" "re_saved env"
    and s: "s = pp_run lower f es (spawn_post_processor px db xf)"
    and got: "got = pp_got lower f es (spawn_post_processor px db xf)" and "distinct (map msg_id got)"
    and rows: "rows = t_requests (db_tables (pp_database (pp_run lower f (drain now env s) s)))"
  shows "(\<forall>msg \<in> set got. map timeless (filter (\<lambda>r. pr_id r = msg_id msg) rows) =
      [expected_row lower f px msg]) \<and>
    (\<forall>r. pr_id r \<notin> msg_id ` set got \<longrightarrow> (r \<in> set rows \<longleftrightarrow> r \<in> set (t_requests (db_tables db))))"
proof -
  let ?s0 = "spawn_post_processor px db xf" and ?ids = "msg_id ` set got"
  have meta: "\<forall>msg \<in> set got. meta_of msg \<noteq> None"
    using pp_got_meta [OF assms(3)] got by blast
  have "pp_inv lower f px (t_requests (db_tables db)) ?ids [] [] ?s0"
    using assms(1) rows_inv_start
    by (simp add: pp_inv_def spawn_post_processor_def pending_rows_def stored_rows_def)
  from pp_inv_run [OF this assms(3)] obtain took where
    inv: "pp_inv lower f px (t_requests (db_tables db)) ?ids got took s"
    using meta assms(8) by (auto simp: got s)
  have "list_all smooth (drain now env s)"
    using assms(4,5) by (simp add: drain_def list_all_length nth_append)
  from pp_inv_run [OF inv this] obtain took' where
    inv': "pp_inv lower f px (t_requests (db_tables db)) ?ids got took' (pp_run lower f (drain now env s) s)"
    using meta assms(8) by auto
  have "pp_running s" "\<forall>msg \<in> set (pp_queue s). meta_of msg \<noteq> None"
    using inv meta by (auto simp: pp_inv_def)
  note idle = drained [OF this, of lower f now env]
  have "db_ok (pp_database (pp_run lower f (drain now env s) s))"
    using assms(2) by (simp add: s pp_run_db_ok spawn_post_processor_def)
  from recorded_rows [OF inv' _ _ meta this] idle show ?thesis
    by (simp add: rows stored_rows_def)
qed

definition empty_database :: database where
  "empty_database = \<lparr>db_accounts = [], db_keys = [],
     db_tables = \<lparr>t_requests = [], t_payloads = []\<rparr>, db_xfactor = []\<rparr>"

definition demo_post :: post_processor_msg where
  "demo_post = ResponseComplete
     \<lparr>am_request_id = ''r1'', am_account_id = Some ''a1'', am_path = ''/v1/messages'', am_status = 200,
      am_start = 0, am_agent = None, am_project = None, am_key_id = None, am_key_name = None,
      am_attempts = 1, am_content = Some (WholeBody ''{}'')\<rparr> ''{}''"

definition demo_receiver :: receiver_env where
  "demo_receiver = \<lparr>re_pool = True, re_saved = True, re_row_ms = 5, re_notify_ms = 5\<rparr>"

definition demo_posted :: post_processor where
  "demo_posted = pp_run id (\<lambda>_. None) [Post demo_post]
     (spawn_post_processor (pricing_start bundled_pricing) empty_database [])"

theorem every_accepted_recorded_witness:
  "map timeless (filter (\<lambda>r. pr_id r = ''r1'') (t_requests (db_tables (pp_database
      (pp_run id (\<lambda>_. None) (drain 9 demo_receiver demo_posted) demo_posted))))) =
    [expected_row id (\<lambda>_. None) (pricing_start bundled_pricing) demo_post]"
proof -
  have got: "[demo_post] = pp_got id (\<lambda>_. None) [Post demo_post]
      (spawn_post_processor (pricing_start bundled_pricing) empty_database [])"
    by (simp add: pp_accepts_def spawn_post_processor_def POST_CAPACITY_def)
  have ok: "db_ok empty_database"
    by (simp add: db_ok_def empty_database_def valid_rows_def keys_ok_def tables_ok_def request_ids_def
        payload_ids_def hm_ok_def)
  have env: "re_pool demo_receiver" "re_saved demo_receiver"
    by (simp_all add: demo_receiver_def)
  have sm: "list_all smooth [Post demo_post]"
    by (simp add: demo_post_def meta_of_def)
  have i: "msg_id demo_post = ''r1''"
    by (simp add: msg_id_def demo_post_def meta_of_def)
  from every_accepted_recorded [OF cache_sound_start ok sm env demo_posted_def got _ refl, where now = 9]
  show ?thesis by (simp add: i)
qed

section \<open>What the estimator is told and what it reads back\<close>

text \<open>The columns of a row that the capacity service reads when it starts.\<close>

definition request_row_of :: "request_rec \<Rightarrow> request_row" where
  "request_row_of r =
     \<lparr>rr_timestamp = pr_timestamp r, rr_account_used = pr_account_used r, rr_model = pr_model r,
      rr_input_tokens = pr_input_tokens r, rr_output_tokens = pr_output_tokens r,
      rr_cache_creation = pr_cache_creation_input_tokens r,
      rr_cache_read = pr_cache_read_input_tokens r\<rparr>"

text \<open>
  A restart changes nothing in what a request counts for: the tokens, model and account told to
  the capacity estimator when a request is recorded are those it reads back from the row.
\<close>

theorem recorded_tokens_agree:
  assumes "build_summary lower m now u px = (s, px')"
    and u: "tokens_ok (token_breakdown_of u)" and "row_tokens (request_row_of (summary_row ms s)) \<le> i64_max"
  shows "coalesce (rs_total_tokens s) = row_tokens (request_row_of (summary_row ms s)) \<and>
    rr_account_used (request_row_of (summary_row ms s)) = rs_account_id s \<and>
    rr_model (request_row_of (summary_row ms s)) = rs_model s"
proof -
  let ?t = "token_breakdown_of u"
  obtain cost px1 where c: "model_cost_of lower (su_model u) ?t px = (cost, px1)"
    by fastforce
  have s: "su_input_tokens u = rs_input_tokens s" "su_output_tokens u = rs_output_tokens s"
    "su_cache_read_input_tokens u = rs_cache_read_input_tokens s"
    "su_cache_creation_input_tokens u = rs_cache_creation_input_tokens s"
    "rs_total_tokens s = (if total_of ?t > 0 then Some (total_of ?t) else None)"
    using assms(1) by (auto simp: build_summary_def c Let_def)
  have row: "row_tokens (request_row_of (summary_row ms s)) =
      tb_input_tokens ?t + tb_output_tokens ?t + tb_cache_creation_input_tokens ?t +
      tb_cache_read_input_tokens ?t"
    by (simp add: row_tokens_def request_row_of_def summary_row_def token_breakdown_of_def s)
  have add: "i64_add a b = a + b" if "0 \<le> a" "0 \<le> b" "a + b \<le> i64_max" for a b
    using that by (auto simp: i64_add_def in_i64_def i64_min_def intro!: i64_wrap_id)
  have "total_of ?t = row_tokens (request_row_of (summary_row ms s))"
    using u assms(3) unfolding row tokens_ok_def by (simp add: total_of_def add)
  moreover have "0 \<le> total_of ?t"
    using u unfolding calculation row tokens_ok_def by simp
  ultimately show ?thesis
    by (auto simp: s(5) coalesce_def request_row_of_def summary_row_def)
qed

definition demo_usage :: stream_usage where
  "demo_usage = \<lparr>su_model = None, su_input_tokens = Some 3, su_output_tokens = Some 4,
     su_cache_read_input_tokens = None, su_cache_creation_input_tokens = Some 2\<rparr>"

definition demo_summary :: request_summary where
  "demo_summary = fst (build_summary id (the (meta_of demo_post)) 9 demo_usage (pricing_start []))"

theorem recorded_tokens_agree_witness:
  "coalesce (rs_total_tokens demo_summary) = row_tokens (request_row_of (summary_row 7 demo_summary)) \<and>
   rr_account_used (request_row_of (summary_row 7 demo_summary)) = rs_account_id demo_summary \<and>
   rr_model (request_row_of (summary_row 7 demo_summary)) = rs_model demo_summary"
proof (rule recorded_tokens_agree)
  show "build_summary id (the (meta_of demo_post)) 9 demo_usage (pricing_start []) =
      (demo_summary, snd (build_summary id (the (meta_of demo_post)) 9 demo_usage (pricing_start [])))"
    by (simp add: demo_summary_def)
  show "tokens_ok (token_breakdown_of demo_usage)"
    by (simp add: tokens_ok_def token_breakdown_of_def demo_usage_def coalesce_def i64_max_def)
  show "row_tokens (request_row_of (summary_row 7 demo_summary)) \<le> i64_max"
    by (simp add: demo_summary_def build_summary_def model_cost_of_def demo_usage_def row_tokens_def
        request_row_of_def summary_row_def coalesce_def i64_max_def Let_def)
qed

end
