(* ===== verification/Auto_Refresh.thy ===== *)
theory Auto_Refresh
  imports Proxy_Correct Account_Store
begin

text \<open>
  The scheduler that keeps the usage windows of idle OAuth accounts fresh,
  \<open>proxy/src/auto_refresh.rs\<close>, with the account source of \<open>main.rs\<close>: every minute, or more rarely
  after a rate limit, it sends a small request through the proxy for each account whose window
  seems to have passed. The proxy is the function \<open>send\<close>, which threads a world; the random choice
  of a message is a number drawn from the world.
\<close>

section \<open>The account source\<close>

definition CHECK_INTERVAL_SECS :: nat where "CHECK_INTERVAL_SECS = 60"
definition FAILURE_THRESHOLD :: nat where "FAILURE_THRESHOLD = 5"
definition STALE_THRESHOLD_MS :: i64 where "STALE_THRESHOLD_MS = 24 * 60 * 60 * 1000"

definition MODEL_CASCADE :: "string list" where
  "MODEL_CASCADE =
     [''claude-haiku-4-5-20251001'', ''claude-3-5-haiku-20241022'', ''claude-3-haiku-20240307'',
      ''claude-3-5-sonnet-20241022'', ''claude-3-sonnet-20240229'']"

definition DUMMY_MESSAGES :: "string list" where
  "DUMMY_MESSAGES =
     [''Write a hello world program in Python'', ''What is 2+2?'', ''Tell me a programmer joke'',
      ''What is the capital of France?'', ''Explain recursion in one sentence'']"

record refreshable_account =
  ra_id :: string
  ra_name :: string
  ra_reset :: "i64 option"

definition auto_refreshed :: "account \<Rightarrow> bool" where
  "auto_refreshed a \<longleftrightarrow>
     auto_refresh_enabled a \<and> provider a \<in> {''anthropic'', ''claude-oauth''}"

text \<open>The rows are \<open>None\<close> when there is no connection.\<close>

definition get_refreshable_accounts :: "account list option \<Rightarrow> refreshable_account list" where
  "get_refreshable_accounts rows =
     (case rows of
        None \<Rightarrow> []
      | Some rows \<Rightarrow>
          map (\<lambda>a. \<lparr>ra_id = acct_id a, ra_name = acct_name a, ra_reset = rate_limit_reset a\<rparr>)
            (filter (\<lambda>a. auto_refreshed a \<and> \<not> paused a) rows))"

definition get_active_refresh_account_ids :: "account list option \<Rightarrow> string list" where
  "get_active_refresh_account_ids rows =
     (case rows of None \<Rightarrow> [] | Some rows \<Rightarrow> map acct_id (filter auto_refreshed rows))"

definition mark_refused :: "string \<Rightarrow> nat \<Rightarrow> account list option \<Rightarrow> account list option" where
  "mark_refused i status rows =
     map_option (update_rate_limit_meta (auth_failed_label status) None None i) rows"

section \<open>The state of the scheduler\<close>

text \<open>Failures are counted in \<open>u32\<close>, at most one a minute for each account, and do not wrap.\<close>

record scheduler_state =
  sc_last_reset :: "(string, i64) hash_map"
  sc_failures :: "(string, nat) hash_map"
  sc_multiplier :: nat

definition scheduler_new :: scheduler_state where
  "scheduler_new = \<lparr>sc_last_reset = [], sc_failures = [], sc_multiplier = 1\<rparr>"

definition should_refresh :: "scheduler_state \<Rightarrow> refreshable_account \<Rightarrow> i64 \<Rightarrow> bool" where
  "should_refresh s a now =
     (case hm_get (sc_last_reset s) (ra_id a) of
        None \<Rightarrow> True
      | Some seen \<Rightarrow>
          (case ra_reset a of
             None \<Rightarrow> False
           | Some reset \<Rightarrow>
               if reset \<le> now then True
               else if reset > seen then True
               else if reset < i64_sub now STALE_THRESHOLD_MS then True
               else False))"

definition record_success :: "string \<Rightarrow> i64 option \<Rightarrow> scheduler_state \<Rightarrow> scheduler_state" where
  "record_success i reset s =
     s\<lparr>sc_last_reset := (case reset of Some rt \<Rightarrow> hm_insert i rt (sc_last_reset s) | None \<Rightarrow> sc_last_reset s),
       sc_failures := hm_remove i (sc_failures s)\<rparr>"

definition record_refresh_failure :: "string \<Rightarrow> scheduler_state \<Rightarrow> nat \<times> scheduler_state" where
  "record_refresh_failure i s =
     (let n = (case hm_get (sc_failures s) i of Some n \<Rightarrow> n | None \<Rightarrow> 0) + 1
      in (n, s\<lparr>sc_failures := hm_insert i n (sc_failures s)\<rparr>))"

definition scheduler_cleanup :: "string list \<Rightarrow> scheduler_state \<Rightarrow> scheduler_state" where
  "scheduler_cleanup active s =
     s\<lparr>sc_last_reset := hm_retain (\<lambda>i _. i \<in> set active) (sc_last_reset s),
       sc_failures := hm_retain (\<lambda>i _. i \<in> set active) (sc_failures s)\<rparr>"

section \<open>One request\<close>

datatype refresh_result =
    RefreshSuccess "i64 option"
  | RefreshRateLimited
  | RefreshFailed
  | RefreshAuthFailed nat

record dummy_request =
  dr_url :: string
  dr_headers :: header_map
  dr_body :: json

definition dummy_headers :: "string \<Rightarrow> string option \<Rightarrow> header_map" where
  "dummy_headers i key =
     [(''content-type'', ''application/json''), (''accept'', ''application/json''),
      (''anthropic-version'', ''2023-06-01''), (''x-better-ccflare-account-id'', i),
      (''x-better-ccflare-force-account-strict'', ''true''),
      (''x-better-ccflare-bypass-session'', ''true'')]
     @ (case key of Some k \<Rightarrow> [(''x-api-key'', k)] | None \<Rightarrow> [])"

definition dummy_body :: "string \<Rightarrow> string \<Rightarrow> json" where
  "dummy_body model message =
     JObject [(''model'', JString model), (''max_tokens'', JNumber (PosInt 10)),
       (''messages'', JArray [JObject [(''role'', JString ''user''), (''content'', JString message)]])]"

text \<open>What comes back: no answer, or a status with headers and a body that may be unreadable.\<close>

datatype dummy_reply = NoReply | DummyReply nat header_map "string option"

definition reset_of_reply :: "(string \<Rightarrow> i64 option) \<Rightarrow> header_map \<Rightarrow> i64 option" where
  "reset_of_reply rfc headers =
     Option.bind (header_str headers ''anthropic-ratelimit-unified-reset'')
       (\<lambda>v. first_some (parse_i64 v) (rfc v))"

definition from_upstream :: "header_map \<Rightarrow> bool" where
  "from_upstream headers \<longleftrightarrow>
     header_str headers ''anthropic-organization-id'' \<noteq> None \<or> header_str headers ''request-id'' \<noteq> None"

text \<open>The answer decides, or \<open>None\<close>: the next model is tried.\<close>

definition judge_reply :: "(string \<Rightarrow> i64 option) \<Rightarrow> i64 \<Rightarrow> dummy_reply \<Rightarrow> refresh_result option" where
  "judge_reply rfc now reply =
     (case reply of
        NoReply \<Rightarrow> None
      | DummyReply status headers body \<Rightarrow>
          if status = 429 \<or> status = 503 then Some RefreshRateLimited
          else if 200 \<le> status \<and> status < 300 then
            Some (RefreshSuccess (first_some (reset_of_reply rfc headers) (Some now)))
          else if status = 401 \<or> status = 403 then
            (let body_text = (case body of Some b \<Rightarrow> b | None \<Rightarrow> [])
             in if \<not> from_upstream headers then Some RefreshFailed
                else if contains_str body_text ''API key required'' \<or>
                        contains_str body_text ''Invalid API key'' then Some RefreshFailed
                else Some (RefreshAuthFailed status))
          else if status = 404 then None
          else Some RefreshFailed)"

record 'w refresh_io =
  ri_send :: "dummy_request \<Rightarrow> 'w \<Rightarrow> dummy_reply \<times> 'w"
  ri_pick :: "'w \<Rightarrow> nat \<times> 'w"
  ri_now :: "'w \<Rightarrow> i64"
  ri_rfc3339 :: "string \<Rightarrow> i64 option"
  ri_port :: nat
  ri_tls :: bool
  ri_key :: "string option"

definition dummy_url :: "'w refresh_io \<Rightarrow> string" where
  "dummy_url io =
     (if ri_tls io then ''https'' else ''http'') @ ''://localhost:'' @ show_nat (ri_port io) @ ''/v1/messages''"

fun try_models ::
  "'w refresh_io \<Rightarrow> string \<Rightarrow> string \<Rightarrow> string list \<Rightarrow> 'w \<Rightarrow> refresh_result \<times> dummy_request list \<times> 'w" where
  "try_models io i message [] w = (RefreshFailed, [], w)"
| "try_models io i message (model # models) w =
     (let req = \<lparr>dr_url = dummy_url io, dr_headers = dummy_headers i (ri_key io),
                 dr_body = dummy_body model message\<rparr>
      in case ri_send io req w of
        (reply, w) \<Rightarrow>
          (case judge_reply (ri_rfc3339 io) (ri_now io w) reply of
             Some r \<Rightarrow> (r, [req], w)
           | None \<Rightarrow>
               (case try_models io i message models w of
                  (r, sent, w) \<Rightarrow> (r, req # sent, w))))"

definition send_dummy_request ::
  "'w refresh_io \<Rightarrow> string \<Rightarrow> 'w \<Rightarrow> refresh_result \<times> dummy_request list \<times> 'w" where
  "send_dummy_request io i w =
     (case ri_pick io w of
        (n, w) \<Rightarrow> try_models io i (DUMMY_MESSAGES ! (n mod length DUMMY_MESSAGES)) MODEL_CASCADE w)"

section \<open>One check\<close>

text \<open>
  The lock of the state is only taken by the scheduler's own task, one section after the other, so
  \<open>try_lock\<close> finds it free. The three seconds between two requests are left out. The result carries
  the requests sent, each with the account it was for, and the accounts marked as refused.
\<close>

record 'w refreshed =
  rf_state :: scheduler_state
  rf_sent :: "(string \<times> dummy_request list) list"
  rf_marked :: "(string \<times> nat) list"
  rf_world :: 'w

fun refresh_accounts :: "'w refresh_io \<Rightarrow> refreshable_account list \<Rightarrow> 'w refreshed \<Rightarrow> 'w refreshed" where
  "refresh_accounts io [] st = st"
| "refresh_accounts io (a # as) st =
     (case send_dummy_request io (ra_id a) (rf_world st) of
        (result, sent, w) \<Rightarrow>
          (let st = st\<lparr>rf_sent := rf_sent st @ [(ra_id a, sent)], rf_world := w\<rparr>
           in case result of
             RefreshSuccess reset \<Rightarrow>
               refresh_accounts io as
                 (st\<lparr>rf_state := (record_success (ra_id a) reset (rf_state st))\<lparr>sc_multiplier := 1\<rparr>\<rparr>)
           | RefreshRateLimited \<Rightarrow>
               st\<lparr>rf_state := (rf_state st)\<lparr>sc_multiplier := min (sc_multiplier (rf_state st) * 2) 8\<rparr>\<rparr>
           | RefreshFailed \<Rightarrow>
               refresh_accounts io as
                 (st\<lparr>rf_state := snd (record_refresh_failure (ra_id a) (rf_state st))\<rparr>)
           | RefreshAuthFailed status \<Rightarrow>
               refresh_accounts io as
                 (st\<lparr>rf_state := snd (record_refresh_failure (ra_id a) (rf_state st)),
                     rf_marked := rf_marked st @ [(ra_id a, status)]\<rparr>)))"

text \<open>What a check meets: the rows at its two queries, and the time.\<close>

record check_env =
  ce_active_rows :: "account list option"
  ce_rows :: "account list option"
  ce_now :: i64

definition check_and_refresh :: "'w refresh_io \<Rightarrow> check_env \<Rightarrow> scheduler_state \<Rightarrow> 'w \<Rightarrow> 'w refreshed" where
  "check_and_refresh io env s w =
     (let s = scheduler_cleanup (get_active_refresh_account_ids (ce_active_rows env)) s;
          due = filter (\<lambda>a. should_refresh s a (ce_now env)) (get_refreshable_accounts (ce_rows env))
      in refresh_accounts io due \<lparr>rf_state = s, rf_sent = [], rf_marked = [], rf_world = w\<rparr>)"

definition sleep_secs :: "scheduler_state \<Rightarrow> nat" where
  "sleep_secs s = CHECK_INTERVAL_SECS * sc_multiplier s"

text \<open>The loop: the checks made before the shutdown, with what each of them sent.\<close>

fun scheduler_run ::
  "'w refresh_io \<Rightarrow> check_env list \<Rightarrow> scheduler_state \<Rightarrow> 'w \<Rightarrow>
     (string \<times> dummy_request list) list list \<times> scheduler_state \<times> 'w" where
  "scheduler_run io [] s w = ([], s, w)"
| "scheduler_run io (env # envs) s w =
     (let st = check_and_refresh io env s w
      in case scheduler_run io envs (rf_state st) (rf_world st) of
        (sent, s', w') \<Rightarrow> (rf_sent st # sent, s', w'))"

section \<open>Bounds\<close>

definition backoff_ok :: "scheduler_state \<Rightarrow> bool" where
  "backoff_ok s \<longleftrightarrow> sc_multiplier s \<in> {1, 2, 4, 8}"

lemma refresh_accounts_backoff: "backoff_ok (rf_state st) \<Longrightarrow> backoff_ok (rf_state (refresh_accounts io as st))"
  by (induction io as st rule: refresh_accounts.induct)
     (auto simp: backoff_ok_def record_success_def record_refresh_failure_def Let_def
       split: prod.split refresh_result.split)

lemma check_backoff: "backoff_ok s \<Longrightarrow> backoff_ok (rf_state (check_and_refresh io env s w))"
  by (simp add: check_and_refresh_def refresh_accounts_backoff Let_def)
     (rule refresh_accounts_backoff, simp add: backoff_ok_def scheduler_cleanup_def)

lemma try_models_sent:
  "try_models io i message models w = (r, sent, w') \<Longrightarrow>
     length sent \<le> length models \<and> (\<forall>req \<in> set sent. dr_headers req = dummy_headers i (ri_key io))"
proof (induction models arbitrary: r sent w w')
  case (Cons model models)
  obtain reply w1 where 1: "ri_send io \<lparr>dr_url = dummy_url io, dr_headers = dummy_headers i (ri_key io),
      dr_body = dummy_body model message\<rparr> w = (reply, w1)"
    by fastforce
  obtain r2 sent2 w2 where 2: "try_models io i message models w1 = (r2, sent2, w2)"
    by (cases "try_models io i message models w1") auto
  show ?case
    using Cons.prems Cons.IH [OF 2] by (auto simp: Let_def 1 2 split: option.splits)
qed simp

lemma cascade_length: "length MODEL_CASCADE = 5"
  by (simp add: MODEL_CASCADE_def)

lemma send_dummy_sent:
  "send_dummy_request io i w = (r, sent, w') \<Longrightarrow>
     length sent \<le> 5 \<and> (\<forall>req \<in> set sent. dr_headers req = dummy_headers i (ri_key io))"
  using try_models_sent [of io i _ MODEL_CASCADE]
  by (auto simp: send_dummy_request_def cascade_length split: prod.splits)

text \<open>The requests of one account, bounded and forced onto it.\<close>

definition for_account :: "'w refresh_io \<Rightarrow> string \<times> dummy_request list \<Rightarrow> bool" where
  "for_account io p \<longleftrightarrow> length (snd p) \<le> 5 \<and>
     (\<forall>req \<in> set (snd p). dr_headers req = dummy_headers (fst p) (ri_key io))"

lemma refresh_accounts_sent:
  "\<exists>sent. rf_sent (refresh_accounts io as st) = rf_sent st @ sent \<and>
     prefix (map fst sent) (map ra_id as) \<and> list_all (for_account io) sent"
proof (induction as arbitrary: st)
  case (Cons a as)
  obtain r reqs w where d: "send_dummy_request io (ra_id a) (rf_world st) = (r, reqs, w)"
    by (cases "send_dummy_request io (ra_id a) (rf_world st)") auto
  have f: "for_account io (ra_id a, reqs)"
    using send_dummy_sent [OF d] by (simp add: for_account_def)
  have more: ?case if "rf_sent st' = rf_sent st @ [(ra_id a, reqs)]"
    "refresh_accounts io (a # as) st = refresh_accounts io as st'" for st'
    using Cons [of st'] that f by fastforce
  show ?case
  proof (cases r)
    case RefreshRateLimited
    then show ?thesis
      using f by (intro exI [of _ "[(ra_id a, reqs)]"]) (simp add: d Let_def)
  qed (rule more; simp add: d Let_def; simp)+
qed simp

definition due_accounts :: "check_env \<Rightarrow> scheduler_state \<Rightarrow> refreshable_account list" where
  "due_accounts env s =
     filter (\<lambda>a. should_refresh
         (scheduler_cleanup (get_active_refresh_account_ids (ce_active_rows env)) s) a (ce_now env))
       (get_refreshable_accounts (ce_rows env))"

text \<open>
  One check addresses the due accounts in their order, at most five requests each, all of them
  forced onto that account, and stops at the first that is rate-limited; the sleep before the next
  check stays between one and eight minutes.
\<close>

theorem check_bounded:
  "prefix (map fst (rf_sent (check_and_refresh io env s w))) (map ra_id (due_accounts env s)) \<and>
   list_all (for_account io) (rf_sent (check_and_refresh io env s w)) \<and>
   (backoff_ok s \<longrightarrow> sleep_secs (rf_state (check_and_refresh io env s w)) \<in> {60, 120, 240, 480})"
proof -
  obtain sent where "rf_sent (check_and_refresh io env s w) = sent"
    "prefix (map fst sent) (map ra_id (due_accounts env s))" "list_all (for_account io) sent"
    using refresh_accounts_sent [of io "due_accounts env s" "\<lparr>rf_state = scheduler_cleanup
        (get_active_refresh_account_ids (ce_active_rows env)) s, rf_sent = [], rf_marked = [], rf_world = w\<rparr>"]
    by (auto simp: check_and_refresh_def due_accounts_def Let_def)
  then show ?thesis
    using check_backoff [of s io env w]
    by (auto simp: backoff_ok_def sleep_secs_def CHECK_INTERVAL_SECS_def)
qed

section \<open>A window is refreshed once\<close>

text \<open>
  The rows while a window is open: account \<open>i\<close> is enabled, and the reset stored for it lies ahead,
  but not beyond the one that was recorded.
\<close>

definition window_open :: "string \<Rightarrow> i64 \<Rightarrow> check_env \<Rightarrow> bool" where
  "window_open i rt env \<longleftrightarrow>
     0 \<le> ce_now env \<and> ce_now env \<le> i64_max \<and>
     i \<in> set (get_active_refresh_account_ids (ce_active_rows env)) \<and>
     (\<forall>a \<in> set (get_refreshable_accounts (ce_rows env)).
        ra_id a = i \<longrightarrow> list_all (\<lambda>r. ce_now env < r \<and> r \<le> rt) (case ra_reset a of Some r \<Rightarrow> [r] | None \<Rightarrow> []))"

lemma hm_get_kept: "P k v \<Longrightarrow> hm_get h k = Some v \<Longrightarrow> hm_get (hm_retain P h) k = Some v"
  by (induction h) (auto simp: hm_retain_def)

lemma not_due:
  assumes "window_open i rt env" "hm_get (sc_last_reset s) i = Some rt"
  shows "i \<notin> ra_id ` set (due_accounts env s)"
proof
  assume "i \<in> ra_id ` set (due_accounts env s)"
  then obtain a where a: "a \<in> set (get_refreshable_accounts (ce_rows env))" "ra_id a = i"
    and due: "should_refresh (scheduler_cleanup (get_active_refresh_account_ids (ce_active_rows env)) s) a
      (ce_now env)"
    by (auto simp: due_accounts_def)
  have i: "i \<in> set (get_active_refresh_account_ids (ce_active_rows env))"
    and n: "0 \<le> ce_now env" "ce_now env \<le> i64_max"
    using assms(1) by (simp_all add: window_open_def)
  have "hm_get (sc_last_reset (scheduler_cleanup (get_active_refresh_account_ids (ce_active_rows env)) s)) i
      = Some rt"
    using assms(2) i by (simp add: scheduler_cleanup_def hm_get_kept)
  moreover have "i64_sub (ce_now env) STALE_THRESHOLD_MS \<le> ce_now env"
    using n by (simp add: i64_sub_def STALE_THRESHOLD_MS_def i64_wrap_id in_i64_def i64_min_def i64_max_def)
  ultimately show False
    using due assms(1) a by (auto simp: should_refresh_def window_open_def split: option.splits if_splits)
qed

lemma refresh_accounts_other:
  "i \<notin> ra_id ` set as \<Longrightarrow>
     hm_get (sc_last_reset (rf_state (refresh_accounts io as st))) i = hm_get (sc_last_reset (rf_state st)) i"
proof (induction as arbitrary: st)
  case (Cons a as)
  obtain r reqs w where d: "send_dummy_request io (ra_id a) (rf_world st) = (r, reqs, w)"
    by (cases "send_dummy_request io (ra_id a) (rf_world st)") auto
  show ?case
    using Cons by (cases r) (auto simp: d Let_def record_success_def record_refresh_failure_def split: option.split)
qed simp

lemma window_check:
  assumes "window_open i rt env" "hm_get (sc_last_reset s) i = Some rt"
  shows "i \<notin> fst ` set (rf_sent (check_and_refresh io env s w)) \<and>
    hm_get (sc_last_reset (rf_state (check_and_refresh io env s w))) i = Some rt"
proof -
  note nd = not_due [OF assms]
  have "set (map fst (rf_sent (check_and_refresh io env s w))) \<subseteq> set (map ra_id (due_accounts env s))"
    using check_bounded [of io env s w] set_mono_prefix by blast
  then have "i \<notin> fst ` set (rf_sent (check_and_refresh io env s w))"
    using nd by auto
  moreover have "i \<in> set (get_active_refresh_account_ids (ce_active_rows env))"
    using assms(1) by (simp add: window_open_def)
  then have "hm_get (sc_last_reset (scheduler_cleanup (get_active_refresh_account_ids (ce_active_rows env)) s)) i
      = Some rt"
    using assms(2) by (simp add: scheduler_cleanup_def hm_get_kept)
  ultimately show ?thesis
    using nd by (simp add: check_and_refresh_def Let_def refresh_accounts_other due_accounts_def)
qed


definition demo_refresh_account :: account where
  "demo_refresh_account = (fresh_account ''a1'' ''anthropic'')
     \<lparr>auto_refresh_enabled := True, rate_limit_reset := Some 2000000000000\<rparr>"

definition demo_check :: check_env where
  "demo_check = \<lparr>ce_active_rows = Some [demo_refresh_account], ce_rows = Some [demo_refresh_account],
     ce_now = 1900000000000\<rparr>"

definition demo_refresh_io :: "dummy_reply \<Rightarrow> unit refresh_io" where
  "demo_refresh_io reply = \<lparr>ri_send = \<lambda>_ w. (reply, w), ri_pick = \<lambda>w. (0, w), ri_now = \<lambda>_. 1900000000000,
     ri_rfc3339 = \<lambda>_. None, ri_port = 8081, ri_tls = False, ri_key = None\<rparr>"


section \<open>A reset in seconds\<close>

text \<open>
  The rest of the program reads a small reset as seconds (\<open>normalize_epoch_millis\<close>), the scheduler
  does not. An account whose stored reset is in seconds is due at every check, although its window
  is open.
\<close>

theorem seconds_reset_always_due:
  assumes "ra_reset a = Some r" "\<bar>r\<bar> < 1000000000000" "1000000000000 \<le> now"
  shows "should_refresh s a now \<and> normalize_epoch_millis r = 1000 * r"
  using assms normalize_seconds [of r] by (auto simp: should_refresh_def split: option.split)

theorem seconds_reset_always_due_witness:
  "should_refresh scheduler_new \<lparr>ra_id = ''a1'', ra_name = ''a1'', ra_reset = Some 1800000000\<rparr> 1700000000000 \<and>
   normalize_epoch_millis 1800000000 = 1000 * 1800000000"
  by (rule seconds_reset_always_due) simp_all

section \<open>The requests reach their account only\<close>

lemma dummy_header:
  "list_all visible_ascii i \<Longrightarrow> get_force_account_id (dummy_headers i key) = Some i"
  "header_str (dummy_headers i key) ''x-better-ccflare-force-account-strict'' = Some ''true''"
  "is_session_bypass (dummy_headers i key)"
  by (auto simp: get_force_account_id_def is_session_bypass_def header_str_def dummy_headers_def
      visible_ascii_def byte_def split: option.split)

text \<open>
  A request of the scheduler, sent with a key that may give routing hints, is tried on its
  account or on none: the selection of the request handler is at most that account.
\<close>

theorem dummy_request_stays:
  assumes "info_scope info \<noteq> Some Proxy" "ps_strategy st \<noteq> None"
    and "a \<in> set accounts" "list_all visible_ascii (acct_id a)"
  shows "acct_id ` set (fst (fst (order_accounts env
      (selection_meta_of info (dummy_headers (acct_id a) key)) accounts now st))) \<subseteq> {acct_id a}"
proof -
  let ?meta = "selection_meta_of info (dummy_headers (acct_id a) key)"
  obtain lb where lb: "ps_strategy st = Some lb"
    using assms(2) by blast
  have meta: "force_account_id ?meta = Some (acct_id a)" "force_account_strict ?meta"
    using assms(1) dummy_header [of "acct_id a" key] assms(4) by (simp_all add: selection_meta_of_def)
  let ?usage = "usage_of_accounts (env_usage env (ps_world st)) accounts"
  have "acct_id ` set (fst (fst (select lb accounts ?usage ?meta now))) \<subseteq> {acct_id a}"
  proof (cases "find (\<lambda>b. acct_id b = acct_id a) accounts")
    case None
    then show ?thesis using assms(3) by (auto simp: find_None_iff)
  next
    case (Some b)
    then have b: "acct_id b = acct_id a"
      by (auto simp: find_Some_iff)
    have "acct_id (fst (take_session lb ?meta b now)) = acct_id b"
      by (rule take_session_id)
    then show ?thesis
      by (simp add: select_def meta Some split_beta b)
  qed
  then show ?thesis
    by (simp add: order_accounts_def lb split_beta)
qed

theorem dummy_request_stays_witness:
  "acct_id ` set (fst (fst (order_accounts (demo_proxy (demo_answer 200 []))
      (selection_meta_of auth_info_default (dummy_headers ''a1'' None))
      [fresh_account ''a0'' ''anthropic'', fresh_account ''a1'' ''anthropic''] 1700000000000
      (demo_proxy_state\<lparr>ps_strategy := Some (session_strategy_new 18000000)\<rparr>)))) \<subseteq> {''a1''}"
  using dummy_request_stays [of auth_info_default
      "demo_proxy_state\<lparr>ps_strategy := Some (session_strategy_new 18000000)\<rparr>" "fresh_account ''a1'' ''anthropic''"
      "[fresh_account ''a0'' ''anthropic'', fresh_account ''a1'' ''anthropic'']"
      "demo_proxy (demo_answer 200 [])" None 1700000000000]
  by (simp add: auth_info_default_def visible_ascii_def byte_def)

end
