(* ===== verification/Config.thy ===== *)
theory Config
  imports Request_Store Provider_Impls
begin

text \<open>
  The configuration, \<open>core/src/config.rs\<close>: the file, the environment variables that override it and
  the defaults under both, and its reload, \<open>core/src/config_watcher.rs\<close>. The text of the file is
  parsed and printed by \<open>serde_json\<close>, a parameter; so is the parser of floats.
\<close>

section \<open>Data\<close>

record config_data =
  cf_lb_strategy :: "strategy_name option"
  cf_client_id :: "string option"
  cf_retry_attempts :: "nat option"
  cf_retry_delay_ms :: "nat option"
  cf_retry_backoff :: "f64 option"
  cf_session_duration_ms :: "i64 option"
  cf_port :: "nat option"
  cf_default_agent_model :: "string option"
  cf_data_retention_days :: "nat option"
  cf_request_retention_days :: "nat option"
  cf_xfactor_retention_days :: "nat option"
  cf_db_wal_mode :: "bool option"
  cf_db_busy_timeout_ms :: "nat option"
  cf_db_cache_size :: "i64 option"
  cf_db_synchronous :: "string option"
  cf_db_mmap_size :: "nat option"
  cf_db_retry_attempts :: "nat option"
  cf_db_retry_delay_ms :: "nat option"
  cf_db_retry_backoff :: "f64 option"
  cf_db_retry_max_delay_ms :: "nat option"
  cf_metrics_enabled :: "bool option"
  cf_allow_unauthenticated :: "bool option"
  cf_max_concurrent_requests :: "nat option"
  cf_max_requests_per_minute_per_key :: "nat option"

definition config_data_default :: config_data where
  "config_data_default =
     \<lparr>cf_lb_strategy = None, cf_client_id = None, cf_retry_attempts = None, cf_retry_delay_ms = None,
      cf_retry_backoff = None, cf_session_duration_ms = None, cf_port = None,
      cf_default_agent_model = None, cf_data_retention_days = None, cf_request_retention_days = None,
      cf_xfactor_retention_days = None, cf_db_wal_mode = None, cf_db_busy_timeout_ms = None,
      cf_db_cache_size = None, cf_db_synchronous = None, cf_db_mmap_size = None,
      cf_db_retry_attempts = None, cf_db_retry_delay_ms = None, cf_db_retry_backoff = None,
      cf_db_retry_max_delay_ms = None, cf_metrics_enabled = None, cf_allow_unauthenticated = None,
      cf_max_concurrent_requests = None, cf_max_requests_per_minute_per_key = None\<rparr>"

record database_config =
  dc_wal_mode :: bool
  dc_busy_timeout_ms :: nat
  dc_cache_size :: i64
  dc_synchronous :: string
  dc_mmap_size :: nat
  dc_retry_attempts :: nat
  dc_retry_delay_ms :: nat
  dc_retry_backoff :: f64
  dc_retry_max_delay_ms :: nat

definition database_config_default :: database_config where
  "database_config_default =
     \<lparr>dc_wal_mode = True, dc_busy_timeout_ms = 5000, dc_cache_size = - 20000,
      dc_synchronous = ''NORMAL'', dc_mmap_size = 268435456, dc_retry_attempts = 3,
      dc_retry_delay_ms = 100, dc_retry_backoff = lit 2, dc_retry_max_delay_ms = 5000\<rparr>"

record runtime_config =
  rt_client_id :: string
  rt_retry_attempts :: nat
  rt_retry_delay_ms :: nat
  rt_retry_backoff :: f64
  rt_session_duration_ms :: i64
  rt_port :: nat
  rt_database :: database_config

definition SESSION_DURATION_DEFAULT :: i64 where "SESSION_DURATION_DEFAULT = 5 * (60 * (60 * 1000))"
definition RETRY_DELAY_DEFAULT :: nat where "RETRY_DELAY_DEFAULT = 1000"
definition DEFAULT_PORT :: nat where "DEFAULT_PORT = 8080"

definition runtime_config_default :: runtime_config where
  "runtime_config_default =
     \<lparr>rt_client_id = ''9d1c250a-e61b-44d9-88ed-5944d1962f5e'', rt_retry_attempts = 3,
      rt_retry_delay_ms = RETRY_DELAY_DEFAULT, rt_retry_backoff = lit 2,
      rt_session_duration_ms = SESSION_DURATION_DEFAULT, rt_port = DEFAULT_PORT,
      rt_database = database_config_default\<rparr>"

section \<open>Parsing of numbers\<close>

text \<open>\<open>str::parse\<close> for unsigned integers up to a bound; the signed ones are \<open>parse_i64\<close>.\<close>

definition parse_unsigned :: "nat \<Rightarrow> string \<Rightarrow> nat option" where
  "parse_unsigned hi s =
     (let ds = (case s of c # cs \<Rightarrow> if c = CHR ''+'' then cs else s | [] \<Rightarrow> s)
      in if ds = [] then None
         else Option.bind (digits_value 0 ds) (\<lambda>n. if n \<le> hi then Some n else None))"

definition U16_MAX :: nat where "U16_MAX = 2 ^ 16 - 1"
definition U32_MAX :: nat where "U32_MAX = 2 ^ 32 - 1"
definition U64_MAX :: nat where "U64_MAX = 2 ^ 64 - 1"

section \<open>Settings\<close>

type_synonym env_vars = "string \<Rightarrow> string option"

definition get_strategy :: "env_vars \<Rightarrow> config_data \<Rightarrow> strategy_name" where
  "get_strategy var data =
     (case var ''LB_STRATEGY'' of
        Some v \<Rightarrow>
          if is_valid_strategy v then Session
          else (case cf_lb_strategy data of Some s \<Rightarrow> s | None \<Rightarrow> default_strategy)
      | None \<Rightarrow> (case cf_lb_strategy data of Some s \<Rightarrow> s | None \<Rightarrow> default_strategy))"

definition CONFIG_AGENT_MODEL :: string where "CONFIG_AGENT_MODEL = ''claude-sonnet-4-6''"

definition get_default_agent_model :: "env_vars \<Rightarrow> config_data \<Rightarrow> string" where
  "get_default_agent_model var data =
     (case var ''DEFAULT_AGENT_MODEL'' of
        Some v \<Rightarrow>
          if v \<noteq> [] then v
          else (case cf_default_agent_model data of Some m \<Rightarrow> m | None \<Rightarrow> CONFIG_AGENT_MODEL)
      | None \<Rightarrow> (case cf_default_agent_model data of Some m \<Rightarrow> m | None \<Rightarrow> CONFIG_AGENT_MODEL))"

definition clamp :: "nat \<Rightarrow> nat \<Rightarrow> nat \<Rightarrow> nat" where
  "clamp lo hi n = min (max n lo) hi"

definition retention_days :: "string \<Rightarrow> nat \<Rightarrow> nat \<Rightarrow> env_vars \<Rightarrow> nat option \<Rightarrow> nat" where
  "retention_days name deflt hi var field =
     (case Option.bind (var name) (parse_unsigned U32_MAX) of
        Some n \<Rightarrow> clamp 1 hi n
      | None \<Rightarrow> clamp 1 hi (case field of Some n \<Rightarrow> n | None \<Rightarrow> deflt))"

definition get_data_retention_days :: "env_vars \<Rightarrow> config_data \<Rightarrow> nat" where
  "get_data_retention_days var data =
     retention_days ''DATA_RETENTION_DAYS'' 7 365 var (cf_data_retention_days data)"

definition get_request_retention_days :: "env_vars \<Rightarrow> config_data \<Rightarrow> nat" where
  "get_request_retention_days var data =
     retention_days ''REQUEST_RETENTION_DAYS'' 365 3650 var (cf_request_retention_days data)"

definition get_xfactor_retention_days :: "env_vars \<Rightarrow> config_data \<Rightarrow> nat" where
  "get_xfactor_retention_days var data =
     retention_days ''XFACTOR_RETENTION_DAYS'' 30 365 var (cf_xfactor_retention_days data)"

definition flag :: "string option \<Rightarrow> bool option \<Rightarrow> bool" where
  "flag v field =
     (case v of
        Some s \<Rightarrow> s = ''1'' \<or> eq_ignore_ascii_case s ''true''
      | None \<Rightarrow> (case field of Some b \<Rightarrow> b | None \<Rightarrow> False))"

definition is_metrics_enabled :: "env_vars \<Rightarrow> config_data \<Rightarrow> bool" where
  "is_metrics_enabled var data = flag (var ''METRICS_ENABLED'') (cf_metrics_enabled data)"

definition is_allow_unauthenticated :: "env_vars \<Rightarrow> config_data \<Rightarrow> bool" where
  "is_allow_unauthenticated var data = flag (var ''ALLOW_UNAUTHENTICATED'') (cf_allow_unauthenticated data)"

definition positive_limit :: "nat option \<Rightarrow> nat option \<Rightarrow> nat option" where
  "positive_limit from_env field =
     (case from_env of
        Some n \<Rightarrow>
          if 0 < n then Some n
          else (case field of Some m \<Rightarrow> if 0 < m then Some m else None | None \<Rightarrow> None)
      | None \<Rightarrow> (case field of Some m \<Rightarrow> if 0 < m then Some m else None | None \<Rightarrow> None))"

definition get_max_concurrent_requests :: "env_vars \<Rightarrow> config_data \<Rightarrow> nat option" where
  "get_max_concurrent_requests var data =
     positive_limit (Option.bind (var ''MAX_CONCURRENT_REQUESTS'') (parse_unsigned U64_MAX))
       (cf_max_concurrent_requests data)"

definition get_max_requests_per_minute_per_key :: "env_vars \<Rightarrow> config_data \<Rightarrow> nat option" where
  "get_max_requests_per_minute_per_key var data =
     positive_limit (Option.bind (var ''MAX_REQUESTS_PER_MINUTE_PER_KEY'') (parse_unsigned U32_MAX))
       (cf_max_requests_per_minute_per_key data)"

section \<open>The runtime configuration\<close>

definition or_default :: "'a option \<Rightarrow> 'a \<Rightarrow> 'a" where
  "or_default x d = (case x of Some v \<Rightarrow> v | None \<Rightarrow> d)"

text \<open>The file over the defaults.\<close>

definition file_overrides :: "config_data \<Rightarrow> runtime_config \<Rightarrow> runtime_config" where
  "file_overrides data rt =
     \<lparr>rt_client_id = or_default (cf_client_id data) (rt_client_id rt),
      rt_retry_attempts = or_default (cf_retry_attempts data) (rt_retry_attempts rt),
      rt_retry_delay_ms = or_default (cf_retry_delay_ms data) (rt_retry_delay_ms rt),
      rt_retry_backoff = or_default (cf_retry_backoff data) (rt_retry_backoff rt),
      rt_session_duration_ms = or_default (cf_session_duration_ms data) (rt_session_duration_ms rt),
      rt_port = or_default (cf_port data) (rt_port rt),
      rt_database =
        \<lparr>dc_wal_mode = or_default (cf_db_wal_mode data) (dc_wal_mode (rt_database rt)),
         dc_busy_timeout_ms = or_default (cf_db_busy_timeout_ms data) (dc_busy_timeout_ms (rt_database rt)),
         dc_cache_size = or_default (cf_db_cache_size data) (dc_cache_size (rt_database rt)),
         dc_synchronous = or_default (cf_db_synchronous data) (dc_synchronous (rt_database rt)),
         dc_mmap_size = or_default (cf_db_mmap_size data) (dc_mmap_size (rt_database rt)),
         dc_retry_attempts = or_default (cf_db_retry_attempts data) (dc_retry_attempts (rt_database rt)),
         dc_retry_delay_ms = or_default (cf_db_retry_delay_ms data) (dc_retry_delay_ms (rt_database rt)),
         dc_retry_backoff = or_default (cf_db_retry_backoff data) (dc_retry_backoff (rt_database rt)),
         dc_retry_max_delay_ms =
           or_default (cf_db_retry_max_delay_ms data) (dc_retry_max_delay_ms (rt_database rt))\<rparr>\<rparr>"

text \<open>The environment over both; a variable that does not parse is passed over.\<close>

definition env_overrides :: "(string \<Rightarrow> f64 option) \<Rightarrow> env_vars \<Rightarrow> runtime_config \<Rightarrow> runtime_config" where
  "env_overrides parse_f64 var rt =
     rt\<lparr>rt_client_id := or_default (var ''CLIENT_ID'') (rt_client_id rt),
        rt_retry_attempts :=
          or_default (Option.bind (var ''RETRY_ATTEMPTS'') (parse_unsigned U32_MAX)) (rt_retry_attempts rt),
        rt_retry_delay_ms :=
          or_default (Option.bind (var ''RETRY_DELAY_MS'') (parse_unsigned U64_MAX)) (rt_retry_delay_ms rt),
        rt_retry_backoff := or_default (Option.bind (var ''RETRY_BACKOFF'') parse_f64) (rt_retry_backoff rt),
        rt_session_duration_ms :=
          or_default (Option.bind (var ''SESSION_DURATION_MS'') parse_i64) (rt_session_duration_ms rt),
        rt_port := or_default (Option.bind (var ''PORT'') (parse_unsigned U16_MAX)) (rt_port rt)\<rparr>"

definition get_runtime :: "(string \<Rightarrow> f64 option) \<Rightarrow> env_vars \<Rightarrow> config_data \<Rightarrow> runtime_config" where
  "get_runtime parse_f64 var data = env_overrides parse_f64 var (file_overrides data runtime_config_default)"

section \<open>Loading\<close>

datatype config_file = NoFile | Unreadable | FileText string

record config_io =
  ci_parse :: "string \<Rightarrow> config_data option"
  ci_print :: "config_data \<Rightarrow> string option"
  ci_writable :: bool

definition write_config :: "config_io \<Rightarrow> config_data \<Rightarrow> config_file \<Rightarrow> config_file" where
  "write_config io data file =
     (case ci_print io data of
        Some text \<Rightarrow> if ci_writable io then FileText text else file
      | None \<Rightarrow> file)"

definition load_config :: "config_io \<Rightarrow> config_file \<Rightarrow> config_data \<times> config_file" where
  "load_config io file =
     (case file of
        FileText s \<Rightarrow> ((case ci_parse io s of Some d \<Rightarrow> d | None \<Rightarrow> config_data_default), file)
      | Unreadable \<Rightarrow> (config_data_default, file)
      | NoFile \<Rightarrow>
          (let data = config_data_default\<lparr>cf_lb_strategy := Some Session\<rparr>
           in (data, write_config io data file)))"

definition set_strategy :: "config_io \<Rightarrow> strategy_name \<Rightarrow> config_data \<times> config_file \<Rightarrow> config_data \<times> config_file" where
  "set_strategy io s cfg =
     (let data = (fst cfg)\<lparr>cf_lb_strategy := Some s\<rparr> in (data, write_config io data (snd cfg)))"

definition set_default_agent_model ::
  "config_io \<Rightarrow> string \<Rightarrow> config_data \<times> config_file \<Rightarrow> config_data \<times> config_file" where
  "set_default_agent_model io model cfg =
     (let data = (fst cfg)\<lparr>cf_default_agent_model := Some model\<rparr> in (data, write_config io data (snd cfg)))"

section \<open>Reloading\<close>

definition f64_eq :: "f64 \<Rightarrow> f64 \<Rightarrow> bool" where
  "f64_eq a b \<longleftrightarrow> a \<le> b \<and> b \<le> a"

definition float_differs :: "f64 option \<Rightarrow> f64 option \<Rightarrow> bool" where
  "float_differs x y =
     (case (x, y) of (None, None) \<Rightarrow> False | (Some a, Some b) \<Rightarrow> \<not> f64_eq a b | _ \<Rightarrow> True)"

definition diff_config_fields :: "config_data \<Rightarrow> config_data \<Rightarrow> string list" where
  "diff_config_fields old new =
     concat (map (\<lambda>(differs, name). if differs then [name] else [])
       [(cf_lb_strategy old \<noteq> cf_lb_strategy new, ''lb_strategy''),
        (cf_client_id old \<noteq> cf_client_id new, ''client_id''),
        (cf_retry_attempts old \<noteq> cf_retry_attempts new, ''retry_attempts''),
        (cf_retry_delay_ms old \<noteq> cf_retry_delay_ms new, ''retry_delay_ms''),
        (float_differs (cf_retry_backoff old) (cf_retry_backoff new), ''retry_backoff''),
        (cf_session_duration_ms old \<noteq> cf_session_duration_ms new, ''session_duration_ms''),
        (cf_port old \<noteq> cf_port new, ''port''),
        (cf_default_agent_model old \<noteq> cf_default_agent_model new, ''default_agent_model''),
        (cf_data_retention_days old \<noteq> cf_data_retention_days new, ''data_retention_days''),
        (cf_request_retention_days old \<noteq> cf_request_retention_days new, ''request_retention_days''),
        (cf_db_wal_mode old \<noteq> cf_db_wal_mode new, ''db_wal_mode''),
        (cf_db_busy_timeout_ms old \<noteq> cf_db_busy_timeout_ms new, ''db_busy_timeout_ms''),
        (cf_db_cache_size old \<noteq> cf_db_cache_size new, ''db_cache_size''),
        (cf_db_synchronous old \<noteq> cf_db_synchronous new, ''db_synchronous''),
        (cf_db_mmap_size old \<noteq> cf_db_mmap_size new, ''db_mmap_size''),
        (cf_db_retry_attempts old \<noteq> cf_db_retry_attempts new, ''db_retry_attempts''),
        (cf_db_retry_delay_ms old \<noteq> cf_db_retry_delay_ms new, ''db_retry_delay_ms''),
        (float_differs (cf_db_retry_backoff old) (cf_db_retry_backoff new), ''db_retry_backoff''),
        (cf_db_retry_max_delay_ms old \<noteq> cf_db_retry_max_delay_ms new, ''db_retry_max_delay_ms''),
        (cf_metrics_enabled old \<noteq> cf_metrics_enabled new, ''metrics_enabled''),
        (cf_allow_unauthenticated old \<noteq> cf_allow_unauthenticated new, ''allow_unauthenticated''),
        (cf_xfactor_retention_days old \<noteq> cf_xfactor_retention_days new, ''xfactor_retention_days''),
        (cf_max_concurrent_requests old \<noteq> cf_max_concurrent_requests new, ''max_concurrent_requests''),
        (cf_max_requests_per_minute_per_key old \<noteq> cf_max_requests_per_minute_per_key new,
           ''max_requests_per_minute_per_key'')])"

text \<open>A reload never fails, as loading does not; the events are what subscribers are sent.\<close>

definition try_reload_config ::
  "config_io \<Rightarrow> config_file \<Rightarrow> config_data \<Rightarrow> string list \<times> config_data \<times> config_file \<times> string list list" where
  "try_reload_config io file old =
     (case load_config io file of
        (new, file') \<Rightarrow>
          (let changed = diff_config_fields old new
           in if changed = [] then (changed, old, file', [])
              else (changed, new, file', [changed])))"

section \<open>Correctness\<close>

lemma clamp_bounds: "lo \<le> hi \<Longrightarrow> lo \<le> clamp lo hi n \<and> clamp lo hi n \<le> hi"
  by (simp add: clamp_def)

lemma retention_bounds:
  "1 \<le> hi \<Longrightarrow> 1 \<le> retention_days name d hi var field \<and> retention_days name d hi var field \<le> hi"
  by (simp add: retention_days_def clamp_bounds split: option.split)

text \<open>
  Whatever the environment and the file say, payloads and observations are kept between a day and a
  year, and requests between a day and ten years.
\<close>

theorem retention_in_bounds:
  "get_data_retention_days var data \<in> {1..365} \<and> get_request_retention_days var data \<in> {1..3650} \<and>
   get_xfactor_retention_days var data \<in> {1..365}"
  using retention_bounds [of 365] retention_bounds [of 3650]
  by (simp add: get_data_retention_days_def get_request_retention_days_def get_xfactor_retention_days_def)

definition no_nan :: "config_data \<Rightarrow> bool" where
  "no_nan data \<longleftrightarrow> cf_retry_backoff data \<noteq> Some NaN \<and> cf_db_retry_backoff data \<noteq> Some NaN"

lemma f64_eq_iff: "a \<noteq> NaN \<Longrightarrow> f64_eq a b \<longleftrightarrow> a = b"
  by (cases a; cases b) (auto simp: f64_eq_def)

lemma float_differs_iff: "x \<noteq> Some NaN \<Longrightarrow> float_differs x y \<longleftrightarrow> x \<noteq> y"
  by (auto simp: float_differs_def f64_eq_iff split: option.split)

lemma no_difference:
  "concat (map (\<lambda>(differs, n). if differs then [n] else []) xs) = [] \<longleftrightarrow> list_all (\<lambda>(differs, n). \<not> differs) xs"
  by (induction xs) auto

lemma diff_empty_iff: "no_nan old \<Longrightarrow> diff_config_fields old new = [] \<longleftrightarrow> new = old"
proof
  assume "no_nan old" "diff_config_fields old new = []"
  then show "new = old"
    unfolding diff_config_fields_def no_difference no_nan_def
    by (intro config_data.equality) (simp_all add: float_differs_iff)
next
  assume "no_nan old" "new = old"
  then show "diff_config_fields old new = []"
    unfolding diff_config_fields_def no_difference no_nan_def by (simp add: float_differs_iff)
qed

lemma reload_result:
  assumes "no_nan old" "try_reload_config io file old = (changed, now_used, file', events)"
  shows "now_used = fst (load_config io file) \<and> (events = [] \<longleftrightarrow> now_used = old) \<and>
    (changed = [] \<longleftrightarrow> now_used = old)"
  using assms diff_empty_iff [of old]
  by (auto simp: try_reload_config_def Let_def split: prod.splits if_splits)

text \<open>
  The comparison misses no field: after a reload the configuration in force is the one that was
  loaded, and an event is sent exactly when it differs from the one before.
\<close>

theorem reload_in_force:
  assumes "no_nan old" "try_reload_config io file old = (changed, now_used, file', events)"
  shows "now_used = fst (load_config io file) \<and> (events = [] \<longleftrightarrow> now_used = old) \<and>
    (changed = [] \<longleftrightarrow> now_used = old)"
  using assms by (rule reload_result)

theorem reload_in_force_witness:
  "fst (load_config \<lparr>ci_parse = (\<lambda>_. None), ci_print = (\<lambda>_. None), ci_writable = True\<rparr> Unreadable) =
     config_data_default \<and>
   fst (snd (try_reload_config \<lparr>ci_parse = (\<lambda>_. None), ci_print = (\<lambda>_. None), ci_writable = True\<rparr>
     Unreadable (config_data_default\<lparr>cf_port := Some 9\<rparr>))) = config_data_default"
  using reload_in_force [of "config_data_default\<lparr>cf_port := Some 9\<rparr>"
      "\<lparr>ci_parse = (\<lambda>_. None), ci_print = (\<lambda>_. None), ci_writable = True\<rparr>" Unreadable]
  by (cases "try_reload_config \<lparr>ci_parse = (\<lambda>_. None), ci_print = (\<lambda>_. None), ci_writable = True\<rparr>
     Unreadable (config_data_default\<lparr>cf_port := Some 9\<rparr>)")
    (simp add: load_config_def no_nan_def config_data_default_def)

text \<open>
  A file that does not parse is not an error: it replaces the configuration by the defaults, so that
  limits which were set are gone.
\<close>

theorem invalid_file_resets:
  assumes "ci_parse io text = None" "no_nan old" "var ''MAX_REQUESTS_PER_MINUTE_PER_KEY'' = None"
    "var ''MAX_CONCURRENT_REQUESTS'' = None"
    "try_reload_config io (FileText text) old = (changed, now_used, file', events)"
  shows "now_used = config_data_default \<and> get_max_requests_per_minute_per_key var now_used = None \<and>
    get_max_concurrent_requests var now_used = None"
proof -
  have "now_used = config_data_default"
    using reload_result [OF assms(2,5)] assms(1) by (simp add: load_config_def)
  with assms(3,4) show ?thesis
    by (simp add: get_max_requests_per_minute_per_key_def get_max_concurrent_requests_def positive_limit_def
        config_data_default_def)
qed

theorem invalid_file_resets_witness:
  "get_max_requests_per_minute_per_key (\<lambda>_. None) (fst (snd (try_reload_config
     \<lparr>ci_parse = (\<lambda>_. None), ci_print = (\<lambda>_. None), ci_writable = True\<rparr> (FileText ''{'')
     (config_data_default\<lparr>cf_max_requests_per_minute_per_key := Some 60\<rparr>)))) = None"
  using invalid_file_resets [of "\<lparr>ci_parse = (\<lambda>_. None), ci_print = (\<lambda>_. None), ci_writable = True\<rparr>" "''{''"
      "config_data_default\<lparr>cf_max_requests_per_minute_per_key := Some 60\<rparr>" "\<lambda>_. None"]
  by (cases "try_reload_config \<lparr>ci_parse = (\<lambda>_. None), ci_print = (\<lambda>_. None), ci_writable = True\<rparr>
     (FileText ''{'') (config_data_default\<lparr>cf_max_requests_per_minute_per_key := Some 60\<rparr>)")
    (simp add: no_nan_def config_data_default_def)

end
