(* ===== verification/Validation.thy ===== *)
theory Validation
  imports Text_Json
begin

text \<open>
  Errors of the application, \<open>core/src/errors.rs\<close>, and the validation of input,
  \<open>core/src/validation.rs\<close>: strings, numbers, endpoint URLs with the check against requests to
  private addresses. The parsers of IPv4 and IPv6 literals are those of the standard library,
  written as readers that return what is left.
\<close>

section \<open>Errors\<close>

datatype app_error =
  AuthError string string nat "(string \<times> json) list option"
| TokenRefreshError string "string option"
| RateLimitError string i64 "i64 option"
| ValidationError string "string option" "string option"
| ProviderError string string nat "(string \<times> json) list option"
| OAuthError string string "string option"
| ServiceUnavailableError string "string option"
| HttpError nat string "string option"
| InternalError string
| OtherAppError string

definition validation_field :: "string \<Rightarrow> string \<Rightarrow> app_error" where
  "validation_field message field = ValidationError message (Some field) None"

fun status_code :: "app_error \<Rightarrow> nat" where
  "status_code (AuthError m c s ctx) = s"
| "status_code (TokenRefreshError a e) = 401"
| "status_code (RateLimitError a r n) = 429"
| "status_code (ValidationError m f v) = 400"
| "status_code (ProviderError m p s ctx) = s"
| "status_code (OAuthError m p c) = 400"
| "status_code (ServiceUnavailableError m s) = 503"
| "status_code (HttpError s m d) = s"
| "status_code (InternalError m) = 500"
| "status_code (OtherAppError m) = 500"

fun error_code :: "app_error \<Rightarrow> string" where
  "error_code (AuthError m c s ctx) = c"
| "error_code (TokenRefreshError a e) = ''AUTH_ERROR''"
| "error_code (RateLimitError a r n) = ''RATE_LIMIT_ERROR''"
| "error_code (ValidationError m f v) = ''VALIDATION_ERROR''"
| "error_code (ProviderError m p s ctx) = ''PROVIDER_ERROR''"
| "error_code (OAuthError m p c) = ''PROVIDER_ERROR''"
| "error_code (ServiceUnavailableError m s) = ''SERVICE_UNAVAILABLE''"
| "error_code (HttpError s m d) = ''HTTP_ERROR''"
| "error_code (InternalError m) = ''INTERNAL_ERROR''"
| "error_code (OtherAppError m) = ''INTERNAL_ERROR''"

fun error_message :: "app_error \<Rightarrow> string" where
  "error_message (AuthError m c s ctx) = m"
| "error_message (TokenRefreshError a e) = ''Failed to refresh access token''"
| "error_message (RateLimitError a r n) = ''Rate limit exceeded''"
| "error_message (ValidationError m f v) = m"
| "error_message (ProviderError m p s ctx) = m"
| "error_message (OAuthError m p c) = m"
| "error_message (ServiceUnavailableError m s) = m"
| "error_message (HttpError s m d) = m"
| "error_message (InternalError m) = m"
| "error_message (OtherAppError m) = m"

datatype error_type = NetworkType | AuthType | RateLimitType | ValidationType | ServerType | UnknownType

fun error_type_name :: "error_type \<Rightarrow> string" where
  "error_type_name NetworkType = ''network''"
| "error_type_name AuthType = ''auth''"
| "error_type_name RateLimitType = ''rate-limit''"
| "error_type_name ValidationType = ''validation''"
| "error_type_name ServerType = ''server''"
| "error_type_name UnknownType = ''unknown''"

fun from_app_error :: "app_error \<Rightarrow> error_type" where
  "from_app_error (AuthError m c s ctx) = AuthType"
| "from_app_error (TokenRefreshError a e) = AuthType"
| "from_app_error (RateLimitError a r n) = RateLimitType"
| "from_app_error (ValidationError m f v) = ValidationType"
| "from_app_error (ServiceUnavailableError m s) = ServerType"
| "from_app_error (HttpError s m d) =
     (if s = 401 then AuthType
      else if s = 429 then RateLimitType
      else if 400 \<le> s \<and> s < 500 then ValidationType
      else if 500 \<le> s then ServerType
      else UnknownType)"
| "from_app_error (ProviderError m p s ctx) = ServerType"
| "from_app_error (OAuthError m p c) = ServerType"
| "from_app_error (InternalError m) = ServerType"
| "from_app_error (OtherAppError m) = ServerType"

text \<open>The fields of an error are hidden when their name, in lower case, contains one of these words.\<close>

definition SENSITIVE_KEYS :: "string list" where
  "SENSITIVE_KEYS = [''token'', ''password'', ''secret'', ''key'', ''authorization'']"

definition sensitive :: "(string \<Rightarrow> string) \<Rightarrow> string \<Rightarrow> bool" where
  "sensitive lower k \<longleftrightarrow> list_ex (contains_str (lower k)) SENSITIVE_KEYS"

fun sanitize_context :: "(string \<Rightarrow> string) \<Rightarrow> (string \<times> json) list \<Rightarrow> (string \<times> json) list" where
  "sanitize_context lower [] = []"
| "sanitize_context lower ((k, v) # kvs) =
     (k, if sensitive lower k then JString ''[REDACTED]''
         else (case v of JObject obj \<Rightarrow> JObject (sanitize_context lower obj) | _ \<Rightarrow> v)) #
     sanitize_context lower kvs"

section \<open>Strings and numbers\<close>

record string_opts =
  so_required :: bool
  so_min_length :: "nat option"
  so_max_length :: "nat option"
  so_allowed_values :: "string list option"
  so_trim :: bool

fun join_comma :: "string list \<Rightarrow> string" where
  "join_comma [] = []"
| "join_comma [s] = s"
| "join_comma (s # ss) = s @ '', '' @ join_comma ss"

definition check_allowed :: "string \<Rightarrow> string_opts \<Rightarrow> string \<Rightarrow> app_error + string option" where
  "check_allowed field opts sanitized =
     (case so_allowed_values opts of
        Some allowed \<Rightarrow>
          if sanitized \<in> set allowed then Inr (Some sanitized)
          else Inl (validation_field (field @ '' must be one of: '' @ join_comma allowed) field)
      | None \<Rightarrow> Inr (Some sanitized))"

definition check_max :: "string \<Rightarrow> string_opts \<Rightarrow> string \<Rightarrow> app_error + string option" where
  "check_max field opts sanitized =
     (case so_max_length opts of
        Some hi \<Rightarrow>
          if hi < length sanitized then
            Inl (validation_field (field @ '' must be at most '' @ show_nat hi @ '' characters long'') field)
          else check_allowed field opts sanitized
      | None \<Rightarrow> check_allowed field opts sanitized)"

definition validate_string ::
  "string option \<Rightarrow> string \<Rightarrow> string_opts \<Rightarrow> app_error + string option" where
  "validate_string value field opts =
     (case value of
        None \<Rightarrow>
          if so_required opts then Inl (validation_field (field @ '' is required'') field) else Inr None
      | Some val \<Rightarrow>
          (let sanitized = (if so_trim opts then trim val else val)
           in case so_min_length opts of
                Some lo \<Rightarrow>
                  if length sanitized < lo then
                    Inl (validation_field (field @ '' must be at least '' @ show_nat lo @ '' characters long'') field)
                  else check_max field opts sanitized
              | None \<Rightarrow> check_max field opts sanitized))"


record number_opts =
  no_required :: bool
  no_min :: "f64 option"
  no_max :: "f64 option"
  no_integer :: bool

fun fract_nonzero :: "f64 \<Rightarrow> bool" where
  "fract_nonzero (Fin x) \<longleftrightarrow> x \<notin> \<int>"
| "fract_nonzero _ \<longleftrightarrow> True"

text \<open>How a float is printed in the message is a parameter.\<close>

definition check_upper ::
  "(f64 \<Rightarrow> string) \<Rightarrow> string \<Rightarrow> number_opts \<Rightarrow> f64 \<Rightarrow> app_error + f64 option" where
  "check_upper show_f field opts num =
     (case no_max opts of
        Some hi \<Rightarrow>
          if hi < num then Inl (validation_field (field @ '' must be at most '' @ show_f hi) field)
          else Inr (Some num)
      | None \<Rightarrow> Inr (Some num))"

definition validate_number ::
  "(f64 \<Rightarrow> string) \<Rightarrow> f64 option \<Rightarrow> string \<Rightarrow> number_opts \<Rightarrow> app_error + f64 option" where
  "validate_number show_f value field opts =
     (case value of
        None \<Rightarrow>
          if no_required opts then Inl (validation_field (field @ '' is required'') field) else Inr None
      | Some num \<Rightarrow>
          if no_integer opts \<and> fract_nonzero num then
            Inl (validation_field (field @ '' must be an integer'') field)
          else (case no_min opts of
                  Some lo \<Rightarrow>
                    if num < lo then Inl (validation_field (field @ '' must be at least '' @ show_f lo) field)
                    else check_upper show_f field opts num
                | None \<Rightarrow> check_upper show_f field opts num))"

definition validate_api_key :: "string \<Rightarrow> string \<Rightarrow> app_error + string" where
  "validate_api_key key field =
     (if length (trim key) < 10
      then Inl (validation_field (field @ '' must be at least 10 characters'') field)
      else Inr (trim key))"

definition validate_priority :: "i64 \<Rightarrow> app_error + i64" where
  "validate_priority p =
     (if 0 \<le> p \<and> p \<le> 100 then Inr p
      else Inl (validation_field ''priority must be between 0 and 100'' ''priority''))"

definition is_url :: "string \<Rightarrow> bool" where
  "is_url s \<longleftrightarrow> starts_with s ''http://'' \<or> starts_with s ''https://''"

section \<open>Addresses\<close>

definition char_digit :: "nat \<Rightarrow> char \<Rightarrow> nat option" where
  "char_digit radix c =
     (let b = byte c;
          d = if 48 \<le> b \<and> b \<le> 57 then b - 48
              else if 97 \<le> b \<and> b \<le> 122 then b - 87
              else if 65 \<le> b \<and> b \<le> 90 then b - 55
              else radix
      in if d < radix then Some d else None)"

definition read_number :: "nat \<Rightarrow> nat \<Rightarrow> bool \<Rightarrow> nat \<Rightarrow> string \<Rightarrow> (nat \<times> string) option" where
  "read_number radix max_digits allow_zero_prefix limit s =
     (let ds = takeWhile (\<lambda>c. char_digit radix c \<noteq> None) s;
          v = fold (\<lambda>c v. v * radix + the (char_digit radix c)) ds 0
      in if ds = [] \<or> max_digits < length ds \<or> limit \<le> v \<or>
            (\<not> allow_zero_prefix \<and> hd ds = CHR ''0'' \<and> 1 < length ds)
         then None else Some (v, drop (length ds) s))"

definition read_given_char :: "char \<Rightarrow> string \<Rightarrow> string option" where
  "read_given_char c s = (case s of d # s' \<Rightarrow> if d = c then Some s' else None | [] \<Rightarrow> None)"

definition read_separator ::
  "char \<Rightarrow> nat \<Rightarrow> (string \<Rightarrow> ('a \<times> string) option) \<Rightarrow> string \<Rightarrow> ('a \<times> string) option" where
  "read_separator sep index inner s =
     (if index = 0 then inner s
      else case read_given_char sep s of None \<Rightarrow> None | Some s' \<Rightarrow> inner s')"

fun read_octets :: "nat \<Rightarrow> nat \<Rightarrow> string \<Rightarrow> (nat list \<times> string) option" where
  "read_octets i 0 s = Some ([], s)"
| "read_octets i (Suc n) s =
     (case read_separator CHR ''.'' i (read_number 10 3 False 256) s of
        None \<Rightarrow> None
      | Some (v, s) \<Rightarrow>
          (case read_octets (Suc i) n s of None \<Rightarrow> None | Some (vs, s) \<Rightarrow> Some (v # vs, s)))"

definition read_ipv4 :: "string \<Rightarrow> (nat list \<times> string) option" where
  "read_ipv4 s = read_octets 0 4 s"

definition parse_ipv4 :: "string \<Rightarrow> nat list option" where
  "parse_ipv4 s =
     (if 15 < length s then None
      else case read_ipv4 s of Some (vs, rest) \<Rightarrow> if rest = [] then Some vs else None | None \<Rightarrow> None)"

text \<open>Up to so many groups of sixteen bits; an IPv4 address may stand for the last two.\<close>

fun read_groups :: "nat \<Rightarrow> nat \<Rightarrow> string \<Rightarrow> nat list \<times> bool \<times> string" where
  "read_groups i 0 s = ([], False, s)"
| "read_groups i (Suc left) s =
     (case (if left = 0 then None else read_separator CHR '':'' i read_ipv4 s) of
        Some (v, s) \<Rightarrow> ([v ! 0 * 256 + v ! 1, v ! 2 * 256 + v ! 3], True, s)
      | None \<Rightarrow>
          (case read_separator CHR '':'' i (read_number 16 4 True 65536) s of
             None \<Rightarrow> ([], False, s)
           | Some (g, s) \<Rightarrow>
               (case read_groups (Suc i) left s of (gs, v4, s) \<Rightarrow> (g # gs, v4, s))))"

definition read_ipv6 :: "string \<Rightarrow> (nat list \<times> string) option" where
  "read_ipv6 s =
     (case read_groups 0 8 s of (head, v4, s) \<Rightarrow>
        if length head = 8 then Some (head, s)
        else if v4 then None
        else if \<not> starts_with s ''::'' then None
        else (case read_groups 0 (8 - (length head + 1)) (drop 2 s) of (tail, _, s) \<Rightarrow>
                Some (head @ replicate (8 - length head - length tail) 0 @ tail, s)))"

definition parse_ipv6 :: "string \<Rightarrow> nat list option" where
  "parse_ipv6 s =
     (case read_ipv6 s of Some (gs, rest) \<Rightarrow> if rest = [] then Some gs else None | None \<Rightarrow> None)"

definition is_loopback6 :: "nat list \<Rightarrow> bool" where
  "is_loopback6 gs \<longleftrightarrow> gs = [0, 0, 0, 0, 0, 0, 0, 1]"

definition is_unspecified6 :: "nat list \<Rightarrow> bool" where
  "is_unspecified6 gs \<longleftrightarrow> gs = [0, 0, 0, 0, 0, 0, 0, 0]"

definition is_private_ipv4 :: "nat list \<Rightarrow> bool" where
  "is_private_ipv4 octets \<longleftrightarrow>
     octets ! 0 = 127 \<or> octets = [0, 0, 0, 0] \<or> octets ! 0 = 10 \<or>
     octets ! 0 = 172 \<and> 16 \<le> octets ! 1 \<and> octets ! 1 \<le> 31 \<or>
     octets ! 0 = 192 \<and> octets ! 1 = 168 \<or> octets ! 0 = 169 \<and> octets ! 1 = 254"

definition is_ssrf_target :: "string \<Rightarrow> bool" where
  "is_ssrf_target host =
     (let lower = to_ascii_lowercase host
      in if lower = ''localhost'' \<or> ends_with lower ''.localhost'' then True
         else case parse_ipv4 lower of
                Some addr \<Rightarrow> is_private_ipv4 addr
              | None \<Rightarrow>
                  (case parse_ipv6 lower of
                     Some addr \<Rightarrow> is_loopback6 addr \<or> is_unspecified6 addr
                   | None \<Rightarrow> False))"

section \<open>Endpoints\<close>

definition trim_endpoint :: "string \<Rightarrow> string" where
  "trim_endpoint url = trim_end_matches CHR ''/'' (trim url)"

definition validate_endpoint_url :: "string \<Rightarrow> string \<Rightarrow> app_error + string" where
  "validate_endpoint_url url field =
     (let trimmed = trim_endpoint url
      in if trimmed = [] then Inl (validation_field (field @ '' is required'') field)
         else if \<not> starts_with trimmed ''http://'' \<and> \<not> starts_with trimmed ''https://'' then
           Inl (validation_field (field @ '' protocol must be http or https'') field)
         else (let after_protocol =
                 (case strip_prefix trimmed ''https://'' of
                    Some r \<Rightarrow> r
                  | None \<Rightarrow> (case strip_prefix trimmed ''http://'' of Some r \<Rightarrow> r | None \<Rightarrow> []))
               in if after_protocol = [] \<or> starts_with after_protocol ''/'' then
                    Inl (validation_field (field @ '' must have a valid hostname'') field)
                  else Inr trimmed))"

text \<open>The part of a custom endpoint that is looked at: without scheme, path, user and port.\<close>

definition authority :: "string \<Rightarrow> string" where
  "authority after_scheme = takeWhile (\<lambda>c. c \<notin> {CHR ''/'', CHR ''?'', CHR ''#''}) after_scheme"

definition drop_user :: "string \<Rightarrow> string" where
  "drop_user auth = last (split_on CHR ''@'' auth)"

definition drop_port :: "string \<Rightarrow> string" where
  "drop_port host_port =
     (if starts_with host_port ''['' then
        (case strip_prefix (takeWhile (\<lambda>c. c \<noteq> CHR '']'') host_port) ''['' of
           Some h \<Rightarrow> h | None \<Rightarrow> host_port)
      else if CHR '':'' \<in> set host_port
           then rev (tl (dropWhile (\<lambda>c. c \<noteq> CHR '':'') (rev host_port)))
           else host_port)"

definition endpoint_host :: "string \<Rightarrow> string" where
  "endpoint_host trimmed = drop_port (drop_user (authority (drop 8 trimmed)))"

definition validate_custom_endpoint :: "string \<Rightarrow> app_error + string" where
  "validate_custom_endpoint url =
     (let trimmed = trim_endpoint url
      in if trimmed = [] then Inl (validation_field ''custom_endpoint is required'' ''custom_endpoint'')
         else if \<not> starts_with trimmed ''https://'' then
           Inl (validation_field ''custom_endpoint must use HTTPS'' ''custom_endpoint'')
         else (let host = endpoint_host trimmed
               in if host = [] then
                    Inl (validation_field ''custom_endpoint must have a valid hostname'' ''custom_endpoint'')
                  else if is_ssrf_target host then
                    Inl (validation_field
                      ''custom_endpoint must not target private or loopback addresses'' ''custom_endpoint'')
                  else Inr trimmed))"

section \<open>Addresses that are refused\<close>

definition dotted :: "nat \<Rightarrow> nat \<Rightarrow> nat \<Rightarrow> nat \<Rightarrow> string" where
  "dotted a b c d = show_nat a @ ''.'' @ show_nat b @ ''.'' @ show_nat c @ ''.'' @ show_nat d"

definition address :: "nat \<Rightarrow> nat \<Rightarrow> nat \<Rightarrow> nat \<Rightarrow> nat" where
  "address a b c d = ((a * 256 + b) * 256 + c) * 256 + d"

text \<open>A block of addresses is given by its first address and the length of the common prefix.\<close>

definition in_block :: "nat \<Rightarrow> nat \<times> nat \<Rightarrow> bool" where
  "in_block ip block = (ip div 2 ^ (32 - snd block) = fst block div 2 ^ (32 - snd block))"

definition private_blocks :: "(nat \<times> nat) list" where
  "private_blocks =
     [(address 10 0 0 0, 8), (address 172 16 0 0, 12), (address 192 168 0 0, 16),
      (address 127 0 0 0, 8), (address 169 254 0 0, 16), (address 0 0 0 0, 32)]"

lemma address_div:
  assumes "b < 256" "c < 256" "d < 256"
  shows "address a b c d div 16777216 = a" "address a b c d div 65536 = a * 256 + b"
    "address a b c d div 1048576 = a * 16 + b div 16"
  using assms by (simp_all add: address_def)

lemma radix_eq:
  assumes "(e :: nat) < n" "r < n"
  shows "a * n + e = q * n + r \<longleftrightarrow> a = q \<and> e = r"
proof
  assume "a * n + e = q * n + r"
  then have "(a * n + e) div n = (q * n + r) div n" "(a * n + e) mod n = (q * n + r) mod n"
    by simp_all
  with assms show "a = q \<and> e = r" by simp
qed simp

lemma private_blocks_iff:
  assumes "a < 256" "b < 256" "c < 256" "d < 256"
  shows "list_ex (in_block (address a b c d)) private_blocks \<longleftrightarrow> is_private_ipv4 [a, b, c, d]"
proof -
  note div = address_div [OF assms(2-4)]
  have eights: "in_block (address a b c d) (address q 0 0 0, 8) \<longleftrightarrow> a = q" for q
    by (simp add: in_block_def div address_div)
  have sixteens: "in_block (address a b c d) (address q r 0 0, 16) \<longleftrightarrow> a = q \<and> b = r" if "r < 256" for q r
    using that assms(2) radix_eq [of b 256 r a q] by (simp add: in_block_def div address_div)
  have "in_block (address a b c d) (address 172 16 0 0, 12) \<longleftrightarrow> a = 172 \<and> b div 16 = 1"
    using assms(2) radix_eq [of "b div 16" 16 1 a 172] by (simp add: in_block_def div address_div)
  moreover have "b div 16 = 1 \<longleftrightarrow> 16 \<le> b \<and> b \<le> 31"
    by auto
  moreover have "in_block (address a b c d) (address 0 0 0 0, 32) \<longleftrightarrow> a = 0 \<and> b = 0 \<and> c = 0 \<and> d = 0"
    by (auto simp: in_block_def address_def)
  ultimately show ?thesis
    by (auto simp: private_blocks_def is_private_ipv4_def eights sixteens)
qed

lemma char_digit_10: "d < 10 \<Longrightarrow> char_digit 10 (digit_char d) = Some d"
  by (simp add: char_digit_def digit_char_def byte_def Let_def of_char_of)

lemma char_digit_dot: "char_digit 10 CHR ''.'' = None"
  by (simp add: char_digit_def byte_def)

lemma digit_zero: "d < 10 \<Longrightarrow> digit_char d = CHR ''0'' \<longleftrightarrow> d = 0"
proof
  assume "d < 10" "digit_char d = CHR ''0''"
  then show "d = 0"
    using char_digit_10 [of d] by (simp add: char_digit_def byte_def)
next
  show "d = 0 \<Longrightarrow> digit_char d = CHR ''0''"
    by (simp only: digit_char_def) code_simp
qed

lemma show_octet:
  assumes "a < 256"
  shows "show_nat a = (if a < 10 then [digit_char a]
    else if a < 100 then [digit_char (a div 10), digit_char (a mod 10)]
    else [digit_char (a div 100), digit_char (a div 10 mod 10), digit_char (a mod 10)])"
proof -
  have one: "show_nat n = [digit_char n]" if "n < 10" for n
    using that by (simp add: show_nat.simps)
  have more_digits: "show_nat n = show_nat (n div 10) @ [digit_char (n mod 10)]" if "10 \<le> n" for n
    using that by (subst show_nat.simps) simp
  consider "a < 10" | "10 \<le> a" "a < 100" | "100 \<le> a" by linarith
  then show ?thesis
  proof cases
    case 2
    then have "a div 10 < 10" by simp
    with 2 show ?thesis by (simp add: one more_digits)
  next
    case 3
    then have "10 \<le> a div 10" "a div 10 div 10 < 10" "a div 10 div 10 = a div 100"
      using assms by (simp_all add: div_mult2_eq [symmetric])
    with 3 show ?thesis by (simp add: one more_digits)
  qed (simp add: one)
qed

lemma read_octet:
  assumes "a < 256" "rest = [] \<or> hd rest = CHR ''.''"
  shows "read_number 10 3 False 256 (show_nat a @ rest) = Some (a, rest)"
proof -
  have stop: "takeWhile (\<lambda>c. \<exists>y. char_digit 10 c = Some y) rest = []"
    using assms(2) by (cases rest) (auto simp: char_digit_dot)
  consider "a < 10" | "10 \<le> a" "a < 100" | "100 \<le> a" by linarith
  then show ?thesis
  proof cases
    case 1
    then show ?thesis
      using assms(1) stop by (simp add: show_octet read_number_def Let_def char_digit_10)
  next
    case 2
    then have "0 < a div 10" "a div 10 < 10" by simp_all
    with 2 show ?thesis
      using assms(1) stop by (simp add: show_octet read_number_def Let_def char_digit_10 digit_zero)
  next
    case 3
    then have "0 < a div 100" "a div 100 < 10" "(a div 100 * 10 + a div 10 mod 10) * 10 + a mod 10 = a"
      using assms(1) div_mult_mod_eq [of a 10] div_mult_mod_eq [of "a div 10" 10]
      by (simp_all add: div_mult2_eq [of a 10 10, simplified])
    with 3 show ?thesis
      using assms(1) stop by (simp add: show_octet read_number_def Let_def char_digit_10 digit_zero)
  qed
qed

lemma parse_dotted:
  assumes "a < 256" "b < 256" "c < 256" "d < 256"
  shows "parse_ipv4 (dotted a b c d) = Some [a, b, c, d]"
proof -
  have "length (show_nat n) \<le> 3" if "n < 256" for n
    using that by (simp add: show_octet)
  then have "length (dotted a b c d) \<le> 15"
    using assms by (simp add: dotted_def add_le_mono [of _ 3 _ 9, simplified]
        add_le_mono [of _ 3 _ 6, simplified] add_le_mono [of _ 3 _ 3, simplified])
  moreover have "read_octets 0 (Suc (Suc (Suc (Suc 0)))) (dotted a b c d) = Some ([a, b, c, d], [])"
    using assms by (simp add: dotted_def read_separator_def read_given_char_def
        read_octet [of d "[]", simplified] read_octet)
  moreover have four: "4 = Suc (Suc (Suc (Suc 0)))"
    by simp
  ultimately show ?thesis
    unfolding parse_ipv4_def read_ipv4_def four by simp
qed

lemma lower_dotted:
  assumes "a < 256" "b < 256" "c < 256" "d < 256"
  shows "to_ascii_lowercase (dotted a b c d) = dotted a b c d"
proof -
  have "to_ascii_lower_char (digit_char n) = digit_char n" if "n < 10" for n
    using that by (simp add: to_ascii_lower_char_def is_ascii_upper_def digit_char_def of_char_of)
  moreover have "to_ascii_lower_char CHR ''.'' = CHR ''.''"
    by (simp add: to_ascii_lower_char_def is_ascii_upper_def)
  ultimately show ?thesis
    using assms by (simp add: to_ascii_lowercase_def dotted_def show_octet)
qed

lemma dotted_not_local:
  assumes "d < 256"
  shows "dotted a b c d \<noteq> ''localhost''" "\<not> ends_with (dotted a b c d) ''.localhost''"
proof -
  have "show_nat d \<noteq> []" "last (show_nat d) = digit_char (d mod 10)"
    using assms by (simp_all add: show_octet)
  then have "last (dotted a b c d) = digit_char (d mod 10)"
    by (simp add: dotted_def)
  moreover have "digit_char (d mod 10) \<noteq> CHR ''t''"
    using char_digit_10 [of "d mod 10"] by (auto simp: char_digit_def byte_def)
  ultimately have "last (dotted a b c d) \<noteq> CHR ''t''" by simp
  then show "dotted a b c d \<noteq> ''localhost''" "\<not> ends_with (dotted a b c d) ''.localhost''"
    by (auto simp: ends_with_def suffix_def)
qed

text \<open>
  A custom endpoint whose host is an IPv4 address in dotted decimals is accepted exactly when the
  address is outside the private, loopback, link-local and unspecified blocks, whatever user name,
  port, path or query surrounds it.
\<close>

theorem endpoint_address_checked:
  assumes "starts_with (trim_endpoint url) ''https://''"
    and "endpoint_host (trim_endpoint url) = dotted a b c d"
    and "a < 256" "b < 256" "c < 256" "d < 256"
  shows "validate_custom_endpoint url =
    (if list_ex (in_block (address a b c d)) private_blocks
     then Inl (validation_field
       ''custom_endpoint must not target private or loopback addresses'' ''custom_endpoint'')
     else Inr (trim_endpoint url))"
proof -
  have "trim_endpoint url \<noteq> []"
    using assms(1) by (auto simp: starts_with_def)
  moreover have "dotted a b c d \<noteq> []"
    by (simp add: dotted_def)
  ultimately show ?thesis
    using assms(1,2) by (simp add: validate_custom_endpoint_def is_ssrf_target_def dotted_not_local [OF assms(6)]
        lower_dotted [OF assms(3-6)]
        parse_dotted [OF assms(3-6)] private_blocks_iff [OF assms(3-6)])
qed

theorem endpoint_address_checked_witness:
  "validate_custom_endpoint ''https://me:pw@10.0.0.7:8443/v1/'' =
    Inl (validation_field
       ''custom_endpoint must not target private or loopback addresses'' ''custom_endpoint'')"
proof -
  have "trim ''https://me:pw@10.0.0.7:8443/v1/'' = ''https://me:pw@10.0.0.7:8443/v1/''"
    by (rule trim_graphic) (simp_all add: graphic_def)
  then have trimmed: "trim_endpoint ''https://me:pw@10.0.0.7:8443/v1/'' = ''https://me:pw@10.0.0.7:8443/v1''"
    by (simp add: trim_endpoint_def trim_end_matches_def)
  have "show_nat 0 = ''0''" "show_nat 7 = ''7''" "show_nat 10 = ''10''"
    by (simp_all add: show_octet, simp_all only: digit_char_def, code_simp+)
  then have "dotted 10 0 0 7 = ''10.0.0.7''"
    by (simp add: dotted_def)
  then have "endpoint_host ''https://me:pw@10.0.0.7:8443/v1'' = dotted 10 0 0 7"
    by (simp add: endpoint_host_def authority_def drop_user_def drop_port_def starts_with_def)
  from endpoint_address_checked [of "''https://me:pw@10.0.0.7:8443/v1/''", unfolded trimmed, OF _ this]
  show ?thesis
    by (simp add: starts_with_def private_blocks_def in_block_def address_def)
qed

text \<open>
  Other spellings of the loopback address are not recognised: an address with fewer numbers, a name
  with the dot of the root, and the IPv6 form of an IPv4 address.
\<close>

lemmas reading = char_digit_def byte_def read_number_def read_given_char_def read_separator_def
  read_ipv4_def

lemma read_octets_numeral:
  "read_octets i (numeral k) s =
     (case read_separator CHR ''.'' i (read_number 10 3 False 256) s of
        None \<Rightarrow> None
      | Some (v, s) \<Rightarrow>
          (case read_octets (Suc i) (pred_numeral k) s of None \<Rightarrow> None | Some (vs, s) \<Rightarrow> Some (v # vs, s)))"
  by (simp add: numeral_eq_Suc)

lemma read_groups_numeral:
  "read_groups i (numeral k) s =
     (case (if pred_numeral k = 0 then None else read_separator CHR '':'' i read_ipv4 s) of
        Some (v, s) \<Rightarrow> ([v ! 0 * 256 + v ! 1, v ! 2 * 256 + v ! 3], True, s)
      | None \<Rightarrow>
          (case read_separator CHR '':'' i (read_number 16 4 True 65536) s of
             None \<Rightarrow> ([], False, s)
           | Some (g, s) \<Rightarrow>
               (case read_groups (Suc i) (pred_numeral k) s of (gs, v4, s) \<Rightarrow> (g # gs, v4, s))))"
  by (simp add: numeral_eq_Suc)

lemma no_address:
  "parse_ipv4 ''127.1'' = None" "parse_ipv6 ''127.1'' = None"
  "parse_ipv4 ''localhost.'' = None" "parse_ipv6 ''localhost.'' = None"
  by (simp_all add: parse_ipv4_def parse_ipv6_def read_ipv6_def reading read_octets_numeral
      read_groups_numeral starts_with_def)

lemma five_zeros: "replicate 5 x = [x, x, x, x, x]"
  by (simp add: numeral_eq_Suc)

lemma mapped_address:
  "parse_ipv4 ''::ffff:127.0.0.1'' = None"
  "parse_ipv6 ''::ffff:127.0.0.1'' = Some [0, 0, 0, 0, 0, 65535, 32512, 1]"
  by (simp_all add: parse_ipv4_def parse_ipv6_def read_ipv6_def reading read_octets_numeral
      read_groups_numeral starts_with_def five_zeros)

lemma loopback_spellings_accepted:
  "list_all (\<lambda>host. \<not> is_ssrf_target host) [''127.1'', ''localhost.'', ''::ffff:127.0.0.1'']"
  by (simp add: is_ssrf_target_def to_ascii_lowercase_def to_ascii_lower_char_def is_ascii_upper_def
      Let_def ends_with_def suffix_def no_address mapped_address is_loopback6_def is_unspecified6_def)

section \<open>Contexts of errors\<close>

fun value_at :: "json \<Rightarrow> string list \<Rightarrow> json option" where
  "value_at j [] = Some j"
| "value_at j (k # ks) = (case json_get j k of Some v \<Rightarrow> value_at v ks | None \<Rightarrow> None)"

fun sanitize_value :: "(string \<Rightarrow> string) \<Rightarrow> json \<Rightarrow> json" where
  "sanitize_value lower (JObject obj) = JObject (sanitize_context lower obj)"
| "sanitize_value lower v = v"

lemma get_sanitized:
  "json_get (JObject (sanitize_context lower kvs)) k =
     map_option (\<lambda>v. if sensitive lower k then JString ''[REDACTED]'' else sanitize_value lower v)
       (json_get (JObject kvs) k)"
  by (induction lower kvs rule: sanitize_context.induct) (auto simp: json_get_def split: json.split)

lemma get_sanitized_value:
  "json_get (sanitize_value lower j) k =
     map_option (\<lambda>v. if sensitive lower k then JString ''[REDACTED]'' else sanitize_value lower v)
       (json_get j k)"
  by (cases j) (simp_all only: sanitize_value.simps get_sanitized, simp_all add: json_get_def)

lemma below_string: "value_at (JString s) (ks @ [k]) = None"
  by (cases ks) (simp_all add: json_get_def)

text \<open>
  A sanitized context shows no value under a sensitive name, however deep in nested objects, and
  every other value that is not itself an object is kept.
\<close>

theorem sanitize_hides:
  "value_at (JObject (sanitize_context lower kvs)) (ks @ [k]) =
     (if list_ex (sensitive lower) ks then None
      else map_option (\<lambda>v. if sensitive lower k then JString ''[REDACTED]'' else sanitize_value lower v)
        (value_at (JObject kvs) (ks @ [k])))"
proof -
  have "value_at (sanitize_value lower j) (ks @ [k]) =
      (if list_ex (sensitive lower) ks then None
       else map_option (\<lambda>v. if sensitive lower k then JString ''[REDACTED]'' else sanitize_value lower v)
         (value_at j (ks @ [k])))" for j
  proof (induction ks arbitrary: j)
    case Nil
    then show ?case by (simp add: get_sanitized_value split: option.split)
  next
    case (Cons l ks)
    then show ?case
      by (cases "json_get j l") (simp_all add: get_sanitized_value below_string)
  qed
  from this [of "JObject kvs"] show ?thesis by simp
qed

text \<open>Objects in an array are not looked at.\<close>

lemma sanitize_skips_arrays:
  "sanitize_context lower [(''items'', JArray [JObject [(''token'', JString t)]])] =
     (if sensitive lower ''items'' then [(''items'', JString ''[REDACTED]'')]
      else [(''items'', JArray [JObject [(''token'', JString t)]])])"
  by simp

end
