(* ===== verification/Usage_Correct.thy ===== *)
theory Usage_Correct
  imports Usage_Polling
begin

text \<open>
  What the usage cache and the polling service guarantee: the cache against the log of what was
  stored, when a poll returns, what a cycle may change, and how the service backs off.
\<close>

section \<open>The cache answers from the log\<close>

datatype cache_op =
  Fetch string | Store string any_usage | Forget string | ForgetAll | Cleanup

fun cache_step :: "i64 \<times> cache_op \<Rightarrow> usage_cache \<Rightarrow> usage_cache" where
  "cache_step (now, Fetch i) c = snd (usage_get now i c)"
| "cache_step (now, Store i d) c = usage_set now i d c"
| "cache_step (now, Forget i) c = usage_remove i c"
| "cache_step (now, ForgetAll) c = usage_clear c"
| "cache_step (now, Cleanup) c = cleanup_stale now c"

text \<open>The log: what was stored last for an account and not removed since, whatever its age.\<close>

fun log_step :: "i64 \<times> cache_op \<Rightarrow> (string \<rightharpoonup> cache_entry) \<Rightarrow> string \<rightharpoonup> cache_entry" where
  "log_step (now, Store i d) m = m(i \<mapsto> \<lparr>ue_data = d, ue_timestamp = now\<rparr>)"
| "log_step (now, Forget i) m = m(i := None)"
| "log_step (now, ForgetAll) m = Map.empty"
| "log_step (now, _) m = m"

definition expired :: "i64 \<Rightarrow> cache_entry \<Rightarrow> bool" where
  "expired now e \<longleftrightarrow> MAX_CACHE_AGE_MS < now - ue_timestamp e"

text \<open>At a time, the cache has what the log has, but for expired entries that may be gone.\<close>

definition cache_tracks :: "i64 \<Rightarrow> (string \<rightharpoonup> cache_entry) \<Rightarrow> usage_cache \<Rightarrow> bool" where
  "cache_tracks now m c \<longleftrightarrow>
     hm_ok c \<and> (\<forall>i e. m i = Some e \<longrightarrow> moderate (ue_timestamp e)) \<and>
     (\<forall>i. hm_get c i = m i \<or> hm_get c i = None \<and> (\<exists>e. m i = Some e \<and> expired now e))"

lemma expired_mono: "expired now e \<Longrightarrow> now \<le> later \<Longrightarrow> expired later e"
  by (simp add: expired_def)

lemma tracks_later: "cache_tracks now m c \<Longrightarrow> now \<le> later \<Longrightarrow> cache_tracks later m c"
  unfolding cache_tracks_def by (meson expired_mono)

lemma tracks_age:
  assumes "cache_tracks now m c" "hm_get c i = Some e" "moderate now"
  shows "i64_sub now (ue_timestamp e) > MAX_CACHE_AGE_MS \<longleftrightarrow> expired now e"
proof -
  have "m i = Some e" using assms(1,2) unfolding cache_tracks_def by (metis option.distinct(1))
  then have "moderate (ue_timestamp e)" using assms(1) unfolding cache_tracks_def by blast
  then show ?thesis using assms(3) by (simp add: expired_def i64_sub_moderate)
qed

lemma tracks_get:
  assumes "cache_tracks now m c" "moderate now"
  shows "fst (usage_get now i c) = (case m i of
      None \<Rightarrow> None | Some e \<Rightarrow> if expired now e then None else Some (ue_data e))"
    and "cache_tracks now m (snd (usage_get now i c))"
proof -
  have tr: "hm_get c i = m i \<or> hm_get c i = None \<and> (\<exists>e. m i = Some e \<and> expired now e)"
    using assms(1) unfolding cache_tracks_def by blast
  note age = tracks_age [OF assms(1) _ assms(2)]
  show "fst (usage_get now i c) = (case m i of
      None \<Rightarrow> None | Some e \<Rightarrow> if expired now e then None else Some (ue_data e))"
    using tr age [of i] by (cases "hm_get c i") (auto simp: usage_get_def split: option.split)
  show "cache_tracks now m (snd (usage_get now i c))"
  proof (cases "hm_get c i")
    case (Some e)
    with tr have "m i = Some e" by simp
    with assms(1) age [OF Some] Some show ?thesis
      by (auto simp: usage_get_def cache_tracks_def)
  qed (simp add: usage_get_def assms(1))
qed

lemma tracks_cleanup:
  assumes "cache_tracks now m c" "moderate now"
  shows "cache_tracks now m (cleanup_stale now c)"
proof -
  have ok: "hm_ok c" using assms(1) by (simp add: cache_tracks_def)
  have "hm_get (cleanup_stale now c) i = m i \<or>
      hm_get (cleanup_stale now c) i = None \<and> (\<exists>e. m i = Some e \<and> expired now e)" for i
  proof (cases "hm_get c i")
    case None
    then have "hm_get (cleanup_stale now c) i = None"
      using ok by (simp add: cleanup_stale_def hm_get_retain)
    moreover have "hm_get c i = m i \<or> hm_get c i = None \<and> (\<exists>e. m i = Some e \<and> expired now e)"
      using assms(1) unfolding cache_tracks_def by blast
    ultimately show ?thesis using None by simp
  next
    case (Some e)
    then have "m i = Some e"
      using assms(1) unfolding cache_tracks_def by (metis option.distinct(1))
    with Some tracks_age [OF assms(1) Some assms(2)] show ?thesis
      by (auto simp: cleanup_stale_def hm_get_retain [OF ok])
  qed
  with assms(1) show ?thesis by (simp add: cache_tracks_def cleanup_stale_def)
qed

lemma tracks_step:
  assumes "cache_tracks now m c" "moderate now"
  shows "cache_tracks now (log_step (now, op) m) (cache_step (now, op) c)"
proof (cases op)
  case (Fetch i)
  then show ?thesis using tracks_get(2) [OF assms] by simp
next
  case Cleanup
  then show ?thesis using tracks_cleanup [OF assms] by simp
qed (use assms in \<open>auto simp: cache_tracks_def usage_set_def usage_remove_def usage_clear_def\<close>)

definition in_order :: "i64 \<Rightarrow> (i64 \<times> cache_op) list \<Rightarrow> bool" where
  "in_order start ops \<longleftrightarrow> sorted (start # map fst ops) \<and> list_all moderate (map fst ops)"

lemma tracks_run:
  assumes "cache_tracks start m c" "in_order start ops"
  shows "cache_tracks (last (start # map fst ops)) (fold log_step ops m) (fold cache_step ops c)"
  using assms
proof (induction ops arbitrary: start m c)
  case (Cons op ops)
  obtain now f where op: "op = (now, f)" by (cases op)
  have "cache_tracks now (log_step op m) (cache_step op c)"
    unfolding op by (rule tracks_step [OF tracks_later [OF Cons.prems(1)]])
      (use Cons.prems(2) in \<open>auto simp: in_order_def op\<close>)
  with Cons.IH [of now] Cons.prems(2) show ?case by (auto simp: in_order_def op)
qed simp

text \<open>
  C24. The cache is the log with an age limit: while the clock does not go back, a lookup finds
  exactly what was stored last for the account and not removed since, unless it is more than ten
  minutes old. The lazy removal on a lookup and the periodic clean-up are never visible.
\<close>

theorem usage_cache_refines_log:
  assumes "in_order 0 ops" "last (0 # map fst ops) \<le> now" "moderate now"
  shows "fst (usage_get now i (fold cache_step ops [])) =
    (case fold log_step ops Map.empty i of
       None \<Rightarrow> None
     | Some e \<Rightarrow> if 600000 < now - ue_timestamp e then None else Some (ue_data e))"
proof -
  have "cache_tracks 0 Map.empty []" by (simp add: cache_tracks_def)
  from tracks_later [OF tracks_run [OF this assms(1)] assms(2)]
  show ?thesis
    by (simp add: tracks_get(1) [OF _ assms(3)] expired_def MAX_CACHE_AGE_MS_def
        split: option.split)
qed

theorem usage_cache_refines_log_witness:
  "fst (usage_get 700000 ''a'' (fold cache_step
      [(5, Store ''a'' (AnthropicUsage [])), (100000, Store ''a'' (AnthropicUsage [(''seven_day'', JNull)])), (650000, Cleanup)] [])) =
    Some (AnthropicUsage [(''seven_day'', JNull)])"
proof -
  let ?ops = "[(5 :: i64, Store ''a'' (AnthropicUsage [])), (100000, Store ''a'' (AnthropicUsage [(''seven_day'', JNull)])), (650000, Cleanup)]"
  have "in_order 0 ?ops" "last (0 # map fst ?ops) \<le> (700000 :: i64)" "moderate 700000"
    by (simp_all add: in_order_def moderate_def)
  from usage_cache_refines_log [OF this, of "''a''"] show ?thesis by simp
qed

section \<open>When a poll returns\<close>

text \<open>The token and the state after a number of turns that all ended in another turn.\<close>

fun poll_turns ::
  "'w poll_env \<Rightarrow> pollable_account \<Rightarrow> nat \<Rightarrow> string \<Rightarrow> 'w poll_state \<Rightarrow> (string \<times> 'w poll_state) option" where
  "poll_turns env account 0 token st = Some (token, st)"
| "poll_turns env account (Suc n) token st =
     (case poll_turn env account token st of
        (Finished _, _) \<Rightarrow> None
      | (Again token, st) \<Rightarrow> poll_turns env account n token st)"

lemma poll_turns_end: "poll_turns env account n token st = None \<Longrightarrow> poll_oauth env account token st \<noteq> None"
proof (induction n arbitrary: token st)
  case (Suc n)
  show ?case
  proof (cases "poll_turn env account token st")
    case (Pair t st')
    with Suc show ?thesis
      by (cases t) (simp_all add: poll_oauth.simps [of env account token st])
  qed
qed simp

lemma poll_oauth_end:
  assumes "poll_oauth env account token st = Some r"
  shows "\<exists>n. poll_turns env account n token st = None"
proof (rule poll_oauth.raw_induct [where P = "\<lambda>env account token st r.
    \<exists>n. poll_turns env account n token st = None", OF _ assms])
  fix f :: "'w poll_env \<Rightarrow> pollable_account \<Rightarrow> string \<Rightarrow> 'w poll_state \<Rightarrow> (bool \<times> 'w poll_state) option"
    and env :: "'w poll_env" and account token st r
  assume IH: "\<And>env account token st r. f env account token st = Some r \<Longrightarrow>
      \<exists>n. poll_turns env account n token st = None"
    and step: "(case poll_turn env account token st of
        (Finished limited, st) \<Rightarrow> Some (limited, st)
      | (Again token, st) \<Rightarrow> f env account token st) = Some r"
  show "\<exists>n. poll_turns env account n token st = None"
  proof (cases "poll_turn env account token st")
    case (Pair t st')
    show ?thesis
    proof (cases t)
      case (Finished b)
      with Pair have "poll_turns env account 1 token st = None" by simp
      then show ?thesis ..
    next
      case (Again token')
      with Pair step IH obtain n where "poll_turns env account n token' st' = None" by fastforce
      with Pair Again have "poll_turns env account (Suc n) token st = None" by simp
      then show ?thesis ..
    qed
  qed
qed

lemma poll_oauth_None:
  "poll_oauth env account token st = None \<longleftrightarrow> (\<forall>n. poll_turns env account n token st \<noteq> None)"
  using poll_turns_end poll_oauth_end by (metis not_None_eq)

text \<open>A turn that leads to another: the token was refused, and a refresh was granted and stored.\<close>

definition refreshed_again ::
  "'w poll_env \<Rightarrow> pollable_account \<Rightarrow> string \<times> 'w poll_state \<Rightarrow> string \<times> 'w poll_state \<Rightarrow> bool" where
  "refreshed_again env account x y \<longleftrightarrow>
     (\<exists>w rt cid t w'. fetch_anthropic_usage env (fst x) (po_world (snd x)) = (UsageUnauthorized, w) \<and>
        pa_refresh_token account = Some rt \<and> pa_client_id account = Some cid \<and>
        refresh_oauth_token env rt cid w = (Inr t, w') \<and>
        y = (rt_access_token t,
             persist_refreshed_token env (pa_id account) t ((snd x)\<lparr>po_world := w'\<rparr>)))"

lemma unauthorized_again:
  "on_unauthorized env account st = (Again token', st') \<longleftrightarrow>
     (\<exists>rt cid t w. pa_refresh_token account = Some rt \<and> pa_client_id account = Some cid \<and>
        refresh_oauth_token env rt cid (po_world st) = (Inr t, w) \<and> token' = rt_access_token t \<and>
        st' = persist_refreshed_token env (pa_id account) t (st\<lparr>po_world := w\<rparr>))"
  by (auto simp: on_unauthorized_def split: option.splits sum.splits refresh_error.splits prod.splits)

lemma turn_again:
  "poll_turn env account token st = (Again token', st') \<longleftrightarrow>
     refreshed_again env account (token, st) (token', st')"
proof -
  obtain r w where "fetch_anthropic_usage env token (po_world st) = (r, w)" by fastforce
  then show ?thesis
    by (cases r) (auto simp: poll_turn_def refreshed_again_def unauthorized_again)
qed

lemma poll_turns_Suc:
  "poll_turns env account (Suc n) token st = Some y \<longleftrightarrow>
     (\<exists>x. poll_turns env account n token st = Some x \<and> refreshed_again env account x y)"
proof (induction n arbitrary: token st)
  case 0
  show ?case by (cases y) (auto simp: turn_again [symmetric] split: prod.splits turn.splits)
next
  case (Suc n)
  show ?case
  proof (cases "poll_turn env account token st")
    case (Pair t st')
    then show ?thesis
      by (cases t) (simp_all add: Suc.IH del: poll_turns.simps(2)
        add: poll_turns.simps(2) [of env account "Suc n" token st]
             poll_turns.simps(2) [of env account n token st])
  qed
qed


section \<open>A poll that never returns\<close>

lemma stubborn_turn:
  assumes "\<And>token w. fst (fetch_anthropic_usage env token w) = UsageUnauthorized"
    and "\<And>w. \<exists>t. fst (refresh_oauth_token env rt cid w) = Inr t"
    and "pa_refresh_token account = Some rt" "pa_client_id account = Some cid"
  shows "\<exists>token' st'. poll_turn env account token st = (Again token', st')"
proof -
  obtain w where w: "fetch_anthropic_usage env token (po_world st) = (UsageUnauthorized, w)"
    using assms(1) [of token "po_world st"] by (metis prod.collapse)
  obtain t w' where "refresh_oauth_token env rt cid w = (Inr t, w')"
    using assms(2) [of w] by (metis prod.collapse)
  with w assms(3,4) show ?thesis by (simp add: poll_turn_def on_unauthorized_def)
qed

lemma stubborn_turns:
  assumes "\<And>token st. \<exists>token' st'. poll_turn env account token st = (Again token', st')"
  shows "poll_turns env account n token st \<noteq> None"
proof (induction n arbitrary: token st)
  case (Suc n)
  obtain token' st' where "poll_turn env account token st = (Again token', st')" using assms by blast
  with Suc.IH show ?case by simp
qed simp

lemma poll_each_stuck:
  assumes "account \<in> set accounts" "\<And>st. poll_single_account env account st = None"
  shows "poll_each env accounts i n st = None"
  using assms(1)
proof (induction accounts arbitrary: i n st)
  case (Cons a as)
  then show ?case
    using assms(2) by (auto simp: Let_def split: option.split prod.split)
qed simp

text \<open>
  The loop is meant to refresh the token on a 401 and retry once. It retries for as long as the
  refresh succeeds. When the usage endpoint refuses an account whose tokens can still be
  refreshed (its subscription has lost the scope, say), the poll of that account never returns:
  the service never reaches the end of its cycle, and no other account is polled again.
\<close>

theorem unauthorized_account_stalls_polling:
  assumes "\<And>token w. fst (fetch_anthropic_usage env token w) = UsageUnauthorized"
    and "\<And>w. \<exists>t. fst (refresh_oauth_token env rt cid w) = Inr t"
    and "account \<in> set (get_pollable_accounts env st)" "is_oauth (pa_provider account)"
    and "pa_access_token account = Some token" "trim token \<noteq> []"
    and "pa_refresh_token account = Some rt" "pa_client_id account = Some cid"
  shows "poll_cycle env multiplier st = None"
proof -
  have "poll_turns env account n token st' \<noteq> None" for n st'
    by (rule stubborn_turns) (rule stubborn_turn [OF assms(1,2,7,8)])
  then have stuck: "poll_single_account env account st' = None" for st'
    using assms(4-6) by (simp add: poll_single_account_def poll_oauth_None first_some_def)
  have "poll_all_accounts env st = None"
    using poll_each_stuck [OF assms(3) stuck] assms(3) by (auto simp: poll_all_accounts_def Let_def)
  then show ?thesis by (simp add: poll_cycle_def)
qed

section \<open>What a cycle may change\<close>

definition without_tokens :: "account \<Rightarrow> account" where
  "without_tokens a = a\<lparr>access_token := None, refresh_token := [], expires_at := None,
     refresh_token_updated_at := None\<rparr>"

definition token_change :: "string set \<Rightarrow> account \<Rightarrow> account \<Rightarrow> bool" where
  "token_change ids a b \<longleftrightarrow> without_tokens b = without_tokens a \<and> (b = a \<or> acct_id a \<in> ids)"

definition local_change :: "string set \<Rightarrow> 'w poll_state \<Rightarrow> 'w poll_state \<Rightarrow> bool" where
  "local_change ids st st' \<longleftrightarrow>
     list_all2 (token_change ids) (po_rows st) (po_rows st') \<and>
     (\<forall>i. i \<in> ids \<or> hm_get (po_cache st') i = hm_get (po_cache st) i) \<and>
     (hm_ok (po_cache st) \<longrightarrow> hm_ok (po_cache st'))"

lemma without_tokens_id: "without_tokens b = without_tokens a \<Longrightarrow> acct_id b = acct_id a"
  by (drule arg_cong [of _ _ acct_id]) (simp add: without_tokens_def)

lemma local_refl [simp]: "local_change ids st st"
  by (simp add: local_change_def token_change_def list_all2_same)

lemma token_change_trans:
  "token_change ids a b \<Longrightarrow> token_change ids b c \<Longrightarrow> token_change ids a c"
  by (auto simp: token_change_def dest: without_tokens_id)

lemma rows_trans:
  "list_all2 (token_change ids) xs ys \<Longrightarrow> list_all2 (token_change ids) ys zs \<Longrightarrow>
     list_all2 (token_change ids) xs zs"
  by (rule list_all2_trans [OF token_change_trans])

lemma local_trans: "local_change ids st st' \<Longrightarrow> local_change ids st' st'' \<Longrightarrow> local_change ids st st''"
  unfolding local_change_def using rows_trans [of ids "po_rows st" "po_rows st'" "po_rows st''"] by metis

lemma local_mono: "local_change ids st st' \<Longrightarrow> ids \<subseteq> ids' \<Longrightarrow> local_change ids' st st'"
  unfolding local_change_def by (auto simp: token_change_def elim!: list_all2_mono)

lemma local_world [simp]:
  "local_change ids (st\<lparr>po_world := w\<rparr>) st' = local_change ids st st'"
  "local_change ids st (st'\<lparr>po_world := w\<rparr>) = local_change ids st st'"
  by (simp_all add: local_change_def)

lemma local_set:
  "local_change {i} st (st\<lparr>po_world := w, po_cache := usage_set now i d (po_cache st)\<rparr>)"
  by (simp add: local_change_def token_change_def usage_set_def list_all2_same)

lemma local_remove: "local_change {i} st (st\<lparr>po_cache := usage_remove i (po_cache st)\<rparr>)"
  by (simp add: local_change_def token_change_def usage_remove_def list_all2_same)

lemma local_row:
  assumes "\<And>a. without_tokens (f a) = without_tokens a"
  shows "local_change {i} st (st\<lparr>po_rows := on_row i f (po_rows st)\<rparr>)"
  using assms
  by (simp add: local_change_def token_change_def on_row_def list_all2_map2 list_all2_same)

lemma local_persist: "local_change {i} st (persist_refreshed_token env i t st)"
  by (auto simp: persist_refreshed_token_def update_tokens_def without_tokens_def
      intro!: local_row split: option.split)

lemma local_revoke: "local_change {i} st (mark_token_revoked env i st)"
  by (auto simp: mark_token_revoked_def without_tokens_def intro!: local_row)

lemma local_unauthorized: "local_change {pa_id account} st (snd (on_unauthorized env account st))"
proof (cases "pa_refresh_token account"; cases "pa_client_id account")
  fix rt cid assume some: "pa_refresh_token account = Some rt" "pa_client_id account = Some cid"
  obtain r w where r: "refresh_oauth_token env rt cid (po_world st) = (r, w)" by fastforce
  let ?st = "st\<lparr>po_world := w\<rparr>"
  show ?thesis
  proof (cases r)
    case (Inr t)
    with some r local_persist [of "pa_id account" ?st env t] show ?thesis
      by (simp add: on_unauthorized_def)
  next
    case (Inl e)
    with some r local_trans [OF local_revoke [of "pa_id account" ?st env] local_remove]
    show ?thesis by (cases e) (simp_all add: on_unauthorized_def Let_def)
  qed
qed (simp_all add: on_unauthorized_def)

lemma local_turn: "local_change {pa_id account} st (snd (poll_turn env account token st))"
proof -
  obtain r w where r: "fetch_anthropic_usage env token (po_world st) = (r, w)" by fastforce
  show ?thesis
    using r local_set local_unauthorized [of account "st\<lparr>po_world := w\<rparr>" env]
    by (cases r) (simp_all add: poll_turn_def)
qed

lemma local_oauth:
  assumes "poll_oauth env account token st = Some r"
  shows "local_change {pa_id account} st (snd r)"
proof (rule poll_oauth.raw_induct [where P = "\<lambda>env account token st r.
    local_change {pa_id account} st (snd r)", OF _ assms])
  fix f :: "'w poll_env \<Rightarrow> pollable_account \<Rightarrow> string \<Rightarrow> 'w poll_state \<Rightarrow> (bool \<times> 'w poll_state) option"
    and env :: "'w poll_env" and account token st r
  assume IH: "\<And>env account token st r. f env account token st = Some r \<Longrightarrow>
      local_change {pa_id account} st (snd r)"
    and step: "(case poll_turn env account token st of
        (Finished limited, st) \<Rightarrow> Some (limited, st)
      | (Again token, st) \<Rightarrow> f env account token st) = Some r"
  show "local_change {pa_id account} st (snd r)"
  proof (cases "poll_turn env account token st")
    case (Pair t st')
    then have here: "local_change {pa_id account} st st'"
      using local_turn [of account st env token] by simp
    show ?thesis
    proof (cases t)
      case (Again token')
      with Pair step have "f env account token' st' = Some r" by simp
      from local_trans [OF here IH [OF this]] show ?thesis .
    qed (use Pair step here in auto)
  qed
qed

lemma local_attempts: "local_change {pa_id account} st (poll_attempts env account token n st)"
proof (induction n arbitrary: st)
  case (Suc n)
  obtain r w where r: "fetch_usage_for_provider env (pa_provider account) token
      (pa_custom_endpoint account) (po_world st) = (r, w)" by fastforce
  show ?case using r Suc.IH [of "st\<lparr>po_world := _\<rparr>"] local_set by (cases r) simp_all
qed simp

lemma local_single:
  assumes "poll_single_account env account st = Some r"
  shows "local_change {pa_id account} st (snd r)"
  using assms local_attempts [of account st]
  by (auto simp: poll_single_account_def intro: local_oauth split: option.splits if_splits)

lemma local_each:
  "poll_each env accounts i n st = Some r \<Longrightarrow> local_change (pa_id ` set accounts) st (snd r)"
proof (induction accounts arbitrary: i n st)
  case (Cons a as)
  define st1 where "st1 = (if i > 0 then st\<lparr>po_world := pe_sleep env 15 (po_world st)\<rparr> else st)"
  have run: "(case poll_single_account env a st1 of
      None \<Rightarrow> None
    | Some (was_limited, st) \<Rightarrow> poll_each env as (Suc i) (if was_limited then Suc n else n) st) = Some r"
    using Cons.prems by (simp add: st1_def Let_def)
  then obtain b st2 where one: "poll_single_account env a st1 = Some (b, st2)"
    by (cases "poll_single_account env a st1") auto
  have "local_change {pa_id a} st st2"
    using local_single [OF one] by (simp add: st1_def split: if_splits)
  moreover have "local_change (pa_id ` set as) st2 (snd r)"
    using run one by (auto intro: Cons.IH)
  ultimately show ?case
    by (auto intro: local_trans [OF local_mono local_mono])
qed auto

text \<open>Which accounts a cycle polls.\<close>

lemma pollable_ids:
  "pa_id ` set (get_pollable_accounts env st) =
     (if pe_db env (po_world st)
      then {acct_id a | a. a \<in> set (po_rows st) \<and> \<not> paused a \<and> supports_usage_tracking (provider a)}
      else {})"
  by (auto simp: get_pollable_accounts_def find_all_accounts_def pollable_of_def image_iff)

lemma local_all:
  assumes "poll_all_accounts env st = Some (b, st')"
  shows "local_change (pa_id ` set (get_pollable_accounts env st)) st st'"
  using assms
  by (auto simp: poll_all_accounts_def Let_def split: if_splits option.splits dest: local_each)

lemma pollable_row:
  assumes "valid_rows (po_rows st)" "a \<in> set (po_rows st)"
    and "acct_id a \<in> pa_id ` set (get_pollable_accounts env st)"
  shows "\<not> paused a \<and> supports_usage_tracking (provider a)"
  using assms by (auto simp: pollable_ids valid_rows_def distinct_map dest: inj_onD split: if_splits)

lemma hm_get_cleanup:
  "hm_ok c \<Longrightarrow> hm_get (cleanup_stale now c) i = None \<or> hm_get (cleanup_stale now c) i = hm_get c i"
  by (auto simp: cleanup_stale_def hm_get_retain split: option.split)

text \<open>
  A cycle of the service, whatever the endpoints answer, leaves everything but the tokens of the
  accounts as it was, and writes no row but those of unpaused accounts whose provider reports
  usage. Of the other accounts' usage it can only drop what is stale. The pause until the next
  cycle is between five and thirty-five minutes, and again the multiplier is in its range.
\<close>

theorem poll_cycle_local:
  assumes "poll_cycle env m st = Some (secs, m', st')" "valid_rows (po_rows st)"
    and "hm_ok (po_cache st)" "m \<in> {1..7}"
  shows "secs \<in> {300..2100} \<and> m' \<in> {1..7} \<and>
    list_all2 (\<lambda>a b. without_tokens b = without_tokens a \<and>
        (b = a \<or> \<not> paused a \<and> supports_usage_tracking (provider a))) (po_rows st) (po_rows st') \<and>
    (\<forall>i. i \<in> pa_id ` set (get_pollable_accounts env st) \<or> hm_get (po_cache st') i = None \<or>
       hm_get (po_cache st') i = hm_get (po_cache st) i)"
proof -
  obtain b st1 where run: "poll_all_accounts env st = Some (b, st1)"
    using assms(1) by (auto simp: poll_cycle_def split: option.splits)
  note change = local_all [OF run, unfolded local_change_def]
  have st': "st' = st1\<lparr>po_cache := cleanup_stale (pe_now env (po_world st1)) (po_cache st1)\<rparr>"
    and secs: "secs = 300 * m'" "m' = (if b then min (m * 2) 7 else 1)"
    using assms(1) run by (simp_all add: poll_cycle_def DEFAULT_POLL_SECS_def Let_def)
  have rows: "list_all2 (\<lambda>a b. without_tokens b = without_tokens a \<and>
        (b = a \<or> \<not> paused a \<and> supports_usage_tracking (provider a))) (po_rows st) (po_rows st')"
  proof -
    have "list_all2 (token_change (pa_id ` set (get_pollable_accounts env st)))
        (po_rows st) (po_rows st')"
      using change by (simp add: st')
    then show ?thesis
      by (rule list.rel_mono_strong)
         (use pollable_row [OF assms(2)] in \<open>unfold token_change_def; blast\<close>)
  qed
  have "hm_ok (po_cache st1)" using change assms(3) by blast
  from hm_get_cleanup [OF this] have cache: "i \<in> pa_id ` set (get_pollable_accounts env st) \<or>
      hm_get (po_cache st') i = None \<or> hm_get (po_cache st') i = hm_get (po_cache st) i" for i
    using change unfolding st' by (metis poll_state.select_convs(2) poll_state.surjective
        poll_state.update_convs(2))
  have "secs \<in> {300..2100} \<and> m' \<in> {1..7}"
    using assms(4) by (auto simp: secs)
  with rows cache show ?thesis by blast
qed

text \<open>The pauses of a run: three hundred seconds, doubled while every poll is limited, to 2100.\<close>

lemma service_pauses:
  "service_run env m n st = Some (pauses, st') \<Longrightarrow> m \<in> {1, 2, 4, 7} \<Longrightarrow>
     set pauses \<subseteq> {300, 600, 1200, 2100}"
proof (induction n arbitrary: m st pauses)
  case (Suc n)
  obtain secs m1 st1 where cycle: "poll_cycle env m st = Some (secs, m1, st1)"
    using Suc.prems(1) by (auto split: option.splits)
  obtain rest where rest: "service_run env m1 n (st1\<lparr>po_world := pe_sleep env secs (po_world st1)\<rparr>) =
      Some (rest, st')" and pauses: "pauses = secs # rest"
    using Suc.prems(1) cycle by (auto split: option.splits)
  have m1: "m1 \<in> {1, 2, 4, 7}" and secs: "secs = 300 * m1"
    using cycle Suc.prems(2)
    by (auto simp: poll_cycle_def DEFAULT_POLL_SECS_def Let_def split: option.splits if_splits)
  from Suc.IH [OF rest m1] m1 show ?case by (auto simp: pauses secs)
qed simp

text \<open>
  The longer pauses outlive the cache: after one of them every account is without usage data, so
  that overage protection, which fails open, protects nothing until the next cycle.
\<close>

lemma backoff_forgets_usage:
  assumes "600 < secs" "moderate now" "moderate (now + 1000 * int secs)"
    and "case hm_get c i of None \<Rightarrow> True | Some e \<Rightarrow> moderate (ue_timestamp e) \<and> ue_timestamp e \<le> now"
  shows "fst (usage_get (now + 1000 * int secs) i c) = None"
  using assms
  by (cases "hm_get c i") (simp_all add: usage_get_def MAX_CACHE_AGE_MS_def i64_sub_moderate)

lemma no_usage_fails_open:
  "usage (acct_id a) = None \<Longrightarrow> \<not> overage_blocked (evaluate_account_eligibility a usage now)"
  by (simp add: evaluate_account_eligibility_def Let_def)

section \<open>Example services\<close>

text \<open>
  A usage endpoint that answers every request with one status, and a token endpoint that grants
  refreshes, rotating the refresh token, as often as it is told and then knows it no more.
\<close>

definition demo_poll :: "nat \<Rightarrow> nat poll_env" where
  "demo_poll status =
     \<lparr>pe_send = (\<lambda>c left.
        if hc_method c = ''GET'' then
          (Some \<lparr>hr_status = status, hr_headers = [], hr_body = Some ''usage''\<rparr>, left)
        else if left > 0 then
          (Some \<lparr>hr_status = 200, hr_headers = [], hr_body = Some ''token''\<rparr>, left - 1)
        else (Some \<lparr>hr_status = 400, hr_headers = [], hr_body = Some ''refused''\<rparr>, left)),
      pe_sleep = (\<lambda>_ w. w), pe_now = (\<lambda>_. 1000), pe_db = (\<lambda>_. True),
      pe_json = (\<lambda>s. Some (JObject
        (if s = ''token'' then [(''access_token'', JString ''t2''), (''refresh_token'', JString ''r2'')]
         else if s = ''usage'' then [percent_window ''five_hour'' (Fin 40)]
         else [(''error'', JString ''invalid_grant'')]))),
      pe_nanogpt = (\<lambda>_. None), pe_oauth_client = ''client''\<rparr>"

definition demo_row :: account where
  "demo_row = (fresh_account ''a'' ''anthropic'')\<lparr>access_token := Some ''t1'', refresh_token := ''r1''\<rparr>"

definition demo_poll_state :: "nat \<Rightarrow> nat poll_state" where
  "demo_poll_state n = \<lparr>po_rows = [demo_row], po_cache = [], po_world = n\<rparr>"

lemma demo_trim [simp]: "trim ''t1'' = ''t1''"
  by (rule trim_graphic) (simp_all add: graphic_def)

lemma demo_text [simp]: "from_utf8_lossy ''refused'' = ''refused''"
  by (rule from_utf8_lossy_ascii) (simp add: is_ascii_def byte_def)

lemmas poll_defs =
  poll_cycle_def poll_all_accounts_def poll_single_account_def poll_turn_def on_unauthorized_def
  fetch_anthropic_usage_def refresh_oauth_token_def usage_call_def refresh_call_def reply_ok_def
  get_pollable_accounts_def pollable_of_def supports_usage_tracking_def is_oauth_def first_some_def
  find_all_accounts_def reply_text_def DEFAULT_POLL_SECS_def Let_def

lemmas demo_defs = demo_poll_def demo_row_def demo_poll_state_def fresh_account_def

theorem poll_cycle_local_witness:
  "\<exists>st'. poll_cycle (demo_poll 429) 2 (demo_poll_state 0) = Some (1200, 4, st') \<and>
     list_all2 (\<lambda>a b. without_tokens b = without_tokens a \<and>
        (b = a \<or> \<not> paused a \<and> supports_usage_tracking (provider a)))
       (po_rows (demo_poll_state 0)) (po_rows st')"
proof -
  obtain st' where run: "poll_cycle (demo_poll 429) 2 (demo_poll_state 0) = Some (1200, 4, st')"
    by (simp add: poll_defs demo_defs poll_oauth.simps retry_backoff_def)
  have "valid_rows (po_rows (demo_poll_state 0))" "hm_ok (po_cache (demo_poll_state 0))"
    by (simp_all add: demo_poll_state_def valid_rows_def)
  with poll_cycle_local [OF run] run show ?thesis by auto
qed

theorem unauthorized_account_stalls_polling_witness:
  "poll_cycle ((demo_poll 401)\<lparr>pe_json := \<lambda>_. Some (JObject [(''access_token'', JString ''t2'')]),
      pe_send := \<lambda>c w. (Some \<lparr>hr_status = (if hc_method c = ''GET'' then 401 else 200),
        hr_headers = [], hr_body = Some []\<rparr>, w)\<rparr>) 1 (demo_poll_state 0) = None"
  (is "poll_cycle ?env 1 ?st = None")
proof (rule unauthorized_account_stalls_polling [where token = "''t1''"])
  show "fst (fetch_anthropic_usage ?env token w) = UsageUnauthorized" for token w
    by (simp add: fetch_anthropic_usage_def usage_call_def reply_ok_def)
  show "\<exists>t. fst (refresh_oauth_token ?env ''r1'' ''client'' w) = Inr t" for w
    by (simp add: refresh_oauth_token_def refresh_call_def reply_ok_def refreshed_of_def get_str_def
        json_get_def as_str_def)
  show "pollable_of ''client'' demo_row \<in> set (get_pollable_accounts ?env ?st)"
    by (simp add: poll_defs demo_defs)
qed (simp_all add: pollable_of_def demo_row_def is_oauth_def)

text \<open>
  The refresh inside the loop uses the refresh token the poll started with. After a first refresh
  that rotated it, a second 401 presents the old token, the endpoint calls it invalid, and the
  account's freshly stored tokens are wiped: it needs a new login.
\<close>

lemma rotated_token_lost:
  "\<exists>secs m st'. poll_cycle (demo_poll 401) 1 (demo_poll_state 1) = Some (secs, m, st') \<and>
     map refresh_token (po_rows st') = [[]] \<and> map access_token (po_rows st') = [None]"
  by (simp add: poll_defs demo_defs poll_oauth.simps refreshed_of_def get_str_def json_get_def
      as_str_def percent_window_def persist_refreshed_token_def update_tokens_def mark_token_revoked_def
      on_row_def usage_remove_def cleanup_stale_def hm_retain_def del: from_utf8_lossy.simps)

lemma usage_arrives:
  "\<exists>secs m st'. poll_cycle (demo_poll 200) 1 (demo_poll_state 1) = Some (secs, m, st') \<and>
     Option.bind (fst (usage_get 1000 ''a'' (po_cache st'))) utilization = Some (Fin 40)"
  by (simp add: poll_defs demo_defs poll_oauth.simps as_object_def usage_set_def usage_get_def
      cleanup_stale_def hm_retain_def MAX_CACHE_AGE_MS_def utilization_def anthropic_utilization_def
      utils_def util_of_def json_get_def as_f64_def List.map_filter_simps percent_window_def)

end
