(* ===== verification/Accounts_Api.thy ===== *)
theory Accounts_Api
  imports Db_Writer Validation Usage_Correct
begin

text \<open>
  The management of accounts over HTTP, \<open>proxy/src/accounts.rs\<close>: the listing and the endpoints that
  change an account, each with its reply. The database is the one of \<open>Db_Writer\<close>; that a query or
  a statement fails for reasons outside is part of the environment, as are dates, JSON text and the
  lower case of Unicode.
\<close>

section \<open>The listing\<close>

definition is_auth_failure_status :: "string option \<Rightarrow> bool" where
  "is_auth_failure_status status =
     (case status of
        None \<Rightarrow> False
      | Some s \<Rightarrow>
          (let lowered = to_ascii_lowercase (trim s)
           in starts_with lowered ''auth failed'' \<or> starts_with lowered ''authentication failed'' \<or>
              contains_str lowered ''unauthorized'' \<or> contains_str lowered ''forbidden'' \<or>
              contains_str lowered ''re-authentication'' \<or> contains_str lowered ''reauth'' \<or>
              contains_str lowered ''refresh token revoked''))"

definition API_SESSION_DURATION_MS :: i64 where "API_SESSION_DURATION_MS = 5 * 60 * 60 * 1000"

record api_env =
  ae_pool :: bool
  ae_conn :: bool
  ae_read :: bool
  ae_write :: bool
  ae_now :: i64
  ae_uuid :: string
  ae_lower :: "string \<Rightarrow> string"
  ae_rfc3339 :: "int \<Rightarrow> nat \<Rightarrow> string option"
  ae_now_rfc3339 :: string
  ae_from_str :: "string \<Rightarrow> json option"
  ae_to_str :: "json \<Rightarrow> string"
  ae_usage_json :: "any_usage \<Rightarrow> json option"

datatype token_status = TokenValid | TokenExpired | TokenApiKey

record account_response =
  ar_id :: string
  ar_name :: string
  ar_provider :: string
  ar_request_count :: i64
  ar_total_requests :: i64
  ar_last_used :: "string option"
  ar_created :: string
  ar_paused :: bool
  ar_token_status :: token_status
  ar_token_expires_at :: "string option"
  ar_rate_limit_status :: string
  ar_rate_limit_reset :: "string option"
  ar_rate_limit_remaining :: "i64 option"
  ar_session_info :: string
  ar_priority :: i64
  ar_auto_fallback_enabled :: bool
  ar_auto_refresh_enabled :: bool
  ar_custom_endpoint :: "string option"
  ar_model_mappings :: "json option"
  ar_usage_utilization :: "f64 option"
  ar_usage_window :: "string option"
  ar_usage_data :: "json option"
  ar_has_refresh_token :: bool
  ar_reserve_5h :: i64
  ar_reserve_weekly :: i64
  ar_reserve_hard :: bool
  ar_subscription_tier :: "string option"
  ar_email :: "string option"
  ar_is_shared :: bool
  ar_overage_protection :: bool

definition millis_to_iso :: "api_env \<Rightarrow> i64 \<Rightarrow> string" where
  "millis_to_iso env ms =
     (let secs = i64_div ms 1000;
          nsecs = nat (((ms - secs * 1000) * 1000000) mod 2 ^ 32)
      in case ae_rfc3339 env secs nsecs of Some s \<Rightarrow> s | None \<Rightarrow> ae_now_rfc3339 env)"

definition minutes_left :: "i64 \<Rightarrow> i64 \<Rightarrow> i64" where
  "minutes_left until now = f64_to_i64 (f64_ceil (f64_of_int (i64_sub until now) / lit 60000))"

definition token_status_of :: "account \<Rightarrow> i64 \<Rightarrow> token_status" where
  "token_status_of a now =
     (if is_api_key_provider (provider a) then TokenApiKey
      else case expires_at a of
             Some e \<Rightarrow>
               if now < e \<and> \<not> is_auth_failure_status (rate_limit_status a) then TokenValid else TokenExpired
           | None \<Rightarrow> TokenExpired)"

definition limit_text :: "account \<Rightarrow> i64 \<Rightarrow> string" where
  "limit_text a now =
     (case rate_limit_status a of
        Some status \<Rightarrow>
          (case rate_limit_reset a of
             Some reset \<Rightarrow>
               if now < reset then status @ '' ('' @ show_int (minutes_left reset now) @ ''m)'' else status
           | None \<Rightarrow> status)
      | None \<Rightarrow>
          (case rate_limited_until a of
             Some until \<Rightarrow>
               if now < until then ''Rate limited ('' @ show_int (minutes_left until now) @ ''m)'' else ''OK''
           | None \<Rightarrow> ''OK''))"

definition session_text :: "account \<Rightarrow> i64 \<Rightarrow> string" where
  "session_text a now =
     (case session_start a of
        Some start \<Rightarrow>
          if i64_sub now start < API_SESSION_DURATION_MS
          then ''Active: '' @ show_int (session_request_count a) @ '' reqs'' else ''-''
      | None \<Rightarrow> ''-'')"

definition account_to_response :: "api_env \<Rightarrow> account \<Rightarrow> i64 \<Rightarrow> any_usage option \<Rightarrow> account_response" where
  "account_to_response env a now usage =
     \<lparr>ar_id = acct_id a, ar_name = acct_name a, ar_provider = provider a,
      ar_request_count = request_count a, ar_total_requests = total_requests a,
      ar_last_used = map_option (millis_to_iso env) (last_used a),
      ar_created = millis_to_iso env (created_at a), ar_paused = paused a,
      ar_token_status = token_status_of a now,
      ar_token_expires_at = map_option (millis_to_iso env) (expires_at a),
      ar_rate_limit_status = limit_text a now,
      ar_rate_limit_reset = map_option (millis_to_iso env) (rate_limit_reset a),
      ar_rate_limit_remaining = rate_limit_remaining a, ar_session_info = session_text a now,
      ar_priority = priority a, ar_auto_fallback_enabled = auto_fallback_enabled a,
      ar_auto_refresh_enabled = auto_refresh_enabled a, ar_custom_endpoint = custom_endpoint a,
      ar_model_mappings = Option.bind (model_mappings a) (ae_from_str env),
      ar_usage_utilization = Option.bind usage utilization,
      ar_usage_window = Option.bind usage representative_window,
      ar_usage_data = Option.bind usage (ae_usage_json env),
      ar_has_refresh_token = (refresh_token a \<noteq> []), ar_reserve_5h = reserve_5h a,
      ar_reserve_weekly = reserve_weekly a, ar_reserve_hard = reserve_hard a,
      ar_subscription_tier = subscription_tier a, ar_email = email a, ar_is_shared = is_shared a,
      ar_overage_protection = overage_protection a\<rparr>"

datatype api_body = ApiJson json | ApiAccounts "account_response list" | ApiAccount account_response

type_synonym api_reply = "nat \<times> api_body"

definition api_error :: "nat \<Rightarrow> string \<Rightarrow> api_reply" where
  "api_error status msg = (status, ApiJson (error_json msg))"

definition api_ok :: "(string \<times> json) list \<Rightarrow> api_reply" where
  "api_ok kvs = (200, ApiJson (JObject ((''success'', JBool True) # kvs)))"

definition api_conn :: "api_env \<Rightarrow> api_reply option" where
  "api_conn env =
     (if \<not> ae_pool env then Some (api_error 500 ''Database not configured'')
      else if \<not> ae_conn env then Some (api_error 500 ''Database unavailable'')
      else None)"

text \<open>A usage cache may be missing; reading it drops what is stale.\<close>

definition cached_usage :: "i64 \<Rightarrow> string \<Rightarrow> usage_cache option \<Rightarrow> any_usage option \<times> usage_cache option" where
  "cached_usage now i cache =
     (case cache of
        None \<Rightarrow> (None, None)
      | Some c \<Rightarrow> (case usage_get now i c of (u, c) \<Rightarrow> (u, Some c)))"

fun list_responses ::
  "api_env \<Rightarrow> account list \<Rightarrow> usage_cache option \<Rightarrow> account_response list \<times> usage_cache option" where
  "list_responses env [] cache = ([], cache)"
| "list_responses env (a # as) cache =
     (case cached_usage (ae_now env) (acct_id a) cache of
        (usage, cache) \<Rightarrow>
          (case list_responses env as cache of
             (rs, cache) \<Rightarrow> (account_to_response env a (ae_now env) usage # rs, cache)))"

definition api_list_accounts ::
  "api_env \<Rightarrow> database \<Rightarrow> usage_cache option \<Rightarrow> api_reply \<times> usage_cache option" where
  "api_list_accounts env db cache =
     (case api_conn env of
        Some reply \<Rightarrow> (reply, cache)
      | None \<Rightarrow>
          if \<not> ae_read env then (api_error 500 ''Failed to list accounts'', cache)
          else (case list_responses env (find_all_accounts (db_accounts db)) cache of
                  (rs, cache) \<Rightarrow> ((200, ApiAccounts rs), cache)))"

definition api_reload_account ::
  "api_env \<Rightarrow> string \<Rightarrow> database \<Rightarrow> usage_cache option \<Rightarrow> api_reply \<times> usage_cache option" where
  "api_reload_account env i db cache =
     (case api_conn env of
        Some reply \<Rightarrow> (reply, cache)
      | None \<Rightarrow>
          if \<not> ae_read env then (api_error 500 ''Failed to reload account'', cache)
          else (case find_by_id i (db_accounts db) of
                  None \<Rightarrow> (api_error 404 ''Account not found'', cache)
                | Some a \<Rightarrow>
                    (case cached_usage (ae_now env) (acct_id a) cache of
                       (usage, cache) \<Rightarrow> ((200, ApiAccount (account_to_response env a (ae_now env) usage)), cache))))"

section \<open>Endpoints that change one account\<close>

text \<open>
  What they have in common: the account must exist, then one column is written. \<open>msg\<close> is the error
  when the statement fails.
\<close>

definition change_account ::
  "api_env \<Rightarrow> string \<Rightarrow> string \<Rightarrow> (string \<Rightarrow> account list \<Rightarrow> account list) \<Rightarrow> api_reply \<Rightarrow> database \<Rightarrow>
     api_reply \<times> database" where
  "change_account env i msg w reply db =
     (if \<not> ae_read env then (api_error 500 ''Database error'', db)
      else case find_by_id i (db_accounts db) of
             None \<Rightarrow> (api_error 404 ''Account not found'', db)
           | Some _ \<Rightarrow>
               if \<not> ae_write env then (api_error 500 msg, db)
               else (reply, db\<lparr>db_accounts := w i (db_accounts db)\<rparr>))"

definition api_pause_account :: "api_env \<Rightarrow> string \<Rightarrow> database \<Rightarrow> api_reply \<times> database" where
  "api_pause_account env i db =
     (case api_conn env of
        Some reply \<Rightarrow> (reply, db)
      | None \<Rightarrow> change_account env i ''Failed to pause account'' pause (api_ok []) db)"

definition api_resume_account :: "api_env \<Rightarrow> string \<Rightarrow> database \<Rightarrow> api_reply \<times> database" where
  "api_resume_account env i db =
     (case api_conn env of
        Some reply \<Rightarrow> (reply, db)
      | None \<Rightarrow> change_account env i ''Failed to resume account'' resume (api_ok []) db)"

definition int_reply :: "string \<Rightarrow> i64 \<Rightarrow> api_reply" where
  "int_reply k p = api_ok [(k, JNumber (if 0 \<le> p then PosInt (nat p) else NegInt p))]"

definition get_i64_field :: "json \<Rightarrow> string \<Rightarrow> i64 option" where
  "get_i64_field body k = Option.bind (json_get body k) as_i64"

definition get_bool_field :: "json \<Rightarrow> string \<Rightarrow> bool option" where
  "get_bool_field body k = Option.bind (json_get body k) as_bool"

definition api_update_priority :: "api_env \<Rightarrow> string \<Rightarrow> json \<Rightarrow> database \<Rightarrow> api_reply \<times> database" where
  "api_update_priority env i body db =
     (case api_conn env of
        Some reply \<Rightarrow> (reply, db)
      | None \<Rightarrow>
          (case get_i64_field body ''priority'' of
             None \<Rightarrow> (api_error 400 ''Priority is required and must be an integer'', db)
           | Some p \<Rightarrow>
               if 0 \<le> p \<and> p \<le> 100 then
                 change_account env i ''Failed to update priority'' (update_priority p)
                   (int_reply ''priority'' p) db
               else (api_error 400 ''Priority must be between 0 and 100'', db)))"

text \<open>The statement of a renaming fails when the name is taken: the column is unique.\<close>

definition api_rename_account :: "api_env \<Rightarrow> string \<Rightarrow> json \<Rightarrow> database \<Rightarrow> api_reply \<times> database" where
  "api_rename_account env i body db =
     (case api_conn env of
        Some reply \<Rightarrow> (reply, db)
      | None \<Rightarrow>
          (case get_str body ''name'' of
             None \<Rightarrow> (api_error 400 ''Name is required'', db)
           | Some n \<Rightarrow>
               if trim n = [] \<or> 100 < length n then (api_error 400 ''Name must be 1-100 characters'', db)
               else if \<not> ae_read env then (api_error 500 ''Database error'', db)
               else (case find_by_id i (db_accounts db) of
                       None \<Rightarrow> (api_error 404 ''Account not found'', db)
                     | Some _ \<Rightarrow>
                         if \<not> ae_write env then (api_error 500 ''Failed to rename account'', db)
                         else (case rename_account (trim n) i (db_accounts db) of
                                 Inl _ \<Rightarrow> (api_error 500 ''Failed to rename account'', db)
                               | Inr rows \<Rightarrow>
                                   (api_ok [(''name'', JString (trim n))], db\<lparr>db_accounts := rows\<rparr>)))))"

definition api_delete_account :: "api_env \<Rightarrow> string \<Rightarrow> database \<Rightarrow> api_reply \<times> database" where
  "api_delete_account env i db =
     (case api_conn env of
        Some reply \<Rightarrow> (reply, db)
      | None \<Rightarrow>
          if \<not> ae_write env then (api_error 500 ''Failed to delete account'', db)
          else (case db_delete_account i db of
                  Inl _ \<Rightarrow> (api_error 500 ''Failed to delete account'', db)
                | Inr (True, db') \<Rightarrow> (api_ok [], db')
                | Inr (False, db') \<Rightarrow> (api_error 404 ''Account not found'', db')))"

definition api_set_auto_fallback :: "api_env \<Rightarrow> string \<Rightarrow> json \<Rightarrow> database \<Rightarrow> api_reply \<times> database" where
  "api_set_auto_fallback env i body db =
     (case api_conn env of
        Some reply \<Rightarrow> (reply, db)
      | None \<Rightarrow>
          (case get_bool_field body ''enabled'' of
             None \<Rightarrow> (api_error 400 ''enabled (boolean) is required'', db)
           | Some b \<Rightarrow>
               change_account env i ''Failed to update auto-fallback'' (set_auto_fallback_enabled b)
                 (api_ok [(''enabled'', JBool b)]) db))"

definition api_set_auto_refresh :: "api_env \<Rightarrow> string \<Rightarrow> json \<Rightarrow> database \<Rightarrow> api_reply \<times> database" where
  "api_set_auto_refresh env i body db =
     (case api_conn env of
        Some reply \<Rightarrow> (reply, db)
      | None \<Rightarrow>
          (case get_bool_field body ''enabled'' of
             None \<Rightarrow> (api_error 400 ''enabled (boolean) is required'', db)
           | Some b \<Rightarrow>
               change_account env i ''Failed to update auto-refresh'' (set_auto_refresh_enabled b)
                 (api_ok [(''enabled'', JBool b)]) db))"

text \<open>An empty endpoint or none clears the column, any other is checked first.\<close>

definition new_endpoint :: "json \<Rightarrow> app_error + string option" where
  "new_endpoint body =
     (case map_option trim (get_str body ''endpoint'') of
        None \<Rightarrow> Inr None
      | Some e \<Rightarrow>
          if e = [] then Inr None
          else (case validate_custom_endpoint e of Inl err \<Rightarrow> Inl err | Inr u \<Rightarrow> Inr (Some u)))"

definition api_set_custom_endpoint :: "api_env \<Rightarrow> string \<Rightarrow> json \<Rightarrow> database \<Rightarrow> api_reply \<times> database" where
  "api_set_custom_endpoint env i body db =
     (case api_conn env of
        Some reply \<Rightarrow> (reply, db)
      | None \<Rightarrow>
          (case new_endpoint body of
             Inl err \<Rightarrow> (api_error 400 (error_message err), db)
           | Inr endpoint \<Rightarrow>
               change_account env i ''Failed to update custom endpoint'' (set_custom_endpoint endpoint)
                 (api_ok [(''endpoint'', case endpoint of Some u \<Rightarrow> JString u | None \<Rightarrow> JNull)]) db))"

definition new_mappings :: "api_env \<Rightarrow> json \<Rightarrow> string option option" where
  "new_mappings env body =
     (case json_get body ''mappings'' of
        Some (JObject kvs) \<Rightarrow> Some (Some (ae_to_str env (JObject kvs)))
      | Some JNull \<Rightarrow> Some None
      | None \<Rightarrow> Some None
      | _ \<Rightarrow> None)"

definition api_set_model_mappings :: "api_env \<Rightarrow> string \<Rightarrow> json \<Rightarrow> database \<Rightarrow> api_reply \<times> database" where
  "api_set_model_mappings env i body db =
     (case api_conn env of
        Some reply \<Rightarrow> (reply, db)
      | None \<Rightarrow>
          (case new_mappings env body of
             None \<Rightarrow> (api_error 400 ''mappings must be an object or null'', db)
           | Some m \<Rightarrow>
               change_account env i ''Failed to update model mappings'' (set_model_mappings m) (api_ok []) db))"

definition api_set_reserve_5h :: "api_env \<Rightarrow> string \<Rightarrow> json \<Rightarrow> database \<Rightarrow> api_reply \<times> database" where
  "api_set_reserve_5h env i body db =
     (case api_conn env of
        Some reply \<Rightarrow> (reply, db)
      | None \<Rightarrow>
          (case get_i64_field body ''percent'' of
             None \<Rightarrow> (api_error 400 ''percent (integer 0-100) is required'', db)
           | Some p \<Rightarrow>
               if 0 \<le> p \<and> p \<le> 100 then
                 change_account env i ''Failed to update reserve 5h'' (set_reserve_5h p)
                   (int_reply ''percent'' p) db
               else (api_error 400 ''percent must be an integer 0-100'', db)))"

definition api_set_reserve_weekly :: "api_env \<Rightarrow> string \<Rightarrow> json \<Rightarrow> database \<Rightarrow> api_reply \<times> database" where
  "api_set_reserve_weekly env i body db =
     (case api_conn env of
        Some reply \<Rightarrow> (reply, db)
      | None \<Rightarrow>
          (case get_i64_field body ''percent'' of
             None \<Rightarrow> (api_error 400 ''percent (integer 0-100) is required'', db)
           | Some p \<Rightarrow>
               if 0 \<le> p \<and> p \<le> 100 then
                 change_account env i ''Failed to update reserve weekly'' (set_reserve_weekly p)
                   (int_reply ''percent'' p) db
               else (api_error 400 ''percent must be an integer 0-100'', db)))"

definition api_set_reserve_hard :: "api_env \<Rightarrow> string \<Rightarrow> json \<Rightarrow> database \<Rightarrow> api_reply \<times> database" where
  "api_set_reserve_hard env i body db =
     (case api_conn env of
        Some reply \<Rightarrow> (reply, db)
      | None \<Rightarrow>
          (case get_bool_field body ''enabled'' of
             None \<Rightarrow> (api_error 400 ''enabled (boolean) is required'', db)
           | Some b \<Rightarrow>
               change_account env i ''Failed to update reserve hard'' (set_reserve_hard b)
                 (api_ok [(''enabled'', JBool b)]) db))"

definition api_set_is_shared :: "api_env \<Rightarrow> string \<Rightarrow> json \<Rightarrow> database \<Rightarrow> api_reply \<times> database" where
  "api_set_is_shared env i body db =
     (case api_conn env of
        Some reply \<Rightarrow> (reply, db)
      | None \<Rightarrow>
          (case get_bool_field body ''shared'' of
             None \<Rightarrow> (api_error 400 ''shared (boolean) is required'', db)
           | Some b \<Rightarrow>
               change_account env i ''Failed to update shared status'' (set_is_shared b)
                 (api_ok [(''shared'', JBool b)]) db))"

definition api_set_overage_protection :: "api_env \<Rightarrow> string \<Rightarrow> json \<Rightarrow> database \<Rightarrow> api_reply \<times> database" where
  "api_set_overage_protection env i body db =
     (case api_conn env of
        Some reply \<Rightarrow> (reply, db)
      | None \<Rightarrow>
          (case get_bool_field body ''enabled'' of
             None \<Rightarrow> (api_error 400 ''enabled (boolean) is required'', db)
           | Some b \<Rightarrow>
               change_account env i ''Failed to update overage protection'' (set_overage_protection b)
                 (api_ok [(''enabled'', JBool b)]) db))"

section \<open>Creation\<close>

definition api_account ::
  "string \<Rightarrow> string \<Rightarrow> string \<Rightarrow> string option \<Rightarrow> i64 option \<Rightarrow> i64 \<Rightarrow> i64 \<Rightarrow> account" where
  "api_account i n p key expires now prio =
     \<lparr>acct_id = i, acct_name = n, provider = p, api_key = key, refresh_token = [],
      access_token = key, expires_at = expires, request_count = 0, total_requests = 0,
      last_used = None, created_at = now, rate_limited_until = None, session_start = None,
      session_request_count = 0, paused = False, rate_limit_reset = None,
      rate_limit_status = None, rate_limit_remaining = None, priority = prio,
      auto_fallback_enabled = True, auto_refresh_enabled = True, custom_endpoint = None,
      model_mappings = None, reserve_5h = 0, reserve_weekly = 0, reserve_hard = False,
      subscription_tier = None, email = None, refresh_token_updated_at = None,
      is_shared = False, overage_protection = True\<rparr>"

definition created_message :: "string \<Rightarrow> string \<Rightarrow> bool \<Rightarrow> string" where
  "created_message n p oauth =
     ''Account '' @ quoted n @ '' created ('' @ p @ '')'' @
     (if oauth then ''. Run `better-ccflare --reauthenticate '' @ n @ ''` to complete OAuth setup.''
      else [])"

text \<open>The name, the mode and the priority of a request, or the error.\<close>

definition check_new :: "json \<Rightarrow> string + string \<times> string \<times> i64" where
  "check_new body =
     (case get_str body ''name'' of
        None \<Rightarrow> Inl ''name is required (1-100 characters)''
      | Some n \<Rightarrow>
          if trim n = [] \<or> 100 < length n then Inl ''name is required (1-100 characters)''
          else (case get_str body ''mode'' of
                  None \<Rightarrow> Inl (''mode is required. Valid modes: '' @ join '', '' VALID_MODES)
                | Some m \<Rightarrow>
                    if m \<notin> set VALID_MODES then
                      Inl (''Invalid mode: '' @ quoted m @ ''. Valid modes: '' @ join '', '' VALID_MODES)
                    else (let p = (case get_i64_field body ''priority'' of Some p \<Rightarrow> p | None \<Rightarrow> 0)
                          in if 0 \<le> p \<and> p \<le> 100 then Inr (trim n, m, p)
                             else Inl ''Priority must be between 0 and 100'')))"

definition api_create_account :: "api_env \<Rightarrow> json \<Rightarrow> database \<Rightarrow> api_reply \<times> database" where
  "api_create_account env body db =
     (case api_conn env of
        Some reply \<Rightarrow> (reply, db)
      | None \<Rightarrow>
          (case check_new body of
             Inl msg \<Rightarrow> (api_error 400 msg, db)
           | Inr (n, mode, prio) \<Rightarrow>
               if \<not> ae_read env then (api_error 500 ''Database error'', db)
               else if list_ex (\<lambda>a. ae_lower env (acct_name a) = ae_lower env n)
                 (find_all_accounts (db_accounts db)) then
                 (api_error 409 (''Account '' @ quoted n @ '' already exists''), db)
               else (let p = mode_to_provider mode;
                         now = ae_now env;
                         key_input = get_str body ''api_key'';
                         oauth = (mode = ''claude-oauth'')
                     in if \<not> oauth \<and> (case key_input of None \<Rightarrow> True | Some k \<Rightarrow> trim k = []) then
                          (api_error 400 (''API key is required for '' @ quoted mode @ '' accounts''), db)
                        else (let a =
                                (if oauth then api_account (ae_uuid env) n p None None now prio
                                 else api_account (ae_uuid env) n p (map_option trim key_input)
                                   (Some (i64_add now (30 * 24 * 60 * 60 * 1000))) now prio)
                              in if \<not> ae_write env then (api_error 500 ''Failed to create account'', db)
                                 else (case create_account a (db_accounts db) of
                                         Inl _ \<Rightarrow> (api_error 500 ''Failed to create account'', db)
                                       | Inr rows \<Rightarrow>
                                           ((201, ApiJson (JObject
                                              [(''success'', JBool True), (''id'', JString (ae_uuid env)),
                                               (''message'', JString (created_message n p oauth))])),
                                            db\<lparr>db_accounts := rows\<rparr>))))))"

section \<open>Requests as writes\<close>

datatype api_request =
  ApiPause string
| ApiResume string
| ApiPriority string json
| ApiRename string json
| ApiDelete string
| ApiAutoFallback string json
| ApiAutoRefresh string json
| ApiEndpoint string json
| ApiMappings string json
| ApiReserve5h string json
| ApiReserveWeekly string json
| ApiReserveHard string json
| ApiShared string json
| ApiOverage string json
| ApiCreate json

fun api_handle :: "api_env \<Rightarrow> api_request \<Rightarrow> database \<Rightarrow> api_reply \<times> database" where
  "api_handle env (ApiPause i) = api_pause_account env i"
| "api_handle env (ApiResume i) = api_resume_account env i"
| "api_handle env (ApiPriority i body) = api_update_priority env i body"
| "api_handle env (ApiRename i body) = api_rename_account env i body"
| "api_handle env (ApiDelete i) = api_delete_account env i"
| "api_handle env (ApiAutoFallback i body) = api_set_auto_fallback env i body"
| "api_handle env (ApiAutoRefresh i body) = api_set_auto_refresh env i body"
| "api_handle env (ApiEndpoint i body) = api_set_custom_endpoint env i body"
| "api_handle env (ApiMappings i body) = api_set_model_mappings env i body"
| "api_handle env (ApiReserve5h i body) = api_set_reserve_5h env i body"
| "api_handle env (ApiReserveWeekly i body) = api_set_reserve_weekly env i body"
| "api_handle env (ApiReserveHard i body) = api_set_reserve_hard env i body"
| "api_handle env (ApiShared i body) = api_set_is_shared env i body"
| "api_handle env (ApiOverage i body) = api_set_overage_protection env i body"
| "api_handle env (ApiCreate body) = api_create_account env body"

text \<open>What a request asks for, when it is well formed.\<close>

definition percent_of :: "json \<Rightarrow> string \<Rightarrow> i64 option" where
  "percent_of body k =
     (case get_i64_field body k of
        Some p \<Rightarrow> if 0 \<le> p \<and> p \<le> 100 then Some p else None
      | None \<Rightarrow> None)"

definition asked_account :: "api_env \<Rightarrow> json \<Rightarrow> account option" where
  "asked_account env body =
     (case check_new body of
        Inl _ \<Rightarrow> None
      | Inr (n, mode, prio) \<Rightarrow>
          if mode = ''claude-oauth'' then
            Some (api_account (ae_uuid env) n (mode_to_provider mode) None None (ae_now env) prio)
          else map_option (\<lambda>k. api_account (ae_uuid env) n (mode_to_provider mode) (Some (trim k))
            (Some (i64_add (ae_now env) (30 * 24 * 60 * 60 * 1000))) (ae_now env) prio)
            (get_str body ''api_key''))"

fun api_write :: "api_env \<Rightarrow> api_request \<Rightarrow> account_write option" where
  "api_write env (ApiPause i) = Some (OnRow (SetPaused True) i)"
| "api_write env (ApiResume i) = Some (OnRow (SetPaused False) i)"
| "api_write env (ApiPriority i body) = map_option (\<lambda>p. OnRow (UpdatePriority p) i) (percent_of body ''priority'')"
| "api_write env (ApiRename i body) = map_option (\<lambda>n. RenameAccount (trim n) i) (get_str body ''name'')"
| "api_write env (ApiDelete i) = Some (DeleteAccount i)"
| "api_write env (ApiAutoFallback i body) = map_option (\<lambda>b. OnRow (SetAutoFallback b) i) (get_bool_field body ''enabled'')"
| "api_write env (ApiAutoRefresh i body) = map_option (\<lambda>b. OnRow (SetAutoRefresh b) i) (get_bool_field body ''enabled'')"
| "api_write env (ApiEndpoint i body) =
     (case new_endpoint body of Inl _ \<Rightarrow> None | Inr e \<Rightarrow> Some (OnRow (SetCustomEndpoint e) i))"
| "api_write env (ApiMappings i body) = map_option (\<lambda>m. OnRow (SetModelMappings m) i) (new_mappings env body)"
| "api_write env (ApiReserve5h i body) = map_option (\<lambda>p. OnRow (SetReserve5h p) i) (percent_of body ''percent'')"
| "api_write env (ApiReserveWeekly i body) = map_option (\<lambda>p. OnRow (SetReserveWeekly p) i) (percent_of body ''percent'')"
| "api_write env (ApiReserveHard i body) = map_option (\<lambda>b. OnRow (SetReserveHard b) i) (get_bool_field body ''enabled'')"
| "api_write env (ApiShared i body) = map_option (\<lambda>b. OnRow (SetIsShared b) i) (get_bool_field body ''shared'')"
| "api_write env (ApiOverage i body) = map_option (\<lambda>b. OnRow (SetOverageProtection b) i) (get_bool_field body ''enabled'')"
| "api_write env (ApiCreate body) = map_option CreateAccount (asked_account env body)"

definition api_effect :: "account_write option \<Rightarrow> database \<Rightarrow> api_reply \<times> database \<Rightarrow> bool" where
  "api_effect w db out \<longleftrightarrow>
     (if fst (fst out) < 300
      then (case w of None \<Rightarrow> False
            | Some w \<Rightarrow> (case store_write w (db_accounts db) of
                Inl _ \<Rightarrow> False | Inr rows \<Rightarrow> snd out = db\<lparr>db_accounts := rows\<rparr>))
      else snd out = db)"

lemma effect_error [simp]: "300 \<le> st \<Longrightarrow> api_effect w db (api_error st msg, db)"
  by (simp add: api_effect_def api_error_def)

lemma effect_change:
  "api_effect (Some (OnRow w i)) db (change_account env i msg (row_op w) (api_ok kvs) db)"
  by (simp add: change_account_def api_effect_def api_error_def api_ok_def split: option.split)

lemma effect_conn [simp]: "api_conn env = Some reply \<Longrightarrow> api_effect w db (reply, db)"
  by (auto simp: api_conn_def split: if_splits)

lemmas effect_pause = effect_change [where w = "SetPaused True", simplified]
lemmas effect_resume = effect_change [where w = "SetPaused False", simplified]
lemmas effect_columns =
  effect_change [where w = "UpdatePriority p" for p, simplified]
  effect_change [where w = "SetAutoFallback b" for b, simplified]
  effect_change [where w = "SetAutoRefresh b" for b, simplified]
  effect_change [where w = "SetCustomEndpoint e" for e, simplified]
  effect_change [where w = "SetModelMappings m" for m, simplified]
  effect_change [where w = "SetReserve5h p" for p, simplified]
  effect_change [where w = "SetReserveWeekly p" for p, simplified]
  effect_change [where w = "SetReserveHard b" for b, simplified]
  effect_change [where w = "SetIsShared b" for b, simplified]
  effect_change [where w = "SetOverageProtection b" for b, simplified]

lemma effect_rename: "api_effect (api_write env (ApiRename i body)) db (api_rename_account env i body db)"
proof (cases "api_conn env")
  case None
  then show ?thesis
    by (auto simp: api_rename_account_def api_effect_def api_error_def api_ok_def split: option.split sum.split)
qed (simp add: api_rename_account_def)

lemma delete_absent:
  "\<not> list_ex (\<lambda>a. acct_id a = i) rows \<Longrightarrow> filter (\<lambda>a. acct_id a \<noteq> i) rows = rows"
  by (auto simp: list_ex_iff filter_id_conv)

lemma effect_delete: "api_effect (Some (DeleteAccount i)) db (api_delete_account env i db)"
proof (cases "api_conn env")
  case None
  then show ?thesis
    by (auto simp: api_delete_account_def db_delete_account_def delete_account_def api_effect_def api_error_def
        api_ok_def delete_absent split: option.split sum.split bool.split)
qed (simp add: api_delete_account_def)

lemma effect_create: "api_effect (api_write env (ApiCreate body)) db (api_create_account env body db)"
proof (cases "api_conn env")
  case None
  show ?thesis
  proof (cases "check_new body")
    case (Inr new)
    obtain n mode prio where new: "new = (n, mode, prio)" by (cases new)
    show ?thesis
    proof (cases "mode = ''claude-oauth''")
      case True
      then show ?thesis
        by (auto simp: api_create_account_def asked_account_def None Inr new api_effect_def api_error_def Let_def
            split: sum.split)
    next
      case False
      then show ?thesis
        by (cases "get_str body ''api_key''")
          (auto simp: api_create_account_def asked_account_def None Inr new api_effect_def api_error_def Let_def
            split: sum.split)
    qed
  qed (simp add: api_create_account_def None)
qed (simp add: api_create_account_def)

lemma effect_all: "api_effect (api_write env req) db (api_handle env req db)"
proof (cases req)
  case (ApiRename i body) then show ?thesis using effect_rename by simp
next
  case (ApiCreate body) then show ?thesis using effect_create by simp
next
  case (ApiDelete i) then show ?thesis using effect_delete by simp
next
  case (ApiPause i) then show ?thesis
    by (simp add: api_pause_account_def effect_pause split: option.split)
next
  case (ApiResume i) then show ?thesis
    by (simp add: api_resume_account_def effect_resume split: option.split)
next
  case (ApiPriority i body) then show ?thesis
    by (simp add: api_update_priority_def percent_of_def int_reply_def effect_columns split: option.split)
next
  case (ApiReserve5h i body) then show ?thesis
    by (simp add: api_set_reserve_5h_def percent_of_def int_reply_def effect_columns split: option.split)
next
  case (ApiReserveWeekly i body) then show ?thesis
    by (simp add: api_set_reserve_weekly_def percent_of_def int_reply_def effect_columns split: option.split)
next
  case (ApiEndpoint i body) then show ?thesis
    by (simp add: api_set_custom_endpoint_def effect_columns split: option.split sum.split)
next
  case (ApiMappings i body) then show ?thesis
    by (simp add: api_set_model_mappings_def effect_columns split: option.split)
next
  case (ApiAutoFallback i body) then show ?thesis
    by (simp add: api_set_auto_fallback_def effect_columns split: option.split)
next
  case (ApiAutoRefresh i body) then show ?thesis
    by (simp add: api_set_auto_refresh_def effect_columns split: option.split)
next
  case (ApiReserveHard i body) then show ?thesis
    by (simp add: api_set_reserve_hard_def effect_columns split: option.split)
next
  case (ApiShared i body) then show ?thesis
    by (simp add: api_set_is_shared_def effect_columns split: option.split)
next
  case (ApiOverage i body) then show ?thesis
    by (simp add: api_set_overage_protection_def effect_columns split: option.split)
qed

lemma endpoints_refine_map_lemma:
  assumes "valid_rows (db_accounts db)" "api_handle env req db = (reply, db')"
  shows "if fst reply < 300
    then \<exists>w. api_write env req = Some w \<and>
      stored (db_accounts db') = abs_write w (stored (db_accounts db)) \<and>
      valid_rows (db_accounts db') \<and> db' = db\<lparr>db_accounts := db_accounts db'\<rparr>
    else db' = db"
proof -
  have effect: "api_effect (api_write env req) db (reply, db')"
    using effect_all [of env req db] assms(2) by simp
  show ?thesis
  proof (cases "fst reply < 300")
    case True
    with effect obtain w rows where "api_write env req = Some w"
      "store_write w (db_accounts db) = Inr rows" "db' = db\<lparr>db_accounts := rows\<rparr>"
      by (auto simp: api_effect_def split: option.splits sum.splits)
    with write_succeeds [OF assms(1), of w rows] True show ?thesis by simp
  qed (use effect in \<open>simp add: api_effect_def\<close>)
qed

text \<open>
  C33. The endpoints refine the map from ids to accounts: a reply below 300 says that the write which
  the request asks for was done, and nothing else was; any other reply leaves the database as it
  was. Ids and names stay unique.
\<close>

theorem endpoints_refine_map:
  assumes "valid_rows (db_accounts db)" "api_handle env req db = (reply, db')"
  shows "if fst reply < 300
    then \<exists>w. api_write env req = Some w \<and>
      stored (db_accounts db') = abs_write w (stored (db_accounts db)) \<and>
      valid_rows (db_accounts db') \<and> db' = db\<lparr>db_accounts := db_accounts db'\<rparr>
    else db' = db"
  using assms by (rule endpoints_refine_map_lemma)

definition demo_api_env :: api_env where
  "demo_api_env = \<lparr>ae_pool = True, ae_conn = True, ae_read = True, ae_write = True, ae_now = 0,
    ae_uuid = ''u'', ae_lower = to_ascii_lowercase, ae_rfc3339 = (\<lambda>_ _. None), ae_now_rfc3339 = [],
    ae_from_str = (\<lambda>_. None), ae_to_str = (\<lambda>_. ''{}''), ae_usage_json = (\<lambda>_. None)\<rparr>"

definition demo_database :: database where
  "demo_database = \<lparr>db_accounts = [fresh_account ''a'' ''zai''], db_keys = [],
    db_tables = \<lparr>t_requests = [], t_payloads = []\<rparr>, db_xfactor = []\<rparr>"

lemma demo_account: "stored (db_accounts demo_database) ''a'' = Some (fresh_account ''a'' ''zai'')"
  by (simp add: demo_database_def stored_def find_by_id_def fresh_account_def)

lemma demo_valid: "valid_rows (db_accounts demo_database)"
  by (simp add: demo_database_def valid_rows_def)

theorem endpoints_refine_map_witness:
  "\<exists>reply db'. api_handle demo_api_env (ApiPause ''a'') demo_database = (reply, db') \<and>
     map_option paused (stored (db_accounts db') ''a'') = Some True"
proof -
  obtain reply db' where run: "api_handle demo_api_env (ApiPause ''a'') demo_database = (reply, db')"
    by fastforce
  then have "fst reply = 200"
    using demo_account by (auto simp: demo_api_env_def api_pause_account_def api_conn_def change_account_def
        stored_def api_ok_def)
  with endpoints_refine_map [OF demo_valid run] demo_account
  have "stored (db_accounts db') ''a'' = Some (row_effect (SetPaused True) (fresh_account ''a'' ''zai''))"
    by simp
  with run show ?thesis
    by (auto simp: row_effect_def pause_def on_row_def)
qed

section \<open>What the endpoints keep\<close>

definition endpoint_safe :: "string \<Rightarrow> bool" where
  "endpoint_safe u \<longleftrightarrow>
     starts_with u ''https://'' \<and> endpoint_host u \<noteq> [] \<and> \<not> is_ssrf_target (endpoint_host u)"

definition settings_ok :: "account \<Rightarrow> bool" where
  "settings_ok a \<longleftrightarrow> 0 \<le> priority a \<and> priority a \<le> 100 \<and> 0 \<le> reserve_5h a \<and> reserve_5h a \<le> 100 \<and>
     0 \<le> reserve_weekly a \<and> reserve_weekly a \<le> 100 \<and>
     (case custom_endpoint a of None \<Rightarrow> True | Some u \<Rightarrow> endpoint_safe u)"

lemma validated_safe: "validate_custom_endpoint e = Inr u \<Longrightarrow> endpoint_safe u"
  by (auto simp: validate_custom_endpoint_def endpoint_safe_def Let_def split: if_splits)

lemma new_endpoint_safe: "new_endpoint body = Inr (Some u) \<Longrightarrow> endpoint_safe u"
  by (auto simp: new_endpoint_def validated_safe split: option.splits if_splits sum.splits)

lemma percent_of_bounds: "percent_of body k = Some p \<Longrightarrow> 0 \<le> p \<and> p \<le> 100"
  by (auto simp: percent_of_def split: option.splits if_splits)

lemma asked_account_ok: "asked_account env body = Some a \<Longrightarrow> settings_ok a"
  by (auto simp: asked_account_def check_new_def settings_ok_def api_account_def Let_def
      split: sum.splits option.splits if_splits)

lemma settings_on_row:
  assumes "list_all settings_ok rows" "\<And>a. settings_ok a \<Longrightarrow> settings_ok (f a)"
  shows "list_all settings_ok (on_row i f rows)"
  using assms by (auto simp: list_all_iff on_row_def)

lemma write_keeps_settings:
  assumes "api_write env req = Some w" "store_write w rows = Inr rows'" "list_all settings_ok rows"
  shows "list_all settings_ok rows'"
proof (cases w)
  case (OnRow u i)
  with assms(1) have "settings_ok (row_effect u a)" if "settings_ok a" for a
    using that by (cases req)
      (auto simp: row_effect_def row_op_defs on_row_def settings_ok_def dest!: percent_of_bounds
        split: sum.splits option.splits dest: new_endpoint_safe)
  with OnRow assms(2,3) show ?thesis
    by (auto simp: row_op_effect intro!: settings_on_row)
next
  case (CreateAccount a)
  with assms(1) have "settings_ok a"
    by (cases req) (auto dest: asked_account_ok split: sum.splits)
  with CreateAccount assms(2,3) show ?thesis
    by (auto simp: create_account_def split: if_splits)
next
  case (RenameAccount n i)
  with assms(2) have "rows' = on_row i (\<lambda>a. a\<lparr>acct_name := n\<rparr>) rows"
    by (auto simp: rename_account_def split: if_splits)
  then show ?thesis
    using assms(3) by (auto simp: settings_ok_def intro!: settings_on_row)
next
  case (DeleteAccount i)
  with assms(2,3) show ?thesis
    by (auto simp: delete_account_def list_all_iff)
next
  case (ClearExpired now)
  with assms(1) show ?thesis by (cases req) (auto split: sum.splits)
qed

text \<open>
  C34. Through the endpoints no account gets a priority or a reserve outside 0 to 100, and none an
  endpoint that is not HTTPS or whose host the check refuses: this holds after any sequence of
  requests, whatever fails on the way, if it held before.
\<close>

theorem endpoints_keep_settings:
  assumes "list_all settings_ok (db_accounts db)"
  shows "list_all settings_ok (db_accounts (fold (\<lambda>(env, req) db. snd (api_handle env req db)) reqs db))"
  using assms
proof (induction reqs arbitrary: db)
  case (Cons er reqs)
  obtain env req where er: "er = (env, req)" by (cases er)
  have "list_all settings_ok (db_accounts (snd (api_handle env req db)))"
    using effect_all [of env req db] Cons.prems write_keeps_settings
    by (auto simp: api_effect_def split: if_splits option.splits sum.splits)
  with Cons.IH show ?case by (simp add: er)
qed simp

theorem endpoints_keep_settings_witness:
  "list_all settings_ok (db_accounts (fold (\<lambda>(env, req) db. snd (api_handle env req db))
     [(demo_api_env, ApiPriority ''a'' (JObject [(''priority'', JNumber (PosInt 101))])),
      (demo_api_env, ApiReserve5h ''a'' (JObject [(''percent'', JNumber (PosInt 20))]))] demo_database))"
  by (rule endpoints_keep_settings) (simp add: demo_database_def settings_ok_def fresh_account_def)

section \<open>What the listing shows\<close>

definition same_visible :: "account \<Rightarrow> account \<Rightarrow> bool" where
  "same_visible a b \<longleftrightarrow>
     same_but_credentials a b \<and> (refresh_token a = [] \<longleftrightarrow> refresh_token b = [])"

lemma visible_shape:
  "same_visible a b \<Longrightarrow> \<exists>k r t. b = a\<lparr>api_key := k, refresh_token := r, access_token := t\<rparr> \<and>
     (r = [] \<longleftrightarrow> refresh_token a = [])"
  unfolding same_visible_def same_but_credentials_def by (elim conjE) metis

lemma visible_response:
  assumes "same_visible a b"
  shows "account_to_response env b now u = account_to_response env a now u"
proof -
  obtain k r t where b: "b = a\<lparr>api_key := k, refresh_token := r, access_token := t\<rparr>"
    and r: "r = [] \<longleftrightarrow> refresh_token a = []"
    using visible_shape [OF assms] by blast
  from r show ?thesis
    unfolding b account_to_response_def token_status_of_def limit_text_def session_text_def
    by (simp split: option.split)
qed

lemma visible_key: "same_visible a b \<Longrightarrow> acct_id b = acct_id a \<and> priority b = priority a"
  using visible_shape [of a b] by auto

lemma visible_insert:
  assumes "list_all2 same_visible xs ys" "same_visible x y"
  shows "list_all2 same_visible (insert_by (\<lambda>a b. cmp_of (priority a) (priority b)) x xs)
    (insert_by (\<lambda>a b. cmp_of (priority a) (priority b)) y ys)"
  using assms by (induction rule: list_all2_induct) (simp_all add: visible_key)

lemma visible_sorted:
  "list_all2 same_visible xs ys \<Longrightarrow> list_all2 same_visible (find_all_accounts xs) (find_all_accounts ys)"
  unfolding find_all_accounts_def
  by (induction rule: list_all2_induct) (simp_all add: visible_insert)

lemma visible_responses:
  "list_all2 same_visible xs ys \<Longrightarrow> list_responses env ys cache = list_responses env xs cache"
  by (induction arbitrary: cache rule: list_all2_induct)
    (simp_all add: visible_key visible_response split: prod.split)

text \<open>
  The listing tells nothing of the credentials of an account: two databases that differ in API
  keys, access tokens and refresh tokens only, but for whether there is a refresh token, are listed
  alike.
\<close>

theorem listing_hides_credentials:
  assumes "list_all2 same_visible (db_accounts db) (db_accounts db')"
  shows "api_list_accounts env db' cache = api_list_accounts env db cache"
  by (simp add: api_list_accounts_def visible_responses [OF visible_sorted [OF assms]] split: option.split)

theorem listing_hides_credentials_witness:
  "api_list_accounts demo_api_env
     (demo_database\<lparr>db_accounts := [(fresh_account ''a'' ''zai'')\<lparr>api_key := Some ''k1''\<rparr>]\<rparr>) None =
   api_list_accounts demo_api_env
     (demo_database\<lparr>db_accounts := [(fresh_account ''a'' ''zai'')\<lparr>api_key := Some ''k2''\<rparr>]\<rparr>) None"
  by (rule listing_hides_credentials)
    (simp add: same_visible_def same_but_credentials_def fresh_account_def)

section \<open>Accounts that were created or renamed\<close>

lemma asked_account_fresh:
  "asked_account env body = Some a \<Longrightarrow> \<not> paused a \<and> rate_limit_status a = None \<and>
     rate_limited_until a = None \<and> \<not> reserve_hard a \<and> acct_id a = ae_uuid env"
  by (auto simp: asked_account_def api_account_def split: sum.splits if_splits option.splits)

text \<open>
  An account that was created over HTTP is stored under the id of the reply and may be routed to
  at once, as long as no usage of it is known.
\<close>

theorem created_account_routable:
  assumes "api_create_account env body db = ((201, reply), db')" "valid_rows (db_accounts db)"
  shows "\<exists>a. stored (db_accounts db') (ae_uuid env) = Some a \<and>
    (\<forall>usage now. if usage (ae_uuid env) = None then routable (evaluate_account_eligibility a usage now) else True)"
proof -
  have "api_handle env (ApiCreate body) db = ((201, reply), db')"
    using assms(1) by simp
  note run = endpoints_refine_map_lemma [OF assms(2) this, simplified]
  then obtain a where a: "asked_account env body = Some a"
    and "stored (db_accounts db') = (stored (db_accounts db))(acct_id a \<mapsto> a)"
    by auto
  moreover have "routable (evaluate_account_eligibility a usage now)" if "usage (ae_uuid env) = None" for usage now
  proof -
    have "\<not> reason_holds a usage now r" for r
      using asked_account_fresh [OF a] that
      by (cases r) (simp_all add: upstream_from_raw_def is_auth_failure_def)
    then show ?thesis by (simp add: routable_iff_no_reason)
  qed
  ultimately show ?thesis
    using asked_account_fresh [OF a] by auto
qed

theorem created_account_routable_witness:
  "\<exists>reply db' a. api_create_account demo_api_env (JObject [(''name'', JString ''b''), (''mode'', JString ''zai''),
       (''api_key'', JString ''k'')]) demo_database = ((201, reply), db') \<and>
     stored (db_accounts db') ''u'' = Some a \<and> routable (evaluate_account_eligibility a (\<lambda>_. None) 7)"
proof -
  let ?body = "JObject [(''name'', JString ''b''), (''mode'', JString ''zai''), (''api_key'', JString ''k'')]"
  have trim: "trim ''b'' = ''b''" "trim ''k'' = ''k''"
    by (rule trim_graphic; simp add: graphic_def)+
  have check: "check_new ?body = Inr (''b'', ''zai'', 0)"
    by (simp add: check_new_def get_str_def json_get_def as_str_def trim VALID_MODES_def get_i64_field_def)
  have other: "to_ascii_lowercase ''a'' \<noteq> to_ascii_lowercase ''b''"
    by (simp add: to_ascii_lowercase_def to_ascii_lower_char_def is_ascii_upper_def)
  obtain reply db' where run: "api_create_account demo_api_env ?body demo_database = ((201, reply), db')"
    using other by (auto simp: api_create_account_def check api_conn_def Let_def get_str_def json_get_def
        as_str_def trim create_account_def api_account_def demo_api_env_def demo_database_def
        find_all_accounts_def fresh_account_def)
  from created_account_routable [OF run demo_valid] obtain a where
    "stored (db_accounts db') (ae_uuid demo_api_env) = Some a"
    "routable (evaluate_account_eligibility a (\<lambda>_. None) 7)"
    by auto
  with run show ?thesis by (auto simp: demo_api_env_def)
qed

text \<open>
  A renaming only checks the exact name, where the creation and the commands compare names without
  case: after it two accounts may answer to one name, and the commands find the first of them.
\<close>

lemma rename_makes_twins:
  "\<exists>db'. api_rename_account demo_api_env ''b'' (JObject [(''name'', JString ''A'')])
       (demo_database\<lparr>db_accounts := [fresh_account ''a'' ''zai'', fresh_account ''b'' ''zai'']\<rparr>) =
     (api_ok [(''name'', JString ''A'')], db') \<and>
     map (\<lambda>a. to_ascii_lowercase (acct_name a)) (db_accounts db') = [''a'', ''a'']"
proof -
  have "trim ''A'' = ''A''"
    by (rule trim_graphic) (simp_all add: graphic_def)
  moreover have "to_ascii_lowercase ''A'' = ''a''" "to_ascii_lowercase ''a'' = ''a''"
    by (simp_all add: to_ascii_lowercase_def to_ascii_lower_char_def is_ascii_upper_def char_of_eq_iff)
  ultimately show ?thesis
    by (simp add: api_rename_account_def api_conn_def demo_api_env_def demo_database_def get_str_def json_get_def
        as_str_def find_by_id_def fresh_account_def rename_account_def on_row_def)
qed

end
