(* ===== verification/Server.thy ===== *)
theory Server
  imports Config Accounts_Api
begin

text \<open>
  The HTTP server, \<open>proxy/src/server.rs\<close>: where it listens, what surrounds every response, and the
  maintenance at the start; with the endpoints of \<open>proxy/src/api.rs\<close> on the configuration and on
  the database as a whole. The routes themselves are the handlers of the other theories. The
  network is an environment that threads a world of its own.
\<close>

section \<open>Where the server listens\<close>

record server_config =
  sc_host :: string
  sc_port :: nat
  sc_dashboard_port :: "nat option"
  sc_tls_enabled :: bool
  sc_tls_cert_path :: "string option"
  sc_tls_key_path :: "string option"

definition server_config_default :: server_config where
  "server_config_default =
     \<lparr>sc_host = ''0.0.0.0'', sc_port = DEFAULT_PORT, sc_dashboard_port = None, sc_tls_enabled = False,
      sc_tls_cert_path = None, sc_tls_key_path = None\<rparr>"

definition server_config_from_env :: "env_vars \<Rightarrow> runtime_config \<Rightarrow> server_config" where
  "server_config_from_env var rt =
     (let cert = var ''SSL_CERT_PATH''; key = var ''SSL_KEY_PATH''
      in \<lparr>sc_host = or_default (var ''BETTER_CCFLARE_HOST'') ''0.0.0.0'',
          sc_port = or_default (Option.bind (var ''PORT'') (parse_unsigned U16_MAX)) (rt_port rt),
          sc_dashboard_port =
            Option.bind (case var ''DASHBOARD_PORT'' of
                Some v \<Rightarrow> Some v | None \<Rightarrow> var ''BETTER_CCFLARE_DASHBOARD_PORT'')
              (parse_unsigned U16_MAX),
          sc_tls_enabled = (cert \<noteq> None \<and> key \<noteq> None), sc_tls_cert_path = cert, sc_tls_key_path = key\<rparr>)"

text \<open>\<open>keys\<close> is the table of API keys, \<open>None\<close> when it cannot be read.\<close>

definition enforce_loopback_if_no_keys ::
  "env_vars \<Rightarrow> config_data \<Rightarrow> key_rows option \<Rightarrow> server_config \<Rightarrow> string" where
  "enforce_loopback_if_no_keys var data keys cfg =
     (if sc_host cfg = ''127.0.0.1'' \<or> sc_host cfg = ''::1'' \<or> sc_host cfg = ''localhost'' then sc_host cfg
      else if is_allow_unauthenticated var data then sc_host cfg
      else if or_default (map_option key_count_active keys) 0 > 0 then sc_host cfg
      else ''127.0.0.1'')"

definition listen_on :: "string \<Rightarrow> server_config \<Rightarrow> (string \<times> nat) list" where
  "listen_on host cfg =
     (host, sc_port cfg) #
     (case sc_dashboard_port cfg of
        Some p \<Rightarrow> if p \<noteq> sc_port cfg then [(host, p)] else []
      | None \<Rightarrow> [])"

section \<open>Around every response\<close>

definition LOCALHOST_PREFIXES :: "string list" where
  "LOCALHOST_PREFIXES =
     [''http://localhost'', ''http://127.0.0.1'', ''http://[::1]'',
      ''https://localhost'', ''https://127.0.0.1'', ''https://[::1]'']"

definition is_localhost_origin :: "string \<Rightarrow> bool" where
  "is_localhost_origin origin =
     list_ex (\<lambda>prefix. case strip_prefix origin prefix of
         Some rest \<Rightarrow> rest = [] \<or> starts_with rest '':'' | None \<Rightarrow> False) LOCALHOST_PREFIXES"

definition extra_origins :: "env_vars \<Rightarrow> string list" where
  "extra_origins var =
     (case var ''ALLOWED_ORIGINS'' of
        Some s \<Rightarrow> List.map_filter (\<lambda>o'. parse_header_value (trim o')) (split_on CHR '','' s)
      | None \<Rightarrow> [])"

definition allow_origin :: "env_vars \<Rightarrow> string \<Rightarrow> bool" where
  "allow_origin var origin \<longleftrightarrow> is_localhost_origin origin \<or> origin \<in> set (extra_origins var)"

definition security_headers :: "env_vars \<Rightarrow> header_map \<Rightarrow> header_map" where
  "security_headers var headers =
     (let headers = hdr_insert ''x-frame-options'' ''DENY'' headers;
          headers = hdr_insert ''x-content-type-options'' ''nosniff'' headers;
          headers = hdr_insert ''referrer-policy'' ''no-referrer'' headers
      in if var ''SSL_CERT_PATH'' \<noteq> None \<and> var ''SSL_KEY_PATH'' \<noteq> None
         then hdr_insert ''strict-transport-security'' ''max-age=31536000; includeSubDomains'' headers
         else headers)"

text \<open>
  The layers of \<open>build_router\<close>, the last one outermost: authentication is outside the security
  headers, and what it rejects does not pass through them.
\<close>

definition serve ::
  "hashes \<Rightarrow> auth_env \<Rightarrow> auth_clock \<Rightarrow> env_vars \<Rightarrow> (auth_info \<Rightarrow> http_request \<Rightarrow> response) \<Rightarrow>
     http_request \<Rightarrow> auth_state \<Rightarrow> response \<times> auth_state" where
  "serve h env clock var route req st =
     (case auth_middleware h env clock req st of
        (Reject r, st) \<Rightarrow> (r, st)
      | (Pass info, st) \<Rightarrow>
          (let r = route info req in (r\<lparr>resp_headers := security_headers var (resp_headers r)\<rparr>, st)))"

section \<open>Maintenance at the start\<close>

definition clear_rate_limits_at_start :: "account list \<Rightarrow> nat \<times> account list" where
  "clear_rate_limits_at_start rows =
     (let hit = (\<lambda>a. rate_limited_until a \<noteq> None \<or> rate_limit_status a \<noteq> None)
      in (length (filter hit rows),
          map (\<lambda>a. if hit a then a\<lparr>rate_limited_until := None, rate_limit_status := None,
              rate_limit_reset := None\<rparr> else a) rows))"

definition startup_io ::
  "(account \<Rightarrow> string \<Rightarrow> 'w \<Rightarrow> (string + token_refresh_result) \<times> 'w) \<Rightarrow> (account list \<times> 'w) token_io" where
  "startup_io refresh =
     \<lparr>io_refresh = (\<lambda>a c (rows, w). case refresh a c w of (r, w) \<Rightarrow> (r, (rows, w))),
      io_persist_tokens = (\<lambda>i token expires refresh_token (rows, w).
        (on_row i (\<lambda>a. a\<lparr>access_token := Some token, expires_at := Some expires,
           refresh_token := refresh_token\<rparr>) rows, w)),
      io_persist_tier = (\<lambda>_ _ s. s), io_persist_email = (\<lambda>_ _ s. s),
      io_load_account = (\<lambda>i (rows, w). find_by_id i rows)\<rparr>"

definition refreshes_at_start :: "account \<Rightarrow> i64 \<Rightarrow> bool" where
  "refreshes_at_start a now \<longleftrightarrow>
     refresh_token a \<noteq> [] \<and>
     (provider a = ''anthropic'' \<or> provider a = ''claude-oauth'' \<or> provider a = ''console'') \<and>
     (case expires_at a of Some e \<Rightarrow> \<not> now < e | None \<Rightarrow> True)"

text \<open>The refresher is the one of the account's provider.\<close>

fun refresh_each ::
  "(provider_impl \<Rightarrow> account \<Rightarrow> string \<Rightarrow> 'w \<Rightarrow> (string + token_refresh_result) \<times> 'w) \<Rightarrow> provider_registry \<Rightarrow>
     i64 \<Rightarrow> account list \<Rightarrow> token_manager \<times> account list \<times> 'w \<Rightarrow> token_manager \<times> account list \<times> 'w" where
  "refresh_each refresher reg now [] s = s"
| "refresh_each refresher reg now (a # as) (tm, rows, w) =
     (if \<not> refreshes_at_start a now then refresh_each refresher reg now as (tm, rows, w)
      else case reg_get reg (provider a) of
             None \<Rightarrow> refresh_each refresher reg now as (tm, rows, w)
           | Some p \<Rightarrow>
               (case get_valid_access_token (startup_io (refresher p)) tm a now (rows, w) of
                  (_, _, tm, rows, w) \<Rightarrow> refresh_each refresher reg now as (tm, rows, w)))"

definition refresh_expired_tokens ::
  "(provider_impl \<Rightarrow> account \<Rightarrow> string \<Rightarrow> 'w \<Rightarrow> (string + token_refresh_result) \<times> 'w) \<Rightarrow> provider_registry \<Rightarrow>
     i64 \<Rightarrow> token_manager \<times> account list \<times> 'w \<Rightarrow> token_manager \<times> account list \<times> 'w" where
  "refresh_expired_tokens refresher reg now s =
     refresh_each refresher reg now (find_all_accounts (fst (snd s))) s"

definition rate_label :: "string \<Rightarrow> string option" where
  "rate_label t =
     (let t = or_default (strip_prefix t ''default_claude_'') t;
          t = or_default (strip_prefix t ''claude_'') t
      in case strip_prefix t ''max_'' of
           Some rest \<Rightarrow> Some (''Max '' @ rest)
         | None \<Rightarrow>
             if t = ''pro'' then Some ''Pro''
             else if t = ''max'' \<or> contains_str t ''max'' then Some ''Max'' else None)"

definition build_tier_label ::
  "(string \<Rightarrow> string) \<Rightarrow> string option \<Rightarrow> string option \<Rightarrow> string option" where
  "build_tier_label upper_first org_type tier =
     (let rate = Option.bind tier rate_label
      in case org_type of
           None \<Rightarrow> rate
         | Some org \<Rightarrow>
             if org = ''claude_team'' then
               Some (case rate of Some r \<Rightarrow> ''Team '' @ r | None \<Rightarrow> ''Team'')
             else if org = ''claude_enterprise'' then Some ''Enterprise''
             else if org = ''claude_pro'' then Some ''Pro''
             else case rate of
                    Some r \<Rightarrow> Some r
                  | None \<Rightarrow> Some (upper_first (or_default (strip_prefix org ''claude_'') org)))"

datatype profile_reply = SendFailed | ProfileReply nat "json option"

definition nested_str :: "json \<Rightarrow> string \<Rightarrow> string \<Rightarrow> string option" where
  "nested_str j k l = Option.bind (json_get j k) (\<lambda>v. get_str v l)"

definition profile_email :: "json \<Rightarrow> string option" where
  "profile_email j =
     (case nested_str j ''account'' ''email_address'' of
        Some e \<Rightarrow> Some e
      | None \<Rightarrow> (case get_str j ''email_address'' of Some e \<Rightarrow> Some e | None \<Rightarrow> get_str j ''email''))"

definition apply_profile :: "(string \<Rightarrow> string) \<Rightarrow> account \<Rightarrow> json \<Rightarrow> account list \<Rightarrow> account list" where
  "apply_profile upper_first a j rows =
     (let rows =
            (if subscription_tier a = None then
               (case build_tier_label upper_first (nested_str j ''organization'' ''organization_type'')
                  (nested_str j ''organization'' ''rate_limit_tier'') of
                  Some tier \<Rightarrow> set_subscription_tier (Some tier) (acct_id a) rows
                | None \<Rightarrow> rows)
             else rows)
      in if email a = None then
           (case profile_email j of Some e \<Rightarrow> set_email (Some e) (acct_id a) rows | None \<Rightarrow> rows)
         else rows)"

text \<open>The profiles are asked for one by one; a 429 ends the loop.\<close>

fun backfill_each ::
  "(string \<Rightarrow> string) \<Rightarrow> (string \<Rightarrow> 'w \<Rightarrow> profile_reply \<times> 'w) \<Rightarrow> account list \<Rightarrow> account list \<times> 'w \<Rightarrow>
     account list \<times> 'w" where
  "backfill_each upper_first profile [] s = s"
| "backfill_each upper_first profile (a # as) (rows, w) =
     (if provider a \<noteq> ''claude-oauth'' \<or> (subscription_tier a \<noteq> None \<and> email a \<noteq> None)
      then backfill_each upper_first profile as (rows, w)
      else case access_token a of
             None \<Rightarrow> backfill_each upper_first profile as (rows, w)
           | Some token \<Rightarrow>
               (case profile token w of
                  (SendFailed, w) \<Rightarrow> backfill_each upper_first profile as (rows, w)
                | (ProfileReply status body, w) \<Rightarrow>
                    if status = 429 then (rows, w)
                    else if \<not> (200 \<le> status \<and> status < 300) then backfill_each upper_first profile as (rows, w)
                    else (case body of
                            None \<Rightarrow> backfill_each upper_first profile as (rows, w)
                          | Some j \<Rightarrow>
                              backfill_each upper_first profile as (apply_profile upper_first a j rows, w))))"

definition backfill_subscription_tiers ::
  "(string \<Rightarrow> string) \<Rightarrow> (string \<Rightarrow> 'w \<Rightarrow> profile_reply \<times> 'w) \<Rightarrow> account list \<times> 'w \<Rightarrow> account list \<times> 'w" where
  "backfill_subscription_tiers upper_first profile s =
     backfill_each upper_first profile (find_all_accounts (fst s)) s"

text \<open>
  The fetch of the prices, which comes first and does not touch the accounts, is
  \<open>refresh_remote_pricing\<close> of \<open>Pricing\<close>.
\<close>

definition run_startup_maintenance ::
  "(string \<Rightarrow> string) \<Rightarrow> (string \<Rightarrow> 'w \<Rightarrow> profile_reply \<times> 'w) \<Rightarrow>
   (provider_impl \<Rightarrow> account \<Rightarrow> string \<Rightarrow> 'w \<Rightarrow> (string + token_refresh_result) \<times> 'w) \<Rightarrow> provider_registry \<Rightarrow>
     i64 \<Rightarrow> token_manager \<times> account list \<times> 'w \<Rightarrow> token_manager \<times> account list \<times> 'w" where
  "run_startup_maintenance upper_first profile refresher reg now s =
     (case s of (tm, rows, w) \<Rightarrow>
        (case refresh_expired_tokens refresher reg now (tm, snd (clear_rate_limits_at_start rows), w) of
           (tm, rows, w) \<Rightarrow> (tm, backfill_subscription_tiers upper_first profile (rows, w))))"

section \<open>Configuration endpoints\<close>

definition STRATEGIES :: "string list" where
  "STRATEGIES = [''round_robin'', ''priority'', ''session'', ''least_used'']"

definition json_nat :: "nat \<Rightarrow> json" where
  "json_nat n = JNumber (PosInt n)"

definition api_get_config :: "(string \<Rightarrow> f64 option) \<Rightarrow> env_vars \<Rightarrow> config_data \<Rightarrow> api_reply" where
  "api_get_config parse_f64 var data =
     (let rt = get_runtime parse_f64 var data
      in (200, ApiJson (JObject
        [(''lb_strategy'', JString (strategy_as_str (get_strategy var data))),
         (''port'', json_nat (rt_port rt)),
         (''sessionDurationMs'', JNumber (if 0 \<le> rt_session_duration_ms rt
            then PosInt (nat (rt_session_duration_ms rt)) else NegInt (rt_session_duration_ms rt))),
         (''default_agent_model'', JString CONFIG_AGENT_MODEL),
         (''tls_enabled'', JBool False)])))"

definition api_get_strategy :: "env_vars \<Rightarrow> config_data \<Rightarrow> api_reply" where
  "api_get_strategy var data =
     (200, ApiJson (JObject [(''strategy'', JString (strategy_as_str (get_strategy var data)))]))"

definition api_set_strategy :: "json \<Rightarrow> api_reply" where
  "api_set_strategy body =
     (case get_str body ''strategy'' of
        None \<Rightarrow> api_error 400 ''Missing 'strategy' field''
      | Some s \<Rightarrow>
          if s \<notin> set STRATEGIES then
            api_error 400 (''Invalid strategy. Valid: [\"round_robin\", \"priority\", \"session\", \"least_used\"]'')
          else api_ok [(''strategy'', JString s)])"

definition days_error :: "json \<Rightarrow> string \<Rightarrow> int \<Rightarrow> string option" where
  "days_error body k hi =
     (case json_get body k of
        None \<Rightarrow> None
      | Some v \<Rightarrow>
          (case as_i64 v of
             None \<Rightarrow> Some (k @ '' must be an integer'')
           | Some d \<Rightarrow>
               if 1 \<le> d \<and> d \<le> hi then None
               else Some (k @ '' must be between 1 and '' @ show_int hi)))"

definition api_get_retention :: "env_vars \<Rightarrow> config_data \<Rightarrow> api_reply" where
  "api_get_retention var data =
     (200, ApiJson (JObject [(''payloadDays'', json_nat (get_data_retention_days var data)),
        (''requestDays'', json_nat (get_request_retention_days var data))]))"

definition api_set_retention :: "json \<Rightarrow> api_reply" where
  "api_set_retention body =
     (case days_error body ''payloadDays'' 365 of
        Some msg \<Rightarrow> api_error 400 msg
      | None \<Rightarrow>
          (case days_error body ''requestDays'' 3650 of
             Some msg \<Rightarrow> api_error 400 msg
           | None \<Rightarrow> (204, ApiJson JNull)))"

definition api_set_default_model :: "json \<Rightarrow> api_reply" where
  "api_set_default_model body =
     (case get_str body ''model'' of
        Some m \<Rightarrow>
          if trim m \<noteq> [] then api_ok [(''model'', JString (trim m))]
          else api_error 400 ''model (string) is required''
      | None \<Rightarrow> api_error 400 ''model (string) is required'')"

section \<open>Database endpoints\<close>

text \<open>A statement that fails counts as no row deleted. The observations are their times.\<close>

definition maintenance_cleanup ::
  "api_env \<Rightarrow> env_vars \<Rightarrow> config_data \<Rightarrow> request_tables \<times> i64 list \<Rightarrow> api_reply \<times> request_tables \<times> i64 list" where
  "maintenance_cleanup env var data s =
     (case api_conn env of
        Some reply \<Rightarrow> (reply, s)
      | None \<Rightarrow>
          (let payload_days = get_data_retention_days var data;
               request_days = get_request_retention_days var data;
               xfactor_days = get_xfactor_retention_days var data;
               now = ae_now env;
               payload_cutoff = now - int payload_days * 24 * 60 * 60 * 1000;
               request_cutoff = now - int request_days * 24 * 60 * 60 * 1000;
               xfactor_cutoff = now - int xfactor_days * 24 * 60 * 60 * 1000;
               (payloads, t) = delete_payloads_older_than payload_cutoff (fst s);
               (requests, t) = (case delete_older_than request_cutoff t of
                   Inl _ \<Rightarrow> (0, t) | Inr (n, t) \<Rightarrow> (n, t));
               observations = filter (\<lambda>ms. \<not> ms < xfactor_cutoff) (snd s)
           in (api_ok [(''payloadsDeleted'', json_nat payloads), (''requestsDeleted'', json_nat requests),
                 (''xfactorDeleted'', json_nat (length (snd s) - length observations)),
                 (''payloadRetentionDays'', json_nat payload_days),
                 (''requestRetentionDays'', json_nat request_days),
                 (''xfactorRetentionDays'', json_nat xfactor_days)], t, observations)))"

text \<open>\<open>VACUUM\<close> keeps the contents of the tables; it may fail.\<close>

definition maintenance_compact :: "api_env \<Rightarrow> string option \<Rightarrow> api_reply" where
  "maintenance_compact env vacuum_error =
     (case api_conn env of
        Some reply \<Rightarrow> reply
      | None \<Rightarrow>
          (case vacuum_error of
             None \<Rightarrow> (200, ApiJson (JObject [(''ok'', JBool True)]))
           | Some e \<Rightarrow> api_error 500 (''VACUUM failed: '' @ e)))"

definition stats_reset :: "api_env \<Rightarrow> database \<Rightarrow> api_reply \<times> database" where
  "stats_reset env db =
     (case api_conn env of
        Some reply \<Rightarrow> (reply, db)
      | None \<Rightarrow>
          (let db = (if ae_write env then db\<lparr>db_tables := \<lparr>t_requests = [], t_payloads = []\<rparr>\<rparr> else db);
               db = (if ae_write env then db\<lparr>db_accounts := map (\<lambda>a. a\<lparr>request_count := 0, total_requests := 0,
                   session_request_count := 0, session_start := None, last_used := None\<rparr>) (db_accounts db)\<rparr>
                 else db)
           in (api_ok [(''message'', JString ''All request stats have been reset'')], db)))"

section \<open>Correctness\<close>

text \<open>
  C35. The server is bound to an address other than loopback only when an active API key could be
  found at the start, or when the configuration or the environment allows access without keys. A
  database that cannot be read counts as one without keys.
\<close>

theorem exposed_only_with_keys:
  assumes "a \<in> set (listen_on (enforce_loopback_if_no_keys var data keys cfg) cfg)"
  shows "fst a \<in> {''127.0.0.1'', ''::1'', ''localhost''} \<or> is_allow_unauthenticated var data \<or>
    (case keys of None \<Rightarrow> False | Some rows \<Rightarrow> list_ex ak_is_active rows)"
proof -
  have "0 < key_count_active rows \<Longrightarrow> list_ex ak_is_active rows" for rows
    by (auto simp: key_count_active_def list_ex_iff filter_empty_conv)
  then show ?thesis
    using assms by (cases keys)
      (auto simp: listen_on_def enforce_loopback_if_no_keys_def or_default_def split: option.splits if_splits)
qed

theorem exposed_only_with_keys_witness:
  "(''127.0.0.1'', 8080) \<in> set (listen_on (enforce_loopback_if_no_keys (\<lambda>_. None) config_data_default (Some [])
      server_config_default) server_config_default) \<and>
   fst (''127.0.0.1'', 8080 :: nat) \<in> {''127.0.0.1'', ''::1'', ''localhost''}"
proof -
  have "(''127.0.0.1'', 8080) \<in> set (listen_on (enforce_loopback_if_no_keys (\<lambda>_. None) config_data_default (Some [])
      server_config_default) server_config_default)"
    by (simp add: listen_on_def enforce_loopback_if_no_keys_def server_config_default_def DEFAULT_PORT_def
        or_default_def key_count_active_def is_allow_unauthenticated_def flag_def config_data_default_def)
  with exposed_only_with_keys [OF this] show ?thesis
    by (simp add: is_allow_unauthenticated_def flag_def config_data_default_def)
qed

text \<open>
  The restart puts accounts back that an upstream refused or limited: neither reason holds for any
  account afterwards.
\<close>

theorem restart_clears_refusals:
  assumes "b \<in> set (snd (clear_rate_limits_at_start rows))"
  shows "\<not> reason_holds b usage now AuthFailed \<and> \<not> reason_holds b usage now ActiveRateLimit"
  using assms
  by (auto simp: clear_rate_limits_at_start_def Let_def upstream_from_raw_def is_auth_failure_def
      split: if_splits)

theorem restart_clears_refusals_witness:
  "\<not> reason_holds (fresh_account ''a'' ''zai'') (\<lambda>_. None) 0 AuthFailed \<and>
   \<not> reason_holds (fresh_account ''a'' ''zai'') (\<lambda>_. None) 0 ActiveRateLimit"
  by (rule restart_clears_refusals [of _ "[(fresh_account ''a'' ''zai'')\<lparr>rate_limit_status := Some ''auth failed''\<rparr>]"])
    (simp add: clear_rate_limits_at_start_def fresh_account_def)

text \<open>A rejected request is answered without the security headers.\<close>

lemma rejected_without_security_headers:
  assumes "auth_middleware h env clock req st = (Reject r, st')"
  shows "serve h env clock var route req st = (r, st')"
  using assms by (simp add: serve_def)

text \<open>A strategy that is accepted with success is not used afterwards, as nothing is stored.\<close>

lemma strategy_not_stored:
  "fst (api_set_strategy (JObject [(''strategy'', JString ''round_robin'')])) = 200 \<and>
   strategy_as_str (get_strategy var data) = ''session''"
  by (cases "get_strategy var data")
    (simp add: api_set_strategy_def get_str_def json_get_def as_str_def STRATEGIES_def api_ok_def)

text \<open>
  The clean-up on request and the one of the background service, which goes in batches, do the same
  when requests are kept at least as long as payloads.
\<close>

theorem manual_cleanup_same:
  assumes "tables_ok t" "get_data_retention_days var data \<le> get_request_retention_days var data"
    and "api_conn env = None"
  shows "snd (maintenance_cleanup env var data (t, obs)) =
    run_cleanup True (ae_now env)
      \<lparr>data_retention_days = get_data_retention_days var data,
       request_retention_days = get_request_retention_days var data,
       xfactor_retention_days = get_xfactor_retention_days var data\<rparr> (t, obs)"
proof -
  let ?pc = "ae_now env - 86400000 * int (get_data_retention_days var data)"
  let ?rc = "ae_now env - 86400000 * int (get_request_retention_days var data)"
  define t1 where "t1 = t\<lparr>t_payloads := filter (\<lambda>p. pl_request_id p \<notin> old_request_ids ?pc t) (t_payloads t)\<rparr>"
  define t2 where "t2 = t1\<lparr>t_requests := filter (\<lambda>r. ?rc \<le> pr_timestamp r) (t_requests t)\<rparr>"
  have "pr_id r \<notin> set (payload_ids t1)" if "r \<in> set (t_requests t)" "pr_timestamp r < ?rc" for r
  proof -
    have "pr_timestamp r < ?pc" using that(2) assms(2) by linarith
    with that(1) show ?thesis by (auto simp: t1_def payload_ids_def old_request_ids_def image_iff)
  qed
  then have "delete_older_than ?rc t1 = Inr (length (filter (\<lambda>r. pr_timestamp r < ?rc) (t_requests t)), t2)"
    by (auto simp: delete_older_than_def delete_requests_def list_ex_iff t1_def t2_def not_less)
  moreover have "delete_payloads_older_than ?pc t =
      (length (filter (\<lambda>p. pl_request_id p \<in> old_request_ids ?pc t) (t_payloads t)), t1)"
    by (simp add: delete_payloads_older_than_def t1_def Let_def)
  ultimately have manual: "snd (maintenance_cleanup env var data (t, obs)) =
      (t2, filter (\<lambda>ms. ae_now env - 86400000 * int (get_xfactor_retention_days var data) \<le> ms) obs)"
    using assms(3) by (simp add: maintenance_cleanup_def Let_def not_less)
  have days: "d * MS_PER_DAY = 86400000 * d" for d
    by (simp add: MS_PER_DAY_def)
  have "t2 = t\<lparr>t_requests := filter (\<lambda>r. ?rc \<le> pr_timestamp r) (t_requests t),
      t_payloads := filter (\<lambda>p. pl_request_id p \<notin> old_request_ids ?pc t) (t_payloads t)\<rparr>"
    by (cases t) (simp add: t1_def t2_def old_request_ids_def)
  with manual cleanup_result [OF assms(1), of "\<lparr>data_retention_days = get_data_retention_days var data,
       request_retention_days = get_request_retention_days var data,
       xfactor_retention_days = get_xfactor_retention_days var data\<rparr>" "ae_now env" obs] assms(2)
  show ?thesis by (simp add: days)
qed

theorem manual_cleanup_same_witness:
  "snd (maintenance_cleanup demo_api_env (\<lambda>_. None) config_data_default (demo_tables, [0])) =
     run_cleanup True 0 \<lparr>data_retention_days = 7, request_retention_days = 365, xfactor_retention_days = 30\<rparr>
       (demo_tables, [0])"
proof -
  have days: "get_data_retention_days (\<lambda>_. None) config_data_default = 7"
    "get_request_retention_days (\<lambda>_. None) config_data_default = 365"
    "get_xfactor_retention_days (\<lambda>_. None) config_data_default = 30"
    by (simp_all add: get_data_retention_days_def get_request_retention_days_def get_xfactor_retention_days_def
        retention_days_def clamp_def config_data_default_def)
  show ?thesis
    using manual_cleanup_same [OF demo_tables_ok, of "\<lambda>_. None" config_data_default demo_api_env "[0]"]
    by (simp add: days) (simp add: demo_api_env_def api_conn_def)
qed

section \<open>Tokens at the start\<close>

definition new_tokens :: "string \<Rightarrow> i64 \<Rightarrow> string \<Rightarrow> account \<Rightarrow> account" where
  "new_tokens token expires refresh a = a\<lparr>access_token := Some token, expires_at := Some expires, refresh_token := refresh\<rparr>"

lemma startup_io_sel:
  "io_refresh (startup_io f) a c (rows, w) = (case f a c w of (r, w) \<Rightarrow> (r, (rows, w)))"
  "persist_result (startup_io f) i r (rows, w) =
     (on_row i (new_tokens (new_access_token r) (new_expires_at r) (new_refresh_token r)) rows, w)"
proof -
  have "new_tokens t e s = (\<lambda>a. a\<lparr>access_token := Some t, expires_at := Some e, refresh_token := s\<rparr>)" for t e s
    by (simp add: fun_eq_iff new_tokens_def)
  then show "io_refresh (startup_io f) a c (rows, w) = (case f a c w of (r, w) \<Rightarrow> (r, (rows, w)))"
    "persist_result (startup_io f) i r (rows, w) =
       (on_row i (new_tokens (new_access_token r) (new_expires_at r) (new_refresh_token r)) rows, w)"
    by (simp_all add: startup_io_def persist_result_def Let_def)
qed

definition tokens_of_one :: "string \<Rightarrow> account list \<Rightarrow> account list \<Rightarrow> bool" where
  "tokens_of_one i rows rows' \<longleftrightarrow> rows' = rows \<or> (\<exists>t e r. rows' = on_row i (new_tokens t e r) rows)"

lemma tokens_of_one_simps [simp]:
  "tokens_of_one i rows rows" "tokens_of_one i rows (on_row i (new_tokens t e r) rows)"
  by (auto simp: tokens_of_one_def)

lemma refresh_locked_rows:
  "refresh_locked (startup_io f) tm a now (rows, w) = (res, a', tm', rows', w') \<Longrightarrow>
     tokens_of_one (acct_id a) rows rows'"
  by (auto simp: refresh_locked_def startup_io_sel Let_def split: option.splits prod.splits sum.splits)

lemma recover_rows:
  "recover_from_db io tm a now s = (res, a', tm', s') \<Longrightarrow> s' = s"
  by (auto simp: recover_from_db_def Let_def split: option.splits if_splits)

lemma refresh_access_rows:
  "refresh_access_token (startup_io f) tm a now (rows, w) = (res, a', tm', rows', w') \<Longrightarrow>
     tokens_of_one (acct_id a) rows rows'"
  by (auto simp: refresh_access_token_def Let_def dest: refresh_locked_rows dest!: recover_rows
      split: option.splits prod.splits backoff_action.splits)

lemma startup_token_rows:
  "get_valid_access_token (startup_io f) tm a now (rows, w) = (res, a', tm', rows', w') \<Longrightarrow>
     tokens_of_one (acct_id a) rows rows'"
  by (auto simp: get_valid_access_token_def dest: refresh_access_rows split: if_splits option.splits)

lemma startup_change:
  assumes "get_valid_access_token (startup_io f) tm a now (rows, w) = (res, a', tm', rows', w')" "acct_id a \<in> ids"
  shows "list_all2 (token_change ids) rows rows'"
  using startup_token_rows [OF assms(1)] assms(2)
  by (auto simp: tokens_of_one_def on_row_def token_change_def without_tokens_def new_tokens_def list_all2_map2
      list_all2_same)

lemma refresh_each_rows:
  assumes "refresh_each refresher reg now as (tm, rows, w) = (tm', rows', w')"
  shows "list_all2 (token_change {acct_id a |a. a \<in> set as \<and> refreshes_at_start a now}) rows rows'"
  using assms
proof (induction as arbitrary: tm rows w)
  case Nil
  then show ?case by (simp add: token_change_def list_all2_same)
next
  case (Cons a as)
  let ?ids = "{acct_id b |b. b \<in> set (a # as) \<and> refreshes_at_start b now}"
  have wider: "list_all2 (token_change ?ids) xs ys"
    if "list_all2 (token_change {acct_id b |b. b \<in> set as \<and> refreshes_at_start b now}) xs ys" for xs ys
    using that by (auto simp: token_change_def elim!: list_all2_mono)
  show ?case
  proof (cases "refreshes_at_start a now \<and> reg_get reg (provider a) \<noteq> None")
    case False
    with Cons.prems have "refresh_each refresher reg now as (tm, rows, w) = (tm', rows', w')"
      by (auto split: option.splits if_splits)
    from wider [OF Cons.IH [OF this]] show ?thesis .
  next
    case True
    then obtain p where p: "reg_get reg (provider a) = Some p" by blast
    obtain res b tm1 rows1 w1 where one: "get_valid_access_token (startup_io (refresher p)) tm a now (rows, w) =
        (res, b, tm1, rows1, w1)"
      by (metis prod.exhaust)
    with True p Cons.prems have "refresh_each refresher reg now as (tm1, rows1, w1) = (tm', rows', w')"
      by simp
    then have rest: "list_all2 (token_change ?ids) rows1 rows'"
      by (rule wider [OF Cons.IH])
    have "acct_id a \<in> ?ids"
      using True by auto
    from rows_trans [OF startup_change [OF one this] rest] show ?thesis .
  qed
qed

text \<open>
  The refresh of tokens at the start touches the accounts of an Anthropic provider that have a
  refresh token and no access token that is still good, and of these only the tokens.
\<close>

theorem startup_refresh_local:
  assumes "refresh_expired_tokens refresher reg now (tm, rows, w) = (tm', rows', w')"
  shows "list_all2 (token_change {acct_id a |a. a \<in> set rows \<and> refreshes_at_start a now}) rows rows'"
proof -
  have "refresh_each refresher reg now (find_all_accounts rows) (tm, rows, w) = (tm', rows', w')"
    using assms by (simp add: refresh_expired_tokens_def)
  from refresh_each_rows [OF this] show ?thesis
    by (simp add: find_all_accounts_def)
qed

theorem startup_refresh_local_witness:
  "list_all2 (token_change {acct_id a |a. a \<in> set [fresh_account ''a'' ''zai''] \<and> refreshes_at_start a 0})
     [fresh_account ''a'' ''zai''] [fresh_account ''a'' ''zai'']"
  by (rule startup_refresh_local [of "\<lambda>p a c w. (Inl [], w)" create_provider_registry 0 "token_manager_new []" _ "()"])
    (simp add: refresh_expired_tokens_def find_all_accounts_def refreshes_at_start_def fresh_account_def)

end
