(* ===== verification/Claude_OAuth.thy ===== *)
theory Claude_OAuth
  imports Server Crypto
begin

text \<open>
  The OAuth side of the Claude provider, \<open>providers/src/impls/claude_oauth.rs\<close> and \<open>pkce.rs\<close>: the
  state token against cross-site requests, the authorization address, the exchange of a code and
  the refresh of a token. Base64, SHA-256, JSON text and the two HTTP endpoints are parameters; the
  endpoints thread a world. Messages of library errors are left out of the texts they are put into.
\<close>

definition TOKEN_URL :: string where "TOKEN_URL = ''https://console.anthropic.com/v1/oauth/token''"
definition REDIRECT_URI :: string where "REDIRECT_URI = ''https://console.anthropic.com/oauth/code/callback''"
definition SCOPES :: string where "SCOPES = ''org:create_api_key user:profile user:inference''"
definition STATE_MAX_AGE_MS :: i64 where "STATE_MAX_AGE_MS = 600000"

datatype provider_error =
    HttpFailed
  | JsonFailed
  | TokenRefreshFailed string
  | OtherFailed string

text \<open>What the libraries compute.\<close>

record oauth_codecs =
  oc_b64_encode :: "string \<Rightarrow> string"
  oc_b64_decode :: "string \<Rightarrow> string option"
  oc_sha256 :: "string \<Rightarrow> string"
  oc_to_text :: "json \<Rightarrow> string"
  oc_from_text :: "string \<Rightarrow> json option"
  oc_upper_first :: "string \<Rightarrow> string"

section \<open>The state token\<close>

record csrf_state =
  cs_token :: string
  cs_timestamp :: i64

text \<open>\<open>random\<close> are the 32 random bytes.\<close>

definition csrf_generate :: "string \<Rightarrow> i64 \<Rightarrow> csrf_state" where
  "csrf_generate random now = \<lparr>cs_token = hex_encode random, cs_timestamp = now\<rparr>"

definition json_i64 :: "i64 \<Rightarrow> json" where
  "json_i64 n = JNumber (if 0 \<le> n then PosInt (nat n) else NegInt n)"

definition csrf_json :: "csrf_state \<Rightarrow> json" where
  "csrf_json c =
     JObject [(''csrfToken'', JString (cs_token c)), (''timestamp'', json_i64 (cs_timestamp c))]"

definition csrf_of_json :: "json \<Rightarrow> csrf_state option" where
  "csrf_of_json j =
     (case (get_str j ''csrfToken'', Option.bind (json_get j ''timestamp'') as_i64) of
        (Some t, Some ts) \<Rightarrow> Some \<lparr>cs_token = t, cs_timestamp = ts\<rparr>
      | _ \<Rightarrow> None)"

definition csrf_encode :: "oauth_codecs \<Rightarrow> csrf_state \<Rightarrow> string" where
  "csrf_encode oc c = oc_b64_encode oc (oc_to_text oc (csrf_json c))"

definition csrf_decode :: "oauth_codecs \<Rightarrow> string \<Rightarrow> provider_error + csrf_state" where
  "csrf_decode oc encoded =
     (case oc_b64_decode oc encoded of
        None \<Rightarrow> Inl (OtherFailed ''Invalid base64url state'')
      | Some bytes \<Rightarrow>
          if \<not> utf8_valid bytes then Inl (OtherFailed ''Invalid UTF-8 state'')
          else (case Option.bind (oc_from_text oc bytes) csrf_of_json of
                  None \<Rightarrow> Inl JsonFailed
                | Some c \<Rightarrow> Inr c))"

definition csrf_validate :: "csrf_state \<Rightarrow> i64 \<Rightarrow> provider_error + unit" where
  "csrf_validate c now =
     (let age = i64_sub now (cs_timestamp c)
      in if age > STATE_MAX_AGE_MS then 
           Inl (OtherFailed (''CSRF state expired ('' @ show_int age @ ''ms > '' @ show_int STATE_MAX_AGE_MS @ ''ms)''))
         else if age < 0 then Inl (OtherFailed ''CSRF state timestamp is in the future'')
         else Inr ())"

section \<open>The authorization address\<close>

record pkce_challenge =
  pk_verifier :: string
  pk_challenge :: string

definition pkce_generate :: "oauth_codecs \<Rightarrow> string \<Rightarrow> pkce_challenge" where
  "pkce_generate oc random =
     (let verifier = oc_b64_encode oc random
      in \<lparr>pk_verifier = verifier, pk_challenge = oc_b64_encode oc (oc_sha256 oc verifier)\<rparr>)"

definition unreserved :: "char \<Rightarrow> bool" where
  "unreserved c \<longleftrightarrow>
     in_range 65 90 c \<or> in_range 97 122 c \<or> in_range 48 57 c \<or>
     c = CHR ''-'' \<or> c = CHR ''_'' \<or> c = CHR ''.'' \<or> c = CHR ''~''"

definition percent_encode :: "string \<Rightarrow> string" where
  "percent_encode s =
     concat (map (\<lambda>c. if unreserved c then [c]
       else [CHR ''%'', hex_char (byte c div 16), hex_char (byte c mod 16)]) s)"

definition build_authorize_url :: "claude_mode \<Rightarrow> string \<Rightarrow> string \<Rightarrow> string \<Rightarrow> string" where
  "build_authorize_url mode st client challenge =
     (let params = ''code=true&client_id='' @ client @ ''&response_type=code&redirect_uri='' @
            REDIRECT_URI @ ''&scope='' @ SCOPES @ ''&code_challenge='' @ challenge @
            ''&code_challenge_method=S256&state='' @ st
      in case mode of
           ClaudeOAuthMode' \<Rightarrow>
             ''https://claude.ai/login?selectAccount=true&returnTo='' @
               percent_encode (''/oauth/authorize?'' @ params)
         | ConsoleMode' \<Rightarrow> ''https://console.anthropic.com/oauth/authorize?'' @ params)"

definition generate_auth_url ::
  "oauth_codecs \<Rightarrow> claude_mode \<Rightarrow> string \<Rightarrow> string \<Rightarrow> string \<Rightarrow> string \<times> string" where
  "generate_auth_url oc mode st client random =
     (let pkce = pkce_generate oc random
      in (build_authorize_url mode st client (pk_challenge pkce), pk_verifier pkce))"

section \<open>The token endpoint\<close>

text \<open>A request that cannot be sent, an answer whose text cannot be read, or a status with its text.\<close>

datatype token_reply = TokenUnsent | TokenUnread nat | TokenReply nat string

record 'w oauth_io =
  oi_codecs :: oauth_codecs
  oi_post :: "json \<Rightarrow> 'w \<Rightarrow> token_reply \<times> 'w"
  oi_profile :: "string \<Rightarrow> 'w \<Rightarrow> profile_reply \<times> 'w"
  oi_now :: "'w \<Rightarrow> i64"

definition str_or_empty :: "string option \<Rightarrow> string" where
  "str_or_empty x = (case x of Some s \<Rightarrow> s | None \<Rightarrow> [])"

definition parse_token_response ::
  "oauth_codecs \<Rightarrow> i64 \<Rightarrow> string \<Rightarrow> provider_error + token_refresh_result" where
  "parse_token_response oc now text' =
     (case oc_from_text oc text' of
        None \<Rightarrow> Inl JsonFailed
      | Some j \<Rightarrow>
          (case get_str j ''access_token'' of
             None \<Rightarrow> Inl (TokenRefreshFailed ''Missing access_token'')
           | Some access \<Rightarrow>
               (let expires_in = (case Option.bind (json_get j ''expires_in'') as_i64 of
                      Some n \<Rightarrow> n | None \<Rightarrow> 3600)
                in Inr \<lparr>new_access_token = access,
                     new_expires_at = i64_add now (i64_mul expires_in 1000),
                     new_refresh_token = str_or_empty (get_str j ''refresh_token''),
                     new_subscription_tier = None,
                     new_email = nested_str j ''account'' ''email_address''\<rparr>)))"

definition fetch_subscription_tier :: "'w oauth_io \<Rightarrow> string \<Rightarrow> 'w \<Rightarrow> string option \<times> 'w" where
  "fetch_subscription_tier io access w =
     (case oi_profile io access w of
        (SendFailed, w) \<Rightarrow> (None, w)
      | (ProfileReply status body, w) \<Rightarrow>
          if \<not> (200 \<le> status \<and> status < 300) then (None, w)
          else (case body of
                  None \<Rightarrow> (None, w)
                | Some j \<Rightarrow>
                    (build_tier_label (oc_upper_first (oi_codecs io))
                       (nested_str j ''organization'' ''organization_type'')
                       (nested_str j ''organization'' ''rate_limit_tier''), w)))"

definition exchange_body :: "string \<Rightarrow> string \<Rightarrow> string \<Rightarrow> string \<Rightarrow> json" where
  "exchange_body code st verifier client =
     JObject [(''code'', JString code), (''state'', JString st),
       (''grant_type'', JString ''authorization_code''), (''client_id'', JString client),
       (''redirect_uri'', JString REDIRECT_URI), (''code_verifier'', JString verifier)]"

definition token_exchange ::
  "'w oauth_io \<Rightarrow> string \<Rightarrow> string \<Rightarrow> string \<Rightarrow> string \<Rightarrow> 'w \<Rightarrow>
     (provider_error + token_refresh_result) \<times> 'w" where
  "token_exchange io code st verifier client w =
     (let actual_code = hd (split_on (CHR ''#'') code)
      in case oi_post io (exchange_body actual_code st verifier client) w of
           (TokenUnsent, w) \<Rightarrow> (Inl HttpFailed, w)
         | (TokenUnread status, w) \<Rightarrow> (Inl HttpFailed, w)
         | (TokenReply status text', w) \<Rightarrow>
             if \<not> (200 \<le> status \<and> status < 300) then
               (Inl (TokenRefreshFailed (''Token exchange failed ('' @ show_nat status @ ''): '' @
                  concat (take 200 (str_chars text')))), w)
             else (case parse_token_response (oi_codecs io) (oi_now io w) text' of
                     Inl e \<Rightarrow> (Inl e, w)
                   | Inr r \<Rightarrow>
                       (case fetch_subscription_tier io (new_access_token r) w of
                          (tier, w) \<Rightarrow> (Inr (r\<lparr>new_subscription_tier := tier\<rparr>), w))))"

definition refresh_body :: "string \<Rightarrow> string \<Rightarrow> json" where
  "refresh_body token client =
     JObject [(''grant_type'', JString ''refresh_token''), (''refresh_token'', JString token),
       (''client_id'', JString client)]"

definition em_dash :: string where
  "em_dash = map (char_of :: nat \<Rightarrow> char) [0xE2, 0x80, 0x94]"

definition token_revoked :: "oauth_codecs \<Rightarrow> string \<Rightarrow> bool" where
  "token_revoked oc text' =
     (case oc_from_text oc text' of
        None \<Rightarrow> False
      | Some j \<Rightarrow>
          str_or_empty (get_str j ''error'') \<in> {''invalid_grant'', ''invalid_refresh_token''})"

definition do_refresh ::
  "'w oauth_io \<Rightarrow> string \<Rightarrow> string \<Rightarrow> 'w \<Rightarrow> (provider_error + token_refresh_result) \<times> 'w" where
  "do_refresh io token client w =
     (case oi_post io (refresh_body token client) w of
        (TokenUnsent, w) \<Rightarrow> (Inl HttpFailed, w)
      | (TokenUnread status, w) \<Rightarrow> (Inl HttpFailed, w)
      | (TokenReply status text', w) \<Rightarrow>
          if \<not> (200 \<le> status \<and> status < 300) then
            (if token_revoked (oi_codecs io) text' then
               (Inl (TokenRefreshFailed (''Refresh token revoked '' @ em_dash @ '' account needs re-authentication'')), w)
             else
               (Inl (TokenRefreshFailed (''Token refresh failed ('' @ show_nat status @ ''): '' @ text')), w))
          else (parse_token_response (oi_codecs io) (oi_now io w) text', w))"

definition claude_refresh_token ::
  "'w oauth_io \<Rightarrow> account \<Rightarrow> string \<Rightarrow> 'w \<Rightarrow> (provider_error + token_refresh_result) \<times> 'w" where
  "claude_refresh_token io a client w =
     (case api_key a of
        Some key \<Rightarrow>
          (Inr \<lparr>new_access_token = key, new_expires_at = i64_add (oi_now io w) (24 * 60 * 60 * 1000),
             new_refresh_token = [], new_subscription_tier = None, new_email = None\<rparr>, w)
      | None \<Rightarrow>
          if refresh_token a = [] then (Inl (TokenRefreshFailed ''No refresh token available''), w)
          else (case do_refresh io (refresh_token a) client w of
                  (Inl e, w) \<Rightarrow> (Inl e, w)
                | (Inr r, w) \<Rightarrow>
                    (let r = (if new_refresh_token r = []
                              then r\<lparr>new_refresh_token := refresh_token a\<rparr> else r)
                     in case fetch_subscription_tier io (new_access_token r) w of
                          (tier, w) \<Rightarrow> (Inr (r\<lparr>new_subscription_tier := tier\<rparr>), w))))"

section \<open>Round trips\<close>

text \<open>
  What the state token relies on: base64 and JSON text can be read back, and JSON text is UTF-8.
\<close>

definition text_laws :: "oauth_codecs \<Rightarrow> bool" where
  "text_laws oc \<longleftrightarrow>
     (\<forall>bytes. oc_b64_decode oc (oc_b64_encode oc bytes) = Some bytes) \<and>
     (\<forall>random now. in_i64 now \<longrightarrow>
        (let j = csrf_json (csrf_generate random now)
         in utf8_valid (oc_to_text oc j) \<and> oc_from_text oc (oc_to_text oc j) = Some j))"

lemma csrf_json_read: "in_i64 (cs_timestamp c) \<Longrightarrow> csrf_of_json (csrf_json c) = Some c"
  by (cases c) (auto simp: csrf_of_json_def csrf_json_def json_get_def get_str_def as_str_def as_i64_def
      json_i64_def in_i64_def)

lemma state_roundtrip:
  assumes "text_laws oc" "in_i64 now"
  shows "csrf_decode oc (csrf_encode oc (csrf_generate random now)) = Inr (csrf_generate random now)"
proof -
  have "csrf_of_json (csrf_json (csrf_generate random now)) = Some (csrf_generate random now)"
    using assms(2) by (intro csrf_json_read) (simp add: csrf_generate_def)
  then show ?thesis
    using assms by (simp add: csrf_decode_def csrf_encode_def text_laws_def Let_def)
qed

text \<open>What a server reads from an encoded address.\<close>

definition hex_digit :: "char \<Rightarrow> nat" where
  "hex_digit c = (if byte c < 58 then byte c - 48 else byte c - 87)"

fun percent_read :: "string \<Rightarrow> string" where
  "percent_read (c # a # b # s) =
     (if c = CHR ''%'' then char_of (16 * hex_digit a + hex_digit b) # percent_read s
      else c # percent_read (a # b # s))"
| "percent_read s = s"

lemma percent_read_plain: "c \<noteq> CHR ''%'' \<Longrightarrow> percent_read (c # s) = c # percent_read s"
  by (cases "(c # s)" rule: percent_read.cases) simp_all

lemma hex_digit_char: "n < 16 \<Longrightarrow> hex_digit (hex_char n) = n"
  by (auto simp: hex_digit_def hex_char_def byte_def of_char_of)

lemma unreserved_percent: "\<not> unreserved (CHR ''%'')"
  by (simp add: unreserved_def in_range_def byte_def)

text \<open>
  The address in the login link is read back as it was: percent-encoding loses nothing, and what
  it leaves are only unreserved characters and escapes.
\<close>

theorem oauth_percent_roundtrip:
  "percent_read (percent_encode s) = s \<and>
   set (percent_encode s) \<subseteq> {c. unreserved c} \<union> {CHR ''%''}"
proof (induction s)
  case (Cons c s)
  have e: "percent_encode (c # s) = (if unreserved c then [c]
      else [CHR ''%'', hex_char (byte c div 16), hex_char (byte c mod 16)]) @ percent_encode s"
    by (simp add: percent_encode_def)
  have b: "byte c < 256"
    by (simp add: byte_def)
  have hex: "unreserved (hex_char n)" if "n < 16" for n
    using that by (auto simp: hex_char_def unreserved_def in_range_def byte_def of_char_of)
  show ?case
  proof (cases "unreserved c")
    case True
    then have "c \<noteq> CHR ''%''" using unreserved_percent by blast
    with True Cons show ?thesis by (simp add: e percent_read_plain)
  next
    case False
    have "char_of (16 * (byte c div 16) + byte c mod 16) = c"
      by (simp add: byte_def)
    with False Cons b show ?thesis
      by (simp add: e hex_digit_char hex)
  qed
qed (simp add: percent_encode_def)

section \<open>Refreshing\<close>

text \<open>
  A refresh never loses the refresh token: what it returns for an OAuth account is the new one of
  the provider, or the one the account has.
\<close>

theorem refresh_keeps_token:
  assumes "api_key a = None" "claude_refresh_token io a client w = (Inr r, w')"
  shows "new_refresh_token r \<noteq> [] \<and> refresh_token a \<noteq> []"
  using assms
  by (auto simp: claude_refresh_token_def Let_def split: if_splits sum.splits prod.splits)

end
