(* ===== verification/OAuth_Flow.thy ===== *)
theory OAuth_Flow
  imports Claude_OAuth
begin

text \<open>
  Re-authentication through the browser: \<open>proxy/src/oauth.rs\<close> with the sessions of
  \<open>database/src/repositories/oauth.rs\<close>. An address is handed out for an account and its verifier is
  kept under the token of the state; whoever returns with a code and that state within ten minutes
  has the new tokens stored for the account, once. SQL statements succeed once there is a
  connection.
\<close>

section \<open>The sessions\<close>

record oauth_session =
  os_id :: string
  os_account :: string
  os_verifier :: string
  os_mode :: string
  os_endpoint :: "string option"
  os_created :: i64
  os_expires :: i64

definition create_session ::
  "string \<Rightarrow> string \<Rightarrow> string \<Rightarrow> string \<Rightarrow> string option \<Rightarrow> i64 \<Rightarrow> i64 \<Rightarrow> oauth_session list \<Rightarrow>
     oauth_session list option" where
  "create_session i acct verifier mode endpoint now ttl_minutes sessions =
     (if i \<in> os_id ` set sessions then None
      else Some (sessions @ [\<lparr>os_id = i, os_account = acct, os_verifier = verifier, os_mode = mode,
        os_endpoint = endpoint, os_created = now,
        os_expires = i64_add now (i64_mul (i64_mul ttl_minutes 60) 1000)\<rparr>]))"

definition get_session :: "string \<Rightarrow> i64 \<Rightarrow> oauth_session list \<Rightarrow> oauth_session option" where
  "get_session i now sessions = find (\<lambda>s. os_id s = i \<and> os_expires s > now) sessions"

definition delete_session :: "string \<Rightarrow> oauth_session list \<Rightarrow> oauth_session list" where
  "delete_session i sessions = filter (\<lambda>s. os_id s \<noteq> i) sessions"

definition cleanup_expired_sessions :: "i64 \<Rightarrow> oauth_session list \<Rightarrow> nat \<times> oauth_session list" where
  "cleanup_expired_sessions now sessions =
     (length (filter (\<lambda>s. os_expires s \<le> now) sessions), filter (\<lambda>s. \<not> os_expires s \<le> now) sessions)"

definition PENDING_TTL_MS :: i64 where "PENDING_TTL_MS = 10 * 60 * 1000"

definition db_insert_pending ::
  "bool \<Rightarrow> i64 \<Rightarrow> string \<Rightarrow> string \<Rightarrow> string \<Rightarrow> oauth_session list \<Rightarrow> oauth_session list option" where
  "db_insert_pending conn_ok now csrf_token acct verifier sessions =
     (if \<not> conn_ok then None
      else (let sessions = filter (\<lambda>s. \<not> os_expires s < now) sessions
            in Some (filter (\<lambda>s. os_id s \<noteq> csrf_token) sessions @
                 [\<lparr>os_id = csrf_token, os_account = acct, os_verifier = verifier, os_mode = ''reauth'',
                   os_endpoint = None, os_created = now, os_expires = i64_add now PENDING_TTL_MS\<rparr>])))"

definition db_take_pending ::
  "bool \<Rightarrow> i64 \<Rightarrow> string \<Rightarrow> oauth_session list \<Rightarrow> (string \<times> string) option \<times> oauth_session list" where
  "db_take_pending conn_ok now csrf_token sessions =
     (if \<not> conn_ok then (None, sessions)
      else (case find (\<lambda>s. os_id s = csrf_token \<and> os_expires s > now) sessions of
              None \<Rightarrow> (None, sessions)
            | Some s \<Rightarrow>
                (Some (os_account s, os_verifier s), filter (\<lambda>s. os_id s \<noteq> csrf_token) sessions)))"

section \<open>The code\<close>

definition split_once :: "char \<Rightarrow> string \<Rightarrow> (string \<times> string) option" where
  "split_once c s =
     (if c \<in> set s then Some (takeWhile (\<lambda>x. x \<noteq> c) s, tl (dropWhile (\<lambda>x. x \<noteq> c) s)) else None)"

text \<open>\<open>str::replace\<close> of \<open>%23\<close> by \<open>#\<close>.\<close>

fun unescape_hash :: "string \<Rightarrow> string" where
  "unescape_hash (c # a # b # s) =
     (if [c, a, b] = ''%23'' then CHR ''#'' # unescape_hash s else c # unescape_hash (a # b # s))"
| "unescape_hash s = s"

fun read_params ::
  "string list \<Rightarrow> string option \<times> string option \<Rightarrow> string option \<times> string option" where
  "read_params [] (code, st) = (code, st)"
| "read_params (p # ps) (code, st) =
     (case split_once (CHR ''='') p of
        None \<Rightarrow> read_params ps (code, st)
      | Some (key, val) \<Rightarrow>
          if key = ''code'' then read_params ps (Some (unescape_hash val), st)
          else if key = ''state'' then read_params ps (code, Some val)
          else read_params ps (code, st))"

definition code_hash_state :: "string \<Rightarrow> string \<times> string option" where
  "code_hash_state s =
     (case split_once (CHR ''#'') s of
        Some (code, st) \<Rightarrow> (code, Some st)
      | None \<Rightarrow> (s, None))"

definition extract_code_from_input :: "string \<Rightarrow> string \<times> string option" where
  "extract_code_from_input input =
     (let trimmed = trim input
      in if starts_with trimmed ''http'' then
           (let (url_part, fragment) =
                  (case split_once (CHR ''#'') trimmed of
                     Some (u, f) \<Rightarrow> (u, Some f)
                   | None \<Rightarrow> (trimmed, None));
                (code, st) =
                  (case split_once (CHR ''?'') url_part of
                     Some (_, query) \<Rightarrow> read_params (split_on (CHR ''&'') query) (None, None)
                   | None \<Rightarrow> (None, None))
            in case code of
                 Some c \<Rightarrow>
                   (c, if st = None
                       then (case fragment of Some f \<Rightarrow> if f \<noteq> [] then Some f else None | None \<Rightarrow> None)
                       else st)
               | None \<Rightarrow> code_hash_state trimmed)
         else code_hash_state trimmed)"

section \<open>The endpoints\<close>

text \<open>
  What the handlers find: a pool, whether it gives a connection at each of the three uses, the
  registry, the client id, and the outside world of the provider.
\<close>

record 'w flow_env =
  fe_pool :: bool
  fe_lookup_conn :: bool
  fe_session_conn :: bool
  fe_store_conn :: bool
  fe_registry :: "provider_registry option"
  fe_client :: string
  fe_io :: "'w oauth_io"
  fe_random :: "'w \<Rightarrow> (string \<times> string) \<times> 'w"

record 'w flow_state =
  fs_rows :: "account list"
  fs_sessions :: "oauth_session list"
  fs_tokens :: "token_manager option"
  fs_world :: 'w

definition internal_error :: api_reply where
  "internal_error = api_error 500 ''Internal server error''"

text \<open>Only the two modes of the Claude provider are registered for OAuth (\<open>reg_register_oauth\<close>).\<close>

definition login_mode :: "'w flow_env \<Rightarrow> string \<Rightarrow> account list \<Rightarrow> api_reply + claude_mode" where
  "login_mode env i rows =
     (if \<not> fe_pool env then Inl internal_error
      else if \<not> fe_lookup_conn env then Inl internal_error
      else case find (\<lambda>a. acct_id a = i) rows of
          None \<Rightarrow> Inl (api_error 404 ''Account not found'')
        | Some a \<Rightarrow>
            if provider a \<noteq> ''anthropic'' \<and> provider a \<noteq> ''claude-oauth'' then
              Inl (api_error 400 ''Only OAuth accounts can be re-authenticated via browser'')
            else (case fe_registry env of
                None \<Rightarrow> Inl internal_error
              | Some reg \<Rightarrow>
                  (let name = (if provider a = ''anthropic'' then ''claude-oauth'' else provider a)
                   in case hm_get (reg_oauth reg) name of
                        Some (ClaudeImpl mode) \<Rightarrow> Inr mode
                      | _ \<Rightarrow> Inl internal_error)))"

definition begin_login ::
  "'w flow_env \<Rightarrow> claude_mode \<Rightarrow> string \<Rightarrow> 'w flow_state \<Rightarrow> api_reply \<times> 'w flow_state" where
  "begin_login env mode i st =
     (case fe_random env (fs_world st) of
        ((random1, random2), w) \<Rightarrow>
          (let oc = oi_codecs (fe_io env);
               csrf = csrf_generate random1 (oi_now (fe_io env) w);
               (url, verifier) =
                 generate_auth_url oc mode (csrf_encode oc csrf) (fe_client env) random2
           in case db_insert_pending (fe_session_conn env) (oi_now (fe_io env) w)
                  (cs_token csrf) i verifier (fs_sessions st) of
                None \<Rightarrow> (internal_error, st\<lparr>fs_world := w\<rparr>)
              | Some sessions \<Rightarrow>
                  ((200, ApiJson (JObject [(''url'', JString url)])),
                   st\<lparr>fs_world := w, fs_sessions := sessions\<rparr>)))"

definition oauth_init :: "'w flow_env \<Rightarrow> string \<Rightarrow> 'w flow_state \<Rightarrow> api_reply \<times> 'w flow_state" where
  "oauth_init env i st =
     (case login_mode env i (fs_rows st) of
        Inl reply \<Rightarrow> (reply, st)
      | Inr mode \<Rightarrow> begin_login env mode i st)"

definition clear_limits :: "string \<Rightarrow> account list \<Rightarrow> account list" where
  "clear_limits i rows =
     on_row i (\<lambda>a. a\<lparr>rate_limit_status := None, rate_limit_reset := None,
       rate_limit_remaining := None, rate_limited_until := None\<rparr>) rows"

definition store_tokens :: "i64 \<Rightarrow> string \<Rightarrow> token_refresh_result \<Rightarrow> account list \<Rightarrow> account list" where
  "store_tokens now i r rows =
     (let rows = update_tokens now (new_access_token r) (new_expires_at r) (Some (new_refresh_token r)) i rows;
          rows = clear_limits i rows;
          rows = (case new_subscription_tier r of
                    Some tier \<Rightarrow> set_subscription_tier (Some tier) i rows | None \<Rightarrow> rows)
      in case new_email r of Some e \<Rightarrow> set_email (Some e) i rows | None \<Rightarrow> rows)"

definition missing_state :: string where
  "missing_state = ''Missing OAuth state. Paste the full URL or the code#state value from the callback page.''"

definition session_gone :: string where
  "session_gone = ''OAuth session expired or already used. Click Re-auth to start a new flow.''"

definition exchange_and_persist ::
  "'w flow_env \<Rightarrow> string \<Rightarrow> string option \<Rightarrow> 'w flow_state \<Rightarrow> (string + string) \<times> 'w flow_state" where
  "exchange_and_persist env code_input explicit_state st =
     (case (case explicit_state of
              Some s \<Rightarrow> Some (code_input, s)
            | None \<Rightarrow> split_once (CHR ''#'') code_input) of
        None \<Rightarrow> (Inl missing_state, st)
      | Some (code, csrf_encoded) \<Rightarrow>
          (case csrf_decode (oi_codecs (fe_io env)) csrf_encoded of
             Inl e \<Rightarrow> (Inl ''Invalid OAuth state parameter'', st)
           | Inr csrf \<Rightarrow>
               if \<not> fe_pool env then (Inl ''Internal server error'', st)
               else (case db_take_pending (fe_session_conn env) (oi_now (fe_io env) (fs_world st))
                        (cs_token csrf) (fs_sessions st) of
                  (None, sessions) \<Rightarrow>
                    (Inl session_gone, st\<lparr>fs_sessions := sessions\<rparr>)
                | (Some (i, verifier), sessions) \<Rightarrow>
                    (let st = st\<lparr>fs_sessions := sessions\<rparr>
                     in case Option.bind (fe_registry env) (\<lambda>r. hm_get (reg_oauth r) ''claude-oauth'') of
                          None \<Rightarrow> (Inl ''Internal server error'', st)
                        | Some p \<Rightarrow>
                            (case token_exchange (fe_io env) code csrf_encoded verifier (fe_client env)
                                    (fs_world st) of
                               (Inl e, w) \<Rightarrow> (Inl ''Authentication failed'', st\<lparr>fs_world := w\<rparr>)
                             | (Inr r, w) \<Rightarrow>
                                 (let st = st\<lparr>fs_world := w\<rparr>
                                  in if \<not> fe_store_conn env then (Inl ''Internal server error'', st)
                                     else
                                       (Inr ''Account re-authenticated successfully!'',
                                        st\<lparr>fs_rows := store_tokens (oi_now (fe_io env) w) i r (fs_rows st),
                                          fs_tokens := map_option (\<lambda>tm. clear_account_state tm i) (fs_tokens st)\<rparr>)))))))"

definition replace_char :: "char \<Rightarrow> string \<Rightarrow> string \<Rightarrow> string" where
  "replace_char c by' s = concat (map (\<lambda>x. if x = c then by' else [x]) s)"

definition html_escape :: "string \<Rightarrow> string" where
  "html_escape s =
     replace_char (CHR 34) ''&quot;'' (replace_char (CHR ''>'') ''&gt;''
       (replace_char (CHR ''<'') ''&lt;'' (replace_char (CHR ''&'') ''&amp;'' s)))"

text \<open>The page without its fixed markup: icon, colour, title and the escaped message.\<close>

record callback_page =
  pg_icon :: string
  pg_color :: string
  pg_title :: string
  pg_message :: string

definition render_callback_page :: "bool \<Rightarrow> string \<Rightarrow> callback_page" where
  "render_callback_page success message =
     (if success
      then \<lparr>pg_icon = ''&#10003;'', pg_color = ''#22c55e'', pg_title = ''Re-authenticated'',
        pg_message = html_escape message\<rparr>
      else \<lparr>pg_icon = ''&#10007;'', pg_color = ''#ef4444'', pg_title = ''Authentication Failed'',
        pg_message = html_escape message\<rparr>)"

definition oauth_callback ::
  "'w flow_env \<Rightarrow> string option \<Rightarrow> string option \<Rightarrow> 'w flow_state \<Rightarrow> callback_page \<times> 'w flow_state" where
  "oauth_callback env code state_param st =
     (case code of
        None \<Rightarrow> (render_callback_page False ''Invalid callback request'', st)
      | Some code \<Rightarrow>
          (case exchange_and_persist env code state_param st of
             (Inr msg, st) \<Rightarrow> (render_callback_page True msg, st)
           | (Inl msg, st) \<Rightarrow> (render_callback_page False msg, st)))"

definition oauth_complete :: "'w flow_env \<Rightarrow> string \<Rightarrow> 'w flow_state \<Rightarrow> api_reply \<times> 'w flow_state" where
  "oauth_complete env input st =
     (case extract_code_from_input input of
        (code, explicit_state) \<Rightarrow>
          (case exchange_and_persist env code explicit_state st of
             (Inr msg, st) \<Rightarrow> (api_ok [(''message'', JString msg)], st)
           | (Inl msg, st) \<Rightarrow> (api_error 400 msg, st)))"

section \<open>Only the account the address was for\<close>

lemma on_row_others: "filter (\<lambda>a. acct_id a \<noteq> i) (on_row i f rows) = filter (\<lambda>a. acct_id a \<noteq> i) rows"
  if "\<And>a. acct_id (f a) = acct_id a"
  using that by (induction rows) (auto simp: on_row_def)

lemma store_tokens_others:
  "filter (\<lambda>a. acct_id a \<noteq> i) (store_tokens now i r rows) = filter (\<lambda>a. acct_id a \<noteq> i) rows"
  by (simp add: store_tokens_def Let_def update_tokens_def clear_limits_def set_subscription_tier_def
      set_email_def on_row_others split: option.split)

lemma take_pending_Some:
  "db_take_pending ok now t sessions = (Some (i, verifier), sessions') \<Longrightarrow>
     (\<exists>s \<in> set sessions. os_id s = t \<and> os_expires s > now \<and> os_account s = i \<and> os_verifier s = verifier) \<and>
     sessions' = filter (\<lambda>s. os_id s \<noteq> t) sessions"
  by (auto simp: db_take_pending_def find_Some_iff split: if_splits option.splits intro: nth_mem)

lemma take_pending_None: "db_take_pending ok now t sessions = (None, sessions') \<Longrightarrow> sessions' = sessions"
  by (auto simp: db_take_pending_def split: if_splits option.splits)

text \<open>The encoded state of a request, and what a run of the exchange is once it is taken.\<close>

definition state_of_input :: "string \<Rightarrow> string option \<Rightarrow> (string \<times> string) option" where
  "state_of_input code_input explicit_state =
     (case explicit_state of
        Some s \<Rightarrow> Some (code_input, s)
      | None \<Rightarrow> split_once (CHR ''#'') code_input)"

definition stored_from :: "string \<Rightarrow> account list \<Rightarrow> account list \<Rightarrow> bool" where
  "stored_from i rows rows' \<longleftrightarrow> rows' = rows \<or> (\<exists>now r. rows' = store_tokens now i r rows)"

lemma stored_from_simps [simp]:
  "stored_from i rows rows" "stored_from i rows (store_tokens now i r rows)"
  by (auto simp: stored_from_def)

lemmas flow_messages = missing_state_def session_gone_def

lemma exchange_cases:
  assumes "exchange_and_persist env input given st = (res, st')"
  obtains (refused) e where "res = Inl e" "e \<noteq> ''Authentication failed''" "fs_rows st' = fs_rows st" "fs_sessions st' = fs_sessions st"
  | (taken) code encoded c i where "state_of_input input given = Some (code, encoded)"
      "csrf_decode (oi_codecs (fe_io env)) encoded = Inr c"
      "\<exists>s \<in> set (fs_sessions st). os_id s = cs_token c \<and> os_account s = i \<and>
         os_expires s > oi_now (fe_io env) (fs_world st)"
      "fs_sessions st' = filter (\<lambda>s. os_id s \<noteq> cs_token c) (fs_sessions st)"
      "stored_from i (fs_rows st) (fs_rows st')"
      "res \<in> range Inl \<longrightarrow> fs_rows st' = fs_rows st"
proof -
  let ?io = "fe_io env"
  show thesis
  proof (cases "state_of_input input given")
    case None
    then show thesis
      using assms refused by (auto simp: exchange_and_persist_def state_of_input_def flow_messages split: option.splits)
  next
    case (Some ce)
    obtain code encoded where s: "state_of_input input given = Some (code, encoded)"
      using Some by (cases ce) auto
    note x = assms [unfolded exchange_and_persist_def state_of_input_def [symmetric] s]
    show thesis
    proof (cases "csrf_decode (oi_codecs ?io) encoded")
      case (Inl e)
      then show thesis using x refused by auto
    next
      case (Inr c)
      obtain got sessions where t: "db_take_pending (fe_session_conn env) (oi_now ?io (fs_world st))
          (cs_token c) (fs_sessions st) = (got, sessions)"
        by fastforce
      show thesis
      proof (cases got)
        case None
        then show thesis
          using x Inr t take_pending_None [of "fe_session_conn env"] refused by (auto simp: flow_messages split: if_splits)
      next
        case (Some iv)
        obtain i verifier where iv: "got = Some (i, verifier)"
          using Some by (cases iv) auto
        note tk = take_pending_Some [OF t [unfolded iv]]
        show thesis
        proof (cases "fe_pool env")
          case False
          then show thesis using x Inr refused by auto
        next
          case True
          show thesis
            by (rule taken [OF s Inr, of i])
               (use x Inr t tk iv True in \<open>auto simp: Let_def split: option.splits prod.splits sum.splits if_splits\<close>)
        qed
      qed
    qed
  qed
qed

text \<open>
  C39. Whatever is sent to the callback, tokens are stored at most for the account of a live session
  whose token is in the state, that session is gone afterwards, all other accounts are untouched,
  and a failed exchange changes no account at all.
\<close>

theorem exchange_confined:
  assumes "exchange_and_persist env input given st = (res, st')"
  shows "fs_rows st' = fs_rows st \<or>
    ((\<exists>msg. res = Inr msg) \<and>
     (\<exists>code encoded c s. state_of_input input given = Some (code, encoded) \<and>
        csrf_decode (oi_codecs (fe_io env)) encoded = Inr c \<and> s \<in> set (fs_sessions st) \<and>
        os_id s = cs_token c \<and> os_expires s > oi_now (fe_io env) (fs_world st) \<and>
        cs_token c \<notin> os_id ` set (fs_sessions st') \<and>
        filter (\<lambda>a. acct_id a \<noteq> os_account s) (fs_rows st') =
          filter (\<lambda>a. acct_id a \<noteq> os_account s) (fs_rows st)))"
  using assms
proof (cases rule: exchange_cases)
  case (taken code encoded c i)
  obtain s where s: "s \<in> set (fs_sessions st)" "os_id s = cs_token c" "os_account s = i"
    "os_expires s > oi_now (fe_io env) (fs_world st)"
    using taken(3) by blast
  have "cs_token c \<notin> os_id ` set (fs_sessions st')"
    by (auto simp: taken(4))
  moreover have "filter (\<lambda>a. acct_id a \<noteq> i) (fs_rows st') = filter (\<lambda>a. acct_id a \<noteq> i) (fs_rows st)"
    using taken(5) by (auto simp: stored_from_def store_tokens_others)
  moreover have "(\<exists>msg. res = Inr msg) \<or> fs_rows st' = fs_rows st"
    using taken(6) by (cases res) auto
  ultimately show ?thesis
    using s taken(1,2) by blast
qed simp

text \<open>A state is good for one exchange: a second one with it is refused and changes nothing.\<close>

theorem exchange_single_use:
  assumes "exchange_and_persist env input (Some encoded) st = (res, st')"
    and "res = Inr msg \<or> res = Inl ''Authentication failed''"
    and "fe_io env' = fe_io env" "fe_pool env'"
  shows "exchange_and_persist env' input' (Some encoded) st' = (Inl session_gone, st')"
  using assms(1)
proof (cases rule: exchange_cases)
  case (refused e)
  with assms(2) show ?thesis by auto
next
  case (taken code enc c i)
  have "enc = encoded"
    using taken(1) by (simp add: state_of_input_def)
  moreover have "find (\<lambda>s. os_id s = cs_token c \<and> now < os_expires s) (fs_sessions st') = None" for now
    by (auto simp: find_None_iff taken(4))
  ultimately show ?thesis
    using taken(2) assms(3,4) by (simp add: exchange_and_persist_def db_take_pending_def)
qed

section \<open>The whole flow\<close>

lemma find_append: "find P (xs @ ys) = (case find P xs of None \<Rightarrow> find P ys | Some x \<Rightarrow> Some x)"
  by (induction xs) simp_all

lemma split_once_first:
  assumes "c \<notin> set a"
  shows "split_once c (a @ c # b) = Some (a, b)"
proof -
  have "takeWhile (\<lambda>x. x \<noteq> c) (a @ c # b) = a"
    using assms by (subst takeWhile_append2) auto
  moreover have "dropWhile (\<lambda>x. x \<noteq> c) (a @ c # b) = c # b"
    using assms by (subst dropWhile_append2) auto
  ultimately show ?thesis by (simp add: split_once_def)
qed

text \<open>The session that \<open>oauth_init\<close> leaves, and the state it puts into the address.\<close>

definition init_csrf :: "'w flow_env \<Rightarrow> 'w flow_state \<Rightarrow> csrf_state" where
  "init_csrf env st =
     (case fe_random env (fs_world st) of
        ((random1, _), w) \<Rightarrow> csrf_generate random1 (oi_now (fe_io env) w))"

definition init_verifier :: "'w flow_env \<Rightarrow> 'w flow_state \<Rightarrow> string" where
  "init_verifier env st =
     (case fe_random env (fs_world st) of
        ((_, random2), w) \<Rightarrow> pk_verifier (pkce_generate (oi_codecs (fe_io env)) random2))"

lemma init_session:
  assumes "oauth_init env i st = ((200, body), st')"
  shows "\<exists>rest. fs_sessions st' = rest @
      [\<lparr>os_id = cs_token (init_csrf env st), os_account = i, os_verifier = init_verifier env st,
        os_mode = ''reauth'', os_endpoint = None, os_created = cs_timestamp (init_csrf env st),
        os_expires = i64_add (cs_timestamp (init_csrf env st)) PENDING_TTL_MS\<rparr>] \<and>
    cs_token (init_csrf env st) \<notin> os_id ` set rest"
proof -
  have "fst reply \<noteq> 200" if "login_mode env i (fs_rows st) = Inl reply" for reply
    using that by (auto simp: login_mode_def internal_error_def api_error_def Let_def
        split: if_splits option.splits provider_impl.splits)
  then obtain mode where "login_mode env i (fs_rows st) = Inr mode"
    using assms by (cases "login_mode env i (fs_rows st)") (auto simp: oauth_init_def)
  then have m: "begin_login env mode i st = ((200, body), st')"
    using assms by (simp add: oauth_init_def)
  obtain r1 r2 w where r: "fe_random env (fs_world st) = ((r1, r2), w)"
    by (metis prod.exhaust)
  show ?thesis
    using m by (auto simp: begin_login_def r Let_def generate_auth_url_def db_insert_pending_def
        init_csrf_def init_verifier_def csrf_generate_def internal_error_def api_error_def
        split: if_splits)
qed

definition healed :: "token_refresh_result \<Rightarrow> account \<Rightarrow> bool" where
  "healed r a \<longleftrightarrow>
     access_token a = Some (new_access_token r) \<and> refresh_token a = new_refresh_token r \<and>
     expires_at a = Some (new_expires_at r) \<and> rate_limited_until a = None \<and> rate_limit_status a = None"

text \<open>All rows of an account satisfy a predicate after a write, if the write brings it about.\<close>

lemma on_row_all:
  assumes "\<And>a. acct_id (f a) = acct_id a" "\<And>a. Q a \<Longrightarrow> R (f a)"
    and "\<forall>a \<in> set rows. acct_id a = i \<longrightarrow> Q a"
  shows "\<forall>a \<in> set (on_row i f rows). acct_id a = i \<longrightarrow> R a"
  using assms by (auto simp: on_row_def)

lemma store_tokens_healed: "\<forall>a \<in> set (store_tokens now i r rows). acct_id a = i \<longrightarrow> healed r a"
proof -
  let ?tokens = "\<lambda>a. access_token a = Some (new_access_token r) \<and> refresh_token a = new_refresh_token r \<and>
    expires_at a = Some (new_expires_at r)"
  let ?r1 = "update_tokens now (new_access_token r) (new_expires_at r) (Some (new_refresh_token r)) i rows"
  have 1: "\<forall>a \<in> set ?r1. acct_id a = i \<longrightarrow> ?tokens a"
    unfolding update_tokens_def option.case by (rule on_row_all [where Q = "\<lambda>a. True"]) simp_all
  have 2: "\<forall>a \<in> set (clear_limits i ?r1). acct_id a = i \<longrightarrow> healed r a"
    unfolding clear_limits_def by (rule on_row_all [OF _ _ 1]) (simp_all add: healed_def)
  have tier: "\<forall>a \<in> set (set_subscription_tier t i rows'). acct_id a = i \<longrightarrow> healed r a"
    if "\<forall>a \<in> set rows'. acct_id a = i \<longrightarrow> healed r a" for t rows'
    unfolding set_subscription_tier_def by (rule on_row_all [OF _ _ that]) (simp_all add: healed_def)
  have mail: "\<forall>a \<in> set (set_email e i rows'). acct_id a = i \<longrightarrow> healed r a"
    if "\<forall>a \<in> set rows'. acct_id a = i \<longrightarrow> healed r a" for e rows'
    unfolding set_email_def by (rule on_row_all [OF _ _ that]) (simp_all add: healed_def)
  show ?thesis
    using 2 tier [OF 2] mail [OF 2] mail [OF tier [OF 2]]
    by (simp add: store_tokens_def Let_def split: option.split)
qed


section \<open>The ways to paste a code\<close>

text \<open>Codes and states are printable and free of the separators of an address.\<close>

definition url_safe :: "string \<Rightarrow> bool" where
  "url_safe s \<longleftrightarrow> s \<noteq> [] \<and> list_all (\<lambda>c. graphic c \<and> c \<notin> set ''#&=?%'') s"

lemma unescape_plain: "CHR ''%'' \<notin> set s \<Longrightarrow> unescape_hash s = s"
  by (induction s rule: unescape_hash.induct) auto

lemma split_once_None [simp]: "c \<notin> set a \<Longrightarrow> split_once c a = None"
  by (simp add: split_once_def)

lemma url_safeD:
  assumes "url_safe s"
  shows "s \<noteq> []" "graphic (hd s)" "graphic (last s)" "CHR ''#'' \<notin> set s" "CHR ''&'' \<notin> set s"
    "CHR ''='' \<notin> set s" "CHR ''?'' \<notin> set s" "CHR ''%'' \<notin> set s"
  using assms by (auto simp: url_safe_def list_all_iff dest: bspec [of _ _ "hd s"] bspec [of _ _ "last s"])

text \<open>The address of a callback page: printable, without a query or a fragment.\<close>

definition page_address :: "string \<Rightarrow> bool" where
  "page_address base \<longleftrightarrow> starts_with base ''http'' \<and> CHR ''#'' \<notin> set base \<and> CHR ''?'' \<notin> set base"

lemma trim_from_page:
  assumes "page_address base" "url_safe st"
  shows "trim (base @ t @ st) = base @ t @ st"
proof -
  have "hd (base @ t @ st) = CHR ''h''" "base \<noteq> []"
    using assms(1) by (auto simp: page_address_def starts_with_def prefix_def)
  moreover have "graphic (CHR ''h'')"
    by (simp add: graphic_def)
  moreover have "graphic (last (base @ t @ st))" "st \<noteq> []"
    using url_safeD [OF assms(2)] by simp_all
  ultimately show ?thesis
    by (intro trim_graphic) simp_all
qed

text \<open>
  It does not matter how the user pastes the code: as \<open>code#state\<close>, as the address of the
  callback page with both parameters, or as the address with the state in its fragment.
\<close>

theorem pasted_forms_agree:
  assumes "url_safe code" "url_safe st" "\<not> starts_with code ''http''" "page_address base"
  shows "extract_code_from_input (code @ ''#'' @ st) = (code, Some st) \<and>
    extract_code_from_input (base @ ''?code='' @ code @ ''&state='' @ st) = (code, Some st) \<and>
    extract_code_from_input (base @ ''?code='' @ code @ ''#'' @ st) = (code, Some st)"
proof (intro conjI)
  note c = url_safeD [OF assms(1)] and t = url_safeD [OF assms(2)]
  note b = assms(4) [unfolded page_address_def]
  have http: "starts_with (base @ x) ''http''" for x
    using b by (auto simp: starts_with_def prefix_def)
  have nhttp: "\<not> starts_with (code @ ''#'' @ st) ''http''"
  proof
    assume "starts_with (code @ ''#'' @ st) ''http''"
    then consider "prefix ''http'' code" | us where "''http'' = code @ us" "prefix us (''#'' @ st)"
      by (auto simp: starts_with_def prefix_append)
    then show False
    proof cases
      case 1
      then show False using assms(3) by (simp add: starts_with_def)
    next
      case (2 us)
      show False
      proof (cases us)
        case Nil
        then show False using 2 assms(3) by (simp add: starts_with_def)
      next
        case (Cons x xs)
        then have "CHR ''#'' \<in> set (code @ us)" using 2(2) by simp
        then show False by (simp flip: 2(1))
      qed
    qed
  qed
  have tr: "trim (code @ ''#'' @ st) = code @ ''#'' @ st"
    using c t by (intro trim_graphic) simp_all
  show "extract_code_from_input (code @ ''#'' @ st) = (code, Some st)"
    unfolding extract_code_from_input_def Let_def tr
    using nhttp c split_once_first [of "CHR ''#''" code st] by (simp add: code_hash_state_def)
  have p1: "split_once (CHR ''='') (''code='' @ code) = Some (''code'', code)"
    using split_once_first [of "CHR ''=''" "''code''" code] by simp
  have p2: "split_once (CHR ''='') (''state='' @ st) = Some (''state'', st)"
    using split_once_first [of "CHR ''=''" "''state''" st] by simp
  have u: "unescape_hash code = code"
    using c by (simp add: unescape_plain)
  have q: "split_once (CHR ''?'') (base @ ''?'' @ x) = Some (base, x)" for x
    using b split_once_first [of "CHR ''?''" base x] by simp
  let ?q1 = "''code='' @ code @ ''&state='' @ st" and ?q2 = "''code='' @ code"
  have params1: "read_params (split_on (CHR ''&'') ?q1) (None, None) = (Some code, Some st)"
  proof -
    have "split_on (CHR ''&'') ?q1 = [''code='' @ code, ''state='' @ st]"
      using c t split_on_append [of "CHR ''&''" "''code='' @ code" "''state='' @ st"]
        split_on_no_sep [of "CHR ''&''" "''state='' @ st"] by simp
    then show ?thesis using p1 p2 u by simp
  qed
  have params2: "read_params (split_on (CHR ''&'') ?q2) (None, None) = (Some code, None)"
    using c split_on_no_sep [of "CHR ''&''" ?q2] p1 u by simp
  show "extract_code_from_input (base @ ''?code='' @ code @ ''&state='' @ st) = (code, Some st)"
    unfolding extract_code_from_input_def Let_def
    using trim_from_page [OF assms(4,2), of "''?code='' @ code @ ''&state=''"] http q [of ?q1] params1 b c t
    by simp
  have h: "split_once (CHR ''#'') (base @ ''?code='' @ code @ ''#'' @ st) = Some (base @ ''?code='' @ code, st)"
    using b c split_once_first [of "CHR ''#''" "base @ ''?code='' @ code" st] by simp
  show "extract_code_from_input (base @ ''?code='' @ code @ ''#'' @ st) = (code, Some st)"
    unfolding extract_code_from_input_def Let_def
    using trim_from_page [OF assms(4,2), of "''?code='' @ code @ ''#''"] http q [of ?q2] params2 h t
    by simp
qed

section \<open>The callback page\<close>

lemma set_replace_char: "set (replace_char c r s) \<subseteq> (set s - {c}) \<union> set r"
  by (auto simp: replace_char_def)

text \<open>Nothing that is put into the callback page opens a tag or ends an attribute.\<close>

theorem callback_page_escaped:
  "set (pg_message (render_callback_page success message)) \<inter> {CHR ''<'', CHR ''>'', CHR 34} = {}"
proof -
  have r: "x \<notin> set (replace_char c r s)" if "x \<notin> set r" "x = c \<or> x \<notin> set s" for x c r s
    using that set_replace_char [of c r s] by auto
  have "CHR ''<'' \<notin> set (html_escape s) \<and> CHR ''>'' \<notin> set (html_escape s) \<and> CHR 34 \<notin> set (html_escape s)" for s
    unfolding html_escape_def by (intro conjI r) (simp_all add: r)
  then show ?thesis
    by (auto simp: render_callback_page_def)
qed

section \<open>Concrete runs\<close>

text \<open>A provider that accepts every code, and one state that can be read.\<close>

definition demo_csrf :: csrf_state where
  "demo_csrf = csrf_generate ''ab'' 0"

definition demo_flow_codecs :: oauth_codecs where
  "demo_flow_codecs =
     \<lparr>oc_b64_encode = \<lambda>s. s, oc_b64_decode = Some, oc_sha256 = \<lambda>s. s, oc_to_text = \<lambda>j. ''s'',
      oc_from_text = \<lambda>s. if s = ''s'' then Some (csrf_json demo_csrf)
        else Some (JObject [(''access_token'', JString ''A'')]),
      oc_upper_first = \<lambda>s. s\<rparr>"

definition demo_oauth_io :: "unit oauth_io" where
  "demo_oauth_io =
     \<lparr>oi_codecs = demo_flow_codecs, oi_post = \<lambda>j w. (TokenReply 200 ''t'', w),
      oi_profile = \<lambda>t w. (SendFailed, w), oi_now = \<lambda>w. 0\<rparr>"

definition demo_flow :: "unit flow_env" where
  "demo_flow =
     \<lparr>fe_pool = True, fe_lookup_conn = True, fe_session_conn = True, fe_store_conn = True,
      fe_registry = Some create_provider_registry, fe_client = ''c'', fe_io = demo_oauth_io,
      fe_random = \<lambda>w. ((''ab'', ''v''), w)\<rparr>"

definition demo_flow_state :: "unit flow_state" where
  "demo_flow_state =
     \<lparr>fs_rows = [(fresh_account ''a'' ''anthropic'')\<lparr>rate_limited_until := Some 5\<rparr>],
      fs_sessions = [], fs_tokens = None, fs_world = ()\<rparr>"

definition demo_tokens :: token_refresh_result where
  "demo_tokens = \<lparr>new_access_token = ''A'', new_expires_at = 3600000, new_refresh_token = [],
     new_subscription_tier = None, new_email = None\<rparr>"

lemmas demo_flow_defs = demo_flow_def demo_oauth_io_def demo_flow_codecs_def demo_flow_state_def

lemma demo_oauth: "hm_get (reg_oauth create_provider_registry) ''claude-oauth'' = Some (ClaudeImpl ClaudeOAuthMode')"
  by (simp add: create_provider_registry_def Let_def reg_register_oauth_def reg_register_def
      reg_register_as_def registry_new_def impl_name_def)

lemma demo_csrf_read: "csrf_of_json (csrf_json demo_csrf) = Some demo_csrf"
  by (rule csrf_json_read) (simp add: demo_csrf_def csrf_generate_def in_i64_def i64_min_def i64_max_def)

lemma demo_decode: "csrf_decode demo_flow_codecs ''s'' = Inr demo_csrf"
  by (simp add: csrf_decode_def demo_flow_codecs_def demo_csrf_read utf8_valid_ascii is_ascii_def byte_def)

lemma demo_init_csrf: "init_csrf demo_flow demo_flow_state = demo_csrf"
  by (simp add: init_csrf_def demo_flow_defs demo_csrf_def)

lemma demo_exchange:
  "token_exchange demo_oauth_io code st verifier client () = (Inr demo_tokens, ())"
  by (simp add: token_exchange_def demo_oauth_io_def demo_flow_codecs_def parse_token_response_def
      fetch_subscription_tier_def get_str_def json_get_def as_str_def nested_str_def str_or_empty_def
      demo_tokens_def i64_add_def i64_mul_def i64_wrap_def Let_def)

lemma demo_begun:
  "\<exists>body. oauth_init demo_flow ''a'' demo_flow_state =
     ((200, body), demo_flow_state\<lparr>fs_sessions := [\<lparr>os_id = cs_token demo_csrf, os_account = ''a'',
       os_verifier = ''v'', os_mode = ''reauth'', os_endpoint = None, os_created = 0, os_expires = 600000\<rparr>]\<rparr>)"
  by (simp add: oauth_init_def login_mode_def begin_login_def demo_flow_defs demo_oauth Let_def
      generate_auth_url_def pkce_generate_def db_insert_pending_def demo_csrf_def csrf_generate_def
      PENDING_TTL_MS_def i64_add_def i64_wrap_def)

definition demo_begun_state :: "unit flow_state" where
  "demo_begun_state = snd (oauth_init demo_flow ''a'' demo_flow_state)"


lemma demo_finished:
  "\<exists>st'. exchange_and_persist demo_flow ''k'' (Some ''s'') demo_begun_state =
     (Inr ''Account re-authenticated successfully!'', st')"
proof -
  have s: "demo_begun_state = demo_flow_state\<lparr>fs_sessions := [\<lparr>os_id = cs_token demo_csrf, os_account = ''a'',
       os_verifier = ''v'', os_mode = ''reauth'', os_endpoint = None, os_created = 0, os_expires = 600000\<rparr>]\<rparr>"
    using demo_begun by (auto simp: demo_begun_state_def)
  have n: "oi_now demo_oauth_io w = 0" for w
    by (simp add: demo_oauth_io_def)
  have io: "fe_io demo_flow = demo_oauth_io" "oi_codecs demo_oauth_io = demo_flow_codecs"
    "fe_pool demo_flow" "fe_session_conn demo_flow" "fe_store_conn demo_flow"
    "fe_registry demo_flow = Some create_provider_registry"
    by (simp_all add: demo_flow_def demo_oauth_io_def)
  show ?thesis
    by (simp add: exchange_and_persist_def io demo_decode s n db_take_pending_def demo_oauth demo_exchange Let_def)
qed

theorem exchange_single_use_witness:
  "exchange_and_persist demo_flow ''k2'' (Some ''s'')
      (snd (exchange_and_persist demo_flow ''k'' (Some ''s'') demo_begun_state)) =
    (Inl session_gone, snd (exchange_and_persist demo_flow ''k'' (Some ''s'') demo_begun_state))"
proof -
  obtain st' where e: "exchange_and_persist demo_flow ''k'' (Some ''s'') demo_begun_state =
     (Inr ''Account re-authenticated successfully!'', st')"
    using demo_finished by blast
  have "fe_pool demo_flow"
    by (simp add: demo_flow_def)
  from exchange_single_use [OF e disjI1 [OF refl] refl this] show ?thesis by (simp add: e)
qed

theorem exchange_confined_witness:
  "\<exists>res st'. exchange_and_persist demo_flow ''k'' (Some ''s'') demo_begun_state = (res, st') \<and>
     (fs_rows st' = fs_rows demo_begun_state \<or>
      (\<exists>s. s \<in> set (fs_sessions demo_begun_state) \<and>
        filter (\<lambda>a. acct_id a \<noteq> os_account s) (fs_rows st') =
          filter (\<lambda>a. acct_id a \<noteq> os_account s) (fs_rows demo_begun_state)))"
proof -
  obtain res st' where e: "exchange_and_persist demo_flow ''k'' (Some ''s'') demo_begun_state = (res, st')"
    by fastforce
  from exchange_confined [OF e] e show ?thesis by blast
qed

theorem pasted_forms_agree_witness:
  "extract_code_from_input (''k1'' @ ''#'' @ ''s1'') = (''k1'', Some ''s1'') \<and>
   extract_code_from_input (''https://x/cb'' @ ''?code='' @ ''k1'' @ ''&state='' @ ''s1'') = (''k1'', Some ''s1'') \<and>
   extract_code_from_input (''https://x/cb'' @ ''?code='' @ ''k1'' @ ''#'' @ ''s1'') = (''k1'', Some ''s1'')"
  by (rule pasted_forms_agree)
     (simp_all add: url_safe_def page_address_def starts_with_def graphic_def)

end
