(* ===== verification/Spec2Isabelle.thy ===== *)
theory Spec2Isabelle
  imports Proxy_Correct OpenAI_Stream Post_Processor Auto_Refresh OAuth_Flow
begin

text \<open>
  A verification development for \<open>better-ccflare\<close>, a load-balancing proxy for the Anthropic
  Messages API (Rust). A client request is authenticated, an ordered list of accounts is
  selected, each is tried at its upstream provider until one answers, and the answer is
  streamed back while a copy feeds the usage statistics.

  \<^bold>\<open>Theories and the code they model\<close> (paths under \<open>src/crates/\<close>)

  \<^item> \<open>Prelude\<close>, \<open>F64\<close>, \<open>Text_Json\<close>: 64-bit integers with their wrap-around, byte strings and
    \<open>str\<close> operations, hash maps, stable sorting (locale \<open>comparator\<close>), binary64 arithmetic,
    UTF-8, JSON values. A call that panics is the value \<open>Panics\<close>.
  \<^item> \<open>Core_Types\<close>, \<open>Providers\<close>: \<open>core/src/types.rs\<close>, \<open>core/src/providers.rs\<close>.
  \<^item> \<open>Eligibility\<close>: \<open>core/src/account_eligibility.rs\<close>, the decision whether an account may be
    routed to.
  \<^item> \<open>Load_Balancer\<close>: \<open>load-balancer/src/lib.rs\<close>, \<open>SessionStrategy::select\<close> with affinity, automatic
    fallback, usage-aware order and round-robin.
  \<^item> \<open>Rate_Limit\<close>: \<open>core/src/rate_limit.rs\<close>, the requests per minute of a key.
  \<^item> \<open>Handler\<close>: \<open>proxy/src/handler.rs\<close>, request metadata, the filter of thinking blocks, the
    failover loop, with the contracts of an attempt (locales \<open>attempt_cost\<close>,
    \<open>attempt_invariant\<close>, \<open>attempt_answer\<close>).
  \<^item> \<open>Ttl_Cache\<close>: the promise of a cache with a time to live (locale \<open>ttl_cache\<close>), interpreted on
    the caches of \<open>Auth\<close>.
  \<^item> \<open>Crypto\<close>, \<open>Auth\<close>: \<open>proxy/src/crypto.rs\<close>, \<open>proxy/src/auth.rs\<close>, key hashes and the
    authentication middleware.
  \<^item> \<open>Token_Health\<close>, \<open>Token_Manager\<close>: \<open>proxy/src/token_health.rs\<close>,
    \<open>proxy/src/token_manager.rs\<close>, the life of access tokens.
  \<^item> \<open>Provider_Impls\<close>: \<open>providers/src/impls/\<close>, \<open>model_mapping.rs\<close>, \<open>registry.rs\<close> and the registry
    that \<open>main.rs\<close> fills.
  \<^item> \<open>Path_Validator\<close>: \<open>core/src/path_validator.rs\<close>.
  \<^item> \<open>Streaming\<close>: \<open>proxy/src/streaming.rs\<close>, the tee, the parser of server-sent events, usage
    extraction.
  \<^item> \<open>Proxy_Handler\<close>, \<open>Proxy_Correct\<close>: \<open>proxy/src/proxy.rs\<close>, the request handler that composes all
    of the above, and what it guarantees.

  \<^item> \<open>Account_Store\<close>: \<open>database/src/repositories/account.rs\<close>, the accounts table and its writes,
    refining a map from ids to accounts (locale \<open>row_update\<close>).
  \<^item> \<open>Edit_Distance\<close>: \<open>cli/src/levenshtein.rs\<close>, \<open>core/src/utils.rs\<close>, with their common
    specification (locale \<open>string_metric\<close>).
  \<^item> \<open>Account_Commands\<close>: \<open>cli/src/commands.rs\<close>, the commands on accounts.
  \<^item> \<open>F64_Bounds\<close>, \<open>XFactor\<close>, \<open>XFactor_Correct\<close>: \<open>proxy/src/xfactor/state.rs\<close>, the estimator of an
    account's capacity: Bayesian posterior, Kalman filter, rolling window. \<open>XFactor_Service\<close>:
    \<open>proxy/src/xfactor/mod.rs\<close> and \<open>database/src/repositories/xfactor.rs\<close>, the service around it.
  \<^item> \<open>Usage_Data\<close>, \<open>Usage_Polling\<close>, \<open>Usage_Correct\<close>: \<open>providers/src/usage_polling.rs\<close>, the usage data
    of the providers, what routing is told of it, the cache, and the polling service with the
    account source of \<open>main.rs\<close>.
  \<^item> \<open>OpenAI_Format\<close>, \<open>OpenAI_Stream\<close>: \<open>providers/src/impls/openai_format.rs\<close> and
    \<open>openai_stream.rs\<close>, the translation of requests and answers to the OpenAI format and back, and
    the state machine that turns a stream of completions into Anthropic events.
  \<^item> \<open>Api_Keys\<close>: \<open>database/src/repositories/api_key.rs\<close>, \<open>proxy/src/handlers/api_keys.rs\<close> and the
    key commands of \<open>cli/src/commands.rs\<close>.
  \<^item> \<open>Request_Store\<close>: \<open>database/src/repositories/request.rs\<close> and \<open>retention.rs\<close>, requests, payloads
    and their cleanup in batches. \<open>Db_Writer\<close>: the \<open>database\<close> of all tables with the foreign keys
    of \<open>schema.rs\<close>, \<open>retry.rs\<close> and the queued writer of \<open>async_writer.rs\<close>.
  \<^item> \<open>Validation\<close>: \<open>core/src/validation.rs\<close>, \<open>core/src/errors.rs\<close>, the checks of what a client sends,
    of endpoint addresses, and the errors of the whole program. \<open>Accounts_Api\<close>:
    \<open>proxy/src/accounts.rs\<close>, the account endpoints, as operations on the rows.
  \<^item> \<open>Config\<close>: \<open>core/src/config.rs\<close> and \<open>proxy/src/config_watcher.rs\<close>, the settings, their file and
    its reload. \<open>Server\<close>: \<open>proxy/src/server.rs\<close>, \<open>proxy/src/api.rs\<close>, start-up, the router, the
    maintenance endpoints and the guard against exposing a server without keys.
  \<^item> \<open>Models\<close>, \<open>Pricing\<close>, \<open>Post_Processor\<close>: \<open>core/src/models.rs\<close>, \<open>proxy/src/pricing.rs\<close> and
    \<open>proxy/src/post_processor.rs\<close>, the models, their prices with the cache of fuzzy matches, and the
    task that records finished requests and tells the estimator of them.
  \<^item> \<open>Auto_Refresh\<close>: \<open>proxy/src/auto_refresh.rs\<close>, the scheduler of the small requests that keep usage
    windows fresh. \<open>Claude_OAuth\<close>, \<open>OAuth_Flow\<close>: \<open>providers/src/impls/claude_oauth.rs\<close>,
    \<open>providers/src/pkce.rs\<close>, \<open>proxy/src/oauth.rs\<close> and \<open>database/src/repositories/oauth.rs\<close>, the token
    endpoint and the login through the browser.

  \<^bold>\<open>State and outside\<close>. A component's state is a record that its operations return updated. What
  is outside the repository or cannot be computed (upstream servers, SQLite, clocks, scrypt,
  SHA-256, JSON text, RFC 3339 dates) is a function among the parameters; where such a function
  has effects it threads a world of any type. Database updates that the proxy issues in the
  background are recorded in order, and \<open>apply_update\<close> says what each does to the rows.

  \<^bold>\<open>What is shown\<close>. Routing: the selection is a permutation of the available accounts, each of
  them eligible; affinity, fairness, one reset per session. Failover: bounded attempts and
  upstream calls, no provider called after it was limited, failed accounts taken out of routing.
  Authentication: nothing passes without credentials, restricted keys stay restricted, caches
  are bounded and never stale beyond their time to live. Privacy and integrity: only allowlisted
  headers in either direction, irrelevant headers have no effect at all, bodies pass untouched.
  Tokens: what is served is valid, failures back off. Streams: the client sees every byte, the
  statistics see a bounded prefix and do not depend on chunk boundaries. Accounts: the table
  keeps its unique columns under every write and command. Capacity: the estimator stays within
  its bounds and its window is the log of the last five hours, also across restarts. Usage: the
  cache refines the log of what was stored, routing is told the most restrictive window, a
  polling cycle is local, and exactly one kind of endpoint makes it run forever. Formats: streams
  are well formed however they are cut, tool calls survive the way there and back. Keys: a
  generated key is accepted, a revoked one is not. Database: accepted writes arrive once and in
  order, a shutdown flushes them, a cleanup deletes what is past its time and nothing else, however
  it is batched. Management: the account endpoints refine updates of the map of accounts and leave
  all other settings alone, a listing shows no credential, endpoint addresses are checked, settings
  read back as written, and the server listens beyond the host only when keys exist. Recording: every accepted request
  becomes one row, whatever order the threads run in, prices do not depend on the cache, and the
  estimator reads back what it was told. Login: a login completes, its state is good once and for
  one account. Scheduling: a window is refreshed once, in bounded requests forced onto its account.

  \<^bold>\<open>Bounds\<close>. All loops but one are structural or have a measure on the remaining input, so
  those operations are total; the loop that polls an OAuth account may run forever and is a
  \<open>partial_function\<close>, whose value then is \<open>None\<close>. No fuel is used but for the eight decoding
  rounds, which are the code's own bound.

  \<^bold>\<open>Not modelled\<close>. The dashboard, the analytics and statistics queries and the schema's
  migrations are HTML and SQL with no logic of their own. Log output is left out throughout.
  Interleavings of requests are sequences of whole operations on the shared state.
\<close>

end
